(* ===== verification/GK_Prelude.thy ===== *)
theory GK_Prelude
  imports Main "HOL-Library.Sublist" "HOL-Library.Char_ord" "HOL-Library.List_Lexorder"
    "HOL-Library.AList"
begin

text \<open>
  Shared vocabulary of the development: JavaScript strings and the string methods the web client
  uses, results that are a thrown error or a value, JavaScript truthiness, and plain objects used
  as dictionaries (insertion-ordered association lists), with the collections of simplification
  rules the component theories rely on.

  A JavaScript string is a list of characters, one per UTF-16 code unit; code units above 255 do
  not occur in the type \<open>char\<close>, so the statements are about texts of Latin-1 code units (all
  identifiers, tokens, addresses, keys and encoded blobs the program handles are ASCII).
\<close>

named_theorems js_simps \<open>rewriting of JavaScript string and object operations\<close>
named_theorems truthy_simps \<open>unfolding of JavaScript truthiness\<close>

type_synonym jstr = string

section \<open>Errors as values\<close>

text \<open>A function that may throw returns \<open>Inl\<close> of what it throws or \<open>Inr\<close> of its result.\<close>

type_synonym ('e, 'a) throws = "'e + 'a"

definition and_then :: "('e, 'a) throws \<Rightarrow> ('a \<Rightarrow> ('e, 'b) throws) \<Rightarrow> ('e, 'b) throws" where
  "and_then r k = (case r of Inl e \<Rightarrow> Inl e | Inr a \<Rightarrow> k a)"

lemma and_then_simps [simp]:
  "and_then (Inl e) k = Inl e"
  "and_then (Inr a) k = k a"
  by (simp_all add: and_then_def)

lemma and_then_Inr_iff: "and_then r k = Inr b \<longleftrightarrow> (\<exists>a. r = Inr a \<and> k a = Inr b)"
  by (cases r) simp_all

lemma and_then_Inl_iff: "and_then r k = Inl e \<longleftrightarrow> r = Inl e \<or> (\<exists>a. r = Inr a \<and> k a = Inl e)"
  by (cases r) simp_all

lemma and_then_assoc: "and_then (and_then r f) g = and_then r (\<lambda>a. and_then (f a) g)"
  by (cases r) simp_all

section \<open>Truthiness of optional strings\<close>

text \<open>\<open>undefined\<close>, \<open>null\<close> and the empty string are falsy.\<close>

definition truthy :: "jstr option \<Rightarrow> bool" where
  "truthy x = (case x of None \<Rightarrow> False | Some s \<Rightarrow> s \<noteq> [])"

lemma truthy_None [simp, truthy_simps]: "\<not> truthy None"
  by (simp add: truthy_def)

lemma truthy_Some [simp, truthy_simps]: "truthy (Some s) \<longleftrightarrow> s \<noteq> []"
  by (simp add: truthy_def)

lemma truthy_iff: "truthy x \<longleftrightarrow> (\<exists>s. x = Some s \<and> s \<noteq> [])"
  by (cases x) simp_all

text \<open>\<open>a || b\<close> on strings.\<close>

definition or_str :: "jstr \<Rightarrow> jstr \<Rightarrow> jstr" where
  "or_str a b = (if a = [] then b else a)"

text \<open>\<open>a ?? b\<close> takes \<open>b\<close> only when \<open>a\<close> is null or undefined.\<close>

definition nullish :: "'a option \<Rightarrow> 'a option \<Rightarrow> 'a option" where
  "nullish a b = (case a of None \<Rightarrow> b | Some x \<Rightarrow> Some x)"

lemma nullish_simps [simp]:
  "nullish None b = b"
  "nullish (Some x) b = Some x"
  by (simp_all add: nullish_def)

definition the_default :: "'a \<Rightarrow> 'a option \<Rightarrow> 'a" where
  "the_default d x = (case x of None \<Rightarrow> d | Some a \<Rightarrow> a)"

lemma the_default_simps [simp]: "the_default d None = d" "the_default d (Some a) = a"
  by (simp_all add: the_default_def)

section \<open>Strings\<close>

text \<open>White space and line terminators that \<open>trim\<close> and \<open>\s\<close> recognise, below code unit 256.\<close>

definition js_ws :: "char \<Rightarrow> bool" where
  "js_ws c = (c \<in> {CHR 0x09, CHR 0x0A, CHR 0x0B, CHR 0x0C, CHR 0x0D, CHR 0x20, CHR 0xA0})"

definition js_trim_start :: "jstr \<Rightarrow> jstr" where
  "js_trim_start s = dropWhile js_ws s"

definition js_trim :: "jstr \<Rightarrow> jstr" where
  "js_trim s = rev (dropWhile js_ws (rev (dropWhile js_ws s)))"

definition js_lower_char :: "char \<Rightarrow> char" where
  "js_lower_char c =
     (if CHR ''A'' \<le> c \<and> c \<le> CHR ''Z'' \<or> CHR 0xC0 \<le> c \<and> c \<le> CHR 0xDE \<and> c \<noteq> CHR 0xD7
      then char_of (of_char c + 32 :: nat) else c)"

definition js_lower :: "jstr \<Rightarrow> jstr" where
  "js_lower s = map js_lower_char s"

abbreviation starts_with :: "jstr \<Rightarrow> jstr \<Rightarrow> bool" where
  "starts_with s p \<equiv> prefix p s"

abbreviation ends_with :: "jstr \<Rightarrow> jstr \<Rightarrow> bool" where
  "ends_with s p \<equiv> suffix p s"

abbreviation js_includes :: "jstr \<Rightarrow> jstr \<Rightarrow> bool" where
  "js_includes s p \<equiv> sublist p s"

text \<open>\<open>indexOf\<close> and \<open>lastIndexOf\<close>, with \<open>None\<close> for the result -1.\<close>

fun index_of :: "jstr \<Rightarrow> jstr \<Rightarrow> nat option" where
  "index_of p [] = (if p = [] then Some 0 else None)"
| "index_of p (c # s) =
     (if prefix p (c # s) then Some 0 else map_option Suc (index_of p s))"

fun last_index_of :: "jstr \<Rightarrow> jstr \<Rightarrow> nat option" where
  "last_index_of p [] = (if p = [] then Some 0 else None)"
| "last_index_of p (c # s) =
     (case last_index_of p s of
        Some i \<Rightarrow> Some (Suc i)
      | None \<Rightarrow> if prefix p (c # s) then Some 0 else None)"

text \<open>Dropping every trailing occurrence of a character, as \<open>replace(/c+$/, "")\<close> does.\<close>

definition strip_trailing :: "char \<Rightarrow> jstr \<Rightarrow> jstr" where
  "strip_trailing c s = rev (dropWhile (\<lambda>x. x = c) (rev s))"

text \<open>Splitting at a one-character separator.\<close>

fun split_at :: "char \<Rightarrow> jstr \<Rightarrow> jstr list" where
  "split_at c [] = [[]]"
| "split_at c (x # s) =
     (if x = c then [] # split_at c s
      else (case split_at c s of [] \<Rightarrow> [[x]] | w # ws \<Rightarrow> (x # w) # ws))"

text \<open>Decimal rendering of a number in a template literal.\<close>

fun show_nat :: "nat \<Rightarrow> jstr" where
  "show_nat n =
     (if n < 10 then [char_of (48 + n)] else show_nat (n div 10) @ [char_of (48 + n mod 10)])"

declare show_nat.simps [simp del]

definition show_int :: "int \<Rightarrow> jstr" where
  "show_int i = (if i < 0 then CHR ''-'' # show_nat (nat (- i)) else show_nat (nat i))"

definition js_digit :: "char \<Rightarrow> bool" where
  "js_digit c = (CHR ''0'' \<le> c \<and> c \<le> CHR ''9'')"

lemma js_trim_Nil [simp, js_simps]: "js_trim [] = []"
  by (simp add: js_trim_def)

lemma dropWhile_eq_self: "(s = [] \<or> \<not> P (hd s)) \<Longrightarrow> dropWhile P s = s"
  by (cases s) auto

lemma js_trim_idem [simp, js_simps]: "js_trim (js_trim s) = js_trim s"
proof -
  let ?a = "dropWhile js_ws s"
  let ?b = "dropWhile js_ws (rev ?a)"
  have hd_b: "?b = [] \<or> \<not> js_ws (hd ?b)"
    using hd_dropWhile by blast
  have "rev ?b = [] \<or> \<not> js_ws (hd (rev ?b))"
  proof (cases "?b = []")
    case False
    have "suffix ?b (rev ?a)" by (rule suffix_dropWhile)
    then have "prefix (rev ?b) ?a" by (simp add: suffix_to_prefix)
    with False have "hd (rev ?b) = hd ?a"
      by (metis Nil_is_rev_conv hd_append2 prefix_def)
    moreover have "?a \<noteq> []" using False by (metis dropWhile.simps(1) rev.simps(1))
    ultimately show ?thesis using hd_dropWhile by metis
  qed simp
  then have "dropWhile js_ws (rev ?b) = rev ?b" by (rule dropWhile_eq_self)
  moreover from hd_b have "dropWhile js_ws ?b = ?b" by (rule dropWhile_eq_self)
  ultimately show ?thesis by (simp add: js_trim_def)
qed

lemma js_trim_infix: "\<exists>a b. s = a @ js_trim s @ b \<and> list_all js_ws a \<and> list_all js_ws b"
proof -
  let ?t = "rev (dropWhile js_ws s)"
  have s: "s = takeWhile js_ws s @ dropWhile js_ws s" by simp
  have "?t = takeWhile js_ws ?t @ dropWhile js_ws ?t" by simp
  then have "dropWhile js_ws s = rev (dropWhile js_ws ?t) @ rev (takeWhile js_ws ?t)"
    by (metis rev_append rev_rev_ident)
  with s have "s = takeWhile js_ws s @ js_trim s @ rev (takeWhile js_ws ?t)"
    by (simp add: js_trim_def)
  moreover have "list_all js_ws (takeWhile js_ws s)"
    "list_all js_ws (rev (takeWhile js_ws ?t))"
    by (auto simp: list_all_iff dest: set_takeWhileD)
  ultimately show ?thesis by blast
qed

lemma js_trim_set: "set (js_trim s) \<subseteq> set s"
proof -
  obtain a b where "s = a @ js_trim s @ b" using js_trim_infix [of s] by blast
  then show ?thesis by (metis Un_iff set_append subsetI)
qed

lemma length_js_lower [simp, js_simps]: "length (js_lower s) = length s"
  by (simp add: js_lower_def)

lemma js_lower_Nil_iff [simp, js_simps]: "js_lower s = [] \<longleftrightarrow> s = []"
  by (simp add: js_lower_def)

lemma index_of_Some: "index_of p s = Some i \<Longrightarrow> i \<le> length s \<and> prefix p (drop i s)"
  by (induction p s arbitrary: i rule: index_of.induct) (auto split: if_splits)

lemma index_of_None_iff: "index_of p s = None \<longleftrightarrow> \<not> sublist p s"
  by (induction p s rule: index_of.induct) (auto simp: sublist_Cons_right)

lemma index_of_char_decomp:
  "index_of [c] s = Some i \<Longrightarrow> s = take i s @ c # drop (Suc i) s \<and> c \<notin> set (take i s)"
  by (induction "[c]" s arbitrary: i rule: index_of.induct) (auto split: if_splits)

lemma split_at_nonempty [simp]: "split_at c s \<noteq> []"
  by (induction s) (auto split: list.splits)

lemma split_at_no_sep: "w \<in> set (split_at c s) \<Longrightarrow> c \<notin> set w"
  by (induction s arbitrary: w) (auto split: if_splits list.splits)

lemma strip_trailing_ends: "strip_trailing c s = [] \<or> last (strip_trailing c s) \<noteq> c"
proof (cases "dropWhile (\<lambda>x. x = c) (rev s) = []")
  case False
  then show ?thesis
    using hd_dropWhile [OF False] by (simp add: strip_trailing_def last_rev)
qed (simp add: strip_trailing_def)

lemma strip_trailing_idem [simp, js_simps]:
  "strip_trailing c (strip_trailing c s) = strip_trailing c s"
proof -
  let ?d = "dropWhile (\<lambda>x. x = c) (rev s)"
  have "?d = [] \<or> \<not> (\<lambda>x. x = c) (hd ?d)"
    using hd_dropWhile [of "\<lambda>x. x = c" "rev s"] by blast
  then have "dropWhile (\<lambda>x. x = c) ?d = ?d" by (rule dropWhile_eq_self)
  then show ?thesis by (simp add: strip_trailing_def)
qed

lemma map_of_rev_distinct: "distinct (map fst xs) \<Longrightarrow> map_of (rev xs) = map_of xs"
proof (induction xs)
  case (Cons p xs)
  obtain k v where p: "p = (k, v)" by (cases p)
  from Cons have *: "map_of (rev xs) = map_of xs" and "k \<notin> fst ` set xs" by (auto simp: p)
  then have "map_of xs k = None" by (simp add: map_of_eq_None_iff)
  with * show ?case by (auto simp: p map_add_def fun_eq_iff split: option.split)
qed simp

fun join :: "jstr \<Rightarrow> jstr list \<Rightarrow> jstr" where
  "join sep [] = []"
| "join sep [w] = w"
| "join sep (w # v # ws) = w @ sep @ join sep (v # ws)"

text \<open>\<open>s.padStart(2, "0")\<close>\<close>

definition pad2 :: "jstr \<Rightarrow> jstr" where
  "pad2 s = replicate (2 - length s) CHR ''0'' @ s"

section \<open>Decimal numerals\<close>

definition digits :: "jstr \<Rightarrow> bool" where
  "digits s = (s \<noteq> [] \<and> list_all js_digit s)"

definition digit_val :: "char \<Rightarrow> nat" where
  "digit_val c = of_char c - 48"

definition nat_of_digits :: "jstr \<Rightarrow> nat" where
  "nat_of_digits s = foldl (\<lambda>n c. 10 * n + digit_val c) 0 s"

lemma char_of_digit: "n < 10 \<Longrightarrow> js_digit (char_of (48 + n)) \<and> digit_val (char_of (48 + n)) = n"
  by (simp add: js_digit_def digit_val_def less_eq_char_def)

lemma show_nat_digits: "digits (show_nat n)"
proof (induction n rule: show_nat.induct)
  case (1 n)
  show ?case
  proof (cases "n < 10")
    case True
    then show ?thesis by (simp add: show_nat.simps [of n] digits_def char_of_digit)
  next
    case False
    with 1 char_of_digit [of "n mod 10"] show ?thesis
      by (simp add: show_nat.simps [of n] digits_def)
  qed
qed

lemma nat_of_show_nat [simp]: "nat_of_digits (show_nat n) = n"
proof (induction n rule: show_nat.induct)
  case (1 n)
  show ?case
  proof (cases "n < 10")
    case True
    then show ?thesis by (simp add: show_nat.simps [of n] nat_of_digits_def char_of_digit)
  next
    case False
    with 1 char_of_digit [of "n mod 10"] show ?thesis
      by (simp add: show_nat.simps [of n] nat_of_digits_def)
  qed
qed

lemma show_nat_inj: "show_nat m = show_nat n \<Longrightarrow> m = n"
  using nat_of_show_nat by metis

lemma nat_of_digits_zero: "nat_of_digits (CHR ''0'' # s) = nat_of_digits s"
  by (simp add: nat_of_digits_def digit_val_def)

lemma digits_no: "digits s \<Longrightarrow> \<not> js_digit c \<Longrightarrow> c \<notin> set s"
  by (auto simp: digits_def list_all_iff)

lemma show_nat_nonempty [simp]: "show_nat n \<noteq> []"
  using show_nat_digits [of n] by (simp add: digits_def)

lemma not_digits [simp]:
  "\<not> js_digit CHR '' ''" "\<not> js_digit CHR ''.''" "\<not> js_digit CHR ''-''"
  by (simp_all add: js_digit_def less_eq_char_def)

lemma digit_not_ws: "js_digit c \<Longrightarrow> \<not> js_ws c"
  by (auto simp: js_digit_def js_ws_def less_eq_char_def)

lemma digits_pad2: "digits s \<Longrightarrow> digits (pad2 s)"
  by (auto simp: pad2_def digits_def js_digit_def list_all_iff less_eq_char_def)

lemma nat_of_pad2 [simp]: "nat_of_digits (pad2 s) = nat_of_digits s"
proof -
  have "nat_of_digits (replicate k CHR ''0'' @ s) = nat_of_digits s" for k
    by (induction k) (simp_all add: nat_of_digits_zero)
  then show ?thesis by (simp add: pad2_def)
qed

lemma split_at_append: "c \<notin> set w \<Longrightarrow> split_at c (w @ c # s) = w # split_at c s"
  by (induction w) auto

lemma split_at_whole: "c \<notin> set w \<Longrightarrow> split_at c w = [w]"
  by (induction w) auto

lemma split_at_join:
  "ws \<noteq> [] \<Longrightarrow> \<forall>w\<in>set ws. c \<notin> set w \<Longrightarrow> split_at c (join [c] ws) = ws"
  by (induction "[c]" ws rule: join.induct) (simp_all add: split_at_append split_at_whole)

lemma js_trim_id:
  assumes "s = [] \<or> \<not> js_ws (hd s) \<and> \<not> js_ws (last s)"
  shows "js_trim s = s"
proof -
  have "dropWhile js_ws s = s" using assms by (intro dropWhile_eq_self) auto
  moreover have "dropWhile js_ws (rev s) = rev s"
    using assms by (intro dropWhile_eq_self) (auto simp: hd_rev)
  ultimately show ?thesis by (simp add: js_trim_def)
qed

end
