(* ===== verification/Js_Regex.thy ===== *)
theory Js_Regex
  imports GK_Prelude
begin

text \<open>
  Regular expressions. Every pattern of the web client is a plain regular expression (no
  backreference, no lookaround), so \<open>test\<close> asks whether the text, or some part of it, is in the
  pattern's language. A pattern is a value of \<open>rx\<close>; \<open>rx_match\<close> decides membership by
  derivatives and is proved to agree with the language. The \<open>i\<close> flag is a character class
  closed under ASCII case.
\<close>

section \<open>Patterns and their languages\<close>

datatype rx =
    RNone
  | REps
  | RCls "char \<Rightarrow> bool"
  | RSeq rx rx
  | RAlt rx rx
  | RStar rx

inductive in_rx :: "jstr \<Rightarrow> rx \<Rightarrow> bool" where
  in_eps: "in_rx [] REps"
| in_cls: "P c \<Longrightarrow> in_rx [c] (RCls P)"
| in_seq: "in_rx s r \<Longrightarrow> in_rx t q \<Longrightarrow> in_rx (s @ t) (RSeq r q)"
| in_altL: "in_rx s r \<Longrightarrow> in_rx s (RAlt r q)"
| in_altR: "in_rx s q \<Longrightarrow> in_rx s (RAlt r q)"
| in_star0: "in_rx [] (RStar r)"
| in_starS: "in_rx s r \<Longrightarrow> in_rx t (RStar r) \<Longrightarrow> in_rx (s @ t) (RStar r)"

inductive_simps in_rx_simps [simp]:
  "in_rx s RNone" "in_rx s REps" "in_rx s (RCls P)" "in_rx s (RAlt r q)"

inductive_simps in_rx_seq: "in_rx s (RSeq r q)"

inductive_cases in_starE: "in_rx s (RStar r)"

section \<open>Matching by derivatives\<close>

fun nullable :: "rx \<Rightarrow> bool" where
  "nullable RNone = False"
| "nullable REps = True"
| "nullable (RCls P) = False"
| "nullable (RSeq r q) = (nullable r \<and> nullable q)"
| "nullable (RAlt r q) = (nullable r \<or> nullable q)"
| "nullable (RStar r) = True"

fun mk_seq :: "rx \<Rightarrow> rx \<Rightarrow> rx" where
  "mk_seq RNone q = RNone"
| "mk_seq REps q = q"
| "mk_seq r q = RSeq r q"

fun mk_alt :: "rx \<Rightarrow> rx \<Rightarrow> rx" where
  "mk_alt RNone q = q"
| "mk_alt r RNone = r"
| "mk_alt r q = RAlt r q"

fun deriv :: "char \<Rightarrow> rx \<Rightarrow> rx" where
  "deriv c RNone = RNone"
| "deriv c REps = RNone"
| "deriv c (RCls P) = (if P c then REps else RNone)"
| "deriv c (RSeq r q) =
     (if nullable r then mk_alt (mk_seq (deriv c r) q) (deriv c q) else mk_seq (deriv c r) q)"
| "deriv c (RAlt r q) = mk_alt (deriv c r) (deriv c q)"
| "deriv c (RStar r) = mk_seq (deriv c r) (RStar r)"

fun rx_match :: "rx \<Rightarrow> jstr \<Rightarrow> bool" where
  "rx_match r [] = nullable r"
| "rx_match r (c # s) = rx_match (deriv c r) s"

lemma nullable_iff: "nullable r \<longleftrightarrow> in_rx [] r"
  by (induction r) (auto simp: in_rx_seq intro: in_rx.intros)

lemma in_mk_seq [simp]: "in_rx s (mk_seq r q) \<longleftrightarrow> in_rx s (RSeq r q)"
  by (cases r) (auto simp: in_rx_seq)

lemma in_mk_alt [simp]: "in_rx s (mk_alt r q) \<longleftrightarrow> in_rx s r \<or> in_rx s q"
  by (cases "(r, q)" rule: mk_alt.cases) auto

lemma in_seq_Cons:
  "in_rx (c # s) (RSeq r q) \<longleftrightarrow>
     (\<exists>t u. s = t @ u \<and> in_rx (c # t) r \<and> in_rx u q) \<or> in_rx [] r \<and> in_rx (c # s) q"
  by (auto simp: in_rx_seq Cons_eq_append_conv)

lemma in_star_Cons:
  "in_rx (c # s) (RStar r) \<longleftrightarrow> (\<exists>t u. s = t @ u \<and> in_rx (c # t) r \<and> in_rx u (RStar r))"
proof
  have "in_rx w q \<Longrightarrow> q = RStar r \<Longrightarrow> w = c # s \<Longrightarrow>
      \<exists>t u. s = t @ u \<and> in_rx (c # t) r \<and> in_rx u (RStar r)" for w q
    by (induction rule: in_rx.induct) (auto simp: append_eq_Cons_conv)
  then show "in_rx (c # s) (RStar r) \<Longrightarrow>
      \<exists>t u. s = t @ u \<and> in_rx (c # t) r \<and> in_rx u (RStar r)"
    by blast
next
  assume "\<exists>t u. s = t @ u \<and> in_rx (c # t) r \<and> in_rx u (RStar r)"
  then show "in_rx (c # s) (RStar r)"
    using in_starS [of "c # _" r] by fastforce
qed

lemma deriv_iff: "in_rx s (deriv c r) \<longleftrightarrow> in_rx (c # s) r"
proof (induction r arbitrary: s)
  case (RSeq r q)
  then show ?case
    by (auto simp: in_seq_Cons nullable_iff) (auto simp: in_rx_seq)
next
  case (RStar r)
  then show ?case by (auto simp: in_star_Cons in_rx_seq)
qed auto

theorem rx_match_iff: "rx_match r s \<longleftrightarrow> in_rx s r"
  by (induction s arbitrary: r) (auto simp: nullable_iff deriv_iff)

section \<open>Pattern constructors\<close>

definition rchar :: "char \<Rightarrow> rx" where
  "rchar c = RCls (\<lambda>x. x = c)"

fun rseqs :: "rx list \<Rightarrow> rx" where
  "rseqs [] = REps"
| "rseqs [r] = r"
| "rseqs (r # rs) = RSeq r (rseqs rs)"

fun ralts :: "rx list \<Rightarrow> rx" where
  "ralts [] = RNone"
| "ralts [r] = r"
| "ralts (r # rs) = RAlt r (ralts rs)"

definition rlit :: "jstr \<Rightarrow> rx" where
  "rlit s = rseqs (map rchar s)"

definition rplus :: "rx \<Rightarrow> rx" where
  "rplus r = RSeq r (RStar r)"

definition ropt :: "rx \<Rightarrow> rx" where
  "ropt r = RAlt r REps"

fun rrep :: "nat \<Rightarrow> rx \<Rightarrow> rx" where
  "rrep 0 r = REps"
| "rrep (Suc n) r = RSeq r (rrep n r)"

text \<open>\<open>r{n,}\<close> and \<open>r{0,n}\<close>.\<close>

definition rmin :: "nat \<Rightarrow> rx \<Rightarrow> rx" where
  "rmin n r = RSeq (rrep n r) (RStar r)"

fun rupto :: "nat \<Rightarrow> rx \<Rightarrow> rx" where
  "rupto 0 r = REps"
| "rupto (Suc n) r = ropt (RSeq r (rupto n r))"

definition in_range :: "char \<Rightarrow> char \<Rightarrow> char \<Rightarrow> bool" where
  "in_range a b c = (a \<le> c \<and> c \<le> b)"

text \<open>\<open>.\<close> is any character but a line terminator; \<open>\<s>\<close> is \<open>js_ws\<close>; \<open>\<d>\<close> is \<open>js_digit\<close>.\<close>

definition rdot :: rx where
  "rdot = RCls (\<lambda>c. c \<noteq> CHR 0x0A \<and> c \<noteq> CHR 0x0D)"

definition rany :: rx where
  "rany = RCls (\<lambda>c. True)"

text \<open>The \<open>i\<close> flag: a character is compared up to ASCII case.\<close>

definition ascii_fold :: "char \<Rightarrow> char" where
  "ascii_fold c = (if CHR ''A'' \<le> c \<and> c \<le> CHR ''Z'' then char_of (of_char c + 32 :: nat) else c)"

definition rchar_i :: "char \<Rightarrow> rx" where
  "rchar_i c = RCls (\<lambda>x. ascii_fold x = ascii_fold c)"

definition rlit_i :: "jstr \<Rightarrow> rx" where
  "rlit_i s = rseqs (map rchar_i s)"

definition rcls_i :: "(char \<Rightarrow> bool) \<Rightarrow> rx" where
  "rcls_i P = RCls (\<lambda>x. P x \<or> P (ascii_fold x)
     \<or> CHR ''a'' \<le> x \<and> x \<le> CHR ''z'' \<and> P (char_of (of_char x - 32 :: nat)))"

text \<open>\<open>/^r$/.test(s)\<close>, \<open>/^r/.test(s)\<close> and \<open>/r/.test(s)\<close>.\<close>

definition test_full :: "rx \<Rightarrow> jstr \<Rightarrow> bool" where
  "test_full r s = rx_match r s"

definition test_start :: "rx \<Rightarrow> jstr \<Rightarrow> bool" where
  "test_start r s = rx_match (RSeq r (RStar rany)) s"

definition test_search :: "rx \<Rightarrow> jstr \<Rightarrow> bool" where
  "test_search r s = rx_match (RSeq (RStar rany) (RSeq r (RStar rany))) s"

section \<open>Laws of the constructors\<close>

lemma in_rany_star [simp]: "in_rx s (RStar rany)"
proof (induction s)
  case (Cons c s)
  have "in_rx [c] rany" by (simp add: rany_def)
  from in_starS [OF this Cons.IH] show ?case by simp
qed (rule in_star0)

lemma in_rseqs_Cons: "in_rx s (rseqs (r # rs)) \<longleftrightarrow> in_rx s (RSeq r (rseqs rs))"
  by (cases rs) (auto simp: in_rx_seq)

lemma in_ralts [simp]: "in_rx s (ralts rs) \<longleftrightarrow> (\<exists>r\<in>set rs. in_rx s r)"
  by (induction rs rule: ralts.induct) auto

lemma in_rchar [simp]: "in_rx s (rchar c) \<longleftrightarrow> s = [c]"
  by (auto simp: rchar_def)

lemma in_rlit [simp]: "in_rx s (rlit w) \<longleftrightarrow> s = w"
  unfolding rlit_def
  by (induction w arbitrary: s) (auto simp: in_rseqs_Cons in_rx_seq simp del: rseqs.simps(2,3))

lemma in_star_cls [simp]: "in_rx s (RStar (RCls P)) \<longleftrightarrow> list_all P s"
proof (induction s)
  case Nil
  show ?case by (simp add: in_star0)
next
  case (Cons c s)
  then show ?case by (auto simp: in_star_Cons)
qed

lemma in_seq_cls: "in_rx s (RSeq (RCls P) q) \<longleftrightarrow> (\<exists>c t. s = c # t \<and> P c \<and> in_rx t q)"
  by (auto simp: in_rx_seq) (metis append_Cons append_Nil)

lemma in_seq_rchar: "in_rx s (RSeq (rchar c) q) \<longleftrightarrow> (\<exists>t. s = c # t \<and> in_rx t q)"
  by (auto simp: rchar_def in_seq_cls)

lemma in_rplus_cls [simp]: "in_rx s (rplus (RCls P)) \<longleftrightarrow> s \<noteq> [] \<and> list_all P s"
  by (cases s) (auto simp: rplus_def in_seq_cls)

lemma in_ropt [simp]: "in_rx s (ropt r) \<longleftrightarrow> s = [] \<or> in_rx s r"
  by (auto simp: ropt_def)

lemma in_rrep_cls [simp]: "in_rx s (rrep n (RCls P)) \<longleftrightarrow> length s = n \<and> list_all P s"
proof (induction n arbitrary: s)
  case (Suc n)
  then show ?case by (cases s) (auto simp: in_seq_cls)
qed auto

lemma in_rmin_cls [simp]: "in_rx s (rmin n (RCls P)) \<longleftrightarrow> n \<le> length s \<and> list_all P s"
proof
  assume "n \<le> length s \<and> list_all P s"
  then have "in_rx (take n s @ drop n s) (rmin n (RCls P))"
    unfolding rmin_def
    by (intro in_seq) (auto simp: list_all_iff dest: in_set_takeD in_set_dropD)
  then show "in_rx s (rmin n (RCls P))" by simp
qed (auto simp: rmin_def in_rx_seq)

lemma in_rlit_i: "in_rx s (rlit_i w) \<longleftrightarrow> map ascii_fold s = map ascii_fold w"
  unfolding rlit_i_def
proof (induction w arbitrary: s)
  case (Cons c w)
  then show ?case
    by (cases s) (auto simp: in_rseqs_Cons rchar_i_def in_seq_cls simp del: rseqs.simps(2,3))
qed simp

lemma in_rchar_i: "in_rx s (rchar_i c) \<longleftrightarrow> (\<exists>x. s = [x] \<and> ascii_fold x = ascii_fold c)"
  by (auto simp: rchar_i_def)

lemma test_search_iff:
  "test_search r s \<longleftrightarrow> (\<exists>a m b. s = a @ m @ b \<and> in_rx m r)"
  by (auto simp: test_search_def rx_match_iff in_rx_seq)

lemma test_start_iff: "test_start r s \<longleftrightarrow> (\<exists>m b. s = m @ b \<and> in_rx m r)"
  by (auto simp: test_start_def rx_match_iff in_rx_seq)

lemma test_full_iff: "test_full r s \<longleftrightarrow> in_rx s r"
  by (simp add: test_full_def rx_match_iff)

lemma test_search_lit: "test_search (rlit w) s \<longleftrightarrow> js_includes s w"
  by (auto simp: test_search_iff sublist_def)

lemma test_start_lit: "test_start (rlit w) s \<longleftrightarrow> starts_with s w"
  by (auto simp: test_start_iff prefix_def)

lemma test_search_alt: "test_search (RAlt r q) s \<longleftrightarrow> test_search r s \<or> test_search q s"
  unfolding test_search_iff by (simp add: conj_disj_distribL ex_disj_distrib)

lemma test_search_ralts: "test_search (ralts rs) s \<longleftrightarrow> (\<exists>r\<in>set rs. test_search r s)"
  unfolding test_search_iff by (simp, blast)

lemma test_start_alt: "test_start (RAlt r q) s \<longleftrightarrow> test_start r s \<or> test_start q s"
  unfolding test_start_iff by (simp add: conj_disj_distribL ex_disj_distrib)

lemma test_start_ralts: "test_start (ralts rs) s \<longleftrightarrow> (\<exists>r\<in>set rs. test_start r s)"
  unfolding test_start_iff by (simp, blast)

lemmas rx_tests = test_full_iff test_start_iff test_search_iff

section \<open>The e-mail shape\<close>

text \<open>\<open>/^.+@.+\..+$/\<close>, used by the sign-in form, the setup gates and the vault store.\<close>

definition email_rx :: rx where
  "email_rx = rseqs [rplus rdot, rchar CHR ''@'', rplus rdot, rchar CHR ''.'', rplus rdot]"

definition email_shaped :: "jstr \<Rightarrow> bool" where
  "email_shaped s = test_full email_rx s"

lemma email_shaped_iff:
  "email_shaped s \<longleftrightarrow>
     (\<exists>u d t. s = u @ ''@'' @ d @ ''.'' @ t \<and> u \<noteq> [] \<and> d \<noteq> [] \<and> t \<noteq> []
        \<and> CHR 0x0A \<notin> set s \<and> CHR 0x0D \<notin> set s)"
proof
  assume "email_shaped s"
  then have m: "in_rx s (RSeq (rplus rdot) (RSeq (rchar CHR ''@'')
      (RSeq (rplus rdot) (RSeq (rchar CHR ''.'') (rplus rdot)))))"
    by (simp add: email_shaped_def email_rx_def test_full_iff)
  obtain u v where "s = u @ v" and u: "in_rx u (rplus rdot)"
    and v: "in_rx v (RSeq (rchar CHR ''@'') (RSeq (rplus rdot) (RSeq (rchar CHR ''.'') (rplus rdot))))"
    using m unfolding in_rx_seq [of s] by blast
  moreover obtain v' where "v = CHR ''@'' # v'"
    and v': "in_rx v' (RSeq (rplus rdot) (RSeq (rchar CHR ''.'') (rplus rdot)))"
    using v unfolding in_seq_rchar [of v] by blast
  moreover obtain d w where "v' = d @ w" and d: "in_rx d (rplus rdot)"
    and w: "in_rx w (RSeq (rchar CHR ''.'') (rplus rdot))"
    using v' unfolding in_rx_seq [of v'] by blast
  moreover obtain t where "w = CHR ''.'' # t" and t: "in_rx t (rplus rdot)"
    using w unfolding in_seq_rchar [of w] by blast
  moreover have "x \<noteq> [] \<and> CHR 0x0A \<notin> set x \<and> CHR 0x0D \<notin> set x" if "in_rx x (rplus rdot)" for x
    using that by (auto simp: rdot_def list_all_iff)
  ultimately have "s = u @ ''@'' @ d @ ''.'' @ t \<and> u \<noteq> [] \<and> d \<noteq> [] \<and> t \<noteq> []
      \<and> CHR 0x0A \<notin> set s \<and> CHR 0x0D \<notin> set s" using u d t by simp
  then show "\<exists>u d t. s = u @ ''@'' @ d @ ''.'' @ t \<and> u \<noteq> [] \<and> d \<noteq> [] \<and> t \<noteq> []
      \<and> CHR 0x0A \<notin> set s \<and> CHR 0x0D \<notin> set s" by blast
next
  assume "\<exists>u d t. s = u @ ''@'' @ d @ ''.'' @ t \<and> u \<noteq> [] \<and> d \<noteq> [] \<and> t \<noteq> []
        \<and> CHR 0x0A \<notin> set s \<and> CHR 0x0D \<notin> set s"
  then obtain u d t where s: "s = u @ ''@'' @ d @ ''.'' @ t"
    and ne: "u \<noteq> []" "d \<noteq> []" "t \<noteq> []"
    and nl: "CHR 0x0A \<notin> set s" "CHR 0x0D \<notin> set s" by blast
  have "in_rx w (rplus rdot)" if "w \<noteq> []" "set w \<subseteq> set s" for w
    using that nl by (auto simp: rdot_def list_all_iff)
  then have "in_rx u (rplus rdot)" "in_rx d (rplus rdot)" "in_rx t (rplus rdot)"
    using ne s by auto
  then have "in_rx (u @ [CHR ''@''] @ d @ [CHR ''.''] @ t) email_rx"
    unfolding email_rx_def rseqs.simps by (intro in_seq) simp_all
  with s show "email_shaped s" by (simp add: email_shaped_def test_full_iff)
qed

lemma email_shaped_nonempty: "email_shaped s \<Longrightarrow> s \<noteq> []"
  by (auto simp: email_shaped_iff)

end
