(* ===== verification/Js_Object.thy ===== *)
theory Js_Object
  imports GK_Prelude "HOL-Library.Sorting_Algorithms"
begin

text \<open>
  Plain objects used as dictionaries, and the browser's two storage areas. An object keeps its
  keys in insertion order (the keys here are vault identifiers, never array indices), so it is an
  association list: assigning an existing key keeps its place, a new key goes to the end. The
  interface \<open>dictionary\<close> states what the stores rely on; it is interpreted on the
  association-list operations.
\<close>

section \<open>Objects\<close>

type_synonym 'v obj = "(jstr \<times> 'v) list"

definition obj_get :: "'v obj \<Rightarrow> jstr \<Rightarrow> 'v option" where
  "obj_get m k = map_of m k"

definition obj_set :: "jstr \<Rightarrow> 'v \<Rightarrow> 'v obj \<Rightarrow> 'v obj" where
  "obj_set k v m = AList.update k v m"

definition obj_del :: "jstr \<Rightarrow> 'v obj \<Rightarrow> 'v obj" where
  "obj_del k m = AList.delete k m"

definition obj_has :: "'v obj \<Rightarrow> jstr \<Rightarrow> bool" where
  "obj_has m k = (k \<in> set (map fst m))"

definition obj_keys :: "'v obj \<Rightarrow> jstr list" where
  "obj_keys m = map fst m"

definition obj_values :: "'v obj \<Rightarrow> 'v list" where
  "obj_values m = map snd m"

definition obj_ok :: "'v obj \<Rightarrow> bool" where
  "obj_ok m = distinct (map fst m)"

section \<open>The dictionary interface\<close>

locale dictionary =
  fixes get :: "'m \<Rightarrow> 'k \<Rightarrow> 'v option"
    and put :: "'k \<Rightarrow> 'v \<Rightarrow> 'm \<Rightarrow> 'm"
    and del :: "'k \<Rightarrow> 'm \<Rightarrow> 'm"
    and keys :: "'m \<Rightarrow> 'k list"
    and ok :: "'m \<Rightarrow> bool"
  assumes get_put: "get (put k v m) k' = (if k' = k then Some v else get m k')"
    and get_del: "ok m \<Longrightarrow> get (del k m) k' = (if k' = k then None else get m k')"
    and ok_put: "ok m \<Longrightarrow> ok (put k v m)"
    and ok_del: "ok m \<Longrightarrow> ok (del k m)"
    and keys_get: "k \<in> set (keys m) \<longleftrightarrow> get m k \<noteq> None"
    and keys_put: "keys (put k v m) = (if k \<in> set (keys m) then keys m else keys m @ [k])"
    and keys_del: "keys (del k m) = filter (\<lambda>x. x \<noteq> k) (keys m)"
begin

lemma get_put_same [simp]: "get (put k v m) k = Some v"
  by (simp add: get_put)

lemma get_put_other [simp]: "k' \<noteq> k \<Longrightarrow> get (put k v m) k' = get m k'"
  by (simp add: get_put)

lemma ok_put_all: "ok m \<Longrightarrow> ok (fold (\<lambda>(k, v). put k v) kvs m)"
  by (induction kvs arbitrary: m) (auto simp: ok_put)

text \<open>A loop of assignments: the last one to a key wins, other keys are untouched.\<close>

lemma get_put_all:
  "get (fold (\<lambda>(k, v). put k v) kvs m) k' =
     (case map_of (rev kvs) k' of Some v \<Rightarrow> Some v | None \<Rightarrow> get m k')"
proof (induction kvs arbitrary: m)
  case (Cons p kvs)
  obtain k v where p: "p = (k, v)" by (cases p)
  show ?case
    by (simp add: p Cons.IH get_put map_add_def split: option.split)
qed simp

lemma keys_put_all_subset:
  "set (keys (fold (\<lambda>(k, v). put k v) kvs m)) = set (keys m) \<union> fst ` set kvs"
  by (induction kvs arbitrary: m) (auto simp: keys_put split: if_splits)

lemma get_del_same: "ok m \<Longrightarrow> get (del k m) k = None"
  by (simp add: get_del)

lemma get_del_other: "ok m \<Longrightarrow> k' \<noteq> k \<Longrightarrow> get (del k m) k' = get m k'"
  by (simp add: get_del)

end

interpretation obj: dictionary obj_get obj_set obj_del obj_keys obj_ok
proof unfold_locales
  show "obj_get (obj_set k v m) k' = (if k' = k then Some v else obj_get m k')"
    for k k' and v :: 'v and m
    by (simp add: obj_get_def obj_set_def AList.update_conv)
  show "obj_ok m \<Longrightarrow> obj_get (obj_del k m) k' = (if k' = k then None else obj_get m k')"
    for k k' and m :: "'v obj"
    by (simp add: obj_get_def obj_del_def AList.delete_conv)
  show "obj_ok m \<Longrightarrow> obj_ok (obj_set k v m)" for k and v :: 'v and m
    by (simp add: obj_ok_def obj_set_def AList.distinct_update)
  show "obj_ok m \<Longrightarrow> obj_ok (obj_del k m)" for k and m :: "'v obj"
    by (simp add: obj_ok_def obj_del_def AList.distinct_delete)
  show "(k \<in> set (obj_keys m)) = (obj_get m k \<noteq> None)" for k and m :: "'v obj"
    by (auto simp: obj_keys_def obj_get_def map_of_eq_None_iff)
  show "obj_keys (obj_set k v m) =
      (if k \<in> set (obj_keys m) then obj_keys m else obj_keys m @ [k])" for k and v :: 'v and m
    by (simp add: obj_keys_def obj_set_def AList.update_keys)
  show "obj_keys (obj_del k m) = filter (\<lambda>x. x \<noteq> k) (obj_keys m)" for k and m :: "'v obj"
    by (auto simp: obj_keys_def obj_del_def AList.delete_keys removeAll_filter_not_eq
        intro: filter_cong)
qed

lemmas obj_laws [js_simps] = obj.get_put obj.get_del obj.ok_put obj.ok_del

lemma obj_has_iff [js_simps]: "obj_has m k \<longleftrightarrow> obj_get m k \<noteq> None"
  by (auto simp: obj_has_def obj_get_def map_of_eq_None_iff)

lemma obj_get_entry: "obj_get m k = Some v \<Longrightarrow> (k, v) \<in> set m"
  unfolding obj_get_def by (rule map_of_SomeD)

lemma obj_entry_get: "obj_ok m \<Longrightarrow> (k, v) \<in> set m \<Longrightarrow> obj_get m k = Some v"
  by (simp add: obj_ok_def obj_get_def)

lemma obj_get_value: "obj_get m k = Some v \<Longrightarrow> v \<in> set (obj_values m)"
  by (force simp: obj_values_def dest: obj_get_entry)

lemma obj_ok_Nil [simp]: "obj_ok []"
  by (simp add: obj_ok_def)

lemma obj_get_Nil [simp]: "obj_get [] k = None"
  by (simp add: obj_get_def)

section \<open>Storage cells\<close>

text \<open>
  One key of \<open>localStorage\<close> or \<open>sessionStorage\<close> that holds a JSON object: absent, present with a
  text that does not parse, or present with an object. Each area has three switches: a browser may
  refuse to read, to write (private mode, full quota) or to remove.
\<close>

datatype 'v cell = Absent | Garbled | Holds "'v obj"

record area_mode =
  reads_ok :: bool
  sets_ok :: bool
  removes_ok :: bool

definition area_works :: "area_mode \<Rightarrow> bool" where
  "area_works a = (reads_ok a \<and> sets_ok a \<and> removes_ok a)"

fun cell_object :: "'v cell \<Rightarrow> 'v obj" where
  "cell_object Absent = []"
| "cell_object Garbled = []"
| "cell_object (Holds m) = m"

definition cell_ok :: "'v cell \<Rightarrow> bool" where
  "cell_ok c = obj_ok (cell_object c)"

section \<open>Comparators of the sorts\<close>

text \<open>
  \<open>localeCompare\<close> is a collation: a total preorder on texts. It is a value of the library type of
  comparators, whose laws come with the type.
\<close>

definition js_sort :: "'a comparator \<Rightarrow> 'a list \<Rightarrow> 'a list" where
  "js_sort c xs = Sorting_Algorithms.sort c xs"

lemma set_js_sort [simp]: "set (js_sort c xs) = set xs"
  by (simp add: js_sort_def)

lemma mset_js_sort [simp]: "mset (js_sort c xs) = mset xs"
  by (simp add: js_sort_def)

lemma js_sort_sorted: "Sorting_Algorithms.sorted c (js_sort c xs)"
  by (simp add: js_sort_def)

lemma js_sort_first:
  "js_sort c xs = y # ys \<Longrightarrow> x \<in> set xs \<Longrightarrow> compare c y x \<noteq> Greater"
proof -
  assume e: "js_sort c xs = y # ys" and x: "x \<in> set xs"
  have "Sorting_Algorithms.sorted c (y # ys)" using js_sort_sorted [of c xs] e by simp
  moreover have "x = y \<or> x \<in> set ys" using x set_js_sort [of c xs] e by auto
  ultimately show ?thesis
    using Sorting_Algorithms.sorted_Cons_imp_not_less by fastforce
qed

end
