(* ===== verification/Sealed_Types.thy ===== *)
theory Sealed_Types
  imports GK_Prelude
begin

text \<open>
  The wire format of sealed bytes (crypto/sealing.ts) and the network names, shared by the vault
  store, the cryptographic layer, the recovery kit and the claim flow.
\<close>

text \<open>\<open>SealedBlob\<close>: a version tag, the base64 ciphertext and the base64 nonce.\<close>

record sealed_blob =
  sb_v :: int
  sb_ct :: jstr
  sb_nonce :: jstr

text \<open>The literal type of \<open>v\<close> is 1.\<close>

definition mk_blob :: "jstr \<Rightarrow> jstr \<Rightarrow> sealed_blob" where
  "mk_blob ct nonce = \<lparr>sb_v = 1, sb_ct = ct, sb_nonce = nonce\<rparr>"

text \<open>\<open>SealedBlobsView\<close> of api.ts: the password-wrapped secrets of one vault, as the server returns
  them. A descriptor fragment that is missing or null is \<open>None\<close>.\<close>

record sealed_blobs_view =
  sbv_vault_id :: jstr
  sbv_password_salt_b64 :: jstr
  sbv_password_kdf_mem_kib :: int
  sbv_password_kdf_iters :: int
  sbv_owner_xprv_ct_b64 :: jstr
  sbv_owner_xprv_nonce_b64 :: jstr
  sbv_owner_token_ct_b64 :: jstr
  sbv_owner_token_nonce_b64 :: jstr
  sbv_network :: jstr
  sbv_timelock_blocks :: int
  sbv_owner_xpub_fragment :: "jstr option"

text \<open>\<open>Network\<close> of crypto/keygen.ts.\<close>

datatype network = Bitcoin | Testnet | Signet | Regtest

definition all_networks :: "network list" where
  "all_networks = [Bitcoin, Testnet, Signet, Regtest]"

lemma all_networks_complete [simp]: "n \<in> set all_networks"
  by (cases n) (simp_all add: all_networks_def)

fun network_name :: "network \<Rightarrow> jstr" where
  "network_name Bitcoin = ''bitcoin''"
| "network_name Testnet = ''testnet''"
| "network_name Signet = ''signet''"
| "network_name Regtest = ''regtest''"

lemma network_name_inj: "network_name a = network_name b \<Longrightarrow> a = b"
  by (cases a; cases b) simp_all

end
