(* ===== verification/Vault_Store.thy ===== *)
theory Vault_Store
  imports Js_Regex Js_Object Sealed_Types
begin

text \<open>
  The device's vault store (ghostkey-web/src/vaultStore.ts). A device is the browser state the
  module reads and writes: the JSON object of vault metadata, the active vault and the activity
  stamp in \<open>localStorage\<close>, the object of live owner tokens in \<open>sessionStorage\<close>, and whether each
  area may be read, written and cleared. Every exported function is a function on devices; the
  clock and the collation of \<open>localeCompare\<close> are arguments.
\<close>

section \<open>State\<close>

record heir_info =
  hi_name :: jstr
  hi_email :: jstr
  hi_address :: jstr

record owner_info =
  oi_address :: jstr

record locked_owner_token =
  lk_salt :: jstr
  lk_mem_kib :: int
  lk_iters :: int
  lk_blob :: sealed_blob
  lk_email_hash :: jstr
  lk_validated :: "bool option"

record vault_meta =
  vm_id :: jstr
  vm_label :: jstr
  vm_owner :: owner_info
  vm_heir :: heir_info
  vm_created_at :: jstr
  vm_owner_token :: "jstr option"
  vm_lock :: "locked_owner_token option"
  vm_group_id :: "jstr option"

text \<open>
  The activity stamp as \<open>sessionExpired\<close> sees it: nothing (or an empty text), a text that is not
  a finite number, or a number of milliseconds.
\<close>

datatype stamp = NoStamp | BadStamp | Stamp int

record device =
  has_window :: bool
  local_mode :: area_mode
  session_mode :: area_mode
  dv_vaults :: "vault_meta cell"
  dv_active :: "jstr option"
  dv_activity :: stamp
  dv_live :: "jstr cell"

abbreviation lock_validated :: "locked_owner_token \<Rightarrow> bool" where
  "lock_validated lk \<equiv> lk_validated lk = Some True"

section \<open>Reading and writing the two objects\<close>

definition read_live_tokens :: "device \<Rightarrow> jstr obj" where
  "read_live_tokens d =
     (if \<not> has_window d then []
      else if \<not> reads_ok (session_mode d) then []
      else cell_object (dv_live d))"

definition write_live_tokens :: "jstr obj \<Rightarrow> device \<Rightarrow> device" where
  "write_live_tokens m d =
     (if m = [] then (if removes_ok (session_mode d) then d\<lparr>dv_live := Absent\<rparr> else d)
      else if sets_ok (session_mode d) then d\<lparr>dv_live := Holds m\<rparr> else d)"

definition set_live_token :: "jstr \<Rightarrow> jstr \<Rightarrow> device \<Rightarrow> device" where
  "set_live_token i token d = write_live_tokens (obj_set i token (read_live_tokens d)) d"

definition delete_live_token :: "jstr \<Rightarrow> device \<Rightarrow> device" where
  "delete_live_token i d =
     (let m = read_live_tokens d
      in if obj_has m i then write_live_tokens (obj_del i m) d else d)"

definition read_all :: "device \<Rightarrow> vault_meta obj" where
  "read_all d =
     (if \<not> has_window d then []
      else if \<not> reads_ok (local_mode d) then []
      else cell_object (dv_vaults d))"

definition write_all :: "vault_meta obj \<Rightarrow> device \<Rightarrow> device" where
  "write_all m d = (if sets_ok (local_mode d) then d\<lparr>dv_vaults := Holds m\<rparr> else d)"

section \<open>The active vault\<close>

definition set_active_vault_id :: "jstr option \<Rightarrow> device \<Rightarrow> device" where
  "set_active_vault_id i d =
     (if truthy i then (if sets_ok (local_mode d) then d\<lparr>dv_active := i\<rparr> else d)
      else if removes_ok (local_mode d) then d\<lparr>dv_active := None\<rparr> else d)"

definition get_active_vault_id :: "device \<Rightarrow> jstr option" where
  "get_active_vault_id d = (if reads_ok (local_mode d) then dv_active d else None)"

section \<open>Metadata and credentials\<close>

definition save_vault_meta :: "vault_meta \<Rightarrow> device \<Rightarrow> device" where
  "save_vault_meta meta d =
     (let m = read_all d
      in if truthy (vm_owner_token meta)
            \<and> (case vm_lock meta of None \<Rightarrow> False | Some lk \<Rightarrow> lock_validated lk)
         then set_active_vault_id (Some (vm_id meta))
                (write_all (obj_set (vm_id meta) (meta\<lparr>vm_owner_token := None\<rparr>) m)
                  (set_live_token (vm_id meta) (the (vm_owner_token meta)) d))
         else set_active_vault_id (Some (vm_id meta))
                (write_all (obj_set (vm_id meta) meta m) d))"

definition get_vault_meta :: "jstr \<Rightarrow> device \<Rightarrow> vault_meta option" where
  "get_vault_meta i d = obj_get (read_all d) i"

definition get_vault_owner_token :: "jstr \<Rightarrow> device \<Rightarrow> jstr option" where
  "get_vault_owner_token i d =
     nullish (obj_get (read_live_tokens d) i)
       (Option.bind (obj_get (read_all d) i) vm_owner_token)"

definition meta_order :: "jstr comparator \<Rightarrow> vault_meta comparator" where
  "meta_order lc = key (\<lambda>v. (vm_created_at v, vm_id v)) (prod_lex lc lc)"

definition get_all_vault_metas :: "jstr comparator \<Rightarrow> device \<Rightarrow> vault_meta list" where
  "get_all_vault_metas lc d = js_sort (meta_order lc) (obj_values (read_all d))"

definition has_locked_vault_credential :: "jstr option \<Rightarrow> device \<Rightarrow> bool" where
  "has_locked_vault_credential i d =
     (if \<not> truthy i then False
      else (case Option.bind (obj_get (read_all d) (the i)) vm_lock of
              None \<Rightarrow> False
            | Some _ \<Rightarrow> \<not> truthy (get_vault_owner_token (the i) d)))"

definition has_vault_credential_lock :: "jstr option \<Rightarrow> device \<Rightarrow> bool" where
  "has_vault_credential_lock i d =
     (if \<not> truthy i then False
      else Option.bind (obj_get (read_all d) (the i)) vm_lock \<noteq> None)"

definition can_local_unlock :: "jstr option \<Rightarrow> device \<Rightarrow> bool" where
  "can_local_unlock i d =
     (if \<not> truthy i then False
      else (case obj_get (read_all d) (the i) of
              None \<Rightarrow> False
            | Some meta \<Rightarrow>
                vm_lock meta \<noteq> None
                \<or> get_vault_owner_token (the i) d \<noteq> None
                  \<and> email_shaped (js_trim (oi_address (vm_owner meta)))))"

text \<open>The result is the new device and the returned boolean.\<close>

definition save_vault_credential_lock ::
    "jstr \<Rightarrow> locked_owner_token \<Rightarrow> device \<Rightarrow> device \<times> bool" where
  "save_vault_credential_lock i lk d =
     (let m = read_all d
      in case obj_get m i of
           None \<Rightarrow> (d, False)
         | Some meta \<Rightarrow>
             if \<not> truthy (vm_owner_token meta) then (d, False)
             else (write_all (obj_set i (meta\<lparr>vm_lock := Some lk\<rparr>) m) d, True))"

text \<open>
  Spreading a missing entry yields an object with only the two listed fields; its other fields are
  undefined in the source and read as empty texts here.
\<close>

definition missing_meta :: vault_meta where
  "missing_meta = \<lparr>vm_id = [], vm_label = [], vm_owner = \<lparr>oi_address = []\<rparr>,
     vm_heir = \<lparr>hi_name = [], hi_email = [], hi_address = []\<rparr>, vm_created_at = [],
     vm_owner_token = None, vm_lock = None, vm_group_id = None\<rparr>"

definition lock_vault_credential ::
    "jstr \<Rightarrow> locked_owner_token \<Rightarrow> device \<Rightarrow> device \<times> bool" where
  "lock_vault_credential i lk d =
     (let m = read_all d;
          meta = (case obj_get m i of None \<Rightarrow> missing_meta | Some x \<Rightarrow> x)
      in if \<not> truthy (get_vault_owner_token i d) \<or> \<not> lock_validated lk then (d, False)
         else (write_all (obj_set i (meta\<lparr>vm_owner_token := None, vm_lock := Some lk\<rparr>) m)
                 (delete_live_token i d), True))"

text \<open>One pass of the second loop of \<open>unlockVaultCredentials\<close> over the metadata object.\<close>

definition mark_unlocked :: "jstr \<times> jstr \<Rightarrow> vault_meta obj \<Rightarrow> vault_meta obj" where
  "mark_unlocked e m =
     (case obj_get m (fst e) of
        None \<Rightarrow> m
      | Some meta \<Rightarrow>
          obj_set (fst e)
            (meta\<lparr>vm_owner_token := None,
                  vm_lock := map_option (\<lambda>lk. lk\<lparr>lk_validated := Some True\<rparr>) (vm_lock meta)\<rparr>) m)"

definition unlock_vault_credentials :: "jstr obj \<Rightarrow> device \<Rightarrow> device \<times> bool" where
  "unlock_vault_credentials tokens d =
     (let m = read_all d
      in if list_ex (\<lambda>(i, token). Option.bind (obj_get m i) vm_lock = None \<or> token = []) tokens
         then (d, False)
         else
           (let live = fold (\<lambda>(i, token). obj_set i token) tokens (read_live_tokens d);
                m' = fold mark_unlocked tokens m
            in (write_all m' (write_live_tokens live d), True)))"

section \<open>Inactivity\<close>

definition session_timeout_ms :: int where
  "session_timeout_ms = 10 * 60000"

definition touch_session :: "int \<Rightarrow> device \<Rightarrow> device" where
  "touch_session now d = (if sets_ok (local_mode d) then d\<lparr>dv_activity := Stamp now\<rparr> else d)"

definition session_expired :: "int \<Rightarrow> device \<Rightarrow> device \<times> bool" where
  "session_expired now d =
     (if \<not> truthy (get_active_vault_id d) then (d, False)
      else if \<not> reads_ok (local_mode d) then (d, False)
      else (case dv_activity d of
              NoStamp \<Rightarrow> (touch_session now d, False)
            | BadStamp \<Rightarrow> (touch_session now d, False)
            | Stamp t0 \<Rightarrow> (d, now - t0 \<ge> session_timeout_ms)))"

section \<open>Removal and selection\<close>

definition remove_vault_meta :: "jstr \<Rightarrow> device \<Rightarrow> device \<times> bool" where
  "remove_vault_meta i d =
     (let m = read_all d
      in if \<not> obj_has m i then (d, False)
         else
           (let m' = obj_del i m;
                d' = write_all m' (delete_live_token i d)
            in if get_active_vault_id d' = Some i
               then (set_active_vault_id
                       (case obj_keys m' of [] \<Rightarrow> None | k # _ \<Rightarrow> Some k) d', True)
               else (d', True)))"

definition get_trusted_vault_id :: "jstr comparator \<Rightarrow> device \<Rightarrow> jstr option" where
  "get_trusted_vault_id lc d =
     (let active = get_active_vault_id d
      in if can_local_unlock active d then active
         else map_option vm_id
                (find (\<lambda>m. can_local_unlock (Some (vm_id m)) d) (get_all_vault_metas lc d)))"

definition get_vaults_by_group :: "jstr comparator \<Rightarrow> jstr option \<Rightarrow> device \<Rightarrow> vault_meta list" where
  "get_vaults_by_group lc g d =
     (if \<not> truthy g then []
      else js_sort (key vm_created_at lc)
             (filter (\<lambda>v. vm_group_id v = g) (obj_values (read_all d))))"

definition get_group_id_for_vault :: "jstr \<Rightarrow> device \<Rightarrow> jstr option" where
  "get_group_id_for_vault i d = Option.bind (obj_get (read_all d) i) vm_group_id"

section \<open>Reading back what was written\<close>

definition storage_works :: "device \<Rightarrow> bool" where
  "storage_works d = (has_window d \<and> area_works (local_mode d) \<and> area_works (session_mode d))"

named_theorems store_frame \<open>what each write leaves unchanged\<close>

lemma modes_write_live [store_frame]:
  "has_window (write_live_tokens m d) = has_window d"
  "local_mode (write_live_tokens m d) = local_mode d"
  "session_mode (write_live_tokens m d) = session_mode d"
  "dv_vaults (write_live_tokens m d) = dv_vaults d"
  "dv_active (write_live_tokens m d) = dv_active d"
  "dv_activity (write_live_tokens m d) = dv_activity d"
  by (simp_all add: write_live_tokens_def)

lemma modes_write_all [store_frame]:
  "has_window (write_all m d) = has_window d"
  "local_mode (write_all m d) = local_mode d"
  "session_mode (write_all m d) = session_mode d"
  "dv_live (write_all m d) = dv_live d"
  "dv_active (write_all m d) = dv_active d"
  "dv_activity (write_all m d) = dv_activity d"
  by (simp_all add: write_all_def)

lemma modes_set_active [store_frame]:
  "has_window (set_active_vault_id i d) = has_window d"
  "local_mode (set_active_vault_id i d) = local_mode d"
  "session_mode (set_active_vault_id i d) = session_mode d"
  "dv_live (set_active_vault_id i d) = dv_live d"
  "dv_vaults (set_active_vault_id i d) = dv_vaults d"
  "dv_activity (set_active_vault_id i d) = dv_activity d"
  by (simp_all add: set_active_vault_id_def)

lemma modes_touch [store_frame]:
  "has_window (touch_session now d) = has_window d"
  "local_mode (touch_session now d) = local_mode d"
  "session_mode (touch_session now d) = session_mode d"
  "dv_live (touch_session now d) = dv_live d"
  "dv_vaults (touch_session now d) = dv_vaults d"
  "dv_active (touch_session now d) = dv_active d"
  by (simp_all add: touch_session_def)

lemma modes_delete_live [store_frame]:
  "has_window (delete_live_token i d) = has_window d"
  "local_mode (delete_live_token i d) = local_mode d"
  "session_mode (delete_live_token i d) = session_mode d"
  "dv_vaults (delete_live_token i d) = dv_vaults d"
  "dv_active (delete_live_token i d) = dv_active d"
  by (simp_all add: delete_live_token_def Let_def store_frame)

lemma read_frame [store_frame]:
  "read_all (write_live_tokens m d) = read_all d"
  "read_all (set_live_token i t d) = read_all d"
  "read_all (delete_live_token i d) = read_all d"
  "read_all (set_active_vault_id a d) = read_all d"
  "read_all (touch_session now d) = read_all d"
  "read_live_tokens (write_all v d) = read_live_tokens d"
  "read_live_tokens (set_active_vault_id a d) = read_live_tokens d"
  "read_live_tokens (touch_session now d) = read_live_tokens d"
  by (simp_all add: read_all_def read_live_tokens_def set_live_token_def store_frame)

lemma storage_works_frame [store_frame]:
  "storage_works (write_live_tokens m d) = storage_works d"
  "storage_works (set_live_token i t d) = storage_works d"
  "storage_works (delete_live_token i d) = storage_works d"
  "storage_works (write_all v d) = storage_works d"
  "storage_works (set_active_vault_id a d) = storage_works d"
  "storage_works (touch_session now d) = storage_works d"
  by (simp_all add: storage_works_def set_live_token_def store_frame)

lemma read_write_all: "storage_works d \<Longrightarrow> read_all (write_all m d) = m"
  by (simp add: storage_works_def area_works_def read_all_def write_all_def)

lemma read_write_live: "storage_works d \<Longrightarrow> read_live_tokens (write_live_tokens m d) = m"
  by (simp add: storage_works_def area_works_def read_live_tokens_def write_live_tokens_def)

lemma read_set_live:
  "storage_works d \<Longrightarrow>
     read_live_tokens (set_live_token i t d) = obj_set i t (read_live_tokens d)"
  by (simp add: set_live_token_def read_write_live)

lemma read_delete_live:
  "storage_works d \<Longrightarrow> obj_ok (read_live_tokens d) \<Longrightarrow>
     obj_get (read_live_tokens (delete_live_token i d)) j
       = (if j = i then None else obj_get (read_live_tokens d) j)"
  by (auto simp: delete_live_token_def Let_def read_write_live obj_laws obj_has_iff)

lemma ok_delete_live:
  "storage_works d \<Longrightarrow> obj_ok (read_live_tokens d) \<Longrightarrow>
     obj_ok (read_live_tokens (delete_live_token i d))"
  by (simp add: delete_live_token_def Let_def read_write_live obj_laws)

lemma active_set_active:
  "storage_works d \<Longrightarrow>
     get_active_vault_id (set_active_vault_id a d) = (if truthy a then a else None)"
  by (simp add: storage_works_def area_works_def get_active_vault_id_def set_active_vault_id_def)

lemmas store_reads = read_write_all read_write_live read_set_live read_delete_live ok_delete_live
  active_set_active

lemma get_all_vault_metas_set:
  "set (get_all_vault_metas lc d) = set (obj_values (read_all d))"
  by (simp add: get_all_vault_metas_def)

section \<open>The credential interface\<close>

text \<open>
  What the application shell and the sign-in portal rely on: a vault has a usable token or not and
  an encrypted lock or not; locking with a validated lock removes the token and nothing else;
  caching a lock touches no token.
\<close>

locale credential_store =
  fixes token :: "'i \<Rightarrow> 'd \<Rightarrow> jstr option"
    and locked :: "'i \<Rightarrow> 'd \<Rightarrow> 'lk option"
    and lock :: "'i \<Rightarrow> 'lk \<Rightarrow> 'd \<Rightarrow> 'd \<times> bool"
    and cache :: "'i \<Rightarrow> 'lk \<Rightarrow> 'd \<Rightarrow> 'd \<times> bool"
    and valid :: "'lk \<Rightarrow> bool"
    and good :: "'d \<Rightarrow> bool"
  assumes lock_good: "good d \<Longrightarrow> good (fst (lock i lk d))"
    and cache_good: "good d \<Longrightarrow> good (fst (cache i lk d))"
    and lock_refused: "\<not> valid lk \<or> \<not> truthy (token i d) \<Longrightarrow> lock i lk d = (d, False)"
    and lock_clears: "good d \<Longrightarrow> valid lk \<Longrightarrow> truthy (token i d) \<Longrightarrow>
          token i (fst (lock i lk d)) = None \<and> locked i (fst (lock i lk d)) = Some lk"
    and lock_frame: "good d \<Longrightarrow> j \<noteq> i \<Longrightarrow>
          token j (fst (lock i lk d)) = token j d \<and> locked j (fst (lock i lk d)) = locked j d"
    and cache_tokens: "good d \<Longrightarrow> token j (fst (cache i lk d)) = token j d"
    and cache_locks: "good d \<Longrightarrow> j \<noteq> i \<Longrightarrow> locked j (fst (cache i lk d)) = locked j d"
begin

lemma lock_never_adds:
  "good d \<Longrightarrow> truthy (token j (fst (lock i lk d))) \<Longrightarrow>
     truthy (token j d) \<and> token j (fst (lock i lk d)) = token j d"
  using lock_refused [of lk i d] lock_clears [of d lk i] lock_frame [of d j i lk]
  by (cases "valid lk \<and> truthy (token i d)"; cases "j = i") auto

lemma lock_token_after:
  "good d \<Longrightarrow> valid lk \<Longrightarrow> \<not> truthy (token i (fst (lock i lk d)))"
  using lock_refused [of lk i d] lock_clears [of d lk i] by (cases "truthy (token i d)") auto

text \<open>A pass over several vaults, locking or caching each: what it leaves of each vault.\<close>

definition act :: "'i \<times> 'lk + 'i \<times> 'lk \<Rightarrow> 'd \<Rightarrow> 'd" where
  "act a d = (case a of Inl (i, lk) \<Rightarrow> fst (lock i lk d) | Inr (i, lk) \<Rightarrow> fst (cache i lk d))"

lemma act_good: "good d \<Longrightarrow> good (act a d)"
  by (auto simp: act_def lock_good cache_good split: sum.split)

lemma pass_good: "good d \<Longrightarrow> good (fold act as d)"
  by (induction as arbitrary: d) (auto simp: act_good)

lemma act_token_mono:
  "good d \<Longrightarrow> truthy (token j (act a d)) \<Longrightarrow> token j (act a d) = token j d"
  by (auto simp: act_def cache_tokens split: sum.splits dest: lock_never_adds)

lemma pass_token_mono:
  "good d \<Longrightarrow> truthy (token j (fold act as d)) \<Longrightarrow> token j (fold act as d) = token j d"
proof (induction as arbitrary: d)
  case (Cons a as)
  then have "token j (fold act as (act a d)) = token j (act a d)" by (simp add: act_good)
  with Cons.prems show ?case using act_token_mono [of d j a] by simp
qed simp

lemma pass_locks:
  "good d \<Longrightarrow> Inl (j, lk) \<in> set as \<Longrightarrow> valid lk \<Longrightarrow> \<not> truthy (token j (fold act as d))"
proof (induction as arbitrary: d)
  case (Cons a as)
  show ?case
  proof (cases "a = Inl (j, lk)")
    case True
    have "\<not> truthy (token j (act a d))"
      using lock_token_after [OF Cons.prems(1,3), of j] by (simp add: True act_def)
    then show ?thesis
      using pass_token_mono [OF act_good [OF Cons.prems(1)], of j as a] by fastforce
  next
    case False
    then have "Inl (j, lk) \<in> set as" using Cons.prems(2) by simp
    then show ?thesis using Cons.IH [OF act_good [OF Cons.prems(1)]] Cons.prems(3) by simp
  qed
qed simp

lemma pass_untouched:
  "good d \<Longrightarrow> (\<forall>lk. Inl (j, lk) \<notin> set as) \<Longrightarrow> token j (fold act as d) = token j d"
proof (induction as arbitrary: d)
  case (Cons a as)
  have "token j (act a d) = token j d"
    using Cons.prems lock_frame [OF Cons.prems(1)]
    by (auto simp: act_def cache_tokens split: sum.split)
  with Cons show ?case by (simp add: act_good)
qed simp

end

definition lock_of :: "jstr \<Rightarrow> device \<Rightarrow> locked_owner_token option" where
  "lock_of i d = Option.bind (get_vault_meta i d) vm_lock"

definition store_good :: "device \<Rightarrow> bool" where
  "store_good d = (storage_works d \<and> obj_ok (read_live_tokens d) \<and> obj_ok (read_all d))"

lemma store_good_write:
  "store_good d \<Longrightarrow> obj_ok m \<Longrightarrow> store_good (write_all m d)"
  "store_good d \<Longrightarrow> obj_ok l \<Longrightarrow> store_good (write_live_tokens l d)"
  "store_good d \<Longrightarrow> store_good (delete_live_token i d)"
  "store_good d \<Longrightarrow> store_good (set_live_token i t d)"
  "store_good d \<Longrightarrow> store_good (set_active_vault_id a d)"
  "store_good d \<Longrightarrow> store_good (touch_session now d)"
  by (simp_all add: store_good_def store_frame store_reads obj_laws)

lemma lock_effect:
  fixes i :: jstr
  assumes "store_good d" "lock_validated lk" "truthy (get_vault_owner_token i d)"
  defines "d' \<equiv> fst (lock_vault_credential i lk d)"
  shows "snd (lock_vault_credential i lk d)"
    and "store_good d'"
    and "get_vault_owner_token i d' = None"
    and "\<exists>m. get_vault_meta i d' = Some m \<and> vm_owner_token m = None \<and> vm_lock m = Some lk"
    and "j \<noteq> i \<Longrightarrow> get_vault_owner_token j d' = get_vault_owner_token j d"
    and "j \<noteq> i \<Longrightarrow> get_vault_meta j d' = get_vault_meta j d"
  using assms
  by (auto simp: lock_vault_credential_def Let_def get_vault_owner_token_def get_vault_meta_def
      store_good_def store_frame store_reads obj_laws)

interpretation cred: credential_store get_vault_owner_token lock_of lock_vault_credential
  save_vault_credential_lock lock_validated store_good
proof unfold_locales
  show "store_good d \<Longrightarrow> store_good (fst (lock_vault_credential i lk d))" for d i lk
    by (auto simp: lock_vault_credential_def Let_def store_good_def store_frame store_reads
        obj_laws)
  show "store_good d \<Longrightarrow> store_good (fst (save_vault_credential_lock i lk d))" for d i lk
    by (auto simp: save_vault_credential_lock_def Let_def store_good_def store_frame store_reads
        obj_laws split: option.split)
  show "\<not> lock_validated lk \<or> \<not> truthy (get_vault_owner_token i d) \<Longrightarrow>
      lock_vault_credential i lk d = (d, False)" for lk i d
    by (auto simp: lock_vault_credential_def)
  show "store_good d \<Longrightarrow> lock_validated lk \<Longrightarrow> truthy (get_vault_owner_token i d) \<Longrightarrow>
      get_vault_owner_token i (fst (lock_vault_credential i lk d)) = None
      \<and> lock_of i (fst (lock_vault_credential i lk d)) = Some lk" for d lk i
    using lock_effect(3,4) [of d lk i] by (auto simp: lock_of_def)
  show "store_good d \<Longrightarrow> j \<noteq> i \<Longrightarrow>
      get_vault_owner_token j (fst (lock_vault_credential i lk d)) = get_vault_owner_token j d
      \<and> lock_of j (fst (lock_vault_credential i lk d)) = lock_of j d" for d j i lk
    by (auto simp: lock_vault_credential_def Let_def get_vault_owner_token_def get_vault_meta_def
        lock_of_def store_good_def store_frame store_reads obj_laws)
  show "store_good d \<Longrightarrow>
      get_vault_owner_token j (fst (save_vault_credential_lock i lk d)) = get_vault_owner_token j d"
    for d j i lk
    by (auto simp: save_vault_credential_lock_def Let_def get_vault_owner_token_def store_good_def
        store_frame store_reads obj_laws split: option.split)
  show "store_good d \<Longrightarrow> j \<noteq> i \<Longrightarrow>
      lock_of j (fst (save_vault_credential_lock i lk d)) = lock_of j d" for d j i lk
    by (auto simp: save_vault_credential_lock_def Let_def get_vault_meta_def lock_of_def
        store_good_def store_frame store_reads obj_laws split: option.split)
qed

section \<open>Saving, locking and unlocking\<close>

lemma save_effect:
  fixes meta :: vault_meta
  assumes "store_good d"
  defines "d' \<equiv> save_vault_meta meta d"
  shows "store_good d'"
    and "get_vault_meta (vm_id meta) d' = Some
           (if truthy (vm_owner_token meta) \<and> (\<exists>lk. vm_lock meta = Some lk \<and> lock_validated lk)
            then meta\<lparr>vm_owner_token := None\<rparr> else meta)"
    and "truthy (vm_owner_token meta) \<Longrightarrow> vm_lock meta = Some lk \<Longrightarrow> lock_validated lk \<Longrightarrow>
           get_vault_owner_token (vm_id meta) d' = vm_owner_token meta"
    and "j \<noteq> vm_id meta \<Longrightarrow> get_vault_meta j d' = get_vault_meta j d"
    and "j \<noteq> vm_id meta \<Longrightarrow> get_vault_owner_token j d' = get_vault_owner_token j d"
    and "vm_id meta \<noteq> [] \<Longrightarrow> get_active_vault_id d' = Some (vm_id meta)"
  using assms
  by (auto simp: save_vault_meta_def Let_def get_vault_owner_token_def get_vault_meta_def
      store_good_def store_frame store_reads obj_laws truthy_iff split: option.splits)

text \<open>Saving a vault whose password lock is validated keeps its bearer token out of
  localStorage and still usable: the stored entry has the lock and no token, the token is read
  back from the session area, the vault becomes the active one, and every other vault keeps its
  entry and its token.\<close>

theorem save_keeps_token_off_disk:
  fixes meta :: vault_meta
  assumes "store_good d" and "vm_id meta \<noteq> []" and "vm_owner_token meta = Some t" and "t \<noteq> []"
    and "vm_lock meta = Some lk" and "lock_validated lk"
  defines "d' \<equiv> save_vault_meta meta d"
  shows "get_vault_meta (vm_id meta) d' = Some (meta\<lparr>vm_owner_token := None\<rparr>)
    \<and> get_vault_owner_token (vm_id meta) d' = Some t
    \<and> get_active_vault_id d' = Some (vm_id meta)
    \<and> (\<forall>j. j = vm_id meta \<or> get_vault_meta j d' = get_vault_meta j d
            \<and> get_vault_owner_token j d' = get_vault_owner_token j d)"
  using assms save_effect [OF assms(1), where meta = meta] by auto

text \<open>Locking with a validated lock removes the bearer token from both storage areas and keeps
  the password-encrypted copy; no other vault loses its token or entry. Without a validated lock,
  or without a usable token, nothing is deleted and the call reports false.\<close>

theorem lock_replaces_token_by_ciphertext:
  fixes i :: jstr and lk :: locked_owner_token
  assumes "store_good d"
  defines "r \<equiv> lock_vault_credential i lk d"
  shows "if lock_validated lk \<and> truthy (get_vault_owner_token i d)
    then snd r \<and> get_vault_owner_token i (fst r) = None
      \<and> (\<exists>m. get_vault_meta i (fst r) = Some m \<and> vm_owner_token m = None \<and> vm_lock m = Some lk)
      \<and> (\<forall>j. j = i \<or> get_vault_owner_token j (fst r) = get_vault_owner_token j d
            \<and> get_vault_meta j (fst r) = get_vault_meta j d)
    else r = (d, False)"
  using assms lock_effect [OF assms(1), of lk i] cred.lock_refused [of lk i d]
  by (simp add: r_def) metis

lemma mark_unlocked_get:
  "obj_get (mark_unlocked (i, t) m) j =
     (if j = i then map_option (\<lambda>meta. meta\<lparr>vm_owner_token := None,
          vm_lock := map_option (\<lambda>lk. lk\<lparr>lk_validated := Some True\<rparr>) (vm_lock meta)\<rparr>) (obj_get m i)
      else obj_get m j)"
  by (auto simp: mark_unlocked_def obj_laws split: option.split)

lemma mark_unlocked_ok: "obj_ok m \<Longrightarrow> obj_ok (mark_unlocked e m)"
  by (auto simp: mark_unlocked_def obj_laws split: option.split)

definition unlocked_meta :: "vault_meta \<Rightarrow> vault_meta" where
  "unlocked_meta meta = meta\<lparr>vm_owner_token := None,
     vm_lock := map_option (\<lambda>lk. lk\<lparr>lk_validated := Some True\<rparr>) (vm_lock meta)\<rparr>"

lemma unlocked_meta_idem [simp]: "unlocked_meta (unlocked_meta x) = unlocked_meta x"
  by (cases "vm_lock x") (simp_all add: unlocked_meta_def)

lemma mark_unlocked_fold_get:
  "obj_get (fold mark_unlocked toks m) j =
     (if j \<in> fst ` set toks then map_option unlocked_meta (obj_get m j) else obj_get m j)"
proof (induction toks arbitrary: m)
  case (Cons e toks)
  obtain i t where e: "e = (i, t)" by (cases e)
  show ?case
    by (cases "obj_get m j")
      (auto simp: e Cons.IH mark_unlocked_get unlocked_meta_def [symmetric])
qed simp

lemma mark_unlocked_fold_ok: "obj_ok m \<Longrightarrow> obj_ok (fold mark_unlocked toks m)"
  by (induction toks arbitrary: m) (auto simp: mark_unlocked_ok)

lemma unlock_success_iff:
  "snd (unlock_vault_credentials tokens d) \<longleftrightarrow>
     (\<forall>(i, t)\<in>set tokens. lock_of i d \<noteq> None \<and> t \<noteq> [])"
  unfolding unlock_vault_credentials_def Let_def list_ex_iff lock_of_def get_vault_meta_def
    split_beta
  by (simp add: Ball_def Bex_def)

lemma unlock_effect:
  assumes "store_good d" and "obj_ok tokens" and "snd (unlock_vault_credentials tokens d)"
  defines "d' \<equiv> fst (unlock_vault_credentials tokens d)"
  shows "store_good d'"
    and "get_vault_meta j d' = (if obj_get tokens j = None then get_vault_meta j d
           else map_option unlocked_meta (get_vault_meta j d))"
    and "get_vault_owner_token j d' = (case obj_get tokens j of Some t \<Rightarrow> Some t
           | None \<Rightarrow> get_vault_owner_token j d)"
proof -
  let ?m = "fold mark_unlocked tokens (read_all d)"
  let ?live = "fold (\<lambda>(i, t). obj_set i t) tokens (read_live_tokens d)"
  have d': "d' = write_all ?m (write_live_tokens ?live d)"
    using assms(3) by (auto simp: d'_def unlock_vault_credentials_def Let_def split: if_splits)
  have rev: "map_of (rev tokens) = map_of tokens"
    using assms(2) by (simp add: obj_ok_def map_of_rev_distinct)
  have dom: "j \<in> fst ` set tokens \<longleftrightarrow> obj_get tokens j \<noteq> None" for j
    by (auto simp: obj_get_def map_of_eq_None_iff)
  have live: "obj_get ?live j = (case obj_get tokens j of Some t \<Rightarrow> Some t
      | None \<Rightarrow> obj_get (read_live_tokens d) j)" for j
    by (simp add: obj.get_put_all rev obj_get_def [of tokens])
  have w: "storage_works d" "obj_ok (read_all d)" "obj_ok (read_live_tokens d)"
    using assms(1) by (simp_all add: store_good_def)
  show "store_good d'"
    using w by (simp add: d' store_good_def store_frame store_reads mark_unlocked_fold_ok obj.ok_put_all)
  have all: "obj_get (read_all d') j = (if obj_get tokens j = None then obj_get (read_all d) j
      else map_option unlocked_meta (obj_get (read_all d) j))" for j
    using w by (auto simp: d' store_frame store_reads mark_unlocked_fold_get dom)
  then show "get_vault_meta j d' = (if obj_get tokens j = None then get_vault_meta j d
      else map_option unlocked_meta (get_vault_meta j d))"
    by (simp add: get_vault_meta_def)
  have "read_live_tokens d' = ?live"
    using w by (simp add: d' store_frame store_reads)
  then show "get_vault_owner_token j d' = (case obj_get tokens j of Some t \<Rightarrow> Some t
      | None \<Rightarrow> get_vault_owner_token j d)"
    using all [of j] by (simp add: get_vault_owner_token_def live split: option.split)
qed

text \<open>Unlocking a group of vaults is all or nothing: it succeeds exactly when every vault of
  the group has an encrypted lock and a non-empty token. On success each of those tokens is usable,
  none of them is in localStorage, each lock is marked validated, and every other vault keeps its
  token and entry; on failure the device is unchanged.\<close>

theorem unlock_all_or_nothing:
  assumes "store_good d" and "obj_ok tokens"
  defines "r \<equiv> unlock_vault_credentials tokens d"
  shows "if \<forall>(i, t)\<in>set tokens. lock_of i d \<noteq> None \<and> t \<noteq> []
    then snd r \<and> (\<forall>i t. (i, t) \<in> set tokens \<longrightarrow>
           get_vault_owner_token i (fst r) = Some t
           \<and> get_vault_meta i (fst r) = map_option unlocked_meta (get_vault_meta i d))
      \<and> (\<forall>j. j \<notin> fst ` set tokens \<longrightarrow>
           get_vault_owner_token j (fst r) = get_vault_owner_token j d
           \<and> get_vault_meta j (fst r) = get_vault_meta j d)
    else r = (d, False)"
proof (cases "\<forall>(i, t)\<in>set tokens. lock_of i d \<noteq> None \<and> t \<noteq> []")
  case True
  then have ok: "snd r" by (simp add: r_def unlock_success_iff)
  note eff = unlock_effect [OF assms(1,2) ok [unfolded r_def], folded r_def]
  have "obj_get tokens i = Some t" if "(i, t) \<in> set tokens" for i t
    using obj_entry_get [OF assms(2) that] .
  moreover have "obj_get tokens j = None" if "j \<notin> fst ` set tokens" for j
    using that by (simp add: obj_get_def map_of_eq_None_iff)
  ultimately show ?thesis using True ok eff by simp
next
  case False
  then have "\<not> snd r" by (simp add: r_def unlock_success_iff)
  then have "r = (d, False)"
    by (auto simp: r_def unlock_vault_credentials_def Let_def split: if_splits)
  with False show ?thesis by simp
qed

text \<open>C18: Locking a vault and then unlocking it with the token it had gives the same usable token
  back, with the same encrypted lock cached.\<close>

theorem lock_then_unlock_restores:
  assumes "store_good d" and "get_vault_owner_token i d = Some t" and "t \<noteq> []"
    and "lock_validated lk"
  defines "d1 \<equiv> fst (lock_vault_credential i lk d)"
  defines "r \<equiv> unlock_vault_credentials [(i, t)] d1"
  shows "\<not> truthy (get_vault_owner_token i d1) \<and> snd r
    \<and> get_vault_owner_token i (fst r) = Some t \<and> lock_of i (fst r) = Some lk"
proof -
  have tr: "truthy (get_vault_owner_token i d)" using assms(2,3) by simp
  note le = lock_effect [OF assms(1,4) tr, folded d1_def]
  have lk: "lock_of i d1 = Some lk" using le(4) by (auto simp: lock_of_def)
  then have ok: "snd r" using assms(3) by (simp add: r_def unlock_success_iff)
  note ue = unlock_effect [OF le(2) _ ok [unfolded r_def], folded r_def]
  have "lock_of i (fst r) = Some lk"
    using ue(2) [of i] le(4) assms(4)
    by (auto simp: obj_ok_def obj_get_def lock_of_def unlocked_meta_def)
  then show ?thesis using ok ue(3) [of i] le(3) by (simp add: obj_ok_def obj_get_def)
qed

section \<open>Removal and selection\<close>

lemma remove_effect:
  assumes "store_good d" and "get_vault_meta i d \<noteq> None"
  defines "d' \<equiv> fst (remove_vault_meta i d)"
  shows "snd (remove_vault_meta i d)"
    and "get_vault_meta j d' = (if j = i then None else get_vault_meta j d)"
    and "get_vault_owner_token j d' = (if j = i then None else get_vault_owner_token j d)"
    and "obj_keys (read_all d') = filter (\<lambda>x. x \<noteq> i) (obj_keys (read_all d))"
    and "get_active_vault_id d' =
           (if get_active_vault_id d = Some i
            then (case filter (\<lambda>x. x \<noteq> i) (obj_keys (read_all d)) of
                    [] \<Rightarrow> None | k # _ \<Rightarrow> if k = [] then None else Some k)
            else get_active_vault_id d)"
proof -
  let ?d1 = "write_all (obj_del i (read_all d)) (delete_live_token i d)"
  have has: "obj_has (read_all d) i" using assms(2) by (simp add: obj_has_iff get_vault_meta_def)
  have w: "storage_works d" "obj_ok (read_all d)" "obj_ok (read_live_tokens d)"
    using assms(1) by (simp_all add: store_good_def)
  have act1: "get_active_vault_id ?d1 = get_active_vault_id d"
    by (simp add: get_active_vault_id_def store_frame)
  have d': "d' = (if get_active_vault_id d = Some i
      then set_active_vault_id (case filter (\<lambda>x. x \<noteq> i) (obj_keys (read_all d)) of
             [] \<Rightarrow> None | k # _ \<Rightarrow> Some k) ?d1 else ?d1)"
    by (simp add: d'_def remove_vault_meta_def Let_def has act1 obj.keys_del)
  show "snd (remove_vault_meta i d)" by (simp add: remove_vault_meta_def Let_def has)
  have ra: "read_all d' = obj_del i (read_all d)"
    using w by (simp add: d' store_frame store_reads)
  then show "obj_keys (read_all d') = filter (\<lambda>x. x \<noteq> i) (obj_keys (read_all d))"
    by (simp add: obj.keys_del)
  from ra w show gm: "get_vault_meta j d' = (if j = i then None else get_vault_meta j d)"
    by (simp add: get_vault_meta_def obj_laws)
  have "obj_get (read_live_tokens d') j = (if j = i then None else obj_get (read_live_tokens d) j)"
    using w by (simp add: d' store_frame store_reads)
  with gm show "get_vault_owner_token j d' = (if j = i then None else get_vault_owner_token j d)"
    by (simp add: get_vault_owner_token_def get_vault_meta_def)
  show "get_active_vault_id d' =
           (if get_active_vault_id d = Some i
            then (case filter (\<lambda>x. x \<noteq> i) (obj_keys (read_all d)) of
                    [] \<Rightarrow> None | k # _ \<Rightarrow> if k = [] then None else Some k)
            else get_active_vault_id d)"
    using w act1 by (auto simp: d' store_frame store_reads split: list.split)
qed

text \<open>Removing a vault forgets its entry and its token and no other vault's, and never leaves
  the active pointer dangling: if the pointer named a stored vault (with a non-empty id) before,
  then afterwards it names a stored vault, unless the removed vault was the last one.\<close>

theorem remove_keeps_active_pointer_valid:
  assumes "store_good d" and "get_vault_meta i d \<noteq> None" and "get_vault_meta [] d = None"
    and "get_active_vault_id d = Some a" and "get_vault_meta a d \<noteq> None"
  defines "d' \<equiv> fst (remove_vault_meta i d)"
  shows "get_vault_meta i d' = None \<and> get_vault_owner_token i d' = None
    \<and> (\<forall>j. j = i \<or> get_vault_meta j d' = get_vault_meta j d
            \<and> get_vault_owner_token j d' = get_vault_owner_token j d)
    \<and> (case get_active_vault_id d' of
          None \<Rightarrow> obj_keys (read_all d') = []
        | Some b \<Rightarrow> get_vault_meta b d' \<noteq> None)"
proof -
  note re = remove_effect [OF assms(1,2), folded d'_def]
  have keys: "k \<in> set (obj_keys (read_all d')) \<longleftrightarrow> get_vault_meta k d' \<noteq> None" for k
    by (simp add: obj.keys_get get_vault_meta_def)
  have ne: "[] \<notin> set (obj_keys (read_all d'))"
    using keys [of "[]"] re(2) [of "[]"] assms(3) by simp
  have "case get_active_vault_id d' of None \<Rightarrow> obj_keys (read_all d') = []
      | Some b \<Rightarrow> get_vault_meta b d' \<noteq> None"
  proof (cases "a = i")
    case True
    then have "get_active_vault_id d' = (case obj_keys (read_all d') of
        [] \<Rightarrow> None | k # _ \<Rightarrow> if k = [] then None else Some k)"
      using re(4,5) assms(4) by simp
    then show ?thesis
      using ne keys [of "hd (obj_keys (read_all d'))"]
      by (cases "obj_keys (read_all d')") (auto simp del: not_None_eq)
  next
    case False
    then show ?thesis using re(2) [of a] re(5) assms(4,5) by simp
  qed
  then show ?thesis using re(2,3) by auto
qed

text \<open>Every stored entry is filed under its own identifier.\<close>

definition filed :: "device \<Rightarrow> bool" where
  "filed d = list_all (\<lambda>(k, m). vm_id m = k \<and> k \<noteq> []) (read_all d)"

lemma filed_values:
  "filed d \<Longrightarrow> m \<in> set (obj_values (read_all d)) \<longleftrightarrow> (vm_id m, m) \<in> set (read_all d)"
  by (force simp: filed_def obj_values_def list_all_iff)

text \<open>The vault offered for a local password unlock: the active one when it can be unlocked;
  otherwise the answer is a stored vault that can be, and none is offered only when no stored vault
  can be unlocked. A dropped pointer never hides usable credentials.\<close>

theorem trusted_vault_sound_complete:
  assumes "store_good d" and "filed d"
  shows "(case get_trusted_vault_id lc d of
      Some i \<Rightarrow> can_local_unlock (Some i) d \<and> get_vault_meta i d \<noteq> None
        \<and> (can_local_unlock (get_active_vault_id d) d \<longrightarrow> get_active_vault_id d = Some i)
    | None \<Rightarrow> \<forall>i. \<not> can_local_unlock (Some i) d)"
proof -
  have stored: "get_vault_meta i d \<noteq> None" if "can_local_unlock (Some i) d" for i
    using that by (auto simp: can_local_unlock_def get_vault_meta_def split: if_splits option.splits)
  have none: "\<not> can_local_unlock None d" by (simp add: can_local_unlock_def)
  show ?thesis
  proof (cases "can_local_unlock (get_active_vault_id d) d")
    case True
    then show ?thesis using none stored
      by (cases "get_active_vault_id d") (auto simp: get_trusted_vault_id_def)
  next
    case False
    show ?thesis
    proof (cases "find (\<lambda>m. can_local_unlock (Some (vm_id m)) d) (get_all_vault_metas lc d)")
      case None
      have "\<not> can_local_unlock (Some i) d" for i
      proof
        assume c: "can_local_unlock (Some i) d"
        then obtain m where "obj_get (read_all d) i = Some m"
          using stored by (auto simp: get_vault_meta_def)
        then have "(i, m) \<in> set (read_all d)" by (rule obj_get_entry)
        then have "m \<in> set (get_all_vault_metas lc d)" and "vm_id m = i"
          using assms(2) by (force simp: get_all_vault_metas_set obj_values_def filed_def list_all_iff)+
        with None c show False by (auto simp: find_None_iff)
      qed
      then show ?thesis using False None by (simp add: get_trusted_vault_id_def)
    next
      case (Some m)
      then have "can_local_unlock (Some (vm_id m)) d" by (auto simp: find_Some_iff)
      then show ?thesis using False Some stored by (simp add: get_trusted_vault_id_def)
    qed
  qed
qed

section \<open>Order, groups and inactivity\<close>

text \<open>The list of all vaults is a permutation of the stored ones, oldest first with ties broken
  by identifier, and a group's list is exactly its members, oldest first.\<close>

theorem vault_lists_sorted:
  "mset (get_all_vault_metas lc d) = mset (obj_values (read_all d))
   \<and> Sorting_Algorithms.sorted (meta_order lc) (get_all_vault_metas lc d)
   \<and> set (get_vaults_by_group lc g d)
       = {m. truthy g \<and> m \<in> set (get_all_vault_metas lc d) \<and> vm_group_id m = g}
   \<and> Sorting_Algorithms.sorted (key vm_created_at lc) (get_vaults_by_group lc g d)"
  by (auto simp: get_all_vault_metas_def get_vaults_by_group_def js_sort_sorted)

text \<open>Two members of a group created at the same instant: the group list keeps storage order, the
  list of all vaults orders by identifier.\<close>

definition working_area :: area_mode where
  "working_area = \<lparr>reads_ok = True, sets_ok = True, removes_ok = True\<rparr>"

definition sample_meta :: "jstr \<Rightarrow> jstr \<Rightarrow> vault_meta" where
  "sample_meta i g = \<lparr>vm_id = i, vm_label = ''v'', vm_owner = \<lparr>oi_address = ''a@b.c''\<rparr>,
     vm_heir = \<lparr>hi_name = ''h'', hi_email = [], hi_address = []\<rparr>, vm_created_at = ''2026'',
     vm_owner_token = None, vm_lock = None, vm_group_id = Some g\<rparr>"

definition sample_device :: "vault_meta obj \<Rightarrow> jstr obj \<Rightarrow> device" where
  "sample_device m l = \<lparr>has_window = True, local_mode = working_area, session_mode = working_area,
     dv_vaults = Holds m, dv_active = None, dv_activity = NoStamp, dv_live = Holds l\<rparr>"

text \<open>The two list functions do not always agree on the order of a group, although the comment
  on \<open>getAllVaultMetas\<close> says they must: with equal creation times, the group list keeps storage
  order while the list of all vaults orders by identifier.\<close>

theorem group_order_can_disagree:
  "\<exists>d. get_vaults_by_group default (Some ''g'') d
      \<noteq> filter (\<lambda>m. vm_group_id m = Some ''g'') (get_all_vault_metas default d)"
proof
  let ?d = "sample_device [(''b'', sample_meta ''b'' ''g''), (''a'', sample_meta ''a'' ''g'')] []"
  have r: "read_all ?d = [(''b'', sample_meta ''b'' ''g''), (''a'', sample_meta ''a'' ''g'')]"
    by (simp add: read_all_def sample_device_def working_area_def)
  have k: "compare (meta_order default) (sample_meta ''b'' ''g'') (sample_meta ''a'' ''g'') = Greater"
    "compare (meta_order default) (sample_meta ''a'' ''g'') (sample_meta ''b'' ''g'') = Less"
    by (simp_all add: meta_order_def compare_prod_lex_apply sample_meta_def)
  have "get_vaults_by_group default (Some ''g'') ?d
      = [sample_meta ''b'' ''g'', sample_meta ''a'' ''g'']"
    unfolding get_vaults_by_group_def r obj_values_def js_sort_def
    by (simp add: sample_meta_def)
  moreover have "get_all_vault_metas default ?d = [sample_meta ''a'' ''g'', sample_meta ''b'' ''g'']"
    by (simp add: get_all_vault_metas_def r obj_values_def js_sort_def k)
  ultimately show "get_vaults_by_group default (Some ''g'') ?d
      \<noteq> filter (\<lambda>m. vm_group_id m = Some ''g'') (get_all_vault_metas default ?d)"
    by (simp add: sample_meta_def)
qed

text \<open>The inactivity lock fires exactly when a vault is active and ten minutes have passed since
  the recorded activity; a missing or unreadable stamp is replaced by the current time and does not
  lock.\<close>

theorem session_expiry:
  assumes "storage_works d" and "truthy (get_active_vault_id d)"
  shows "session_expired now d =
    (case dv_activity d of
       Stamp t0 \<Rightarrow> (d, t0 + 600000 \<le> now)
     | _ \<Rightarrow> (d\<lparr>dv_activity := Stamp now\<rparr>, False))
    \<and> (\<forall>t. snd (session_expired t (touch_session now d)) \<longleftrightarrow> now + 600000 \<le> t)"
proof -
  have m: "reads_ok (local_mode d)" "sets_ok (local_mode d)"
    using assms(1) by (simp_all add: storage_works_def area_works_def)
  have a: "get_active_vault_id (touch_session now d) = get_active_vault_id d"
    by (simp add: get_active_vault_id_def store_frame)
  have s: "dv_activity (touch_session now d) = Stamp now" using m by (simp add: touch_session_def)
  have "session_expired t (touch_session now d) = (touch_session now d, now + 600000 \<le> t)" for t
    using a m s assms(2)
    by (auto simp: session_expired_def session_timeout_ms_def store_frame)
  then show ?thesis using assms(2) m
    by (auto simp: session_expired_def session_timeout_ms_def touch_session_def split: stamp.split)
qed

text \<open>Unlocking needs a writable session area. When \<open>sessionStorage\<close> refuses the write, the
  call still reports success, removes any token kept in localStorage, and leaves the vault without
  a usable token at once, not only after a reload as the comment on \<open>writeLiveTokens\<close> says.\<close>

theorem unlock_without_session_storage:
  assumes "has_window d" and "area_works (local_mode d)" and "\<not> sets_ok (session_mode d)"
    and "lock_of i d \<noteq> None" and "t \<noteq> []" and "obj_get (read_live_tokens d) i = None"
  defines "r \<equiv> unlock_vault_credentials [(i, t)] d"
  shows "snd r \<and> get_vault_owner_token i (fst r) = None
    \<and> (i \<noteq> [] \<longrightarrow> has_locked_vault_credential (Some i) (fst r))"
proof -
  obtain m lk where m: "obj_get (read_all d) i = Some m" and lk: "vm_lock m = Some lk"
    using assms(4) by (auto simp: lock_of_def get_vault_meta_def bind_eq_Some_conv)
  have ne: "obj_set i t (read_live_tokens d) \<noteq> []"
    by (simp add: obj_set_def)
  have r: "r = (write_all (mark_unlocked (i, t) (read_all d)) d, True)"
    using assms(3,5) m lk ne
    by (simp add: r_def unlock_vault_credentials_def Let_def write_live_tokens_def)
  have ra: "read_all (fst r) = mark_unlocked (i, t) (read_all d)"
    using assms(1,2) by (simp add: r read_all_def write_all_def area_works_def)
  have rl: "read_live_tokens (fst r) = read_live_tokens d" by (simp add: r store_frame)
  have tok: "get_vault_owner_token i (fst r) = None"
    using assms(6) m by (simp add: get_vault_owner_token_def ra rl mark_unlocked_get)
  moreover have "has_locked_vault_credential (Some i) (fst r)" if "i \<noteq> []"
    using that m lk tok by (simp add: has_locked_vault_credential_def ra mark_unlocked_get)
  ultimately show ?thesis by (simp add: r)
qed

section \<open>Runs of the store\<close>

text \<open>
  Any sequence of the module's mutating calls. The locks handed to \<open>saveVaultCredentialLock\<close> are
  candidates (not yet validated), as its comment says; a saved vault has an identifier; the tokens
  to unlock form an object.
\<close>

datatype store_event =
    Save vault_meta
  | CacheLock jstr locked_owner_token
  | LockNow jstr locked_owner_token
  | Unlock "jstr obj"
  | Remove jstr
  | Activate "jstr option"
  | Touch int

fun apply_event :: "store_event \<Rightarrow> device \<Rightarrow> device" where
  "apply_event (Save m) d = save_vault_meta m d"
| "apply_event (CacheLock i lk) d = fst (save_vault_credential_lock i lk d)"
| "apply_event (LockNow i lk) d = fst (lock_vault_credential i lk d)"
| "apply_event (Unlock toks) d = fst (unlock_vault_credentials toks d)"
| "apply_event (Remove i) d = fst (remove_vault_meta i d)"
| "apply_event (Activate i) d = set_active_vault_id i d"
| "apply_event (Touch now) d = touch_session now d"

fun admissible :: "store_event \<Rightarrow> bool" where
  "admissible (Save m) = (vm_id m \<noteq> [])"
| "admissible (CacheLock i lk) = (\<not> lock_validated lk)"
| "admissible (Unlock toks) = obj_ok toks"
| "admissible _ = True"

inductive store_reaches :: "device \<Rightarrow> device \<Rightarrow> bool" where
  reach_start: "store_reaches d d"
| reach_step: "store_reaches d0 d \<Longrightarrow> admissible e \<Longrightarrow> store_reaches d0 (apply_event e d)"

definition store_inv :: "device \<Rightarrow> bool" where
  "store_inv d = (store_good d
     \<and> (\<forall>i m. get_vault_meta i d = Some m \<longrightarrow> vm_id m = i \<and> i \<noteq> []
          \<and> (\<forall>lk. vm_lock m = Some lk \<longrightarrow> lock_validated lk \<longrightarrow> \<not> truthy (vm_owner_token m)))
     \<and> (\<forall>i. obj_get (read_live_tokens d) i \<noteq> None \<longrightarrow> get_vault_meta i d \<noteq> None))"

lemma store_inv_good: "store_inv d \<Longrightarrow> store_good d"
  by (simp add: store_inv_def)

lemma store_inv_meta:
  "store_inv d \<Longrightarrow> get_vault_meta i d = Some m \<Longrightarrow> vm_id m = i \<and> i \<noteq> []"
  by (simp add: store_inv_def)

lemmas store_unfold = store_good_def get_vault_meta_def store_frame store_reads obj_laws

lemma save_inv: "store_inv d \<Longrightarrow> vm_id m \<noteq> [] \<Longrightarrow> store_inv (save_vault_meta m d)"
  by (auto simp: store_inv_def save_vault_meta_def Let_def store_unfold
      split: if_splits option.splits)

lemma cache_inv:
  "store_inv d \<Longrightarrow> \<not> lock_validated lk \<Longrightarrow> store_inv (fst (save_vault_credential_lock i lk d))"
  by (auto simp: store_inv_def save_vault_credential_lock_def Let_def store_unfold
      split: if_splits option.splits)

lemma lock_inv:
  assumes "store_inv d"
  shows "store_inv (fst (lock_vault_credential i lk d))"
proof (cases "obj_get (read_all d) i")
  case None
  with assms have "obj_get (read_live_tokens d) i = None"
    by (auto simp: store_inv_def get_vault_meta_def)
  with None have "get_vault_owner_token i d = None" by (simp add: get_vault_owner_token_def)
  then show ?thesis using assms by (simp add: cred.lock_refused)
next
  case (Some m)
  then show ?thesis using assms
    by (auto simp: store_inv_def lock_vault_credential_def Let_def store_unfold split: if_splits)
qed

lemma remove_inv: "store_inv d \<Longrightarrow> store_inv (fst (remove_vault_meta i d))"
  by (auto simp: store_inv_def remove_vault_meta_def Let_def store_unfold obj_has_iff
      split: if_splits)

lemma unlock_live:
  assumes good: "store_good d" and "obj_ok toks" and ok: "snd (unlock_vault_credentials toks d)"
    and live: "\<And>j. obj_get (read_live_tokens d) j \<noteq> None \<Longrightarrow> get_vault_meta j d \<noteq> None"
  defines "d' \<equiv> fst (unlock_vault_credentials toks d)"
  assumes l: "obj_get (read_live_tokens d') i \<noteq> None"
  shows "get_vault_meta i d' \<noteq> None"
proof (cases "obj_get toks i")
  case None
  have "read_live_tokens d' = fold (\<lambda>(i, t). obj_set i t) toks (read_live_tokens d)"
    using ok good
    by (auto simp: d'_def unlock_vault_credentials_def Let_def store_good_def store_frame store_reads)
  moreover have "map_of (rev toks) i = None"
    using None assms(2) by (simp add: obj_ok_def obj_get_def map_of_rev_distinct)
  ultimately have "obj_get (read_live_tokens d) i \<noteq> None"
    using l by (simp add: obj.get_put_all)
  then show ?thesis using live unlock_effect(2) [OF good assms(2) ok, of i] None by (simp add: d'_def)
next
  case (Some t)
  then have "lock_of i d \<noteq> None"
    using ok unlock_success_iff [of toks d] obj_get_entry [OF Some] by auto
  then show ?thesis
    using unlock_effect(2) [OF good assms(2) ok, of i] by (auto simp: d'_def lock_of_def bind_eq_Some_conv)
qed

lemma unlock_inv:
  assumes "store_inv d" and "obj_ok toks"
  shows "store_inv (fst (unlock_vault_credentials toks d))"
proof (cases "snd (unlock_vault_credentials toks d)")
  case True
  note good = store_inv_good [OF assms(1)]
  note ue = unlock_effect [OF good assms(2) True]
  let ?d = "fst (unlock_vault_credentials toks d)"
  have live: "get_vault_meta i ?d \<noteq> None" if "obj_get (read_live_tokens ?d) i \<noteq> None" for i
    using unlock_live [OF good assms(2) True _ that] assms(1) by (simp add: store_inv_def)
  have meta: "vm_id m = i \<and> i \<noteq> [] \<and> (\<forall>lk. vm_lock m = Some lk \<longrightarrow> lock_validated lk \<longrightarrow>
      \<not> truthy (vm_owner_token m))" if "get_vault_meta i ?d = Some m" for i m
    using that ue(2) [of i] assms(1)
    by (auto simp: store_inv_def unlocked_meta_def split: if_splits)
  show ?thesis using ue(1) live meta unfolding store_inv_def by blast
next
  case False
  then have "fst (unlock_vault_credentials toks d) = d"
    by (auto simp: unlock_vault_credentials_def Let_def split: if_splits)
  then show ?thesis using assms(1) by simp
qed

lemma event_inv: "store_inv d \<Longrightarrow> admissible e \<Longrightarrow> store_inv (apply_event e d)"
proof (cases e)
  case (Activate i)
  then show "store_inv d \<Longrightarrow> ?thesis" by (simp add: store_inv_def store_unfold)
next
  case (Touch now)
  then show "store_inv d \<Longrightarrow> ?thesis" by (simp add: store_inv_def store_unfold)
qed (simp_all add: save_inv cache_inv lock_inv remove_inv unlock_inv)


section \<open>Concrete devices\<close>

definition sample_lock :: locked_owner_token where
  "sample_lock = \<lparr>lk_salt = ''c2FsdA=='', lk_mem_kib = 65536, lk_iters = 3,
     lk_blob = mk_blob ''Y3Q='' ''bm9uY2U='', lk_email_hash = ''ab12'', lk_validated = Some True\<rparr>"

definition locked_meta :: vault_meta where
  "locked_meta = (sample_meta ''a'' ''g'')\<lparr>vm_lock := Some sample_lock\<rparr>"

definition fresh_device :: device where
  "fresh_device = sample_device [] []"

definition unlocked_device :: device where
  "unlocked_device = sample_device [(''a'', locked_meta)] [(''a'', ''tok'')]"

lemma sample_reads [simp]:
  "read_all (sample_device m l) = m"
  "read_live_tokens (sample_device m l) = l"
  "storage_works (sample_device m l)"
  "get_active_vault_id (sample_device m l) = None"
  by (simp_all add: read_all_def read_live_tokens_def storage_works_def area_works_def
      sample_device_def working_area_def get_active_vault_id_def)

lemma sample_good: "store_good fresh_device" "store_good unlocked_device"
  by (simp_all add: fresh_device_def unlocked_device_def store_good_def obj_ok_def)

lemma unlocked_device_facts:
  "get_vault_owner_token ''a'' unlocked_device = Some ''tok''"
  "get_vault_meta ''a'' unlocked_device = Some locked_meta"
  "lock_of ''a'' unlocked_device = Some sample_lock"
  by (simp_all add: unlocked_device_def get_vault_owner_token_def get_vault_meta_def lock_of_def
      obj_get_def locked_meta_def)

lemma locked_meta_facts [simp]:
  "vm_id locked_meta = ''a''" "vm_owner_token locked_meta = None"
  "vm_lock locked_meta = Some sample_lock"
  by (simp_all add: locked_meta_def sample_meta_def)

lemma sample_lock_validated [simp]: "lock_validated sample_lock"
  by (simp add: sample_lock_def)

theorem save_keeps_token_off_disk_witness:
  "get_vault_owner_token ''a'' (save_vault_meta (locked_meta\<lparr>vm_owner_token := Some ''tok''\<rparr>)
     fresh_device) = Some ''tok''"
  using save_keeps_token_off_disk [OF sample_good(1),
      of "locked_meta\<lparr>vm_owner_token := Some ''tok''\<rparr>" "''tok''" sample_lock]
  by (simp add: locked_meta_def sample_meta_def sample_lock_def)

theorem lock_replaces_token_by_ciphertext_witness:
  "get_vault_owner_token ''a'' (fst (lock_vault_credential ''a'' sample_lock unlocked_device)) = None"
  using lock_replaces_token_by_ciphertext [OF sample_good(2), of sample_lock "''a''"]
  by (simp add: unlocked_device_facts sample_lock_validated)

theorem unlock_all_or_nothing_witness:
  "snd (unlock_vault_credentials [(''a'', ''new'')] unlocked_device)
   \<and> get_vault_owner_token ''a'' (fst (unlock_vault_credentials [(''a'', ''new'')] unlocked_device))
       = Some ''new''"
  using unlock_all_or_nothing [OF sample_good(2), of "[(''a'', ''new'')]"]
  by (simp add: unlocked_device_facts obj_ok_def)

theorem lock_then_unlock_restores_witness:
  "get_vault_owner_token ''a'' (fst (unlock_vault_credentials [(''a'', ''tok'')]
     (fst (lock_vault_credential ''a'' sample_lock unlocked_device)))) = Some ''tok''"
  using lock_then_unlock_restores [OF sample_good(2) unlocked_device_facts(1) _ sample_lock_validated]
  by simp

theorem remove_keeps_active_pointer_valid_witness:
  "get_vault_meta ''a'' (fst (remove_vault_meta ''a''
     (set_active_vault_id (Some ''a'') unlocked_device))) = None"
proof -
  let ?d = "set_active_vault_id (Some ''a'') unlocked_device"
  have "store_good ?d" by (simp add: store_good_write sample_good)
  moreover have "get_vault_meta i ?d = get_vault_meta i unlocked_device" for i
    by (simp add: get_vault_meta_def store_frame)
  moreover have "get_active_vault_id ?d = Some ''a''"
    using sample_good(2) by (simp add: active_set_active store_good_def)
  moreover have "get_vault_meta [] unlocked_device = None"
    by (simp add: get_vault_meta_def unlocked_device_def obj_get_def)
  ultimately show ?thesis
    using remove_keeps_active_pointer_valid [of ?d "''a''" "''a''"]
    by (simp add: unlocked_device_facts)
qed

theorem trusted_vault_sound_complete_witness:
  "get_trusted_vault_id default unlocked_device = Some ''a''"
proof -
  have "filed unlocked_device"
    by (simp add: filed_def unlocked_device_def locked_meta_def sample_meta_def)
  from trusted_vault_sound_complete [OF sample_good(2) this, of default]
  show ?thesis
    by (cases "get_trusted_vault_id default unlocked_device")
      (auto simp: unlocked_device_def get_vault_meta_def can_local_unlock_def obj_get_def
        locked_meta_def split: if_splits)
qed

theorem session_expiry_witness:
  "snd (session_expired 700000 (touch_session 100000
     (set_active_vault_id (Some ''a'') unlocked_device)))"
proof -
  let ?d = "set_active_vault_id (Some ''a'') unlocked_device"
  have w: "storage_works ?d" using sample_good(2) by (simp add: store_frame store_good_def)
  have "truthy (get_active_vault_id ?d)"
    using sample_good(2) by (simp add: active_set_active store_good_def)
  from session_expiry [OF w this, of 100000] show ?thesis by simp
qed

theorem unlock_without_session_storage_witness:
  "get_vault_owner_token ''a'' (fst (unlock_vault_credentials [(''a'', ''tok'')]
     (sample_device [(''a'', locked_meta)] []
        \<lparr>session_mode := working_area\<lparr>sets_ok := False\<rparr>\<rparr>))) = None"
proof -
  let ?d = "sample_device [(''a'', locked_meta)] [] \<lparr>session_mode := working_area\<lparr>sets_ok := False\<rparr>\<rparr>"
  have "has_window ?d" "area_works (local_mode ?d)" "\<not> sets_ok (session_mode ?d)"
    "obj_get (read_live_tokens ?d) ''a'' = None"
    by (simp_all add: sample_device_def area_works_def working_area_def read_live_tokens_def)
  moreover have "lock_of ''a'' ?d \<noteq> None"
    by (simp add: lock_of_def get_vault_meta_def read_all_def sample_device_def working_area_def
        obj_get_def locked_meta_def)
  ultimately show ?thesis using unlock_without_session_storage [of ?d "''a''" "''tok''"] by simp
qed


end
