(* ===== verification/Store_Cells.thy ===== *)
theory Store_Cells
  imports Vault_Store
begin

text \<open>
  What the vault store is, without its storage areas: a map from vault identifiers to cells, each with
  the live token and the stored entry of one vault. The operations of vaultStore.ts, which rewrite two
  whole JSON objects in two areas, implement operations on single cells; a run of the store is the
  same run of the cells.
\<close>

section \<open>Cells\<close>

record cell =
  cl_live :: "jstr option"
  cl_entry :: "vault_meta option"

type_synonym cells = "jstr \<Rightarrow> cell"

definition cell_token :: "cell \<Rightarrow> jstr option" where
  "cell_token c = nullish (cl_live c) (Option.bind (cl_entry c) vm_owner_token)"

definition cell_lock :: "cell \<Rightarrow> locked_owner_token option" where
  "cell_lock c = Option.bind (cl_entry c) vm_lock"

definition validated_lock :: "vault_meta \<Rightarrow> bool" where
  "validated_lock m = (case vm_lock m of None \<Rightarrow> False | Some lk \<Rightarrow> lock_validated lk)"

fun save_cell :: "vault_meta \<Rightarrow> cell \<Rightarrow> cell" where
  "save_cell m c =
     (if truthy (vm_owner_token m) \<and> validated_lock m
      then \<lparr>cl_live = vm_owner_token m, cl_entry = Some (m\<lparr>vm_owner_token := None\<rparr>)\<rparr>
      else c\<lparr>cl_entry := Some m\<rparr>)"

fun cache_cell :: "locked_owner_token \<Rightarrow> cell \<Rightarrow> cell" where
  "cache_cell lk c =
     (case cl_entry c of
        None \<Rightarrow> c
      | Some m \<Rightarrow> if truthy (vm_owner_token m) then c\<lparr>cl_entry := Some (m\<lparr>vm_lock := Some lk\<rparr>)\<rparr> else c)"

fun lock_cell :: "locked_owner_token \<Rightarrow> cell \<Rightarrow> cell" where
  "lock_cell lk c =
     (if truthy (cell_token c) \<and> lock_validated lk
      then \<lparr>cl_live = None,
            cl_entry = Some ((case cl_entry c of None \<Rightarrow> missing_meta | Some m \<Rightarrow> m)
              \<lparr>vm_owner_token := None, vm_lock := Some lk\<rparr>)\<rparr>
      else c)"

fun unlock_cell :: "jstr \<Rightarrow> cell \<Rightarrow> cell" where
  "unlock_cell t c = \<lparr>cl_live = Some t, cl_entry = map_option unlocked_meta (cl_entry c)\<rparr>"

fun remove_cell :: "cell \<Rightarrow> cell" where
  "remove_cell c = (if cl_entry c = None then c else \<lparr>cl_live = None, cl_entry = None\<rparr>)"

fun cell_step :: "store_event \<Rightarrow> cells \<Rightarrow> cells" where
  "cell_step (Save m) A = A(vm_id m := save_cell m (A (vm_id m)))"
| "cell_step (CacheLock i lk) A = A(i := cache_cell lk (A i))"
| "cell_step (LockNow i lk) A = A(i := lock_cell lk (A i))"
| "cell_step (Unlock toks) A =
     (if list_all (\<lambda>(i, t). cell_lock (A i) \<noteq> None \<and> t \<noteq> []) toks
      then (\<lambda>j. case obj_get toks j of None \<Rightarrow> A j | Some t \<Rightarrow> unlock_cell t (A j))
      else A)"
| "cell_step (Remove i) A = A(i := remove_cell (A i))"
| "cell_step (Activate i) A = A"
| "cell_step (Touch now) A = A"

section \<open>The storage areas implement the cells\<close>

definition cells :: "device \<Rightarrow> cells" where
  "cells d i = \<lparr>cl_live = obj_get (read_live_tokens d) i, cl_entry = get_vault_meta i d\<rparr>"

lemma cells_simps [simp]:
  "cl_live (cells d i) = obj_get (read_live_tokens d) i" "cl_entry (cells d i) = get_vault_meta i d"
  "cell_token (cells d i) = get_vault_owner_token i d" "cell_lock (cells d i) = lock_of i d"
  by (simp_all add: cells_def cell_token_def cell_lock_def get_vault_owner_token_def get_vault_meta_def lock_of_def)

lemma cell_eqI: "cl_live a = cl_live b \<Longrightarrow> cl_entry a = cl_entry b \<Longrightarrow> a = (b :: cell)"
  by simp

lemma cells_save: "store_good d \<Longrightarrow> cells (save_vault_meta m d) = cell_step (Save m) (cells d)"
  by (rule ext) (auto simp: save_vault_meta_def validated_lock_def Let_def store_unfold truthy_iff
      intro!: cell_eqI split: option.split)

lemma cells_cache:
  "store_good d \<Longrightarrow> cells (fst (save_vault_credential_lock i lk d)) = cell_step (CacheLock i lk) (cells d)"
  by (rule ext) (auto simp: save_vault_credential_lock_def Let_def store_unfold
      intro!: cell_eqI split: option.split)

lemma cells_lock:
  "store_good d \<Longrightarrow> cells (fst (lock_vault_credential i lk d)) = cell_step (LockNow i lk) (cells d)"
  by (rule ext) (auto simp: lock_vault_credential_def Let_def store_unfold
      intro!: cell_eqI split: option.split)

lemma cells_remove: "store_good d \<Longrightarrow> cells (fst (remove_vault_meta i d)) = cell_step (Remove i) (cells d)"
  by (rule ext) (auto simp: remove_vault_meta_def Let_def store_unfold obj_has_iff
      intro!: cell_eqI split: option.split)

lemma cells_unlock:
  assumes "store_good d" "obj_ok toks"
  shows "cells (fst (unlock_vault_credentials toks d)) = cell_step (Unlock toks) (cells d)"
proof (cases "snd (unlock_vault_credentials toks d)")
  case True
  note e = unlock_effect [OF assms True]
  have l: "list_all (\<lambda>(i, t). lock_of i d \<noteq> None \<and> t \<noteq> []) toks"
    using True unlock_success_iff [of toks d] by (auto simp: list_all_iff)
  have live: "obj_get (read_live_tokens (fst (unlock_vault_credentials toks d))) j
      = (case obj_get toks j of Some t \<Rightarrow> Some t | None \<Rightarrow> obj_get (read_live_tokens d) j)" for j
  proof -
    have "read_live_tokens (fst (unlock_vault_credentials toks d))
        = fold (\<lambda>(i, t). obj_set i t) toks (read_live_tokens d)"
      using True assms(1)
      by (auto simp: unlock_vault_credentials_def Let_def store_good_def store_frame store_reads)
    moreover have "map_of (rev toks) j = obj_get toks j"
      using assms(2) by (simp add: obj_ok_def obj_get_def map_of_rev_distinct)
    ultimately show ?thesis by (simp add: obj.get_put_all split: option.split)
  qed
  show ?thesis
    using l e(2) live by (auto intro!: ext cell_eqI split: option.splits)
next
  case False
  then have f: "\<not> list_all (\<lambda>(i, t). lock_of i d \<noteq> None \<and> t \<noteq> []) toks"
    using unlock_success_iff [of toks d] by (auto simp: list_all_iff)
  have "fst (unlock_vault_credentials toks d) = d"
    using False by (auto simp: unlock_vault_credentials_def Let_def split: if_splits)
  then show ?thesis using f by simp
qed

lemma cells_event:
  assumes "store_good d" "admissible e"
  shows "cells (apply_event e d) = cell_step e (cells d)"
proof (cases e)
  case (Activate i)
  with assms(1) show ?thesis by (auto simp: store_unfold intro!: ext cell_eqI)
next
  case (Touch now)
  with assms(1) show ?thesis by (auto simp: store_unfold intro!: ext cell_eqI)
qed (use assms cells_save cells_cache cells_lock cells_unlock cells_remove in
    \<open>simp_all del: cell_step.simps\<close>)

definition run_store :: "store_event list \<Rightarrow> device \<Rightarrow> device" where
  "run_store es d = fold apply_event es d"

lemma run_store_refines:
  "store_inv d \<Longrightarrow> list_all admissible es \<Longrightarrow>
     cells (run_store es d) = fold cell_step es (cells d) \<and> store_inv (run_store es d)"
proof (induction es arbitrary: d)
  case (Cons e es)
  from Cons.prems have "cells (apply_event e d) = cell_step e (cells d)" "store_inv (apply_event e d)"
    by (simp_all add: cells_event event_inv store_inv_good)
  with Cons show ?case by (simp add: run_store_def)
qed (simp add: run_store_def)



end
