(* ===== verification/Base64.thy ===== *)
theory Base64
  imports GK_Prelude "HOL-Library.Word"
begin

text \<open>
  Bytes and their base64 texts: the browser's \<open>btoa\<close> and \<open>atob\<close>, the codec of
  ghostkey-web/src/crypto/sealing.ts that tolerates base64url, and the VAPID key decoder of
  ghostkey-web/src/push.ts. A byte array is a list of 8-bit words; a binary string is a string whose
  characters are those bytes.
\<close>

type_synonym bytes = "8 word list"

section \<open>btoa and atob\<close>

definition b64_char :: "nat \<Rightarrow> char" where
  "b64_char n =
     (if n < 26 then char_of (65 + n)
      else if n < 52 then char_of (71 + n)
      else if n < 62 then char_of (n - 4)
      else if n = 62 then CHR ''+'' else CHR ''/'')"

definition b64_val :: "char \<Rightarrow> nat option" where
  "b64_val c =
     (let n = of_char c
      in if 65 \<le> n \<and> n \<le> 90 then Some (n - 65)
         else if 97 \<le> n \<and> n \<le> 122 then Some (n - 71)
         else if 48 \<le> n \<and> n \<le> 57 then Some (n + 4)
         else if n = 43 then Some 62
         else if n = 47 then Some 63
         else None)"

fun enc_groups :: "nat list \<Rightarrow> jstr" where
  "enc_groups [] = []"
| "enc_groups [a] = [b64_char (a div 4), b64_char (a mod 4 * 16), CHR ''='', CHR ''='']"
| "enc_groups [a, b] =
     [b64_char (a div 4), b64_char (a mod 4 * 16 + b div 16), b64_char (b mod 16 * 4), CHR ''='']"
| "enc_groups (a # b # c # r) =
     [b64_char (a div 4), b64_char (a mod 4 * 16 + b div 16), b64_char (b mod 16 * 4 + c div 64),
      b64_char (c mod 64)] @ enc_groups r"

definition btoa :: "jstr \<Rightarrow> jstr" where
  "btoa bin = enc_groups (map of_char bin)"

fun dec_groups :: "nat list \<Rightarrow> nat list" where
  "dec_groups (a # b # c # d # r) =
     [a * 4 + b div 16, b mod 16 * 16 + c div 4, c mod 4 * 64 + d] @ dec_groups r"
| "dec_groups [a, b, c] = [a * 4 + b div 16, b mod 16 * 16 + c div 4]"
| "dec_groups [a, b] = [a * 4 + b div 16]"
| "dec_groups r = []"

text \<open>ASCII white space, which \<open>atob\<close> drops.\<close>

definition b64_ws :: "char \<Rightarrow> bool" where
  "b64_ws c = (c \<in> {CHR 0x09, CHR 0x0A, CHR 0x0C, CHR 0x0D, CHR 0x20})"

definition drop_eq :: "jstr \<Rightarrow> jstr" where
  "drop_eq s = (if s \<noteq> [] \<and> last s = CHR ''='' then butlast s else s)"

fun vals :: "jstr \<Rightarrow> nat list option" where
  "vals [] = Some []"
| "vals (c # s) =
     (case b64_val c of None \<Rightarrow> None | Some v \<Rightarrow> map_option ((#) v) (vals s))"

text \<open>The error of \<open>atob\<close> is an \<open>InvalidCharacterError\<close>.\<close>

definition atob_error :: jstr where
  "atob_error = ''The string to be decoded is not correctly encoded.''"

definition atob :: "jstr \<Rightarrow> (jstr, jstr) throws" where
  "atob s =
     (let s1 = filter (\<lambda>c. \<not> b64_ws c) s;
          s2 = (if length s1 mod 4 = 0 then drop_eq (drop_eq s1) else s1)
      in if length s2 mod 4 = 1 then Inl atob_error
         else (case vals s2 of
                 None \<Rightarrow> Inl atob_error
               | Some vs \<Rightarrow> Inr (map char_of (dec_groups vs))))"

section \<open>The program's codecs\<close>

definition b64encode :: "bytes \<Rightarrow> jstr" where
  "b64encode bs = btoa (map (\<lambda>b. char_of (unat b)) bs)"

definition bin_bytes :: "jstr \<Rightarrow> bytes" where
  "bin_bytes bin = map (\<lambda>c. word_of_nat (of_char c)) bin"

definition url_to_std :: "jstr \<Rightarrow> jstr" where
  "url_to_std s = map (\<lambda>c. if c = CHR ''_'' then CHR ''/'' else c)
     (map (\<lambda>c. if c = CHR ''-'' then CHR ''+'' else c) s)"

definition b64decode :: "jstr \<Rightarrow> (jstr, bytes) throws" where
  "b64decode s =
     (let norm = url_to_std s;
          pad = length norm mod 4;
          norm' = (if pad = 2 then norm @ ''=='' else if pad = 3 then norm @ ''='' else norm)
      in and_then (atob norm') (\<lambda>bin. Inr (bin_bytes bin)))"

text \<open>\<open>urlBase64ToUint8Array\<close> of push.ts pads first and translates the alphabet after.\<close>

definition url_base64_to_bytes :: "jstr \<Rightarrow> (jstr, bytes) throws" where
  "url_base64_to_bytes base64url =
     (let padding = replicate ((4 - length base64url mod 4) mod 4) CHR ''='';
          base64 = url_to_std (base64url @ padding)
      in and_then (atob base64) (\<lambda>raw. Inr (bin_bytes raw)))"

section \<open>Round trips\<close>

lemma b64_val_char: "n < 64 \<Longrightarrow> b64_val (b64_char n) = Some n"
  by (auto simp: b64_val_def b64_char_def Let_def)

lemma b64_char_plain:
  "n < 64 \<Longrightarrow> b64_char n \<noteq> CHR ''='' \<and> \<not> b64_ws (b64_char n)
     \<and> b64_char n \<noteq> CHR ''-'' \<and> b64_char n \<noteq> CHR ''_''"
proof -
  assume "n < 64"
  then have "b64_val (b64_char n) = Some n" by (rule b64_val_char)
  moreover have "b64_val c = None" if "c \<in> set ''=-_'' \<or> b64_ws c" for c
    using that by (auto simp: b64_val_def b64_ws_def)
  ultimately show ?thesis by fastforce
qed

text \<open>The sextets of a byte list, and the encoding as their characters with padding.\<close>

fun sextets :: "nat list \<Rightarrow> nat list" where
  "sextets [] = []"
| "sextets [a] = [a div 4, a mod 4 * 16]"
| "sextets [a, b] = [a div 4, a mod 4 * 16 + b div 16, b mod 16 * 4]"
| "sextets (a # b # c # r) =
     [a div 4, a mod 4 * 16 + b div 16, b mod 16 * 4 + c div 64, c mod 64] @ sextets r"

definition pad_len :: "nat \<Rightarrow> nat" where
  "pad_len n = (3 - n mod 3) mod 3"

lemma enc_groups_sextets:
  "enc_groups xs = map b64_char (sextets xs) @ replicate (pad_len (length xs)) CHR ''=''"
  by (induction xs rule: sextets.induct) (simp_all add: pad_len_def numeral_2_eq_2)

lemma length_sextets:
  "length (sextets xs) = 4 * (length xs div 3) + (if length xs mod 3 = 0 then 0 else length xs mod 3 + 1)"
proof (induction xs rule: sextets.induct)
  case (4 a b c r)
  have "(length r + 3) div 3 = length r div 3 + 1" by simp
  with 4 show ?case by (simp add: add.commute)
qed simp_all

lemma sextets_bound: "\<forall>x\<in>set xs. x < 256 \<Longrightarrow> \<forall>y\<in>set (sextets xs). y < 64"
proof (induction xs rule: sextets.induct)
  case (4 a b c r)
  have "x mod 4 * 16 + y div 16 < 64" if "y < 256" for x y :: nat
    using that mod_less_divisor [of 4 x] div_less_iff_less_mult [of 16 y 16] by linarith
  moreover have "x mod 16 * 4 + y div 64 < 64" if "y < 256" for x y :: nat
    using that mod_less_divisor [of 16 x] div_less_iff_less_mult [of 64 y 4] by linarith
  ultimately show ?case using 4 by (simp add: div_less_iff_less_mult)
next
  case (3 a b)
  have "a mod 4 * 16 + b div 16 < 64"
    using 3 mod_less_divisor [of 4 a] div_less_iff_less_mult [of 16 b 16] by simp
  then show ?case using 3 mod_less_divisor [of 16 b] by (simp add: div_less_iff_less_mult)
next
  case (2 a)
  then show ?case using mod_less_divisor [of 4 a] by (simp add: div_less_iff_less_mult)
qed simp

lemma dec_sextets: "\<forall>x\<in>set xs. x < 256 \<Longrightarrow> dec_groups (sextets xs) = xs"
proof (induction xs rule: sextets.induct)
  case (4 a b c r)
  have "(a mod 4 * 16 + b div 16) div 16 = a mod 4" "(a mod 4 * 16 + b div 16) mod 16 = b div 16"
    "(b mod 16 * 4 + c div 64) div 4 = b mod 16" "(b mod 16 * 4 + c div 64) mod 4 = c div 64"
    using 4 div_less_iff_less_mult [of 16 b 16] div_less_iff_less_mult [of 64 c 4] by simp_all
  with 4 show ?case by simp
next
  case (3 a b)
  then have "(a mod 4 * 16 + b div 16) div 16 = a mod 4" "(a mod 4 * 16 + b div 16) mod 16 = b div 16"
    using div_less_iff_less_mult [of 16 b 16] by simp_all
  then show ?case by simp
qed simp_all

lemma vals_chars: "\<forall>y\<in>set ys. y < 64 \<Longrightarrow> vals (map b64_char ys) = Some ys"
  by (induction ys) (simp_all add: b64_val_char)

lemma no_ws_filter: "\<forall>c\<in>set s. \<not> b64_ws c \<Longrightarrow> filter (\<lambda>c. \<not> b64_ws c) s = s"
  by (simp add: filter_id_conv)

lemma drop_eq_simps:
  "drop_eq (s @ [CHR ''='']) = s" "s = [] \<or> last s \<noteq> CHR ''='' \<Longrightarrow> drop_eq s = s"
  by (auto simp: drop_eq_def)

lemma plain_ends:
  assumes "\<forall>y\<in>set ys. y < 64"
  shows "map b64_char ys = [] \<or> last (map b64_char ys) \<noteq> CHR ''=''"
  using assms b64_char_plain by (cases ys rule: rev_cases) auto

text \<open>\<open>atob\<close> on the characters of the sextets, with all of the padding or none.\<close>

lemma atob_sextets:
  assumes b: "\<forall>x\<in>set xs. x < 256" and k: "k = 0 \<or> k = pad_len (length xs)"
  shows "atob (map b64_char (sextets xs) @ replicate k CHR ''='') = Inr (map char_of xs)"
proof -
  let ?t = "map b64_char (sextets xs)"
  have y: "\<forall>y\<in>set (sextets xs). y < 64" using sextets_bound [OF b] .
  have ws: "\<forall>c\<in>set (?t @ replicate k CHR ''=''). \<not> b64_ws c"
    using y b64_char_plain by (auto simp: b64_ws_def)
  have len: "length ?t mod 4 = (if length xs mod 3 = 0 then 0 else length xs mod 3 + 1)"
    using mod_less_divisor [of 3 "length xs"] by (simp add: length_sextets)
  have r3: "length xs mod 3 = 0 \<or> length xs mod 3 = 1 \<or> length xs mod 3 = 2" by presburger
  have d: "drop_eq ?t = ?t" using plain_ends [OF y] drop_eq_simps(2) by blast
  have s2: "(if length (?t @ replicate k CHR ''='') mod 4 = 0
      then drop_eq (drop_eq (?t @ replicate k CHR ''='')) else ?t @ replicate k CHR ''='') = ?t"
  proof (cases "k = 0")
    case True
    then show ?thesis by (simp add: d del: length_map)
  next
    case False
    with k r3 consider "length xs mod 3 = 1" "k = 2" | "length xs mod 3 = 2" "k = 1"
      by (auto simp: pad_len_def)
    then show ?thesis
    proof cases
      case 1
      have l: "length (?t @ replicate k CHR ''='') mod 4 = 0" using 1 len by (simp add: mod_add_eq [symmetric, of "length _"] length_sextets)
      have e: "?t @ replicate k CHR ''='' = (?t @ [CHR ''='']) @ [CHR ''='']"
        using 1 by (simp add: numeral_2_eq_2)
      show ?thesis unfolding if_P [OF l] unfolding e drop_eq_simps(1) ..
    next
      case 2
      have l: "length (?t @ replicate k CHR ''='') mod 4 = 0" using 2 len by (simp add: length_sextets)
      have e: "?t @ replicate k CHR ''='' = ?t @ [CHR ''='']" using 2 by simp
      show ?thesis unfolding if_P [OF l] unfolding e drop_eq_simps(1) d ..
    qed
  qed
  have n1: "length ?t mod 4 \<noteq> 1" using len by auto
  show ?thesis
    unfolding atob_def Let_def no_ws_filter [OF ws] s2
    using n1 by (simp add: vals_chars [OF y] dec_sextets [OF b])
qed

lemma url_to_std_append: "url_to_std (s @ t) = url_to_std s @ url_to_std t"
  by (simp add: url_to_std_def)

text \<open>The base64url text of a string in the standard alphabet.\<close>

definition std_to_url :: "jstr \<Rightarrow> jstr" where
  "std_to_url s = map (\<lambda>c. if c = CHR ''+'' then CHR ''-'' else if c = CHR ''/'' then CHR ''_'' else c) s"

lemma url_std_chars:
  assumes "\<forall>y\<in>set ys. y < 64"
  shows "url_to_std (map b64_char ys @ replicate k CHR ''='') = map b64_char ys @ replicate k CHR ''=''"
    and "url_to_std (std_to_url (map b64_char ys @ replicate k CHR ''='')) = map b64_char ys @ replicate k CHR ''=''"
  using assms b64_char_plain by (auto simp: url_to_std_def std_to_url_def map_idI)

lemma unat8: "unat (b :: 8 word) < 256"
  using unsigned_less [of b] by simp

lemma bytes_lt: "\<forall>x\<in>set (map unat (bs :: bytes)). x < 256"
  using unat8 by simp

lemma b64encode_sextets:
  "b64encode bs = map b64_char (sextets (map unat bs)) @ replicate (pad_len (length bs)) CHR ''=''"
proof -
  have "map of_char (map (\<lambda>b :: 8 word. char_of (unat b)) bs) = map unat bs"
    using unat8 by simp
  then show ?thesis by (simp only: b64encode_def btoa_def enc_groups_sextets length_map)
qed

lemma sextets_small: "\<forall>y\<in>set (sextets (map unat (bs :: bytes))). y < 64"
  by (rule sextets_bound [OF bytes_lt])

text \<open>No white space occurs in an encoding.\<close>

lemma b64_char_not_ws: "n < 64 \<Longrightarrow> \<not> js_ws (b64_char n)"
proof -
  assume "n < 64"
  then have "b64_val (b64_char n) = Some n" by (rule b64_val_char)
  moreover have "b64_val c = None" if "js_ws c" for c
    using that by (auto simp: b64_val_def js_ws_def)
  ultimately show ?thesis by fastforce
qed

lemma b64encode_not_ws: "c \<in> set (b64encode bs) \<Longrightarrow> \<not> js_ws c"
  using sextets_small [of bs] b64_char_not_ws by (auto simp: b64encode_sextets js_ws_def)

lemma b64encode_nonempty: "bs \<noteq> [] \<Longrightarrow> b64encode bs \<noteq> []"
  by (cases "map unat bs" rule: sextets.cases) (auto simp: b64encode_sextets)

lemma js_trim_b64encode [simp]: "js_trim (b64encode bs) = b64encode bs"
  by (rule js_trim_id) (metis b64encode_not_ws hd_in_set last_in_set)

lemma bin_bytes_char: "bin_bytes (map (char_of \<circ> unat) bs) = bs"
proof -
  have "word_of_nat (of_char (char_of (unat b))) = b" for b :: "8 word"
    using unat8 [of b] by simp
  then show ?thesis by (simp add: bin_bytes_def map_idI)
qed

lemma base64_round_trip_core:
  "\<forall>s \<in> {b64encode bs, std_to_url (b64encode bs), strip_trailing CHR ''='' (b64encode bs),
          std_to_url (strip_trailing CHR ''='' (b64encode bs))}.
     b64decode s = Inr bs \<and> url_base64_to_bytes s = Inr bs"
proof -
  let ?ys = "sextets (map unat bs)" and ?n = "pad_len (length bs)"
  let ?t = "map b64_char ?ys"
  have y: "\<forall>y\<in>set ?ys. y < 64" using sextets_bound [OF bytes_lt] .
  have at: "atob (?t @ replicate k CHR ''='') = Inr (map char_of (map unat bs))"
    if "k = 0 \<or> k = ?n" for k
    using atob_sextets [OF bytes_lt, of k bs] that by simp
  have lenm: "length ?t mod 4 = (if length bs mod 3 = 0 then 0 else length bs mod 3 + 1)"
    using mod_less_divisor [of 3 "length bs"] by (simp add: length_sextets)
  have r3: "length bs mod 3 = 0 \<or> length bs mod 3 = 1 \<or> length bs mod 3 = 2" by presburger
  have strip: "strip_trailing CHR ''='' (?t @ replicate k CHR ''='') = ?t" for k
  proof -
    have "dropWhile (\<lambda>x. x = CHR ''='') (rev ?t) = rev ?t"
      using plain_ends [OF y] by (intro dropWhile_eq_self) (auto simp: hd_rev)
    moreover have "dropWhile (\<lambda>x. x = CHR ''='') (replicate k CHR ''='' @ w)
        = dropWhile (\<lambda>x. x = CHR ''='') w" for w
      by (induction k) simp_all
    ultimately show ?thesis by (simp only: strip_trailing_def rev_append rev_replicate rev_rev_ident)
  qed
  have dec: "b64decode s = Inr bs \<and> url_base64_to_bytes s = Inr bs"
    if s: "url_to_std s = ?t @ replicate k CHR ''=''" and k: "k = 0 \<or> k = ?n" for s k
  proof -
    have ls: "length s = length ?t + k"
      using arg_cong [OF s, of length] by (simp add: url_to_std_def)
    consider "length s mod 4 = 0" | "length s mod 4 = 2" "k = 0" "?n = 2" | "length s mod 4 = 3" "k = 0" "?n = 1"
      using ls lenm k r3 by (auto simp: pad_len_def length_sextets)
    then show ?thesis
    proof cases
      case 1
      then have m: "length (?t @ replicate k CHR ''='') mod 4 = 0" using ls by simp
      then show ?thesis using 1 at [OF k]
        unfolding b64decode_def url_base64_to_bytes_def Let_def s m
        by (simp add: bin_bytes_char s)
    next
      case 2
      have p: "url_to_std (s @ ''=='') = ?t @ ''==''" "length ?t mod 4 = 2"
        using s 2 ls by (simp_all add: url_to_std_append) (simp add: url_to_std_def)
      have "replicate 2 CHR ''='' = ''==''" by (simp add: numeral_2_eq_2)
      with 2 p s at [of 2] show ?thesis
        by (simp add: b64decode_def url_base64_to_bytes_def Let_def bin_bytes_char)
    next
      case 3
      have p: "url_to_std (s @ ''='') = ?t @ ''=''" "length ?t mod 4 = 3"
        using s 3 ls by (simp_all add: url_to_std_append) (simp add: url_to_std_def)
      with 3 s at [of 1] show ?thesis
        by (simp add: b64decode_def url_base64_to_bytes_def Let_def bin_bytes_char)
    qed
  qed
  show ?thesis
    using dec [of _ 0] dec [of _ ?n] url_std_chars [OF y, of 0] url_std_chars [OF y, of ?n]
    by (simp add: b64encode_sextets strip)
qed

text \<open>What \<open>b64encode\<close> writes, \<open>b64decode\<close> reads back, and it also reads the base64url form of
  the same bytes, with its padding or without, which is how a server-minted claim token arrives; the
  VAPID key decoder agrees with it on all of them.\<close>

theorem base64_round_trip:
  "\<forall>s \<in> {b64encode bs, std_to_url (b64encode bs), strip_trailing CHR ''='' (b64encode bs),
          std_to_url (strip_trailing CHR ''='' (b64encode bs))}.
     b64decode s = Inr bs \<and> url_base64_to_bytes s = Inr bs"
  by (rule base64_round_trip_core)

theorem base64_round_trip_witness:
  "b64decode ''-w'' = Inr [0xFB] \<and> url_base64_to_bytes ''-w'' = Inr [0xFB]"
proof -
  have "std_to_url (strip_trailing CHR ''='' (b64encode [0xFB])) = ''-w''" by code_simp
  with base64_round_trip [of "[0xFB]"] show ?thesis by auto
qed

end
