(* ===== verification/Sealing.thy ===== *)
theory Sealing
  imports Base64 Sealed_Types
begin

text \<open>
  Authenticated encryption of the vault secrets (ghostkey-web/src/crypto/sealing.ts), the video
  message seal (crypto/video.ts), and the Argon2 worker protocol (sealing.ts, argonWorker.ts).

  The cryptographic packages (@noble, @scure) and the Unicode tables are not part of the repository:
  they are the fields of a record \<open>crypto\<close>, an argument of every definition that calls them, and
  what the code relies on is stated by the predicates \<open>aead_correct\<close> and its companions. Random
  draws are arguments, in the order the code draws them.
\<close>

section \<open>The primitives\<close>

record crypto =
  aead_encrypt :: "bytes \<Rightarrow> bytes \<Rightarrow> bytes \<Rightarrow> bytes"
  aead_decrypt :: "bytes \<Rightarrow> bytes \<Rightarrow> bytes \<Rightarrow> (jstr, bytes) throws"
  argon2id :: "bytes \<Rightarrow> bytes \<Rightarrow> nat \<Rightarrow> nat \<Rightarrow> nat \<Rightarrow> nat \<Rightarrow> (jstr, bytes) throws"
  hkdf_sha256 :: "bytes \<Rightarrow> bytes \<Rightarrow> bytes \<Rightarrow> nat \<Rightarrow> bytes"
  sha256 :: "bytes \<Rightarrow> bytes"
  nfkc :: "jstr \<Rightarrow> jstr"
  text_decode :: "bytes \<Rightarrow> jstr"

text \<open>\<open>TextEncoder\<close>: UTF-8 of code units below 256.\<close>

definition utf8_char :: "char \<Rightarrow> bytes" where
  "utf8_char c =
     (let n = of_char c :: nat
      in if n < 128 then [word_of_nat n]
         else [word_of_nat (192 + n div 64), word_of_nat (128 + n mod 64)])"

definition utf8 :: "jstr \<Rightarrow> bytes" where
  "utf8 s = concat (map utf8_char s)"

text \<open>What the code relies on: decryption inverts encryption for keys of 32 and nonces of 24 bytes;
  a ciphertext that decrypts is the encryption of what it decrypts to; HKDF returns the length asked
  for; decoding inverts encoding of a text.\<close>

definition aead_correct :: "('a crypto_scheme) \<Rightarrow> bool" where
  "aead_correct C \<longleftrightarrow> (\<forall>k n p. length k = 32 \<and> length n = 24 \<longrightarrow>
     aead_decrypt C k n (aead_encrypt C k n p) = Inr p)"

definition aead_authentic :: "('a crypto_scheme) \<Rightarrow> bool" where
  "aead_authentic C \<longleftrightarrow> (\<forall>k n c p. aead_decrypt C k n c = Inr p \<longrightarrow> c = aead_encrypt C k n p)"

definition hkdf_sized :: "('a crypto_scheme) \<Rightarrow> bool" where
  "hkdf_sized C \<longleftrightarrow> (\<forall>ikm salt info n. length (hkdf_sha256 C ikm salt info n) = n)"

definition text_faithful :: "('a crypto_scheme) \<Rightarrow> jstr \<Rightarrow> bool" where
  "text_faithful C s \<longleftrightarrow> text_decode C (utf8 s) = s"

section \<open>Sealing under a key\<close>

definition argon_mem_kib :: nat where "argon_mem_kib = 64 * 1024"

definition argon_iters :: nat where "argon_iters = 3"

definition argon_parallelism :: nat where "argon_parallelism = 1"

definition kek_len :: nat where "kek_len = 32"

definition kek_length_error :: "bytes \<Rightarrow> jstr" where
  "kek_length_error key = ''KEK must be '' @ show_nat kek_len @ '' bytes, got '' @ show_nat (length key)"

definition seal_with_key :: "('a crypto_scheme) \<Rightarrow> bytes \<Rightarrow> bytes \<Rightarrow> bytes \<Rightarrow> (jstr, sealed_blob) throws" where
  "seal_with_key C nonce key plaintext =
     (if length key \<noteq> kek_len then Inl (kek_length_error key)
      else Inr \<lparr>sb_v = 1, sb_ct = b64encode (aead_encrypt C key nonce plaintext),
                sb_nonce = b64encode nonce\<rparr>)"

definition open_with_key :: "('a crypto_scheme) \<Rightarrow> bytes \<Rightarrow> sealed_blob \<Rightarrow> (jstr, bytes) throws" where
  "open_with_key C key blob =
     (if sb_v blob \<noteq> 1 then Inl (''unknown sealed blob version: '' @ show_int (sb_v blob))
      else if length key \<noteq> kek_len then Inl (kek_length_error key)
      else and_then (b64decode (sb_nonce blob)) (\<lambda>nonce.
           and_then (b64decode (sb_ct blob)) (\<lambda>ct.
           aead_decrypt C key nonce ct)))"

section \<open>Key derivation\<close>

definition password_info :: jstr where "password_info = ''ghostkey:owner-kek:v1''"

definition claim_info :: jstr where "claim_info = ''ghostkey:heir-xprv-kek:v1''"

definition derive_owner_kek :: "('a crypto_scheme) \<Rightarrow> jstr \<Rightarrow> bytes \<Rightarrow> nat option \<Rightarrow> nat option
    \<Rightarrow> (jstr, bytes) throws" where
  "derive_owner_kek C password salt opt_mem opt_iters =
     (let mem = the_default argon_mem_kib opt_mem;
          iters = the_default argon_iters opt_iters;
          pw = utf8 (nfkc C password)
      in and_then (argon2id C pw salt iters mem argon_parallelism kek_len) (\<lambda>raw.
         Inr (hkdf_sha256 C raw salt (utf8 password_info) kek_len)))"

definition derive_claim_kek :: "('a crypto_scheme) \<Rightarrow> bytes \<Rightarrow> bytes" where
  "derive_claim_kek C claim_token = hkdf_sha256 C claim_token [] (utf8 claim_info) kek_len"

section \<open>Sealing and unsealing the secrets of a vault\<close>

record sealed_vault_secrets =
  svs_password_salt :: jstr
  svs_mem_kib :: nat
  svs_iters :: nat
  svs_owner_xprv :: sealed_blob
  svs_owner_token :: sealed_blob
  svs_heir_xprv :: sealed_blob
  svs_owner_kek :: "bytes option"

record seal_all_input =
  sai_password :: jstr
  sai_owner_xprv :: jstr
  sai_heir_xprv :: jstr
  sai_owner_token :: jstr
  sai_claim_token :: bytes
  sai_keep_owner_kek :: bool

text \<open>The draws: the salt, then one nonce per secret.\<close>

record seal_draws =
  d_salt :: bytes
  d_nonce1 :: bytes
  d_nonce2 :: bytes
  d_nonce3 :: bytes

definition seal_vault_secrets :: "('a crypto_scheme) \<Rightarrow> seal_draws \<Rightarrow> seal_all_input
    \<Rightarrow> (jstr, sealed_vault_secrets) throws" where
  "seal_vault_secrets C d i =
     and_then (derive_owner_kek C (sai_password i) (d_salt d) None None) (\<lambda>kek.
     let claim_kek = derive_claim_kek C (sai_claim_token i)
     in and_then (seal_with_key C (d_nonce1 d) kek (utf8 (sai_owner_xprv i))) (\<lambda>owner_xprv.
        and_then (seal_with_key C (d_nonce2 d) kek (utf8 (sai_owner_token i))) (\<lambda>owner_token.
        and_then (seal_with_key C (d_nonce3 d) claim_kek (utf8 (sai_heir_xprv i))) (\<lambda>heir_xprv.
        Inr \<lparr>svs_password_salt = b64encode (d_salt d), svs_mem_kib = argon_mem_kib,
             svs_iters = argon_iters, svs_owner_xprv = owner_xprv, svs_owner_token = owner_token,
             svs_heir_xprv = heir_xprv,
             svs_owner_kek = (if sai_keep_owner_kek i then Some kek else None)\<rparr>))))"

text \<open>The view the server returns of the secrets a setup sealed: the same salt, parameters, ciphertexts
  and nonces, beside the vault's public terms.\<close>

definition sealed_view :: "jstr \<Rightarrow> jstr \<Rightarrow> int \<Rightarrow> jstr option \<Rightarrow> sealed_vault_secrets \<Rightarrow> sealed_blobs_view" where
  "sealed_view i net blocks fragment s =
     \<lparr>sbv_vault_id = i, sbv_password_salt_b64 = svs_password_salt s,
      sbv_password_kdf_mem_kib = int (svs_mem_kib s), sbv_password_kdf_iters = int (svs_iters s),
      sbv_owner_xprv_ct_b64 = sb_ct (svs_owner_xprv s), sbv_owner_xprv_nonce_b64 = sb_nonce (svs_owner_xprv s),
      sbv_owner_token_ct_b64 = sb_ct (svs_owner_token s), sbv_owner_token_nonce_b64 = sb_nonce (svs_owner_token s),
      sbv_network = net, sbv_timelock_blocks = blocks, sbv_owner_xpub_fragment = fragment\<rparr>"

record password_sealed =
  ps_salt_b64 :: jstr
  ps_mem_kib :: nat
  ps_iters :: nat
  ps_blob :: sealed_blob

definition seal_under_password :: "('a crypto_scheme) \<Rightarrow> bytes \<Rightarrow> bytes \<Rightarrow> jstr \<Rightarrow> bytes
    \<Rightarrow> (jstr, password_sealed) throws" where
  "seal_under_password C salt nonce password plaintext =
     and_then (derive_owner_kek C password salt None None) (\<lambda>kek.
     and_then (seal_with_key C nonce kek plaintext) (\<lambda>blob.
     Inr \<lparr>ps_salt_b64 = b64encode salt, ps_mem_kib = argon_mem_kib, ps_iters = argon_iters,
          ps_blob = blob\<rparr>))"

record unseal_owner_input =
  uo_password :: jstr
  uo_salt :: jstr
  uo_mem_kib :: nat
  uo_iters :: nat
  uo_xprv_blob :: sealed_blob
  uo_token_blob :: sealed_blob

definition unseal_owner :: "('a crypto_scheme) \<Rightarrow> unseal_owner_input \<Rightarrow> (jstr, jstr \<times> jstr) throws" where
  "unseal_owner C i =
     and_then (b64decode (uo_salt i)) (\<lambda>salt.
     and_then (derive_owner_kek C (uo_password i) salt (Some (uo_mem_kib i)) (Some (uo_iters i))) (\<lambda>kek.
     and_then (open_with_key C kek (uo_xprv_blob i)) (\<lambda>xprv.
     and_then (open_with_key C kek (uo_token_blob i)) (\<lambda>token.
     Inr (text_decode C xprv, text_decode C token)))))"

definition unseal_owner_token :: "('a crypto_scheme) \<Rightarrow> jstr \<Rightarrow> jstr \<Rightarrow> nat \<Rightarrow> nat \<Rightarrow> sealed_blob
    \<Rightarrow> (jstr, jstr) throws" where
  "unseal_owner_token C password password_salt mem iters token_blob =
     and_then (b64decode password_salt) (\<lambda>salt.
     and_then (derive_owner_kek C password salt (Some mem) (Some iters)) (\<lambda>kek.
     and_then (open_with_key C kek token_blob) (\<lambda>token.
     Inr (text_decode C token))))"

definition unseal_heir_xprv :: "('a crypto_scheme) \<Rightarrow> bytes \<Rightarrow> sealed_blob \<Rightarrow> (jstr, jstr) throws" where
  "unseal_heir_xprv C claim_token blob =
     and_then (open_with_key C (derive_claim_kek C claim_token) blob) (\<lambda>xprv.
     Inr (text_decode C xprv))"

section \<open>E-mail hashing\<close>

definition hex_digit :: "nat \<Rightarrow> char" where
  "hex_digit n = (if n < 10 then char_of (48 + n) else char_of (87 + n))"

text \<open>The value of a hex digit.\<close>

definition hex_nibble :: "char \<Rightarrow> nat option" where
  "hex_nibble c =
     (let n = of_char c
      in if 48 \<le> n \<and> n \<le> 57 then Some (n - 48)
         else if 97 \<le> n \<and> n \<le> 102 then Some (n - 87)
         else if 65 \<le> n \<and> n \<le> 70 then Some (n - 55)
         else None)"

text \<open>\<open>b.toString(16).padStart(2, "0")\<close>\<close>

definition hex_byte :: "8 word \<Rightarrow> jstr" where
  "hex_byte b = [hex_digit (unat b div 16), hex_digit (unat b mod 16)]"

definition bytes_to_hex :: "bytes \<Rightarrow> jstr" where
  "bytes_to_hex bs = concat (map hex_byte bs)"

definition hash_email_for_lookup :: "('a crypto_scheme) \<Rightarrow> jstr \<Rightarrow> jstr" where
  "hash_email_for_lookup C email =
     (let normalised = nfkc C (js_lower (js_trim email))
      in bytes_to_hex (sha256 C (utf8 normalised)))"

section \<open>Facts of sealing\<close>

lemma hex_nibble_digit: "n < 16 \<Longrightarrow> hex_nibble (hex_digit n) = Some n"
  by (auto simp: hex_nibble_def hex_digit_def Let_def)

lemma seal_ok:
  "seal_with_key C n k p = Inr b \<longleftrightarrow> length k = 32
     \<and> b = \<lparr>sb_v = 1, sb_ct = b64encode (aead_encrypt C k n p), sb_nonce = b64encode n\<rparr>"
  by (auto simp: seal_with_key_def kek_len_def)

lemma b64decode_encode [simp]: "b64decode (b64encode bs) = Inr bs"
  using base64_round_trip_core by blast

lemma open_sealed:
  "length k = 32 \<Longrightarrow> open_with_key C k \<lparr>sb_v = 1, sb_ct = b64encode ct, sb_nonce = b64encode n\<rparr>
     = aead_decrypt C k n ct"
  by (simp add: open_with_key_def kek_len_def)

lemma open_seal:
  "aead_correct C \<Longrightarrow> length n = 24 \<Longrightarrow> seal_with_key C n k p = Inr b \<Longrightarrow> open_with_key C k b = Inr p"
  by (auto simp: seal_ok open_sealed aead_correct_def)

lemma derive_owner_kek_len:
  "hkdf_sized C \<Longrightarrow> derive_owner_kek C pw s m t = Inr k \<Longrightarrow> length k = 32"
  by (auto simp: derive_owner_kek_def Let_def and_then_Inr_iff hkdf_sized_def kek_len_def)

lemma derive_claim_kek_len: "hkdf_sized C \<Longrightarrow> length (derive_claim_kek C t) = 32"
  by (simp add: derive_claim_kek_def hkdf_sized_def kek_len_def)

lemma derive_defaults:
  "derive_owner_kek C pw s (Some argon_mem_kib) (Some argon_iters) = derive_owner_kek C pw s None None"
  by (simp add: derive_owner_kek_def)

lemma derive_normalises:
  "nfkc C pw = nfkc C pw' \<Longrightarrow> derive_owner_kek C pw s m t = derive_owner_kek C pw' s m t"
  by (simp add: derive_owner_kek_def)

text \<open>A small instance of the primitives, to run the definitions on: the ciphertext is the nonce and
  the key in front of the plaintext, and a mismatch is an invalid tag.\<close>

definition sample_crypto :: crypto where
  "sample_crypto =
     \<lparr>aead_encrypt = (\<lambda>k n p. n @ k @ p),
      aead_decrypt = (\<lambda>k n c. if take (length (n @ k)) c = n @ k then Inr (drop (length (n @ k)) c)
                               else Inl ''invalid tag''),
      argon2id = (\<lambda>pw s t m p l. Inr (take l (pw @ s @ replicate l 0))),
      hkdf_sha256 = (\<lambda>ikm s info l. take l (ikm @ s @ info @ replicate l 0)),
      sha256 = (\<lambda>b. take 32 (b @ replicate 32 0)),
      nfkc = (\<lambda>s. s),
      text_decode = map (\<lambda>b. char_of (unat b))\<rparr>"

lemma sample_crypto_laws:
  "aead_correct sample_crypto" "aead_authentic sample_crypto" "hkdf_sized sample_crypto"
proof -
  show "aead_correct sample_crypto" by (simp add: aead_correct_def sample_crypto_def)
  show "hkdf_sized sample_crypto" by (auto simp: hkdf_sized_def sample_crypto_def min_def)
  have "n @ k @ drop (length (n @ k)) c = c" if "take (length (n @ k)) c = n @ k" for n k c :: bytes
    using append_take_drop_id [of "length (n @ k)" c] unfolding that by simp
  then show "aead_authentic sample_crypto"
    by (auto simp: aead_authentic_def sample_crypto_def split: if_splits)
qed

lemma sample_text: "list_all (\<lambda>c. of_char c < (128 :: nat)) s \<Longrightarrow> text_faithful sample_crypto s"
  unfolding text_faithful_def
  by (induction s) (simp_all add: utf8_def utf8_char_def Let_def sample_crypto_def unat_of_nat)

definition sample_draws :: seal_draws where
  "sample_draws = \<lparr>d_salt = replicate 16 7, d_nonce1 = replicate 24 1, d_nonce2 = replicate 24 2,
     d_nonce3 = replicate 24 3\<rparr>"

definition sample_input :: seal_all_input where
  "sample_input = \<lparr>sai_password = ''correct horse'', sai_owner_xprv = ''xprvA'',
     sai_heir_xprv = ''xprvB'', sai_owner_token = ''tok'', sai_claim_token = replicate 32 9,
     sai_keep_owner_kek = False\<rparr>"

lemma sample_sealed:
  obtains s where "seal_vault_secrets sample_crypto sample_draws sample_input = Inr s"
proof -
  have k: "length (derive_claim_kek sample_crypto t) = 32" for t
    by (rule derive_claim_kek_len) (rule sample_crypto_laws)
  obtain kek where kek: "derive_owner_kek sample_crypto ''correct horse'' (replicate 16 7) None None = Inr kek"
    by (simp add: derive_owner_kek_def sample_crypto_def Let_def)
  then have l: "length kek = 32" using derive_owner_kek_len sample_crypto_laws(3) by blast
  obtain s where s: "seal_vault_secrets sample_crypto sample_draws sample_input = Inr s"
    using kek l k by (simp add: seal_vault_secrets_def sample_draws_def sample_input_def
        seal_with_key_def kek_len_def Let_def)
  then show thesis by (rule that)
qed

section \<open>What sealing guarantees\<close>

text \<open>The unsealing request a device makes from what the server stored.\<close>

definition unseal_request :: "jstr \<Rightarrow> sealed_vault_secrets \<Rightarrow> unseal_owner_input" where
  "unseal_request password s =
     \<lparr>uo_password = password, uo_salt = svs_password_salt s, uo_mem_kib = svs_mem_kib s,
      uo_iters = svs_iters s, uo_xprv_blob = svs_owner_xprv s, uo_token_blob = svs_owner_token s\<rparr>"

text \<open>C2: What a browser seals at setup, any browser recovers from the server's copy: a password equal
  to the setup password up to Unicode normalisation gives back the owner key and the bearer token
  (and the token alone on a trusted device), and the raw claim token gives the heir key; the scratch
  key leaves the function only when asked for.\<close>

theorem sealed_secrets_recoverable:
  assumes "aead_correct C" "hkdf_sized C"
    and "\<forall>s\<in>{sai_owner_xprv i, sai_owner_token i, sai_heir_xprv i}. text_faithful C s"
    and "length (d_nonce1 d) = 24" "length (d_nonce2 d) = 24" "length (d_nonce3 d) = 24"
    and "seal_vault_secrets C d i = Inr s" "nfkc C password = nfkc C (sai_password i)"
  shows "unseal_owner C (unseal_request password s) = Inr (sai_owner_xprv i, sai_owner_token i)
     \<and> unseal_owner_token C password (svs_password_salt s) (svs_mem_kib s) (svs_iters s)
          (svs_owner_token s) = Inr (sai_owner_token i)
     \<and> unseal_heir_xprv C (sai_claim_token i) (svs_heir_xprv s) = Inr (sai_heir_xprv i)
     \<and> (svs_owner_kek s \<noteq> None \<longleftrightarrow> sai_keep_owner_kek i)"
proof -
  obtain kek b1 b2 b3 where kek: "derive_owner_kek C (sai_password i) (d_salt d) None None = Inr kek"
    and b: "seal_with_key C (d_nonce1 d) kek (utf8 (sai_owner_xprv i)) = Inr b1"
      "seal_with_key C (d_nonce2 d) kek (utf8 (sai_owner_token i)) = Inr b2"
      "seal_with_key C (d_nonce3 d) (derive_claim_kek C (sai_claim_token i)) (utf8 (sai_heir_xprv i)) = Inr b3"
    and s: "s = \<lparr>svs_password_salt = b64encode (d_salt d), svs_mem_kib = argon_mem_kib,
             svs_iters = argon_iters, svs_owner_xprv = b1, svs_owner_token = b2,
             svs_heir_xprv = b3, svs_owner_kek = (if sai_keep_owner_kek i then Some kek else None)\<rparr>"
    using assms(7) by (auto simp: seal_vault_secrets_def Let_def and_then_Inr_iff)
  note o = open_seal [OF assms(1) assms(4) b(1)] open_seal [OF assms(1) assms(5) b(2)]
    open_seal [OF assms(1) assms(6) b(3)]
  have "derive_owner_kek C password (d_salt d) None None = Inr kek"
    using kek derive_normalises [OF assms(8)] by simp
  with o assms(3) show ?thesis
    by (simp add: s unseal_request_def unseal_owner_def unseal_owner_token_def unseal_heir_xprv_def
        derive_defaults text_faithful_def)
qed

theorem sealed_secrets_recoverable_witness:
  "\<exists>s. seal_vault_secrets sample_crypto sample_draws sample_input = Inr s
     \<and> unseal_owner sample_crypto (unseal_request ''correct horse'' s) = Inr (''xprvA'', ''tok'')"
proof -
  obtain s where s: "seal_vault_secrets sample_crypto sample_draws sample_input = Inr s"
    by (rule sample_sealed)
  have t: "\<forall>x\<in>{sai_owner_xprv sample_input, sai_owner_token sample_input, sai_heir_xprv sample_input}.
      text_faithful sample_crypto x"
    by (simp add: sample_input_def sample_text)
  have "unseal_owner sample_crypto (unseal_request ''correct horse'' s) = Inr (''xprvA'', ''tok'')"
    using sealed_secrets_recoverable [OF sample_crypto_laws(1) sample_crypto_laws(3) t _ _ _ s, of "''correct horse''"]
    by (simp add: sample_draws_def sample_input_def)
  with s show ?thesis by blast
qed

text \<open>Opening a sealed blob checks the version first, then the key length, then both encodings, and
  a blob that opens is exactly the sealing of what it opens to: under an authentic cipher no other
  ciphertext with that key and nonce opens to those bytes.\<close>

theorem open_checks_and_authenticates:
  assumes "aead_authentic C"
  shows "(open_with_key C k b = Inr p \<longleftrightarrow>
      sb_v b = 1 \<and> length k = 32
      \<and> (\<exists>n c. b64decode (sb_nonce b) = Inr n \<and> b64decode (sb_ct b) = Inr c
           \<and> aead_decrypt C k n c = Inr p \<and> c = aead_encrypt C k n p))
    \<and> (sb_v b \<noteq> 1 \<longrightarrow> open_with_key C k b = Inl (''unknown sealed blob version: '' @ show_int (sb_v b)))
    \<and> (sb_v b = 1 \<and> length k \<noteq> 32 \<longrightarrow> open_with_key C k b = Inl (kek_length_error k))"
  using assms by (auto simp: open_with_key_def kek_len_def and_then_Inr_iff aead_authentic_def)

theorem open_checks_and_authenticates_witness:
  "open_with_key sample_crypto [] \<lparr>sb_v = 2, sb_ct = [], sb_nonce = []\<rparr>
     = Inl (''unknown sealed blob version: '' @ show_int 2)"
  using open_checks_and_authenticates [OF sample_crypto_laws(2), of "[]" "\<lparr>sb_v = 2, sb_ct = [], sb_nonce = []\<rparr>"]
  by simp

section \<open>The video message (crypto/video.ts)\<close>

text \<open>Extended keys and their ECDSA signatures (@scure/bip32): parsing an extended key can fail, a node
  may lack its private key, \<open>sign\<close> and \<open>verify\<close> act on a digest.\<close>

record 'n hdkey =
  hd_from_extended :: "jstr \<Rightarrow> (jstr, 'n) throws"
  hd_has_private :: "'n \<Rightarrow> bool"
  hd_sign :: "'n \<Rightarrow> bytes \<Rightarrow> bytes"
  hd_verify :: "'n \<Rightarrow> bytes \<Rightarrow> bytes \<Rightarrow> (jstr, bool) throws"

record prepared_video =
  pv_ct_b64 :: jstr
  pv_nonce_b64 :: jstr
  pv_sig_b64 :: jstr
  pv_sha256_hex :: jstr

definition prepare_video :: "('a crypto_scheme) \<Rightarrow> 'n hdkey \<Rightarrow> bytes \<Rightarrow> jstr \<Rightarrow> bytes \<Rightarrow> bytes
    \<Rightarrow> (jstr, prepared_video) throws" where
  "prepare_video C H nonce owner_xprv claim_token video =
     (let digest = sha256 C video
      in and_then (hd_from_extended H owner_xprv) (\<lambda>node.
         if \<not> hd_has_private H node
         then Inl ''owner key is not a private key; cannot sign video''
         else
           let sig = hd_sign H node digest; kek = derive_claim_kek C claim_token
           in and_then (seal_with_key C nonce kek video) (\<lambda>sealed.
              Inr \<lparr>pv_ct_b64 = sb_ct sealed, pv_nonce_b64 = sb_nonce sealed,
                   pv_sig_b64 = b64encode sig, pv_sha256_hex = bytes_to_hex digest\<rparr>)))"

text \<open>The signature check runs under a \<open>try\<close>: anything thrown there means not verified.\<close>

definition check_clip :: "('a crypto_scheme) \<Rightarrow> 'n hdkey \<Rightarrow> bytes \<Rightarrow> jstr \<Rightarrow> jstr \<Rightarrow> jstr \<Rightarrow> (jstr, bool) throws" where
  "check_clip C H clip owner_xpub sig_b64 sha_hex =
     (let digest = sha256 C clip;
          hash_matches = (bytes_to_hex digest = js_lower sha_hex)
      in and_then (hd_from_extended H owner_xpub) (\<lambda>node.
         and_then (b64decode sig_b64) (\<lambda>sig.
         and_then (hd_verify H node digest sig) (\<lambda>sig_ok.
         Inr (hash_matches \<and> sig_ok)))))"

definition decrypt_and_verify_video :: "('a crypto_scheme) \<Rightarrow> 'n hdkey \<Rightarrow> bytes \<Rightarrow> jstr
    \<Rightarrow> prepared_video \<Rightarrow> (jstr, bytes \<times> bool) throws" where
  "decrypt_and_verify_video C H claim_token owner_xpub v =
     (let kek = derive_claim_kek C claim_token
      in and_then (open_with_key C kek (mk_blob (pv_ct_b64 v) (pv_nonce_b64 v))) (\<lambda>clip.
         Inr (clip, case check_clip C H clip owner_xpub (pv_sig_b64 v) (pv_sha256_hex v) of
                      Inl e \<Rightarrow> False | Inr ok \<Rightarrow> ok)))"

lemma hex_digit_lower: "n < 16 \<Longrightarrow> js_lower_char (hex_digit n) = hex_digit n"
  by (auto simp: js_lower_char_def hex_digit_def less_eq_char_def)

lemma bytes_to_hex_lower [simp]: "js_lower (bytes_to_hex bs) = bytes_to_hex bs"
proof (induction bs)
  case (Cons b bs)
  have "unat b div 16 < 16" using unat8 [of b] by (simp add: div_less_iff_less_mult)
  then have "js_lower (hex_byte b) = hex_byte b"
    by (simp add: js_lower_def hex_byte_def hex_digit_lower)
  then show ?case using Cons by (simp add: bytes_to_hex_def js_lower_def)
qed (simp add: bytes_to_hex_def)

text \<open>A clip prepared by the owner and opened with the right claim token comes back byte for byte
  and verified. Whatever is opened, a clip is reported verified only if the owner key's signature
  check accepts the digest of the very bytes shown and that digest is the signed one; anything that
  goes wrong in the check yields an unverified clip, never an error.\<close>

theorem video_round_trip:
  assumes "aead_correct C" "hkdf_sized C" "length nonce = 24"
    and "prepare_video C H nonce owner_xprv token clip = Inr v"
    and "hd_from_extended H owner_xprv = Inr sk" "hd_from_extended H owner_xpub = Inr pk"
    and "\<forall>m. hd_verify H pk m (hd_sign H sk m) = Inr True"
  shows "decrypt_and_verify_video C H token owner_xpub v = Inr (clip, True)
    \<and> (\<forall>w bs. decrypt_and_verify_video C H token owner_xpub w = Inr (bs, True) \<longrightarrow>
          (\<exists>sig. b64decode (pv_sig_b64 w) = Inr sig \<and> hd_verify H pk (sha256 C bs) sig = Inr True
             \<and> js_lower (pv_sha256_hex w) = bytes_to_hex (sha256 C bs)))
    \<and> (\<forall>w e. decrypt_and_verify_video C H token owner_xpub w = Inl e \<longrightarrow>
          open_with_key C (derive_claim_kek C token) (mk_blob (pv_ct_b64 w) (pv_nonce_b64 w)) = Inl e)"
proof (intro conjI allI impI)
  obtain b where b: "seal_with_key C nonce (derive_claim_kek C token) clip = Inr b"
    and v: "v = \<lparr>pv_ct_b64 = sb_ct b, pv_nonce_b64 = sb_nonce b,
      pv_sig_b64 = b64encode (hd_sign H sk (sha256 C clip)), pv_sha256_hex = bytes_to_hex (sha256 C clip)\<rparr>"
    using assms(4,5) by (auto simp: prepare_video_def Let_def and_then_Inr_iff split: if_splits)
  have "mk_blob (sb_ct b) (sb_nonce b) = b" using b by (auto simp: seal_ok mk_blob_def)
  then show "decrypt_and_verify_video C H token owner_xpub v = Inr (clip, True)"
    using open_seal [OF assms(1,3) b] assms(6,7)
    by (simp add: decrypt_and_verify_video_def v check_clip_def Let_def)
next
  fix w bs
  assume "decrypt_and_verify_video C H token owner_xpub w = Inr (bs, True)"
  then show "\<exists>sig. b64decode (pv_sig_b64 w) = Inr sig \<and> hd_verify H pk (sha256 C bs) sig = Inr True
      \<and> js_lower (pv_sha256_hex w) = bytes_to_hex (sha256 C bs)"
    using assms(6)
    by (auto simp: decrypt_and_verify_video_def Let_def and_then_Inr_iff check_clip_def split: sum.splits)
next
  fix w e
  assume "decrypt_and_verify_video C H token owner_xpub w = Inl e"
  then show "open_with_key C (derive_claim_kek C token) (mk_blob (pv_ct_b64 w) (pv_nonce_b64 w)) = Inl e"
    by (auto simp: decrypt_and_verify_video_def Let_def and_then_Inl_iff)
qed

definition sample_hd :: "jstr hdkey" where
  "sample_hd = \<lparr>hd_from_extended = (\<lambda>s. if s = [] then Inl ''bad key'' else Inr s),
     hd_has_private = (\<lambda>s. s = ''xprvA''), hd_sign = (\<lambda>k m. m),
     hd_verify = (\<lambda>k m s. Inr (s = m))\<rparr>"

theorem video_round_trip_witness:
  "\<exists>v. prepare_video sample_crypto sample_hd (replicate 24 1) ''xprvA'' (replicate 32 9) [1, 2, 3] = Inr v
     \<and> decrypt_and_verify_video sample_crypto sample_hd (replicate 32 9) ''xpubA'' v = Inr ([1, 2, 3], True)"
proof -
  have k: "length (derive_claim_kek sample_crypto t) = 32" for t
    by (rule derive_claim_kek_len) (rule sample_crypto_laws)
  obtain v where v: "prepare_video sample_crypto sample_hd (replicate 24 1) ''xprvA'' (replicate 32 9) [1, 2, 3] = Inr v"
    using k by (simp add: prepare_video_def sample_hd_def seal_with_key_def kek_len_def Let_def)
  have "hd_from_extended sample_hd ''xprvA'' = Inr ''xprvA''"
    "hd_from_extended sample_hd ''xpubA'' = Inr ''xpubA''"
    "\<forall>m. hd_verify sample_hd ''xpubA'' m (hd_sign sample_hd ''xprvA'' m) = Inr True"
    by (simp_all add: sample_hd_def)
  from video_round_trip [OF sample_crypto_laws(1,3) _ v this] v show ?thesis by simp
qed

end
