(* ===== verification/Json.thy ===== *)
theory Json
  imports Sealing
begin

text \<open>
  JSON as the program uses it: \<open>JSON.stringify\<close> and \<open>JSON.parse\<close> on values built from null, booleans,
  integers, strings, arrays and objects. Numbers are the integers (every number the program writes
  is one); a \<open>\u\<close> escape is read when it denotes a code unit below 256. Object keys keep their order.
\<close>

datatype json = JNull | JBool bool | JInt int | JStr jstr | JArr "json list" | JObj "(jstr \<times> json) list"

section \<open>Writing\<close>

definition esc_u :: "char \<Rightarrow> jstr" where
  "esc_u c = [CHR 0x5C] @ ''u00'' @ hex_byte (word_of_nat (of_char c))"

definition json_escape :: "char \<Rightarrow> jstr" where
  "json_escape c =
     (if c = CHR 0x22 then [CHR 0x5C, CHR 0x22]
      else if c = CHR 0x5C then [CHR 0x5C, CHR 0x5C]
      else if c = CHR 0x08 then [CHR 0x5C, CHR ''b'']
      else if c = CHR 0x0C then [CHR 0x5C, CHR ''f'']
      else if c = CHR 0x0A then [CHR 0x5C, CHR ''n'']
      else if c = CHR 0x0D then [CHR 0x5C, CHR ''r'']
      else if c = CHR 0x09 then [CHR 0x5C, CHR ''t'']
      else if c < CHR 0x20 then esc_u c
      else [c])"

definition quote :: "(char \<Rightarrow> jstr) \<Rightarrow> jstr \<Rightarrow> jstr" where
  "quote esc s = [CHR 0x22] @ concat (map esc s) @ [CHR 0x22]"

text \<open>Writing with a given escape function; the program's is \<open>json_escape\<close>.\<close>

fun write_json :: "(char \<Rightarrow> jstr) \<Rightarrow> json \<Rightarrow> jstr"
  and write_list :: "(char \<Rightarrow> jstr) \<Rightarrow> json list \<Rightarrow> jstr"
  and write_fields :: "(char \<Rightarrow> jstr) \<Rightarrow> (jstr \<times> json) list \<Rightarrow> jstr" where
  "write_json esc JNull = ''null''"
| "write_json esc (JBool b) = (if b then ''true'' else ''false'')"
| "write_json esc (JInt i) = show_int i"
| "write_json esc (JStr s) = quote esc s"
| "write_json esc (JArr vs) = ''['' @ write_list esc vs"
| "write_json esc (JObj kvs) = ''{'' @ write_fields esc kvs"
| "write_list esc [] = '']''"
| "write_list esc (v # vs) =
     write_json esc v @ (if vs = [] then '']'' else '','' @ write_list esc vs)"
| "write_fields esc [] = ''}''"
| "write_fields esc ((k, v) # kvs) =
     quote esc k @ '':'' @ write_json esc v @ (if kvs = [] then ''}'' else '','' @ write_fields esc kvs)"

definition json_stringify :: "json \<Rightarrow> jstr" where
  "json_stringify v = write_json json_escape v"

section \<open>Reading\<close>

text \<open>JSON white space.\<close>

definition json_ws :: "char \<Rightarrow> bool" where
  "json_ws c = (c \<in> {CHR 0x20, CHR 0x09, CHR 0x0A, CHR 0x0D})"

definition skip_ws :: "jstr \<Rightarrow> jstr" where
  "skip_ws s = dropWhile json_ws s"

definition simple_unescape :: "char \<Rightarrow> char option" where
  "simple_unescape c =
     (if c = CHR 0x22 \<or> c = CHR 0x5C \<or> c = CHR ''/'' then Some c
      else if c = CHR ''b'' then Some (CHR 0x08)
      else if c = CHR ''f'' then Some (CHR 0x0C)
      else if c = CHR ''n'' then Some (CHR 0x0A)
      else if c = CHR ''r'' then Some (CHR 0x0D)
      else if c = CHR ''t'' then Some (CHR 0x09)
      else None)"

definition hex4 :: "char \<Rightarrow> char \<Rightarrow> char \<Rightarrow> char \<Rightarrow> char option" where
  "hex4 a b c d =
     (case (hex_nibble a, hex_nibble b, hex_nibble c, hex_nibble d) of
        (Some w, Some x, Some y, Some z) \<Rightarrow>
          if w = 0 \<and> x = 0 then Some (char_of (y * 16 + z)) else None
      | _ \<Rightarrow> None)"

text \<open>The characters of a string up to its closing quote.\<close>

fun read_chars :: "jstr \<Rightarrow> (jstr \<times> jstr) option" where
  "read_chars [] = None"
| "read_chars (c # s) =
     (if c = CHR 0x22 then Some ([], s)
      else if c = CHR 0x5C then
        (case s of
           [] \<Rightarrow> None
         | e # s1 \<Rightarrow>
             if e = CHR ''u'' then
               (case s1 of
                  a # b # x # y # s2 \<Rightarrow>
                    (case hex4 a b x y of
                       None \<Rightarrow> None
                     | Some u \<Rightarrow> map_option (\<lambda>(r, t). (u # r, t)) (read_chars s2))
                | _ \<Rightarrow> None)
             else (case simple_unescape e of
                     None \<Rightarrow> None
                   | Some u \<Rightarrow> map_option (\<lambda>(r, t). (u # r, t)) (read_chars s1)))
      else if c < CHR 0x20 then None
      else map_option (\<lambda>(r, t). (c # r, t)) (read_chars s))"

definition read_int :: "jstr \<Rightarrow> (json \<times> jstr) option" where
  "read_int s =
     (let neg = (s \<noteq> [] \<and> hd s = CHR ''-''); t = (if neg then tl s else s);
          ds = takeWhile js_digit t; r = dropWhile js_digit t; n = int (nat_of_digits ds)
      in if ds = [] \<or> (length ds > 1 \<and> hd ds = CHR ''0'') then None
         else Some (JInt (if neg then - n else n), r))"

fun read_json :: "nat \<Rightarrow> jstr \<Rightarrow> (json \<times> jstr) option"
  and read_list :: "nat \<Rightarrow> jstr \<Rightarrow> (json list \<times> jstr) option"
  and read_fields :: "nat \<Rightarrow> jstr \<Rightarrow> ((jstr \<times> json) list \<times> jstr) option" where
  "read_json 0 s = None"
| "read_json (Suc n) s0 =
     (let s = skip_ws s0 in
      if starts_with s ''null'' then Some (JNull, drop 4 s)
      else if starts_with s ''true'' then Some (JBool True, drop 4 s)
      else if starts_with s ''false'' then Some (JBool False, drop 5 s)
      else if starts_with s [CHR 0x22]
        then map_option (\<lambda>(r, t). (JStr r, t)) (read_chars (tl s))
      else if starts_with s ''['' then
        (if starts_with (skip_ws (tl s)) '']'' then Some (JArr [], tl (skip_ws (tl s)))
         else map_option (\<lambda>(vs, t). (JArr vs, t)) (read_list n (tl s)))
      else if starts_with s ''{'' then
        (if starts_with (skip_ws (tl s)) ''}'' then Some (JObj [], tl (skip_ws (tl s)))
         else map_option (\<lambda>(kvs, t). (JObj kvs, t)) (read_fields n (tl s)))
      else read_int s)"
| "read_list 0 s = None"
| "read_list (Suc n) s =
     (case read_json n s of
        None \<Rightarrow> None
      | Some (v, t0) \<Rightarrow>
          let t = skip_ws t0 in
          if starts_with t '']'' then Some ([v], tl t)
          else if starts_with t '','' then map_option (\<lambda>(vs, r). (v # vs, r)) (read_list n (tl t))
          else None)"
| "read_fields 0 s = None"
| "read_fields (Suc n) s0 =
     (let s = skip_ws s0 in
      if \<not> starts_with s [CHR 0x22] then None
      else
        (case read_chars (tl s) of
           None \<Rightarrow> None
         | Some (k, s1) \<Rightarrow>
             let s2 = skip_ws s1 in
             if \<not> starts_with s2 '':'' then None
             else
               (case read_json n (tl s2) of
                  None \<Rightarrow> None
                | Some (v, t0) \<Rightarrow>
                    let t = skip_ws t0 in
                    if starts_with t ''}'' then Some ([(k, v)], tl t)
                    else if starts_with t '','' then
                      map_option (\<lambda>(kvs, r). ((k, v) # kvs, r)) (read_fields n (tl t))
                    else None)))"

text \<open>Every character can open at most one nesting level and one list element, so twice the length
  of the text is enough fuel.\<close>

definition json_parse :: "jstr \<Rightarrow> json option" where
  "json_parse s =
     (case read_json (2 * length s + 2) s of
        Some (v, t) \<Rightarrow> if skip_ws t = [] then Some v else None
      | None \<Rightarrow> None)"

section \<open>Reading what was written\<close>

text \<open>An escape function that reading inverts: it writes a character as itself, when that is legal in a
  string, or as an escape that reads back as the character.\<close>

definition good_escape :: "(char \<Rightarrow> jstr) \<Rightarrow> bool" where
  "good_escape esc \<longleftrightarrow>
     (\<forall>c r. read_chars (esc c @ r) = map_option (\<lambda>(s, t). (c # s, t)) (read_chars r))"

lemma read_quoted:
  "good_escape esc \<Longrightarrow> read_chars (concat (map esc s) @ CHR 0x22 # r) = Some (s, r)"
  by (induction s) (simp_all add: good_escape_def)

lemma read_esc_u: "read_chars (esc_u c @ r) = map_option (\<lambda>(s, t). (c # s, t)) (read_chars r)"
proof -
  have u: "unat (word_of_nat (of_char c) :: 8 word) = of_char c" by (simp add: unat_of_nat take_bit_nat_eq_self)
  have n: "hex_nibble (hex_digit k) = Some k" if "k < 16" for k using that by (rule hex_nibble_digit)
  have z: "hex_nibble CHR ''0'' = Some 0" by (simp add: hex_nibble_def)
  have "of_char c div 16 < (16 :: nat)" by (simp add: div_less_iff_less_mult)
  then have "hex4 CHR ''0'' CHR ''0'' (hex_digit (of_char c div 16)) (hex_digit (of_char c mod 16)) = Some c"
    by (simp add: hex4_def n z)
  then show ?thesis by (simp add: esc_u_def hex_byte_def u)
qed

lemma good_json_escape: "good_escape json_escape"
  unfolding good_escape_def
proof (intro allI)
  fix c r
  show "read_chars (json_escape c @ r) = map_option (\<lambda>(s, t). (c # s, t)) (read_chars r)"
    by (auto simp: json_escape_def simple_unescape_def read_esc_u)
qed

lemma show_nat_lead: "n \<noteq> 0 \<Longrightarrow> hd (show_nat n) \<noteq> CHR ''0''"
proof (induction n rule: show_nat.induct)
  case (1 n)
  show ?case
  proof (cases "n < 10")
    case True
    have "char_of (48 + n) \<noteq> CHR ''0''"
    proof
      assume "char_of (48 + n) = CHR ''0''"
      then have "of_char (char_of (48 + n)) = (48 :: nat)" by simp
      then show False using True 1 by simp
    qed
    then show ?thesis using True by (simp add: show_nat.simps [of n])
  next
    case False
    then have "n div 10 \<noteq> 0" by simp
    with 1 False show ?thesis by (simp add: show_nat.simps [of n])
  qed
qed

definition safe_rest :: "jstr \<Rightarrow> bool" where
  "safe_rest r \<longleftrightarrow> r = [] \<or> \<not> js_digit (hd r)"

lemma take_digits:
  "digits s \<Longrightarrow> safe_rest r \<Longrightarrow> takeWhile js_digit (s @ r) = s \<and> dropWhile js_digit (s @ r) = r"
  by (cases r) (auto simp: digits_def list_all_iff safe_rest_def takeWhile_append dropWhile_append)

lemma read_int_nat:
  assumes "safe_rest r"
  shows "show_nat n \<noteq> [] \<and> \<not> (length (show_nat n) > 1 \<and> hd (show_nat n) = CHR ''0'')"
    "takeWhile js_digit (show_nat n @ r) = show_nat n" "dropWhile js_digit (show_nat n @ r) = r"
proof -
  show "takeWhile js_digit (show_nat n @ r) = show_nat n" "dropWhile js_digit (show_nat n @ r) = r"
    using take_digits [OF show_nat_digits assms] by simp_all
  have "n = 0 \<Longrightarrow> length (show_nat n) = 1" by (simp add: show_nat.simps [of 0])
  then show "show_nat n \<noteq> [] \<and> \<not> (length (show_nat n) > 1 \<and> hd (show_nat n) = CHR ''0'')"
    using show_nat_lead [of n] by (cases "n = 0") auto
qed

lemma read_show_int:
  assumes "safe_rest r"
  shows "read_int (show_int i @ r) = Some (JInt i, r)"
proof (cases "i < 0")
  case True
  then show ?thesis using read_int_nat [OF assms, of "nat (- i)"]
    by (auto simp: read_int_def show_int_def Let_def)
next
  case False
  have "hd (show_nat (nat i)) \<noteq> CHR ''-''"
    using show_nat_digits [of "nat i"] not_digits(3) by (cases "show_nat (nat i)") (auto simp: digits_def)
  then show ?thesis using False read_int_nat [OF assms, of "nat i"]
    by (auto simp: read_int_def show_int_def Let_def)
qed

lemma show_int_start: "\<exists>c s. show_int i = c # s \<and> (js_digit c \<or> c = CHR ''-'')"
proof (cases "i < 0")
  case False
  then show ?thesis using show_nat_digits [of "nat i"]
    by (cases "show_nat (nat i)") (auto simp: digits_def show_int_def)
qed (simp add: show_int_def)

lemma read_json_int:
  assumes "safe_rest r"
  shows "read_json (Suc n) (show_int i @ r) = Some (JInt i, r)"
proof -
  obtain c s where c: "show_int i = c # s" "js_digit c \<or> c = CHR ''-''" using show_int_start by blast
  have x: "CHR ''n'' \<noteq> c" "CHR ''t'' \<noteq> c" "CHR ''f'' \<noteq> c" "CHR ''['' \<noteq> c" "CHR ''{'' \<noteq> c"
    "CHR 0x22 \<noteq> c" "\<not> json_ws c"
    using c(2) by (auto simp: js_digit_def json_ws_def less_eq_char_def)
  then have "skip_ws (show_int i @ r) = show_int i @ r" by (simp add: skip_ws_def c(1))
  then show ?thesis using x read_show_int [OF assms, of i] by (simp add: Let_def c(1))
qed

lemma skip_ws_simps [simp]:
  "skip_ws [] = []" "skip_ws (c # s) = (if json_ws c then skip_ws s else c # s)"
  by (simp_all add: skip_ws_def)

lemma not_json_ws [simp]:
  "\<not> json_ws CHR '',''" "\<not> json_ws CHR '']''" "\<not> json_ws CHR ''}''" "\<not> json_ws CHR '':''"
  "\<not> json_ws CHR 0x22" "\<not> json_ws CHR ''['' " "\<not> json_ws CHR ''{''" "\<not> json_ws CHR ''n''"
  "\<not> json_ws CHR ''t''" "\<not> json_ws CHR ''f''"
  by (simp_all add: json_ws_def)

lemma safe_simps [simp]: "safe_rest (CHR '','' # r)" "safe_rest (CHR '']'' # r)" "safe_rest (CHR ''}'' # r)" "safe_rest []"
  by (simp_all add: safe_rest_def js_digit_def less_eq_char_def)

lemma write_start:
  "\<exists>c s. write_json esc v = c # s \<and> \<not> json_ws c \<and> c \<noteq> CHR '']'' \<and> c \<noteq> CHR ''}''"
proof (cases v)
  case (JInt i)
  obtain c s where "show_int i = c # s" "js_digit c \<or> c = CHR ''-''" using show_int_start by blast
  then show ?thesis using JInt by (auto simp: json_ws_def js_digit_def less_eq_char_def)
qed (auto simp: quote_def json_ws_def)

text \<open>The main lemma, for the three mutually recursive writers.\<close>

lemma read_written:
  shows "good_escape esc \<longrightarrow> (\<forall>n r. 2 * length (write_json esc v) \<le> n \<and> safe_rest r \<longrightarrow>
            read_json n (write_json esc v @ r) = Some (v, r))"
    and "good_escape esc \<longrightarrow> vs \<noteq> [] \<longrightarrow> (\<forall>n r. 2 * length (write_list esc vs) \<le> n \<longrightarrow>
            read_list n (write_list esc vs @ r) = Some (vs, r))"
    and "good_escape esc \<longrightarrow> kvs \<noteq> [] \<longrightarrow> (\<forall>n r. 2 * length (write_fields esc kvs) \<le> n \<longrightarrow>
            read_fields n (write_fields esc kvs @ r) = Some (kvs, r))"
proof (induction esc v and esc vs and esc kvs rule: write_json_write_list_write_fields.induct)
  case (1 esc)
  show ?case
  proof (intro allI impI)
    fix n r
    assume "2 * length (write_json esc JNull) \<le> n \<and> safe_rest r"
    then obtain m where "n = Suc m" by (cases n) (auto split: if_splits)
    then show "read_json n (write_json esc JNull @ r) = Some (JNull, r)" by (simp add: Let_def)
  qed
next
  case (2 esc b)
  show ?case
  proof (intro allI impI)
    fix n r
    assume "2 * length (write_json esc (JBool b)) \<le> n \<and> safe_rest r"
    then obtain m where "n = Suc m" by (cases n) (auto split: if_splits)
    then show "read_json n (write_json esc (JBool b) @ r) = Some (JBool b, r)" by (simp add: Let_def)
  qed
next
  case (3 esc i)
  show ?case
  proof (intro allI impI)
    fix n r
    assume g: "good_escape esc"
    assume a: "2 * length (write_json esc (JInt i)) \<le> n \<and> safe_rest r"
    then obtain m where "n = Suc m" using show_int_start [of i] by (cases n) auto
    then show "read_json n (write_json esc (JInt i) @ r) = Some (JInt i, r)"
      using a read_json_int by simp
  qed
next
  case (4 esc s)
  show ?case
  proof (intro allI impI)
    fix n r
    assume g: "good_escape esc"
    assume "2 * length (write_json esc (JStr s)) \<le> n \<and> safe_rest r"
    then obtain m where "n = Suc m" by (cases n) (auto simp: quote_def)
    then show "read_json n (write_json esc (JStr s) @ r) = Some (JStr s, r)"
      using read_quoted [OF g] by (simp add: quote_def Let_def)
  qed
next
  case (5 esc vs)
  show ?case
  proof (intro allI impI)
    fix n r
    assume g: "good_escape esc"
    assume a: "2 * length (write_json esc (JArr vs)) \<le> n \<and> safe_rest r"
    then obtain m where m: "n = Suc m" by (cases n) auto
    show "read_json n (write_json esc (JArr vs) @ r) = Some (JArr vs, r)"
    proof (cases vs)
      case (Cons v ws)
      have "read_list m (write_list esc vs @ r) = Some (vs, r)" using g 5 a m Cons by auto
      then show ?thesis using write_start [of esc v] Cons by (auto simp: m Let_def)
    qed (simp add: m Let_def)
  qed
next
  case (6 esc kvs)
  show ?case
  proof (intro allI impI)
    fix n r
    assume g: "good_escape esc"
    assume a: "2 * length (write_json esc (JObj kvs)) \<le> n \<and> safe_rest r"
    then obtain m where m: "n = Suc m" by (cases n) auto
    show "read_json n (write_json esc (JObj kvs) @ r) = Some (JObj kvs, r)"
    proof (cases kvs)
      case (Cons kv ws)
      have "read_fields m (write_fields esc kvs @ r) = Some (kvs, r)" using g 6 a m Cons by auto
      then show ?thesis using Cons by (cases kv) (auto simp: m Let_def quote_def)
    qed (simp add: m Let_def)
  qed
next
  case (7 esc)
  show ?case by simp
next
  case (8 esc v vs)
  show ?case
  proof (intro impI allI)
    fix n r
    assume g: "good_escape esc"
    assume a: "2 * length (write_list esc (v # vs)) \<le> n"
    let ?tail = "(if vs = [] then '']'' else '','' @ write_list esc vs) @ r"
    obtain m where m: "n = Suc m" using a by (cases n) (auto split: if_splits)
    have "2 * length (write_json esc v) \<le> m" using a m by (auto split: if_splits)
    moreover have "safe_rest ?tail" by simp
    ultimately have v: "read_json m (write_json esc v @ ?tail) = Some (v, ?tail)" using 8 g by blast
    show "read_list n (write_list esc (v # vs) @ r) = Some (v # vs, r)"
    proof (cases "vs = []")
      case True
      then show ?thesis using v by (simp add: m)
    next
      case False
      have "read_list m (write_list esc vs @ r) = Some (vs, r)" using g 8 a m False by auto
      then show ?thesis using v False by (simp add: m)
    qed
  qed
next
  case (9 esc)
  show ?case by simp
next
  case (10 esc k v kvs)
  show ?case
  proof (intro impI allI)
    fix n r
    assume g: "good_escape esc"
    assume a: "2 * length (write_fields esc ((k, v) # kvs)) \<le> n"
    let ?tail = "(if kvs = [] then ''}'' else '','' @ write_fields esc kvs) @ r"
    obtain m where m: "n = Suc m" using a by (cases n) (auto split: if_splits)
    have "2 * length (write_json esc v) \<le> m" using a m by (auto split: if_splits)
    moreover have "safe_rest ?tail" by simp
    ultimately have v: "read_json m (write_json esc v @ ?tail) = Some (v, ?tail)" using 10 g by blast
    have k: "read_chars (concat (map esc k) @ CHR 0x22 # CHR '':'' # write_json esc v @ ?tail)
        = Some (k, CHR '':'' # write_json esc v @ ?tail)"
      using read_quoted [OF g] by blast
    show "read_fields n (write_fields esc ((k, v) # kvs) @ r) = Some ((k, v) # kvs, r)"
    proof (cases "kvs = []")
      case True
      then show ?thesis using v k by (simp add: m quote_def Let_def)
    next
      case False
      have "read_fields m (write_fields esc kvs @ r) = Some (kvs, r)" using g 10 a m False by auto
      then show ?thesis using v k False by (simp add: m quote_def Let_def)
    qed
  qed
qed

lemma parse_written:
  assumes "good_escape esc"
  shows "json_parse (write_json esc v) = Some v"
proof -
  let ?w = "write_json esc v"
  have "\<forall>n r. 2 * length ?w \<le> n \<and> safe_rest r \<longrightarrow> read_json n (?w @ r) = Some (v, r)"
    using read_written(1) [of esc v] assms by blast
  then have "2 * length ?w \<le> 2 * length ?w + 2 \<and> safe_rest [] \<longrightarrow>
      read_json (2 * length ?w + 2) (?w @ []) = Some (v, [])" by blast
  then have "read_json (2 * length ?w + 2) ?w = Some (v, [])" by (simp del: read_json.simps)
  then show ?thesis unfolding json_parse_def by (simp del: read_json.simps)
qed

text \<open>Reading back what the program wrote as JSON gives the same value: every string, whatever
  quotes, backslashes or control characters it holds, and every nesting of arrays and objects.\<close>

theorem json_round_trip:
  "json_parse (json_stringify v) = Some v"
  unfolding json_stringify_def by (rule parse_written [OF good_json_escape])

end
