(* ===== verification/Claim_Errors.thy ===== *)
theory Claim_Errors
  imports Js_Regex Json
begin

text \<open>
  What a reader is told when something fails: the heir's copy (ghostkey-web/src/claimErrors.ts) and
  the owner's unlock message (unlockErrors.ts). The texts of the vocabulary are an argument.
\<close>

section \<open>Errors\<close>

text \<open>What can be thrown: an \<open>ApiError\<close> of api.ts, any other \<open>Error\<close>, a string, or another value, given
  by its \<open>String()\<close>.\<close>

datatype thrown = Api_Error int json jstr | Js_Error jstr | Thrown_Text jstr | Thrown_Value jstr

fun raw_error_message :: "thrown \<Rightarrow> jstr" where
  "raw_error_message (Api_Error status body message) = message"
| "raw_error_message (Js_Error message) = message"
| "raw_error_message (Thrown_Text s) = s"
| "raw_error_message (Thrown_Value s) = s"

fun thrown_status :: "thrown \<Rightarrow> int option" where
  "thrown_status (Api_Error status body message) = Some status"
| "thrown_status _ = None"

text \<open>\<open>e instanceof ApiError ? e.message : String(e)\<close>: a reply of the server keeps its message, anything
  else is converted.\<close>

fun string_of_error :: "thrown \<Rightarrow> jstr" where
  "string_of_error (Api_Error st b m) = m"
| "string_of_error (Js_Error m) = (if m = [] then ''Error'' else ''Error: '' @ m)"
| "string_of_error (Thrown_Text s) = s"
| "string_of_error (Thrown_Value s) = s"

section \<open>The heir's copy (claimErrors.ts)\<close>

datatype claim_error_kind = Fixable | Wait | Contact

record copy_entry =
  ce_headline :: jstr
  ce_body :: jstr
  ce_next_step :: jstr

record claim_error_copy =
  cc_text :: copy_entry
  cc_kind :: claim_error_kind

datatype claim_context = Resolve | Probe | Send | Build | Broadcast

text \<open>\<open>ClaimErrorsCopy\<close> of vocab/types.ts.\<close>

record claim_errors_copy =
  destination_mismatch :: copy_entry
  no_utxos :: copy_entry
  psbt_not_fully_signed :: copy_entry
  timelock_not_matured :: copy_entry
  esplora_down :: copy_entry
  older_format :: copy_entry
  server_error :: copy_entry
  link_incomplete :: copy_entry
  generic_resolve :: copy_entry
  generic_probe :: copy_entry
  generic_send :: copy_entry
  generic_build :: copy_entry
  generic_broadcast :: copy_entry

record claim_entry =
  en_matches :: "int option \<Rightarrow> jstr \<Rightarrow> claim_context \<Rightarrow> bool"
  en_copy :: claim_error_copy

text \<open>The patterns, all with the \<open>i\<close> flag.\<close>

definition rx_destination :: rx where "rx_destination = rlit_i ''destination:''"

definition rx_no_utxos :: rx where
  "rx_no_utxos = rseqs [rlit_i ''no utxo'', ropt (rchar_i CHR ''s''), rlit_i '' found'']"

definition rx_not_signed :: rx where "rx_not_signed = rlit_i ''not fully signed''"

definition rx_timelock :: rx where
  "rx_timelock = RAlt (rlit_i ''timelock'') (rseqs [rlit_i ''not'', rupto 3 rdot, rlit_i ''matured''])"

definition rx_esplora :: rx where "rx_esplora = rlit_i ''esplora''"

definition rx_not_created_with :: rx where
  "rx_not_created_with = rlit_i ''this vault was not created with''"

definition rx_link :: rx where
  "rx_link = ralts [rlit_i ''poly1305'', rlit_i ''invalid tag'', rlit_i ''decryp'']"

definition with_kind :: "copy_entry \<Rightarrow> claim_error_kind \<Rightarrow> claim_error_copy" where
  "with_kind t k = \<lparr>cc_text = t, cc_kind = k\<rparr>"

definition build_entries :: "claim_errors_copy \<Rightarrow> claim_entry list" where
  "build_entries errors =
     [\<lparr>en_matches = (\<lambda>s raw ctx. test_search rx_destination raw \<and> (ctx = Send \<or> ctx = Build)),
       en_copy = with_kind (destination_mismatch errors) Fixable\<rparr>,
      \<lparr>en_matches = (\<lambda>s raw ctx. test_search rx_no_utxos raw),
       en_copy = with_kind (no_utxos errors) Contact\<rparr>,
      \<lparr>en_matches = (\<lambda>s raw ctx. ctx = Broadcast \<and> test_search rx_not_signed raw),
       en_copy = with_kind (psbt_not_fully_signed errors) Fixable\<rparr>,
      \<lparr>en_matches = (\<lambda>s raw ctx. test_search rx_timelock raw),
       en_copy = with_kind (timelock_not_matured errors) Wait\<rparr>,
      \<lparr>en_matches = (\<lambda>s raw ctx. test_search rx_esplora raw),
       en_copy = with_kind (esplora_down errors) Wait\<rparr>,
      \<lparr>en_matches = (\<lambda>s raw ctx. ctx = Probe \<and> test_search rx_not_created_with raw),
       en_copy = with_kind (older_format errors) Contact\<rparr>,
      \<lparr>en_matches = (\<lambda>s raw ctx. s = Some 500),
       en_copy = with_kind (server_error errors) Wait\<rparr>,
      \<lparr>en_matches = (\<lambda>s raw ctx. test_search rx_link raw),
       en_copy = with_kind (link_incomplete errors) Contact\<rparr>]"

fun build_generic_by_context :: "claim_errors_copy \<Rightarrow> claim_context \<Rightarrow> claim_error_copy" where
  "build_generic_by_context errors Resolve = with_kind (generic_resolve errors) Wait"
| "build_generic_by_context errors Probe = with_kind (generic_probe errors) Wait"
| "build_generic_by_context errors Send = with_kind (generic_send errors) Wait"
| "build_generic_by_context errors Build = with_kind (generic_build errors) Wait"
| "build_generic_by_context errors Broadcast = with_kind (generic_broadcast errors) Fixable"

definition classify_claim_error :: "thrown \<Rightarrow> claim_context \<Rightarrow> claim_errors_copy \<Rightarrow> claim_error_copy" where
  "classify_claim_error e ctx errors =
     (case find (\<lambda>en. en_matches en (thrown_status e) (raw_error_message e) ctx) (build_entries errors) of
        Some en \<Rightarrow> en_copy en
      | None \<Rightarrow> build_generic_by_context errors ctx)"

record labelled_copy =
  lc_context :: claim_context
  lc_label :: jstr
  lc_copy :: claim_error_copy

fun context_name :: "claim_context \<Rightarrow> jstr" where
  "context_name Resolve = ''resolve''"
| "context_name Probe = ''probe''"
| "context_name Send = ''send''"
| "context_name Build = ''build''"
| "context_name Broadcast = ''broadcast''"

definition all_claim_error_copies :: "claim_errors_copy \<Rightarrow> labelled_copy list" where
  "all_claim_error_copies errors =
     map (\<lambda>ctx. \<lparr>lc_context = ctx, lc_label = context_name ctx @ '': generic fallback'',
                 lc_copy = build_generic_by_context errors ctx\<rparr>) [Resolve, Probe, Send, Build, Broadcast]
     @ map (\<lambda>(i, en). \<lparr>lc_context = Send, lc_label = ''entry #'' @ show_nat (i + 1), lc_copy = en_copy en\<rparr>)
         (enumerate 0 (build_entries errors))"

section \<open>The owner's unlock message (unlockErrors.ts)\<close>

definition rx_unseal :: rx where
  "rx_unseal = ralts [rlit_i ''poly1305'', rlit_i ''tag'', rlit_i ''invalid'', rlit_i ''decryp'']"

definition is_unseal_failure :: "thrown \<Rightarrow> bool" where
  "is_unseal_failure e = test_search rx_unseal (raw_error_message e)"

definition wrong_password_text :: jstr where
  "wrong_password_text = ''That password didn'' @ [CHR 0x27] @ ''t unlock the vault. Check it and try again.''"

definition unlock_trouble_text :: jstr where
  "unlock_trouble_text = ''Something went wrong unlocking your vault. Your password may be fine. Try again in a moment.''"

definition unlock_error_message :: "thrown \<Rightarrow> jstr" where
  "unlock_error_message e =
     (case e of
        Api_Error status body message \<Rightarrow> message
      | _ \<Rightarrow> if is_unseal_failure e then wrong_password_text else unlock_trouble_text)"

section \<open>What the reader sees\<close>

text \<open>Searching for a literal with the \<open>i\<close> flag.\<close>

definition has_i :: "jstr \<Rightarrow> jstr \<Rightarrow> bool" where
  "has_i w s = js_includes (map ascii_fold s) (map ascii_fold w)"

lemma test_search_lit_i: "test_search (rlit_i w) s \<longleftrightarrow> has_i w s"
proof -
  have "(\<exists>a m b. s = a @ m @ b \<and> map ascii_fold m = map ascii_fold w)
      \<longleftrightarrow> (\<exists>x y. map ascii_fold s = x @ map ascii_fold w @ y)"
  proof
    assume "\<exists>a m b. s = a @ m @ b \<and> map ascii_fold m = map ascii_fold w"
    then show "\<exists>x y. map ascii_fold s = x @ map ascii_fold w @ y" by (metis map_append)
  next
    assume "\<exists>x y. map ascii_fold s = x @ map ascii_fold w @ y"
    then obtain x y where "map ascii_fold s = x @ map ascii_fold w @ y" by blast
    then obtain a m b where "s = a @ m @ b" "map ascii_fold m = map ascii_fold w"
      by (metis (no_types, lifting) map_eq_append_conv)
    then show "\<exists>a m b. s = a @ m @ b \<and> map ascii_fold m = map ascii_fold w" by blast
  qed
  then show ?thesis by (simp add: test_search_iff in_rlit_i has_i_def sublist_def)
qed

lemma has_i_iff: "has_i w s \<longleftrightarrow> (\<exists>a m b. s = a @ m @ b \<and> map ascii_fold m = map ascii_fold w)"
  using test_search_lit_i [of w s] by (simp add: test_search_iff in_rlit_i)

lemma in_optional_char:
  "in_rx m (rseqs [rlit_i u, ropt (rchar_i c), rlit_i w]) \<longleftrightarrow>
     map ascii_fold m = map ascii_fold (u @ w) \<or> map ascii_fold m = map ascii_fold (u @ [c] @ w)"
  (is "?l \<longleftrightarrow> ?r1 \<or> ?r2")
proof -
  have l: "?l \<longleftrightarrow> (\<exists>x y z. m = x @ y @ z \<and> map ascii_fold x = map ascii_fold u
      \<and> (y = [] \<or> (\<exists>d. y = [d] \<and> ascii_fold d = ascii_fold c)) \<and> map ascii_fold z = map ascii_fold w)"
    unfolding rseqs.simps in_rx_seq [of m] in_rx_seq in_rlit_i in_ropt in_rchar_i by blast
  show ?thesis
  proof
    assume "?r1 \<or> ?r2"
    then show ?l
    proof
      assume ?r1
      then obtain x z where "m = x @ [] @ z" "map ascii_fold x = map ascii_fold u"
        "map ascii_fold z = map ascii_fold w" unfolding map_append by (auto simp: map_eq_append_conv)
      then show ?l unfolding l by blast
    next
      assume ?r2
      then obtain x d z where "m = x @ [d] @ z" "map ascii_fold x = map ascii_fold u"
        "ascii_fold d = ascii_fold c" "map ascii_fold z = map ascii_fold w"
        unfolding map_append by (auto simp: map_eq_append_conv Cons_eq_append_conv)
      then show ?l unfolding l by blast
    qed
  next
    assume ?l
    then obtain x y z where m: "m = x @ y @ z" "map ascii_fold x = map ascii_fold u"
      "y = [] \<or> (\<exists>d. y = [d] \<and> ascii_fold d = ascii_fold c)" "map ascii_fold z = map ascii_fold w"
      unfolding l by blast
    from m(3) show "?r1 \<or> ?r2" by (elim disjE exE conjE) (simp_all add: m(1,2,4))
  qed
qed

lemma no_utxos_words: "test_search rx_no_utxos s \<longleftrightarrow> has_i ''no utxo found'' s \<or> has_i ''no utxos found'' s"
  unfolding test_search_iff has_i_iff rx_no_utxos_def in_optional_char append_Cons append_Nil by blast

lemma first_match:
  "(case find P (x # xs) of None \<Rightarrow> d | Some en \<Rightarrow> f en)
     = (if P x then f x else (case find P xs of None \<Rightarrow> d | Some en \<Rightarrow> f en))"
  by simp

text \<open>The rules in words, as the order of the copy prescribes them.\<close>

definition prepared_copy :: "claim_errors_copy \<Rightarrow> int option \<Rightarrow> jstr \<Rightarrow> claim_context \<Rightarrow> claim_error_copy" where
  "prepared_copy errors status raw ctx =
     (if has_i ''destination:'' raw \<and> (ctx = Send \<or> ctx = Build) then with_kind (destination_mismatch errors) Fixable
      else if has_i ''no utxo found'' raw \<or> has_i ''no utxos found'' raw then with_kind (no_utxos errors) Contact
      else if ctx = Broadcast \<and> has_i ''not fully signed'' raw then with_kind (psbt_not_fully_signed errors) Fixable
      else if test_search rx_timelock raw then with_kind (timelock_not_matured errors) Wait
      else if has_i ''esplora'' raw then with_kind (esplora_down errors) Wait
      else if ctx = Probe \<and> has_i ''this vault was not created with'' raw then with_kind (older_format errors) Contact
      else if status = Some 500 then with_kind (server_error errors) Wait
      else if has_i ''poly1305'' raw \<or> has_i ''invalid tag'' raw \<or> has_i ''decryp'' raw
      then with_kind (link_incomplete errors) Contact
      else build_generic_by_context errors ctx)"

text \<open>Whatever is thrown on the claim page, the heir reads one of the prepared texts: the copy of the
  first matching rule, in the order destination, no coins, unsigned, timelock, block explorer, older
  format, server failure, broken link, and otherwise the general text of the step; and every text the
  page can show is in the list the review page renders.\<close>

theorem claim_errors_covered:
  "classify_claim_error e ctx errors = prepared_copy errors (thrown_status e) (raw_error_message e) ctx
   \<and> (\<exists>l. l \<in> set (all_claim_error_copies errors) \<and> lc_copy l = classify_claim_error e ctx errors)"
proof
  have link: "test_search rx_link raw \<longleftrightarrow> has_i ''poly1305'' raw \<or> has_i ''invalid tag'' raw \<or> has_i ''decryp'' raw" for raw
    by (simp add: rx_link_def test_search_lit_i test_search_alt)
  show "classify_claim_error e ctx errors = prepared_copy errors (thrown_status e) (raw_error_message e) ctx"
    by (simp only: classify_claim_error_def build_entries_def prepared_copy_def first_match find.simps(1)
        option.case claim_entry.simps link no_utxos_words rx_destination_def rx_not_signed_def
        rx_esplora_def rx_not_created_with_def test_search_lit_i)
  have "classify_claim_error e ctx errors \<in> insert (build_generic_by_context errors ctx) (en_copy ` set (build_entries errors))"
    by (auto simp: classify_claim_error_def find_Some_iff split: option.split)
  moreover have "lc_copy ` set (all_claim_error_copies errors)
      = build_generic_by_context errors ` {Resolve, Probe, Send, Build, Broadcast} \<union> en_copy ` set (build_entries errors)"
  proof -
    have "map (\<lambda>(i, en). en_copy en) (enumerate 0 xs) = map en_copy xs" for xs :: "claim_entry list"
      using map_snd_enumerate [of 0 xs] by (metis (no_types, lifting) case_prod_beta' comp_apply list.map_comp map_eq_conv)
    then have "set (map (\<lambda>(i, en). en_copy en) (enumerate 0 (build_entries errors))) = en_copy ` set (build_entries errors)"
      by (metis list.set_map)
    then show ?thesis
      by (simp add: all_claim_error_copies_def image_Un image_image case_prod_unfold)
  qed
  moreover have "ctx \<in> {Resolve, Probe, Send, Build, Broadcast}" by (cases ctx) simp_all
  ultimately have "classify_claim_error e ctx errors \<in> lc_copy ` set (all_claim_error_copies errors)" by auto
  then show "\<exists>l. l \<in> set (all_claim_error_copies errors) \<and> lc_copy l = classify_claim_error e ctx errors" by auto
qed

text \<open>The owner is told that the password is wrong exactly for errors other than the server's whose
  message mentions poly1305, tag, invalid or decryp; an allocation failure worded "invalid array
  length" is among them, so running out of memory can be reported as a wrong password.\<close>

theorem unlock_message_cases:
  "(unlock_error_message e = wrong_password_text \<longleftrightarrow>
      (case e of Api_Error status body message \<Rightarrow> message = wrong_password_text
       | _ \<Rightarrow> has_i ''poly1305'' (raw_error_message e) \<or> has_i ''tag'' (raw_error_message e)
             \<or> has_i ''invalid'' (raw_error_message e) \<or> has_i ''decryp'' (raw_error_message e)))
   \<and> unlock_error_message (Js_Error ''invalid array length'') = wrong_password_text
   \<and> unlock_error_message (Js_Error ''Failed to fetch'') = unlock_trouble_text"
proof -
  have u: "is_unseal_failure e \<longleftrightarrow> has_i ''poly1305'' (raw_error_message e) \<or> has_i ''tag'' (raw_error_message e)
      \<or> has_i ''invalid'' (raw_error_message e) \<or> has_i ''decryp'' (raw_error_message e)" for e
    by (simp add: is_unseal_failure_def rx_unseal_def test_search_alt test_search_lit_i)
  have n: "wrong_password_text \<noteq> unlock_trouble_text"
    by (simp add: wrong_password_text_def unlock_trouble_text_def)
  have "is_unseal_failure (Js_Error ''invalid array length'')" "\<not> is_unseal_failure (Js_Error ''Failed to fetch'')"
    by code_simp+
  then have "unlock_error_message (Js_Error ''invalid array length'') = wrong_password_text"
    "unlock_error_message (Js_Error ''Failed to fetch'') = unlock_trouble_text"
    by (simp_all add: unlock_error_message_def)
  moreover have "unlock_error_message e = wrong_password_text \<longleftrightarrow>
      (case e of Api_Error status body message \<Rightarrow> message = wrong_password_text | _ \<Rightarrow> is_unseal_failure e)"
    using n by (cases e) (auto simp: unlock_error_message_def)
  ultimately show ?thesis unfolding u by (cases e) simp_all
qed

end
