(* ===== verification/App_Shell.thy ===== *)
theory App_Shell
  imports Claim_Errors Vault_Store Sealing
begin

text \<open>
  The application shell (ghostkey-web/src/App.tsx): the routes and how the URL hash is read, the page
  each location shows, the reload guard of the lazily loaded pages, and the inactivity lock that
  replaces every validated owner token of the device by its ciphertext. The clock and the server's
  answers are arguments; the lock's loop awaits the server, and is modelled as one uninterrupted pass.
\<close>

section \<open>Locations\<close>

datatype route =
    R_Landing | R_Setup | R_Setup_Legacy | R_Setup_Password | R_Success | R_Dashboard | R_Activity
  | R_Heir_Message | R_Heir_Contact | R_Practice | R_Emergency | R_Reminders | R_Tools | R_Recovery
  | R_Recovery_Guide | R_Checkin | R_Checkin_Legacy | R_Inherit | R_Status | R_Terms | R_Privacy

fun slug :: "route \<Rightarrow> jstr" where
  "slug R_Landing = ''landing''"
| "slug R_Setup = ''setup''"
| "slug R_Setup_Legacy = ''setup-legacy''"
| "slug R_Setup_Password = ''setup-password''"
| "slug R_Success = ''success''"
| "slug R_Dashboard = ''dashboard''"
| "slug R_Activity = ''activity''"
| "slug R_Heir_Message = ''heir-message''"
| "slug R_Heir_Contact = ''heir-contact''"
| "slug R_Practice = ''practice''"
| "slug R_Emergency = ''emergency''"
| "slug R_Reminders = ''reminders''"
| "slug R_Tools = ''tools''"
| "slug R_Recovery = ''recovery''"
| "slug R_Recovery_Guide = ''recovery-guide''"
| "slug R_Checkin = ''checkin''"
| "slug R_Checkin_Legacy = ''checkin-legacy''"
| "slug R_Inherit = ''inherit''"
| "slug R_Status = ''status''"
| "slug R_Terms = ''terms''"
| "slug R_Privacy = ''privacy''"

definition valid_routes :: "route list" where
  "valid_routes = [R_Landing, R_Setup, R_Setup_Legacy, R_Setup_Password, R_Success, R_Dashboard,
     R_Activity, R_Heir_Message, R_Heir_Contact, R_Practice, R_Emergency, R_Reminders, R_Tools,
     R_Recovery, R_Recovery_Guide, R_Checkin, R_Checkin_Legacy, R_Inherit, R_Status, R_Terms, R_Privacy]"

definition owner_routes :: "route list" where
  "owner_routes = [R_Dashboard, R_Activity, R_Heir_Message, R_Heir_Contact, R_Practice, R_Emergency,
     R_Reminders, R_Tools, R_Recovery]"

datatype location =
    At_Route route
  | At_Claim jstr
  | At_Owner_Recovery jstr
  | At_One_Tap jstr jstr
  | At_Verify_Email jstr jstr

text \<open>\<open>hash.replace(/^#\/?/, "")\<close>\<close>

definition strip_hash :: "jstr \<Rightarrow> jstr" where
  "strip_hash h = (if starts_with h ''#/'' then drop 2 h else if starts_with h ''#'' then drop 1 h else h)"

text \<open>One-parameter links, and links with a vault id and a token split at the first slash.\<close>

definition token_link :: "jstr \<Rightarrow> jstr \<Rightarrow> jstr option" where
  "token_link pre raw =
     (if starts_with raw pre
      then (let token = js_trim (drop (length pre) raw) in if token \<noteq> [] then Some token else None)
      else None)"

definition vault_link :: "jstr \<Rightarrow> jstr \<Rightarrow> (jstr \<times> jstr) option" where
  "vault_link pre raw =
     (if starts_with raw pre
      then (let rest = drop (length pre) raw
            in case index_of ''/'' rest of
                 None \<Rightarrow> None
               | Some slash \<Rightarrow>
                   if slash > 0
                   then (let vault_id = js_trim (take slash rest);
                             token = js_trim (drop (slash + 1) rest)
                         in if vault_id \<noteq> [] \<and> token \<noteq> [] then Some (vault_id, token) else None)
                   else None)
      else None)"

definition location_from_hash :: "jstr \<Rightarrow> location" where
  "location_from_hash h =
     (let raw = strip_hash h
      in case token_link ''claim/'' raw of Some token \<Rightarrow> At_Claim token
       | None \<Rightarrow> (case token_link ''recover/'' raw of Some token \<Rightarrow> At_Owner_Recovery token
       | None \<Rightarrow> (case vault_link ''checkin-link/'' raw of Some (i, token) \<Rightarrow> At_One_Tap i token
       | None \<Rightarrow> (case vault_link ''verify-email/'' raw of Some (i, token) \<Rightarrow> At_Verify_Email i token
       | None \<Rightarrow> At_Route (case find (\<lambda>r. slug r = raw) valid_routes of Some r \<Rightarrow> r | None \<Rightarrow> R_Landing)))))"

text \<open>The hash the shell writes back for a route.\<close>

definition route_hash :: "route \<Rightarrow> jstr" where
  "route_hash r = ''#/'' @ slug r"

section \<open>Pages\<close>

datatype page =
    P_Unlock | P_Landing | P_Setup | P_Setup_Legacy | P_Success | P_Owner route | P_Recovery_Guide
  | P_Sign_In bool | P_Recover jstr | P_Checkin_Legacy | P_Inherit | P_Status | P_Terms | P_Privacy
  | P_Claim jstr | P_One_Tap jstr jstr | P_Verify_Email jstr jstr

definition lock_screen :: "bool \<Rightarrow> location \<Rightarrow> bool" where
  "lock_screen is_locked loc =
     (is_locked \<and> (case loc of At_Route r \<Rightarrow> r \<in> set owner_routes | _ \<Rightarrow> False))"

text \<open>The page of a route; the last argument is \<open>canLocalUnlock(getTrustedVaultId())\<close>.\<close>

fun route_page :: "route \<Rightarrow> bool \<Rightarrow> page" where
  "route_page R_Landing l = P_Landing"
| "route_page R_Setup l = P_Setup"
| "route_page R_Setup_Password l = P_Setup"
| "route_page R_Setup_Legacy l = P_Setup_Legacy"
| "route_page R_Success l = P_Success"
| "route_page R_Recovery_Guide l = P_Recovery_Guide"
| "route_page R_Checkin l = P_Sign_In l"
| "route_page R_Checkin_Legacy l = P_Checkin_Legacy"
| "route_page R_Inherit l = P_Inherit"
| "route_page R_Status l = P_Status"
| "route_page R_Terms l = P_Terms"
| "route_page R_Privacy l = P_Privacy"
| "route_page r l = P_Owner r"

definition shown_page :: "bool \<Rightarrow> location \<Rightarrow> bool \<Rightarrow> page" where
  "shown_page is_locked loc local_unlock =
     (if lock_screen is_locked loc then P_Unlock
      else case loc of
        At_Route r \<Rightarrow> route_page r local_unlock
      | At_Owner_Recovery token \<Rightarrow> P_Recover token
      | At_Claim token \<Rightarrow> P_Claim token
      | At_One_Tap i token \<Rightarrow> P_One_Tap i token
      | At_Verify_Email i token \<Rightarrow> P_Verify_Email i token)"

definition shows_nav :: "location \<Rightarrow> bool" where
  "shows_nav loc = (case loc of At_Claim _ \<Rightarrow> False | At_One_Tap _ _ \<Rightarrow> False
     | At_Verify_Email _ _ \<Rightarrow> False | _ \<Rightarrow> True)"

section \<open>Stale bundles\<close>

text \<open>\<open>isStaleChunkError\<close>: how browsers word a chunk that no longer exists.\<close>

definition is_stale_chunk_error :: "thrown \<Rightarrow> bool" where
  "is_stale_chunk_error e =
     test_search (ralts [rlit_i ''Failed to fetch dynamically imported module'',
       rlit_i ''error loading dynamically imported module'', rlit_i ''Importing a module script failed''])
       (raw_error_message e)"

datatype 'm chunk_load = Loaded 'm | Raised thrown | Reloading

text \<open>The session area with the guard \<open>gk:chunk-reload\<close>: whether it may be read, written and cleared,
  and the stored text.\<close>

record guard_area =
  ga_mode :: area_mode
  ga_flag :: "jstr option"

definition lazy_route :: "(thrown, 'm) throws \<Rightarrow> guard_area \<Rightarrow> 'm chunk_load \<times> guard_area" where
  "lazy_route outcome g =
     (case outcome of
        Inr m \<Rightarrow> (Loaded m, if removes_ok (ga_mode g) then g\<lparr>ga_flag := None\<rparr> else g)
      | Inl e \<Rightarrow>
          (let already_tried = reads_ok (ga_mode g) \<and> ga_flag g = Some ''1''
           in if \<not> is_stale_chunk_error e \<or> already_tried then (Raised e, g)
              else (Reloading, if sets_ok (ga_mode g) then g\<lparr>ga_flag := Some ''1''\<rparr> else g)))"

text \<open>A tab's chunk loads one after another, across its reloads.\<close>

fun load_all :: "(thrown, 'm) throws list \<Rightarrow> guard_area \<Rightarrow> 'm chunk_load list" where
  "load_all [] g = []"
| "load_all (x # xs) g = (let (r, g') = lazy_route x g in r # load_all xs g')"

section \<open>The session\<close>

text \<open>React state of the shell and the two variables of the inactivity effect, which is set up anew (its
  variables reset) when \<open>locked\<close> changes.\<close>

record shell =
  sh_locked :: bool
  sh_signed_in :: bool
  sh_timed_out :: bool
  sh_expired_notice :: bool
  sh_checking :: bool
  sh_last_touch :: int

definition locked_shell :: "shell \<Rightarrow> shell" where
  "locked_shell s = s\<lparr>sh_locked := True, sh_signed_in := False, sh_timed_out := True,
     sh_expired_notice := True, sh_last_touch := (if sh_locked s then sh_last_touch s else 0)\<rparr>"

text \<open>First render: \<open>locked\<close> and \<open>signedIn\<close> are computed in turn, each reading the stamp (which may write
  it).\<close>

definition initial_locked :: "int \<Rightarrow> device \<Rightarrow> bool \<times> device" where
  "initial_locked now d =
     (let active = get_active_vault_id d
      in if has_locked_vault_credential active d then (True, d)
         else (case session_expired now d of
                 (d', expired) \<Rightarrow> (expired \<and> has_vault_credential_lock active d', d')))"

definition initial_signed_in :: "int \<Rightarrow> device \<Rightarrow> bool \<times> device" where
  "initial_signed_in now d =
     (if truthy (get_active_vault_id d) \<and> \<not> has_locked_vault_credential (get_active_vault_id d) d
      then (case session_expired now d of
              (d', expired) \<Rightarrow> (\<not> (expired \<and> has_vault_credential_lock (get_active_vault_id d') d'), d'))
      else (False, d))"

definition initial_shell :: "int \<Rightarrow> device \<Rightarrow> shell \<times> device" where
  "initial_shell now d =
     (case initial_locked now d of (l, d1) \<Rightarrow>
      case initial_signed_in now d1 of (s, d2) \<Rightarrow>
        (\<lparr>sh_locked = l, sh_signed_in = s, sh_timed_out = False, sh_expired_notice = False,
          sh_checking = False, sh_last_touch = 0\<rparr>, d2))"

text \<open>Another tab wrote \<open>gk:vaults\<close>.\<close>

definition on_storage :: "jstr \<Rightarrow> device \<Rightarrow> shell \<Rightarrow> shell" where
  "on_storage changed d s =
     (if changed = ''gk:vaults'' \<and> has_locked_vault_credential (get_active_vault_id d) d
      then locked_shell s else s)"

text \<open>\<open>onUnlock\<close> of the sign-in pages.\<close>

definition on_unlock_shell :: "int \<Rightarrow> shell \<Rightarrow> device \<Rightarrow> shell \<times> device" where
  "on_unlock_shell now s d =
     (s\<lparr>sh_locked := False, sh_signed_in := True, sh_timed_out := False, sh_expired_notice := False,
        sh_last_touch := (if sh_locked s then 0 else sh_last_touch s)\<rparr>,
      touch_session now d)"

section \<open>The inactivity lock\<close>

text \<open>The candidate lock made of the server's view of a vault.\<close>

definition candidate_lock :: "jstr \<Rightarrow> sealed_blobs_view \<Rightarrow> locked_owner_token" where
  "candidate_lock email_hash b =
     \<lparr>lk_salt = sbv_password_salt_b64 b, lk_mem_kib = sbv_password_kdf_mem_kib b,
      lk_iters = sbv_password_kdf_iters b,
      lk_blob = mk_blob (sbv_owner_token_ct_b64 b) (sbv_owner_token_nonce_b64 b),
      lk_email_hash = email_hash, lk_validated = None\<rparr>"

type_synonym fetch_blobs = "jstr \<Rightarrow> jstr \<Rightarrow> (thrown, sealed_blobs_view) throws"

definition owner_address :: "vault_meta \<Rightarrow> jstr" where
  "owner_address m = oi_address (vm_owner m)"

definition lock_one :: "('a crypto_scheme) \<Rightarrow> fetch_blobs \<Rightarrow> vault_meta \<Rightarrow> device \<Rightarrow> device" where
  "lock_one C get_sealed_blobs m d =
     (let owner_token = get_vault_owner_token (vm_id m) d
      in if \<not> truthy owner_token \<or> \<not> email_shaped (js_trim (owner_address m)) then d
         else case vm_lock m of
           Some lk \<Rightarrow> fst (lock_vault_credential (vm_id m) lk d)
         | None \<Rightarrow>
             (case get_sealed_blobs (vm_id m) (the owner_token) of
                Inl _ \<Rightarrow> d
              | Inr blobs \<Rightarrow>
                  fst (save_vault_credential_lock (vm_id m)
                    (candidate_lock (hash_email_for_lookup C (owner_address m)) blobs) d)))"

definition lock_pass :: "('a crypto_scheme) \<Rightarrow> fetch_blobs \<Rightarrow> jstr comparator \<Rightarrow> device \<Rightarrow> device" where
  "lock_pass C get_sealed_blobs lc d = fold (lock_one C get_sealed_blobs) (get_all_vault_metas lc d) d"

text \<open>\<open>lockIfPasswordVault\<close>; \<open>later\<close> is the time when the pass has ended.\<close>

definition lock_if_password_vault ::
    "('a crypto_scheme) \<Rightarrow> fetch_blobs \<Rightarrow> jstr comparator \<Rightarrow> int \<Rightarrow> int \<Rightarrow> shell \<Rightarrow> device \<Rightarrow> shell \<times> device" where
  "lock_if_password_vault C get_sealed_blobs lc now later s d =
     (if sh_locked s \<or> sh_checking s then (s, d)
      else (case session_expired now d of
        (d1, expired) \<Rightarrow>
          (let active = get_active_vault_id d1
           in if \<not> expired \<or> \<not> truthy active then (s, d1)
              else (let d2 = lock_pass C get_sealed_blobs lc d1
                    in if has_vault_credential_lock active d2 then (locked_shell s, d2)
                       else (s, touch_session later d2)))))"

text \<open>\<open>onActivity\<close>: a click, a key or a scroll.\<close>

definition on_activity ::
    "('a crypto_scheme) \<Rightarrow> fetch_blobs \<Rightarrow> jstr comparator \<Rightarrow> int \<Rightarrow> int \<Rightarrow> shell \<Rightarrow> device \<Rightarrow> shell \<times> device" where
  "on_activity C get_sealed_blobs lc now later s d =
     (if sh_locked s \<or> \<not> truthy (get_active_vault_id d) then (s, d)
      else (case session_expired now d of
        (d1, expired) \<Rightarrow>
          if expired then lock_if_password_vault C get_sealed_blobs lc now later s d1
          else if now - sh_last_touch s \<ge> 30000
          then (s\<lparr>sh_last_touch := now\<rparr>, touch_session now d1)
          else (s, d1)))"

section \<open>Links and pages\<close>

lemma valid_routes_complete: "r \<in> set valid_routes"
  by (cases r) (simp_all add: valid_routes_def)

lemma slug_inj: "slug r = slug q \<Longrightarrow> r = q"
  by (cases r; cases q) simp_all

lemma find_slug: "find (\<lambda>q. slug q = slug r) valid_routes = Some r"
proof -
  have "find (\<lambda>q. slug q = slug r) valid_routes \<noteq> None"
    using valid_routes_complete [of r] by (auto simp: find_None_iff)
  then obtain q where "find (\<lambda>q. slug q = slug r) valid_routes = Some q" by blast
  moreover then have "slug q = slug r" by (auto simp: find_Some_iff)
  ultimately show ?thesis using slug_inj by blast
qed

lemma slug_no_slash: "CHR ''/'' \<notin> set (slug r)"
  by (cases r) simp_all

lemma no_slash_no_link:
  "CHR ''/'' \<notin> set raw \<Longrightarrow> CHR ''/'' \<in> set pre \<Longrightarrow> token_link pre raw = None \<and> vault_link pre raw = None"
  by (auto simp: token_link_def vault_link_def dest: set_mono_prefix)

lemma token_link_read:
  "token \<noteq> [] \<Longrightarrow> js_trim token = token \<Longrightarrow> token_link pre (pre @ token) = Some token"
  by (simp add: token_link_def Let_def)

lemma index_of_sep: "c \<notin> set w \<Longrightarrow> index_of [c] (w @ c # s) = Some (length w)"
  by (induction w) auto

lemma vault_link_read:
  assumes "i \<noteq> []" "CHR ''/'' \<notin> set i" "js_trim i = i" "token \<noteq> []" "js_trim token = token"
  shows "vault_link pre (pre @ i @ ''/'' @ token) = Some (i, token)"
  using assms by (simp add: vault_link_def Let_def index_of_sep)

lemma other_link: "\<not> prefix pre raw \<Longrightarrow> token_link pre raw = None \<and> vault_link pre raw = None"
  by (simp add: token_link_def vault_link_def)

lemmas read_links = location_from_hash_def Let_def token_link_read vault_link_read other_link

text \<open>The hash is read back exactly as the program writes it: the hash of a route gives the route,
  a claim or recovery link gives its token, and an e-mailed check-in or confirmation link gives its
  vault and token, for tokens without surrounding white space and identifiers without a slash.\<close>

theorem links_read_back:
  assumes "token \<noteq> []" "js_trim token = token" "i \<noteq> []" "CHR ''/'' \<notin> set i" "js_trim i = i"
  shows "location_from_hash (route_hash r) = At_Route r
    \<and> location_from_hash (''#/claim/'' @ token) = At_Claim token
    \<and> location_from_hash (''#/recover/'' @ token) = At_Owner_Recovery token
    \<and> location_from_hash (''#/checkin-link/'' @ i @ ''/'' @ token) = At_One_Tap i token
    \<and> location_from_hash (''#/verify-email/'' @ i @ ''/'' @ token) = At_Verify_Email i token"
proof -
  have "location_from_hash (route_hash r) = At_Route r"
    using slug_no_slash [of r]
    by (simp add: location_from_hash_def strip_hash_def route_hash_def no_slash_no_link find_slug)
  moreover have "token_link ''claim/'' (''claim/'' @ token) = Some token"
    "token_link ''recover/'' (''recover/'' @ token) = Some token"
    using assms token_link_read [of token] by blast+
  moreover have "vault_link ''checkin-link/'' (''checkin-link/'' @ i @ ''/'' @ token) = Some (i, token)"
    "vault_link ''verify-email/'' (''verify-email/'' @ i @ ''/'' @ token) = Some (i, token)"
    using assms vault_link_read [of i token] by blast+
  ultimately show ?thesis by (simp add: location_from_hash_def strip_hash_def other_link)
qed

theorem links_read_back_witness:
  "location_from_hash ''#/checkin-link/v1/t0k'' = At_One_Tap ''v1'' ''t0k''"
  using links_read_back [of "''t0k''" "''v1''" R_Landing] by (simp add: js_trim_def js_ws_def)

section \<open>At most one reload in a row\<close>

fun is_loaded :: "'m chunk_load \<Rightarrow> bool" where
  "is_loaded (Loaded m) = True"
| "is_loaded _ = False"

lemma lazy_route_mode: "ga_mode (snd (lazy_route x g)) = ga_mode g"
  by (auto simp: lazy_route_def Let_def split: sum.split)

lemma reload_sets_flag:
  "fst (lazy_route x g) = Reloading \<Longrightarrow> area_works (ga_mode g) \<Longrightarrow>
     ga_flag g \<noteq> Some ''1'' \<and> ga_flag (snd (lazy_route x g)) = Some ''1''"
  by (auto simp: lazy_route_def Let_def area_works_def split: sum.splits if_splits)

lemma flag_kept:
  "\<not> is_loaded (fst (lazy_route x g)) \<Longrightarrow> ga_flag g = Some ''1'' \<Longrightarrow>
     area_works (ga_mode g) \<Longrightarrow> lazy_route x g = (fst (lazy_route x g), g) \<and> fst (lazy_route x g) \<noteq> Reloading"
  by (auto simp: lazy_route_def Let_def area_works_def split: sum.splits if_splits)

lemma load_all_Cons:
  "load_all (x # xs) g = fst (lazy_route x g) # load_all xs (snd (lazy_route x g))"
  by (simp split: prod.split)

lemma reload_needs_load:
  "area_works (ga_mode g) \<Longrightarrow> ga_flag g = Some ''1'' \<Longrightarrow> j < length xs \<Longrightarrow>
     load_all xs g ! j = Reloading \<Longrightarrow> \<exists>k<j. is_loaded (load_all xs g ! k)"
proof (induction xs arbitrary: g j)
  case (Cons x xs)
  show ?case
  proof (cases "is_loaded (fst (lazy_route x g))")
    case True
    then have "j \<noteq> 0" using Cons.prems(4) by (cases j) (auto simp: load_all_Cons simp del: load_all.simps)
    then show ?thesis
      using True by (auto simp: load_all_Cons simp del: load_all.simps intro!: exI [of _ 0])
  next
    case False
    note f = flag_kept [OF False Cons.prems(2,1)]
    then obtain j' where j: "j = Suc j'"
      using Cons.prems(4) by (cases j) (auto simp: load_all_Cons simp del: load_all.simps)
    have s: "snd (lazy_route x g) = g" using f by (metis snd_conv)
    then have "\<exists>k<j'. is_loaded (load_all xs g ! k)"
      using Cons.prems Cons.IH [OF Cons.prems(1,2), of j'] by (simp add: load_all_Cons j del: load_all.simps)
    then obtain k where "k < j'" "is_loaded (load_all xs g ! k)" by blast
    then show ?thesis using s by (auto simp: load_all_Cons j simp del: load_all.simps intro!: exI [of _ "Suc k"])
  qed
qed simp

text \<open>In a tab whose session storage works, a page that cannot be loaded reloads the tab at most once
  in a row: between two reloads some page was loaded. So a bundle that is really missing ends in the
  error page, never in a reload loop.\<close>

theorem one_reload_in_a_row:
  assumes "area_works (ga_mode g)" "i < j" "j < length xs"
    and "load_all xs g ! i = Reloading" "load_all xs g ! j = Reloading"
  shows "\<exists>k. i < k \<and> k < j \<and> is_loaded (load_all xs g ! k)"
  using assms
proof (induction xs arbitrary: g i j)
  case (Cons x xs)
  obtain j' where j: "j = Suc j'" using Cons.prems(2) by (cases j) auto
  let ?g = "snd (lazy_route x g)"
  have w: "area_works (ga_mode ?g)" using Cons.prems(1) by (simp add: lazy_route_mode)
  have rj: "load_all xs ?g ! j' = Reloading" "j' < length xs"
    using Cons.prems(3,5) by (simp_all add: load_all_Cons j del: load_all.simps)
  show ?case
  proof (cases i)
    case 0
    then have "ga_flag ?g = Some ''1''"
      using reload_sets_flag [of x g] Cons.prems(1,4) by (simp add: load_all_Cons del: load_all.simps)
    then obtain k where "k < j'" "is_loaded (load_all xs ?g ! k)"
      using reload_needs_load [OF w _ rj(2,1)] by blast
    then show ?thesis
      by (auto simp: 0 j load_all_Cons simp del: load_all.simps intro!: exI [of _ "Suc k"])
  next
    case (Suc i')
    then obtain k where "i' < k" "k < j'" "is_loaded (load_all xs ?g ! k)"
      using Cons.IH [OF w _ rj(2) _ rj(1), of i'] Cons.prems(2,4)
      by (auto simp: j load_all_Cons simp del: load_all.simps)
    then show ?thesis
      by (auto simp: Suc j load_all_Cons simp del: load_all.simps intro!: exI [of _ "Suc k"])
  qed
qed simp

definition stale_chunk :: thrown where
  "stale_chunk = Js_Error ''Importing a module script failed.''"

definition fresh_guard :: guard_area where
  "fresh_guard = \<lparr>ga_mode = working_area, ga_flag = None\<rparr>"

lemma stale_chunk_is_stale: "is_stale_chunk_error stale_chunk"
  by (simp add: is_stale_chunk_error_def stale_chunk_def test_search_alt test_search_lit_i has_i_def
      ascii_fold_def)

theorem one_reload_in_a_row_witness:
  "is_loaded (load_all [Inl stale_chunk, Inr (), Inl stale_chunk] fresh_guard ! 1)"
proof -
  let ?xs = "[Inl stale_chunk, Inr (), Inl stale_chunk]"
  have r: "load_all ?xs fresh_guard = [Reloading, Loaded (), Reloading]"
    using stale_chunk_is_stale
    by (simp add: lazy_route_def fresh_guard_def working_area_def)
  have "area_works (ga_mode fresh_guard)" by (simp add: fresh_guard_def area_works_def working_area_def)
  from one_reload_in_a_row [OF this, of 0 2 ?xs] obtain k where "0 < k" "k < 2" "is_loaded (load_all ?xs fresh_guard ! k)"
    unfolding r by auto
  moreover then have "k = 1" by simp
  ultimately show ?thesis by simp
qed

section \<open>What the inactivity lock does\<close>

text \<open>Each step of the pass is nothing, or one action on the credential store for its vault.\<close>

lemma lock_one_act:
  "lock_one C fetch m d = d
   \<or> (\<exists>lk. vm_lock m = Some lk \<and> email_shaped (js_trim (owner_address m))
        \<and> lock_one C fetch m d = cred.act (Inl (vm_id m, lk)) d)
   \<or> vm_lock m = None \<and> (\<exists>lk. lock_one C fetch m d = cred.act (Inr (vm_id m, lk)) d)"
  by (cases "vm_lock m") (auto simp: lock_one_def Let_def cred.act_def split: sum.split)

lemma lock_one_good: "store_good d \<Longrightarrow> store_good (lock_one C fetch m d)"
  using lock_one_act [of C fetch m d] cred.act_good [of d] by metis

lemma lock_one_locks:
  assumes "store_good d" "vm_lock m = Some lk" "lock_validated lk" "email_shaped (js_trim (owner_address m))"
  shows "\<not> truthy (get_vault_owner_token (vm_id m) (lock_one C fetch m d))"
  using assms cred.lock_token_after [OF assms(1,3), of "vm_id m"] by (simp add: lock_one_def Let_def)

lemma lock_one_keeps:
  assumes "store_good d"
    and "vm_id m = j \<Longrightarrow> \<not> (\<exists>lk. vm_lock m = Some lk \<and> lock_validated lk) \<or> \<not> email_shaped (js_trim (owner_address m))"
  shows "get_vault_owner_token j (lock_one C fetch m d) = get_vault_owner_token j d"
proof -
  consider "lock_one C fetch m d = d"
    | lk where "vm_lock m = Some lk" "email_shaped (js_trim (owner_address m))"
        "lock_one C fetch m d = fst (lock_vault_credential (vm_id m) lk d)"
    | lk where "lock_one C fetch m d = fst (save_vault_credential_lock (vm_id m) lk d)"
    using lock_one_act [of C fetch m d] by (auto simp: cred.act_def)
  then show ?thesis
  proof cases
    case (2 lk)
    then show ?thesis
      using assms cred.lock_frame [OF assms(1), of j "vm_id m" lk] cred.lock_refused [of lk "vm_id m" d]
      by (cases "vm_id m = j") auto
  qed (simp_all add: cred.cache_tokens [OF assms(1)])
qed

lemma lock_one_mono:
  "store_good d \<Longrightarrow> truthy (get_vault_owner_token j (lock_one C fetch m d)) \<Longrightarrow>
     get_vault_owner_token j (lock_one C fetch m d) = get_vault_owner_token j d"
  using lock_one_act [of C fetch m d] cred.act_token_mono [of d j] by metis

lemma lock_fold_good: "store_good d \<Longrightarrow> store_good (fold (lock_one C fetch) ms d)"
  by (induction ms arbitrary: d) (auto simp: lock_one_good)

lemma lock_fold_mono:
  "store_good d \<Longrightarrow> truthy (get_vault_owner_token j (fold (lock_one C fetch) ms d)) \<Longrightarrow>
     get_vault_owner_token j (fold (lock_one C fetch) ms d) = get_vault_owner_token j d"
proof (induction ms arbitrary: d)
  case (Cons m ms)
  then have "get_vault_owner_token j (fold (lock_one C fetch) ms (lock_one C fetch m d))
      = get_vault_owner_token j (lock_one C fetch m d)" by (simp add: lock_one_good)
  with Cons.prems show ?case using lock_one_mono [of d j C fetch m] by simp
qed simp

lemma lock_fold_locks:
  "store_good d \<Longrightarrow> m \<in> set ms \<Longrightarrow> vm_lock m = Some lk \<Longrightarrow> lock_validated lk \<Longrightarrow>
     email_shaped (js_trim (owner_address m)) \<Longrightarrow>
     \<not> truthy (get_vault_owner_token (vm_id m) (fold (lock_one C fetch) ms d))"
proof (induction ms arbitrary: d)
  case (Cons x ms)
  show ?case
  proof (cases "x = m")
    case True
    then have "\<not> truthy (get_vault_owner_token (vm_id m) (lock_one C fetch x d))"
      using lock_one_locks Cons.prems by blast
    moreover have "truthy (get_vault_owner_token (vm_id m) (fold (lock_one C fetch) ms (lock_one C fetch x d))) \<Longrightarrow>
        get_vault_owner_token (vm_id m) (fold (lock_one C fetch) ms (lock_one C fetch x d))
          = get_vault_owner_token (vm_id m) (lock_one C fetch x d)"
      by (rule lock_fold_mono [OF lock_one_good [OF Cons.prems(1)]])
    ultimately show ?thesis by auto
  next
    case False
    then show ?thesis using Cons by (simp add: lock_one_good)
  qed
qed simp

lemma lock_fold_keeps:
  "store_good d \<Longrightarrow> (\<And>m. m \<in> set ms \<Longrightarrow> vm_id m = j \<Longrightarrow>
       \<not> (\<exists>lk. vm_lock m = Some lk \<and> lock_validated lk) \<or> \<not> email_shaped (js_trim (owner_address m))) \<Longrightarrow>
     get_vault_owner_token j (fold (lock_one C fetch) ms d) = get_vault_owner_token j d"
proof (induction ms arbitrary: d)
  case (Cons m ms)
  have "get_vault_owner_token j (lock_one C fetch m d) = get_vault_owner_token j d"
    by (rule lock_one_keeps [OF Cons.prems(1)]) (use Cons.prems(2) in auto)
  with Cons show ?case by (simp add: lock_one_good)
qed simp

definition password_locked :: "vault_meta \<Rightarrow> bool" where
  "password_locked m = ((case vm_lock m of None \<Rightarrow> False | Some lk \<Rightarrow> lock_validated lk)
     \<and> email_shaped (js_trim (owner_address m)))"

lemma listed_iff:
  "store_inv d \<Longrightarrow> m \<in> set (get_all_vault_metas lc d) \<longleftrightarrow> get_vault_meta (vm_id m) d = Some m"
proof
  assume i: "store_inv d" and "m \<in> set (get_all_vault_metas lc d)"
  then obtain k where "(k, m) \<in> set (read_all d)" by (auto simp: get_all_vault_metas_set obj_values_def)
  then have "get_vault_meta k d = Some m"
    using i by (simp add: get_vault_meta_def store_inv_def store_good_def obj_entry_get)
  then show "get_vault_meta (vm_id m) d = Some m" using store_inv_meta [OF i, of k m] by simp
next
  assume "get_vault_meta (vm_id m) d = Some m"
  then show "m \<in> set (get_all_vault_metas lc d)"
    by (simp add: get_all_vault_metas_set get_vault_meta_def obj_get_value)
qed

lemma lock_pass_core:
  assumes "store_inv d" and "get_vault_meta i d = Some m"
  shows "if password_locked m then \<not> truthy (get_vault_owner_token i (lock_pass C fetch lc d))
    else get_vault_owner_token i (lock_pass C fetch lc d) = get_vault_owner_token i d"
proof -
  have g: "store_good d" and i: "vm_id m = i"
    using assms store_inv_good store_inv_meta by auto
  have m: "m \<in> set (get_all_vault_metas lc d)" using assms i by (simp add: listed_iff)
  have u: "x = m" if "x \<in> set (get_all_vault_metas lc d)" "vm_id x = i" for x
    using that assms(1,2) by (simp add: listed_iff)
  show ?thesis
  proof (cases "password_locked m")
    case True
    then obtain lk where "vm_lock m = Some lk" "lock_validated lk" "email_shaped (js_trim (owner_address m))"
      by (auto simp: password_locked_def split: option.splits)
    then have "\<not> truthy (get_vault_owner_token (vm_id m) (lock_pass C fetch lc d))"
      unfolding lock_pass_def by (rule lock_fold_locks [OF g m])
    with True show ?thesis by (simp add: i)
  next
    case False
    have "get_vault_owner_token i (lock_pass C fetch lc d) = get_vault_owner_token i d"
      unfolding lock_pass_def
    proof (rule lock_fold_keeps [OF g])
      fix x assume "x \<in> set (get_all_vault_metas lc d)" "vm_id x = i"
      then have "x = m" by (rule u)
      then show "\<not> (\<exists>lk. vm_lock x = Some lk \<and> lock_validated lk) \<or> \<not> email_shaped (js_trim (owner_address x))"
        using False by (auto simp: password_locked_def)
    qed
    with False show ?thesis by simp
  qed
qed

text \<open>The inactivity pass over all vaults of the device removes the usable owner token of every vault
  whose password lock has been validated and whose owner address is an e-mail address, and leaves the
  token of every other vault (a legacy vault, or one whose lock is only a candidate) as it was,
  whatever the server answers.\<close>

theorem inactivity_pass_exact:
  assumes "store_inv d" and "get_vault_meta i d = Some m"
  shows "if password_locked m then \<not> truthy (get_vault_owner_token i (lock_pass C fetch lc d))
    else get_vault_owner_token i (lock_pass C fetch lc d) = get_vault_owner_token i d"
  by (rule lock_pass_core [OF assms])

lemma lock_one_frame:
  assumes "store_good d"
  shows "lock_of j d \<noteq> None \<Longrightarrow> lock_of j (lock_one C fetch m d) \<noteq> None"
    and "get_active_vault_id (lock_one C fetch m d) = get_active_vault_id d"
    and "dv_activity (lock_one C fetch m d) = dv_activity d"
  using assms
  by (auto simp: lock_one_def Let_def lock_vault_credential_def save_vault_credential_lock_def
      lock_of_def get_vault_meta_def store_good_def store_frame store_reads obj_laws
      get_active_vault_id_def delete_live_token_def split: sum.split option.split)

lemma lock_fold_frame:
  assumes "store_good d"
  shows "(lock_of j d \<noteq> None \<longrightarrow> lock_of j (fold (lock_one C fetch) ms d) \<noteq> None)
    \<and> get_active_vault_id (fold (lock_one C fetch) ms d) = get_active_vault_id d
    \<and> dv_activity (fold (lock_one C fetch) ms d) = dv_activity d"
  using assms
proof (induction ms arbitrary: d)
  case (Cons m ms)
  let ?d = "lock_one C fetch m d"
  have "store_good ?d" by (rule lock_one_good [OF Cons.prems])
  note ih = Cons.IH [OF this]
  have "lock_of j d \<noteq> None \<Longrightarrow> lock_of j ?d \<noteq> None" "get_active_vault_id ?d = get_active_vault_id d"
    "dv_activity ?d = dv_activity d"
    using lock_one_frame [OF Cons.prems] by simp_all
  with ih show ?case by simp
qed simp

lemma locked_hides_owner_pages: "shown_page True loc l \<noteq> P_Owner r"
  by (cases loc; cases "case loc of At_Route q \<Rightarrow> q | _ \<Rightarrow> R_Landing")
    (auto simp: shown_page_def lock_screen_def owner_routes_def)

lemma has_lock_iff: "i \<noteq> [] \<Longrightarrow> has_vault_credential_lock (Some i) d \<longleftrightarrow> lock_of i d \<noteq> None"
  by (simp add: has_vault_credential_lock_def lock_of_def get_vault_meta_def)


definition no_server :: fetch_blobs where
  "no_server i token = Inl (Js_Error ''offline'')"

definition idle_device :: device where
  "idle_device = unlocked_device\<lparr>dv_active := Some ''a'', dv_activity := Stamp 1000\<rparr>"

definition idle_shell :: shell where
  "idle_shell = \<lparr>sh_locked = False, sh_signed_in = True, sh_timed_out = False, sh_expired_notice = False,
     sh_checking = False, sh_last_touch = 0\<rparr>"

lemma idle_device_facts:
  "store_inv idle_device" "get_active_vault_id idle_device = Some ''a''"
  "get_vault_meta ''a'' idle_device = Some locked_meta" "dv_activity idle_device = Stamp 1000"
  by (auto simp: idle_device_def store_inv_def store_good_def storage_works_def area_works_def
      unlocked_device_def sample_device_def working_area_def read_all_def read_live_tokens_def
      get_vault_meta_def get_active_vault_id_def obj_get_def obj_ok_def split: if_splits)

lemma locked_meta_password_locked: "password_locked locked_meta"
proof -
  have "email_shaped ''a@b.c''"
    unfolding email_shaped_iff by (rule exI [of _ "''a''"], rule exI [of _ "''b''"], rule exI [of _ "''c''"]) simp
  then show ?thesis
    by (simp add: password_locked_def locked_meta_def owner_address_def sample_meta_def js_trim_def js_ws_def
        sample_lock_def)
qed

theorem inactivity_pass_exact_witness:
  "\<not> truthy (get_vault_owner_token ''a'' (lock_pass sample_crypto no_server default idle_device))"
  using inactivity_pass_exact [OF idle_device_facts(1,3)] locked_meta_password_locked by auto


end
