(* ===== verification/Lock_Steps.thy ===== *)
theory Lock_Steps
  imports App_Shell Store_Cells
begin

text \<open>
  The inactivity lock of ghostkey-web/src/App.tsx step by step. App_Shell takes its loop over the vaults as
  one pass; here a request for a vault's sealed blobs and its answer are separate steps, and between them
  the owner clicks, timers fire, other code writes the device, the session is unlocked, and a re-run of the
  effect gives its handlers new variables while an old loop is still waiting.
\<close>

section \<open>The loop\<close>

text \<open>The vaults of the loop are those listed when it began; it stops where a vault needs the server's
  answer, with the token of that request.\<close>

fun pass_on :: "vault_meta list \<Rightarrow> device \<Rightarrow> device \<times> (jstr \<times> vault_meta list) option" where
  "pass_on [] d = (d, None)"
| "pass_on (m # ms) d =
     (let owner_token = get_vault_owner_token (vm_id m) d
      in if \<not> truthy owner_token \<or> \<not> email_shaped (js_trim (owner_address m)) then pass_on ms d
         else case vm_lock m of
           Some lk \<Rightarrow> pass_on ms (fst (lock_vault_credential (vm_id m) lk d))
         | None \<Rightarrow> (d, Some (the owner_token, m # ms)))"

text \<open>The answer for the first of the vaults left; an error is swallowed.\<close>

definition blobs_answered ::
    "('a crypto_scheme) \<Rightarrow> (thrown, sealed_blobs_view) throws \<Rightarrow> vault_meta \<Rightarrow> device \<Rightarrow> device" where
  "blobs_answered C reply m d =
     (case reply of
        Inl _ \<Rightarrow> d
      | Inr blobs \<Rightarrow>
          fst (save_vault_credential_lock (vm_id m)
            (candidate_lock (hash_email_for_lookup C (owner_address m)) blobs) d))"

record lock_run =
  lr_todo :: "vault_meta list"
  lr_token :: jstr
  lr_active :: jstr
  lr_effect :: nat

text \<open>\<open>se_effect\<close> counts the runs of the effect: \<open>sh_checking\<close> and \<open>sh_last_touch\<close> are the variables of the
  latest, and a loop clears \<open>checking\<close> of the run it belongs to. \<open>se_runs\<close> are the loops that wait.\<close>

record session =
  se_shell :: shell
  se_dev :: device
  se_effect :: nat
  se_runs :: "lock_run list"

definition enter_locked :: "session \<Rightarrow> session" where
  "enter_locked se =
     (let s = se_shell se
      in se\<lparr>se_shell := (locked_shell s)\<lparr>sh_checking := sh_locked s \<and> sh_checking s\<rparr>,
            se_effect := (if sh_locked s then se_effect se else se_effect se + 1)\<rparr>)"

definition pass_done :: "nat \<Rightarrow> jstr \<Rightarrow> int \<Rightarrow> session \<Rightarrow> session" where
  "pass_done effect active now se =
     (let s = se_shell se;
          se1 = se\<lparr>se_shell := (if effect = se_effect se then s\<lparr>sh_checking := False\<rparr> else s)\<rparr>
      in if has_vault_credential_lock (Some active) (se_dev se) then enter_locked se1
         else se1\<lparr>se_dev := touch_session now (se_dev se)\<rparr>)"

definition pass_from :: "nat \<Rightarrow> jstr \<Rightarrow> int \<Rightarrow> vault_meta list \<Rightarrow> session \<Rightarrow> session" where
  "pass_from effect active now ms se =
     (case pass_on ms (se_dev se) of
        (d, None) \<Rightarrow> pass_done effect active now (se\<lparr>se_dev := d\<rparr>)
      | (d, Some (t, todo)) \<Rightarrow>
          se\<lparr>se_dev := d,
             se_runs := se_runs se @ [\<lparr>lr_todo = todo, lr_token = t, lr_active = active, lr_effect = effect\<rparr>]\<rparr>)"

section \<open>The events\<close>

text \<open>\<open>lockIfPasswordVault\<close>: called by the interval, when the tab becomes visible, and when the effect runs.\<close>

definition lock_check :: "jstr comparator \<Rightarrow> int \<Rightarrow> session \<Rightarrow> session" where
  "lock_check lc now se =
     (let s = se_shell se
      in if sh_locked s \<or> sh_checking s then se
         else (case session_expired now (se_dev se) of
           (d, expired) \<Rightarrow>
             (let active = get_active_vault_id d
              in if \<not> expired \<or> \<not> truthy active then se\<lparr>se_dev := d\<rparr>
                 else pass_from (se_effect se) (the active) now (get_all_vault_metas lc d)
                        (se\<lparr>se_dev := d, se_shell := s\<lparr>sh_checking := True\<rparr>\<rparr>))))"

definition owner_active :: "jstr comparator \<Rightarrow> int \<Rightarrow> session \<Rightarrow> session" where
  "owner_active lc now se =
     (let s = se_shell se
      in if sh_locked s \<or> \<not> truthy (get_active_vault_id (se_dev se)) then se
         else (case session_expired now (se_dev se) of
           (d, expired) \<Rightarrow>
             if expired then lock_check lc now (se\<lparr>se_dev := d\<rparr>)
             else if now - sh_last_touch s \<ge> 30000
             then se\<lparr>se_shell := s\<lparr>sh_last_touch := now\<rparr>, se_dev := touch_session now d\<rparr>
             else se\<lparr>se_dev := d\<rparr>))"

definition blobs_arrive ::
    "('a crypto_scheme) \<Rightarrow> nat \<Rightarrow> (thrown, sealed_blobs_view) throws \<Rightarrow> int \<Rightarrow> session \<Rightarrow> session" where
  "blobs_arrive C i reply now se =
     (if length (se_runs se) \<le> i then se
      else (let r = se_runs se ! i
            in pass_from (lr_effect r) (lr_active r) now (tl (lr_todo r))
                 (se\<lparr>se_runs := take i (se_runs se) @ drop (Suc i) (se_runs se),
                     se_dev := blobs_answered C reply (hd (lr_todo r)) (se_dev se)\<rparr>)))"

definition session_unlocked :: "int \<Rightarrow> session \<Rightarrow> session" where
  "session_unlocked now se =
     (case on_unlock_shell now (se_shell se) (se_dev se) of
        (s, d) \<Rightarrow> se\<lparr>se_shell := s\<lparr>sh_checking := \<not> sh_locked (se_shell se) \<and> sh_checking s\<rparr>, se_dev := d,
                     se_effect := (if sh_locked (se_shell se) then se_effect se + 1 else se_effect se)\<rparr>)"

text \<open>Another tab's write of the vaults is heard.\<close>

definition storage_heard :: "jstr \<Rightarrow> session \<Rightarrow> session" where
  "storage_heard changed se =
     (if changed = ''gk:vaults'' \<and> has_locked_vault_credential (get_active_vault_id (se_dev se)) (se_dev se)
      then enter_locked se else se)"

datatype session_event =
    Lock_Check int | Owner_Active int | Blobs_Arrive nat "(thrown, sealed_blobs_view) throws" int
  | Session_Unlocked int | Storage_Heard jstr | Store_Change store_event

fun session_apply :: "('a crypto_scheme) \<Rightarrow> jstr comparator \<Rightarrow> session_event \<Rightarrow> session \<Rightarrow> session" where
  "session_apply C lc (Lock_Check now) se = lock_check lc now se"
| "session_apply C lc (Owner_Active now) se = owner_active lc now se"
| "session_apply C lc (Blobs_Arrive i reply now) se = blobs_arrive C i reply now se"
| "session_apply C lc (Session_Unlocked now) se = session_unlocked now se"
| "session_apply C lc (Storage_Heard changed) se = storage_heard changed se"
| "session_apply C lc (Store_Change e) se = se\<lparr>se_dev := apply_event e (se_dev se)\<rparr>"

fun session_may :: "session_event \<Rightarrow> bool" where
  "session_may (Store_Change e) = admissible e"
| "session_may _ = True"

inductive session_reach :: "('a crypto_scheme) \<Rightarrow> jstr comparator \<Rightarrow> session \<Rightarrow> bool" for C lc where
  session_open: "store_inv (se_dev se) \<Longrightarrow> se_runs se = [] \<Longrightarrow> session_reach C lc se"
| session_step: "session_reach C lc se \<Longrightarrow> session_may e \<Longrightarrow> session_reach C lc (session_apply C lc e se)"


section \<open>No credential is lost\<close>

text \<open>What a step of the lock may do to a vault: nothing to its token, or take it away and leave a
  validated lock; and it never takes a validated lock away.\<close>

definition valid_lock :: "cell \<Rightarrow> bool" where
  "valid_lock c = (case cell_lock c of None \<Rightarrow> False | Some lk \<Rightarrow> lock_validated lk)"

definition credential_kept :: "cell \<Rightarrow> cell \<Rightarrow> bool" where
  "credential_kept c c' =
     ((cell_token c' = cell_token c \<or> \<not> truthy (cell_token c') \<and> valid_lock c')
      \<and> (valid_lock c \<longrightarrow> valid_lock c'))"

definition credentials_kept :: "device \<Rightarrow> device \<Rightarrow> bool" where
  "credentials_kept d d' = (\<forall>i. credential_kept (cells d i) (cells d' i))"

lemma kept_refl [simp]: "credentials_kept d d"
  by (simp add: credentials_kept_def credential_kept_def)

lemma kept_trans: "credentials_kept d d1 \<Longrightarrow> credentials_kept d1 d2 \<Longrightarrow> credentials_kept d d2"
  unfolding credentials_kept_def credential_kept_def by metis

lemma kept_of_cells: "cells d' = cells d \<Longrightarrow> credentials_kept d d'"
  by (simp add: credentials_kept_def credential_kept_def)

lemma kept_lock: "store_inv d \<Longrightarrow> credentials_kept d (fst (lock_vault_credential i lk d))"
  by (auto simp: credentials_kept_def credential_kept_def cells_lock [OF store_inv_good] valid_lock_def
      cell_token_def cell_lock_def split: option.splits)

lemma valid_lock_no_stored_token:
  "store_inv d \<Longrightarrow> valid_lock (cells d i) \<Longrightarrow> get_vault_meta i d = Some m \<Longrightarrow> \<not> truthy (vm_owner_token m)"
  by (auto simp: store_inv_def valid_lock_def cell_lock_def split: option.splits)

lemma kept_cache: "store_inv d \<Longrightarrow> credentials_kept d (fst (save_vault_credential_lock i lk d))"
  using valid_lock_no_stored_token [of d]
  by (auto simp: credentials_kept_def credential_kept_def cells_cache [OF store_inv_good] valid_lock_def
      cell_token_def cell_lock_def split: option.splits)

lemma kept_touch [simp]: "store_inv d \<Longrightarrow> credentials_kept d (touch_session now d)"
  using cells_event [OF store_inv_good, of d "Touch now"] by (intro kept_of_cells) simp

lemma inv_touch [simp]: "store_inv d \<Longrightarrow> store_inv (touch_session now d)"
  using event_inv [of d "Touch now"] by simp

lemma kept_expired:
  "store_inv d \<Longrightarrow> store_inv (fst (session_expired now d)) \<and> credentials_kept d (fst (session_expired now d))"
  by (simp add: session_expired_def split: stamp.split)

lemma inv_lock [simp]: "store_inv d \<Longrightarrow> store_inv (fst (lock_vault_credential i lk d))"
  using event_inv [of d "LockNow i lk"] by simp

lemma inv_candidate: "store_inv d \<Longrightarrow> store_inv (blobs_answered C reply m d)"
  using event_inv [of d "CacheLock (vm_id m) (candidate_lock (hash_email_for_lookup C (owner_address m)) b)" for b]
  by (simp add: blobs_answered_def candidate_lock_def split: sum.split)

lemma kept_answered: "store_inv d \<Longrightarrow> credentials_kept d (blobs_answered C reply m d)"
  by (simp add: blobs_answered_def kept_cache split: sum.split)

lemma kept_pass_on: "store_inv d \<Longrightarrow> store_inv (fst (pass_on ms d)) \<and> credentials_kept d (fst (pass_on ms d))"
proof (induction ms arbitrary: d)
  case (Cons m ms)
  have "credentials_kept d (fst (pass_on ms (fst (lock_vault_credential (vm_id m) lk d))))" for lk
    using Cons.IH [OF inv_lock [OF Cons.prems], of "vm_id m" lk] kept_lock [OF Cons.prems] kept_trans by blast
  then show ?case using Cons by (auto simp: Let_def split: option.split)
qed simp

text \<open>A step of the lock: it keeps the invariant of the store and every credential.\<close>

definition safe_step :: "session \<Rightarrow> session \<Rightarrow> bool" where
  "safe_step se se' = (store_inv (se_dev se') \<and> credentials_kept (se_dev se) (se_dev se'))"

lemma enter_locked_dev [simp]: "se_dev (enter_locked se) = se_dev se"
  by (simp add: enter_locked_def Let_def)

lemma safe_pass_from:
  assumes "store_inv (se_dev se)"
  shows "safe_step se (pass_from effect active now ms se)"
  using kept_pass_on [OF assms, of ms] kept_touch [of "fst (pass_on ms (se_dev se))" now] kept_trans
  by (auto simp: safe_step_def pass_from_def pass_done_def Let_def split: prod.split option.split)

lemma safe_lock_check:
  assumes "store_inv (se_dev se)"
  shows "safe_step se (lock_check lc now se)"
proof -
  obtain d b where d: "session_expired now (se_dev se) = (d, b)" by fastforce
  have k: "store_inv d" "credentials_kept (se_dev se) d" using kept_expired [OF assms, of now] by (simp_all add: d)
  have "safe_step se (pass_from e a now ms (se\<lparr>se_dev := d, se_shell := s\<rparr>))" for e a ms s
    using safe_pass_from [of "se\<lparr>se_dev := d, se_shell := s\<rparr>" e a now ms] k kept_trans
    by (auto simp: safe_step_def)
  then show ?thesis using assms k by (simp add: lock_check_def Let_def d safe_step_def)
qed

lemma safe_owner_active:
  assumes "store_inv (se_dev se)"
  shows "safe_step se (owner_active lc now se)"
proof -
  obtain d b where d: "session_expired now (se_dev se) = (d, b)" by fastforce
  have k: "store_inv d" "credentials_kept (se_dev se) d" using kept_expired [OF assms, of now] by (simp_all add: d)
  have "safe_step se (lock_check lc now (se\<lparr>se_dev := d\<rparr>))"
    using safe_lock_check [of "se\<lparr>se_dev := d\<rparr>" lc now] k kept_trans by (auto simp: safe_step_def)
  then show ?thesis
    using assms k kept_trans [OF k(2) kept_touch [OF k(1)]] by (simp add: owner_active_def Let_def d safe_step_def)
qed

lemma safe_blobs_arrive:
  assumes "store_inv (se_dev se)"
  shows "safe_step se (blobs_arrive C i reply now se)"
proof -
  let ?r = "se_runs se ! i" and ?runs = "take i (se_runs se) @ drop (Suc i) (se_runs se)"
  let ?d = "blobs_answered C reply (hd (lr_todo ?r)) (se_dev se)"
  have k: "store_inv ?d" "credentials_kept (se_dev se) ?d" using assms by (simp_all add: inv_candidate kept_answered)
  have "safe_step se (pass_from (lr_effect ?r) (lr_active ?r) now (tl (lr_todo ?r)) (se\<lparr>se_runs := ?runs, se_dev := ?d\<rparr>))"
    using safe_pass_from [of "se\<lparr>se_runs := ?runs, se_dev := ?d\<rparr>"] k kept_trans by (fastforce simp: safe_step_def)
  then show ?thesis using assms by (simp add: blobs_arrive_def Let_def safe_step_def)
qed

lemma safe_session_step:
  assumes "store_inv (se_dev se)" "\<forall>c. e \<noteq> Store_Change c"
  shows "safe_step se (session_apply C lc e se)"
  using assms safe_lock_check safe_owner_active safe_blobs_arrive [where C = C]
  by (cases e) (auto simp: session_unlocked_def on_unlock_shell_def storage_heard_def safe_step_def)

lemma session_inv: "session_reach C lc se \<Longrightarrow> store_inv (se_dev se)"
proof (induction rule: session_reach.induct)
  case (session_step se e)
  then show ?case
    using safe_session_step [OF session_step.IH, of e C lc] event_inv
    by (cases e) (auto simp: safe_step_def simp del: apply_event.simps)
qed


section \<open>Without anything in between\<close>

text \<open>The server answers every waiting loop at once.\<close>

fun serve :: "('a crypto_scheme) \<Rightarrow> fetch_blobs \<Rightarrow> jstr comparator \<Rightarrow> int \<Rightarrow> nat \<Rightarrow> session \<Rightarrow> session" where
  "serve C fetch lc now 0 se = se"
| "serve C fetch lc now (Suc n) se =
     (case se_runs se of
        [] \<Rightarrow> se
      | r # _ \<Rightarrow> serve C fetch lc now n
          (session_apply C lc (Blobs_Arrive 0 (fetch (vm_id (hd (lr_todo r))) (lr_token r)) now) se))"

lemma serve_idle: "se_runs se = [] \<Longrightarrow> serve C fetch lc now n se = se"
  by (cases n) simp_all

lemma pass_done_runs [simp]: "se_runs (pass_done e a now se) = se_runs se"
  by (simp add: pass_done_def enter_locked_def Let_def)

lemma serve_pass:
  "se_runs se = [] \<Longrightarrow> length ms \<le> n \<Longrightarrow>
   serve C fetch lc now n (pass_from e a now ms se)
     = pass_done e a now (se\<lparr>se_dev := fold (lock_one C fetch) ms (se_dev se)\<rparr>)"
proof (induction ms arbitrary: n se)
  case Nil
  then show ?case by (simp add: pass_from_def serve_idle)
next
  case (Cons m ms)
  let ?d = "se_dev se" and ?t = "get_vault_owner_token (vm_id m) (se_dev se)"
  show ?case
  proof (cases "truthy ?t \<and> email_shaped (js_trim (owner_address m)) \<and> vm_lock m = None")
    case True
    obtain k where k: "n = Suc k" "length ms \<le> k" using Cons.prems(2) by (cases n) auto
    have d: "blobs_answered C (fetch (vm_id m) (the ?t)) m ?d = lock_one C fetch m ?d"
      using True by (simp add: blobs_answered_def lock_one_def)
    have p: "pass_from e a now (m # ms) se
        = se\<lparr>se_runs := [\<lparr>lr_todo = m # ms, lr_token = the ?t, lr_active = a, lr_effect = e\<rparr>]\<rparr>"
      using True Cons.prems(1) by (simp add: pass_from_def)
    have r: "se\<lparr>se_runs := [], se_dev := lock_one C fetch m ?d\<rparr> = se\<lparr>se_dev := lock_one C fetch m ?d\<rparr>"
      using Cons.prems(1) by (cases se) simp
    have "serve C fetch lc now n (pass_from e a now (m # ms) se)
        = serve C fetch lc now k (pass_from e a now ms (se\<lparr>se_dev := lock_one C fetch m ?d\<rparr>))"
      using Cons.prems(1) by (simp add: k p blobs_arrive_def d r)
    also have "\<dots> = pass_done e a now (se\<lparr>se_dev := fold (lock_one C fetch) (m # ms) ?d\<rparr>)"
      using Cons.IH [of "se\<lparr>se_dev := lock_one C fetch m ?d\<rparr>" k] k Cons.prems(1) by simp
    finally show ?thesis .
  next
    case False
    then have "pass_on (m # ms) ?d = pass_on ms (lock_one C fetch m ?d)"
      by (auto simp: lock_one_def Let_def split: option.split)
    then have "pass_from e a now (m # ms) se = pass_from e a now ms (se\<lparr>se_dev := lock_one C fetch m ?d\<rparr>)"
      by (simp add: pass_from_def)
    then show ?thesis
      using Cons.IH [of "se\<lparr>se_dev := lock_one C fetch m ?d\<rparr>" n] Cons.prems by simp
  qed
qed

lemma session_swap: "se\<lparr>se_shell := s, se_dev := d\<rparr> = se\<lparr>se_dev := d, se_shell := s\<rparr>"
  by (cases se) simp

lemma touched_active: "get_active_vault_id (touch_session now d) = get_active_vault_id d"
  by (simp add: touch_session_def get_active_vault_id_def)

lemma expired_active: "get_active_vault_id (fst (session_expired now d)) = get_active_vault_id d"
  by (simp add: session_expired_def touched_active split: stamp.split)

text \<open>With a server that answers at once and nothing else in between, the steps of one check are the single pass
  of App_Shell: the same shell and the same device, and no loop is left waiting.\<close>

theorem lock_steps_are_the_pass:
  fixes C :: "'a crypto_scheme" and fetch :: fetch_blobs
  assumes "se_runs se = []" "length (get_all_vault_metas lc (fst (session_expired now (se_dev se)))) \<le> n"
  defines "se' \<equiv> serve C fetch lc now n (session_apply C lc (Lock_Check now) se)"
  shows "(se_shell se', se_dev se') = lock_if_password_vault C fetch lc now now (se_shell se) (se_dev se)
    \<and> se_runs se' = []"
proof -
  obtain d x where d: "session_expired now (se_dev se) = (d, x)" by fastforce
  let ?ms = "get_all_vault_metas lc d"
  have l: "length ?ms \<le> n" using assms(2) by (simp add: d)
  have s: "serve C fetch lc now n (pass_from e a now ?ms (se\<lparr>se_dev := d, se_shell := sh\<rparr>))
      = pass_done e a now (se\<lparr>se_dev := lock_pass C fetch lc d, se_shell := sh\<rparr>)" for e a sh
    using serve_pass [of "se\<lparr>se_dev := d, se_shell := sh\<rparr>" ?ms n] l assms(1)
    by (simp add: lock_pass_def session_swap)
  show ?thesis
  proof (cases "sh_locked (se_shell se) \<or> sh_checking (se_shell se) \<or> \<not> x \<or> \<not> truthy (get_active_vault_id d)")
    case True
    then show ?thesis
      using assms(1) by (auto simp: se'_def lock_check_def lock_if_password_vault_def Let_def d serve_idle)
  next
    case False
    then obtain a where a: "get_active_vault_id d = Some a" by (cases "get_active_vault_id d") auto
    have e: "se' = pass_done (se_effect se) a now
        (se\<lparr>se_dev := lock_pass C fetch lc d, se_shell := (se_shell se)\<lparr>sh_checking := True\<rparr>\<rparr>)"
      using False a s by (simp add: se'_def lock_check_def Let_def d)
    have c: "(se_shell se)\<lparr>sh_checking := False\<rparr> = se_shell se" using False by (cases "se_shell se") simp
    show ?thesis
      using False a assms(1)
      by (simp add: e pass_done_def enter_locked_def lock_if_password_vault_def locked_shell_def Let_def d c)
  qed
qed

section \<open>A server that does not answer\<close>

text \<open>The interval fires and the owner goes on working.\<close>

fun goes_on :: "int \<Rightarrow> session_event \<Rightarrow> bool" where
  "goes_on t (Lock_Check now) = (t \<le> now)"
| "goes_on t (Owner_Active now) = (t \<le> now)"
| "goes_on t _ = False"

lemma waiting_goes_on:
  assumes "list_all (goes_on (t0 + 600000)) es" "sh_checking (se_shell se)" "dv_activity (se_dev se) = Stamp t0"
    and "reads_ok (local_mode (se_dev se))"
  shows "fold (session_apply C lc) es se = se"
  using assms
proof (induction es)
  case (Cons e es)
  have s: "se\<lparr>se_dev := se_dev se\<rparr> = se" by (cases se) simp
  have "session_apply C lc e se = se"
    using Cons.prems s
    by (cases e) (auto simp: owner_active_def lock_check_def Let_def session_expired_def session_timeout_ms_def)
  with Cons show ?case by simp
qed simp

lemma expired_stamp:
  assumes "store_good d" "get_active_vault_id d = Some a" "a \<noteq> []" "dv_activity d = Stamp t0" "t0 + 600000 \<le> now"
  shows "session_expired now d = (d, True)"
  using assms by (simp add: session_expired_def session_timeout_ms_def store_good_def storage_works_def area_works_def)

text \<open>C34: The lock asks the server about a vault without a lock before it comes to the vaults listed after it, and no
  request has a time limit. So when the first vault of the device has no lock yet and the server does not
  answer, an expired session stays open for as long as the owner's tab is used: the check of a session that
  ran out locks nothing, and every later check and every click leaves the page and all tokens as they are,
  also those of the active vault whose lock is validated.\<close>

theorem lock_waits_for_server:
  assumes "store_inv (se_dev se)" "\<not> sh_locked (se_shell se)" "\<not> sh_checking (se_shell se)"
    and "get_active_vault_id (se_dev se) = Some a" "a \<noteq> []" "dv_activity (se_dev se) = Stamp t0" "t0 + 600000 \<le> now"
    and "get_all_vault_metas lc (se_dev se) = m # ms" "vm_lock m = None"
    and "truthy (get_vault_owner_token (vm_id m) (se_dev se))" "email_shaped (js_trim (owner_address m))"
    and "list_all (goes_on (t0 + 600000)) es"
  shows "let se' = fold (session_apply C lc) (Lock_Check now # es) se
    in se_dev se' = se_dev se \<and> \<not> sh_locked (se_shell se') \<and> length (se_runs se') = length (se_runs se) + 1
      \<and> (\<forall>l. shown_page (sh_locked (se_shell se')) (At_Route R_Dashboard) l = P_Owner R_Dashboard)"
proof -
  let ?d = "se_dev se" and ?t = "the (get_vault_owner_token (vm_id m) (se_dev se))"
  let ?r = "\<lparr>lr_todo = m # ms, lr_token = ?t, lr_active = a, lr_effect = se_effect se\<rparr>"
  let ?se = "se\<lparr>se_shell := (se_shell se)\<lparr>sh_checking := True\<rparr>, se_runs := se_runs se @ [?r]\<rparr>"
  have g: "store_good ?d" using assms(1) by (rule store_inv_good)
  have "session_apply C lc (Lock_Check now) se = ?se"
    using assms(2-5,8-11) expired_stamp [OF g assms(4-7)]
    by (cases se) (simp add: lock_check_def pass_from_def)
  moreover have "fold (session_apply C lc) es ?se = ?se"
    using assms(6,12) g by (intro waiting_goes_on) (simp_all add: store_good_def storage_works_def area_works_def)
  ultimately show ?thesis
    using assms(2) by (simp add: shown_page_def lock_screen_def)
qed

section \<open>A late answer\<close>

lemma answered_has_lock:
  assumes "store_inv d"
  shows "lock_of a d \<noteq> None \<Longrightarrow> lock_of a (blobs_answered C reply m d) \<noteq> None"
  using cells_cache [OF store_inv_good [OF assms], of "vm_id m"]
  by (auto simp: blobs_answered_def cells_simps(4) [symmetric] cell_lock_def simp del: cells_simps
      split: sum.split option.splits)

lemma locked_has_lock:
  assumes "store_inv d"
  shows "lock_of a d \<noteq> None \<Longrightarrow> lock_of a (fst (lock_vault_credential i lk d)) \<noteq> None"
  using cells_lock [OF store_inv_good [OF assms], of i lk]
  by (auto simp: cells_simps(4) [symmetric] cell_lock_def simp del: cells_simps)

lemma pass_on_has_lock:
  "store_inv d \<Longrightarrow> lock_of a d \<noteq> None \<Longrightarrow> lock_of a (fst (pass_on ms d)) \<noteq> None"
proof (induction ms arbitrary: d)
  case (Cons m ms)
  then show ?case using locked_has_lock [OF Cons.prems(1)] by (simp add: Let_def split: option.split)
qed simp

lemma pass_on_ends: "list_all (\<lambda>x. vm_lock x \<noteq> None) ms \<Longrightarrow> snd (pass_on ms d) = None"
  by (induction ms arbitrary: d) (auto simp: Let_def)

text \<open>Nothing stops a loop that waits, and after its answer it asks neither whether the session is still expired nor
  whether somebody signed in: when the owner has signed in again in the meantime and the last answer of a former check arrives,
  the session that was renewed at that very instant is locked.\<close>

theorem late_answer_locks_new_session:
  assumes "store_inv (se_dev se)" "i < length (se_runs se)" "lr_todo (se_runs se ! i) = m # ms"
    and "list_all (\<lambda>x. vm_lock x \<noteq> None) ms"
    and "lr_active (se_runs se ! i) = a" "a \<noteq> []" "lock_of a (se_dev se) \<noteq> None"
  shows "let se1 = session_apply C lc (Session_Unlocked now) se; se2 = session_apply C lc (Blobs_Arrive i reply now) se1
    in \<not> sh_locked (se_shell se1) \<and> sh_signed_in (se_shell se1) \<and> \<not> snd (session_expired now (se_dev se1))
      \<and> sh_locked (se_shell se2) \<and> \<not> sh_signed_in (se_shell se2)"
proof -
  let ?d = "touch_session now (se_dev se)"
  let ?b = "blobs_answered C reply m ?d"
  have g: "store_good (se_dev se)" using assms(1) by (rule store_inv_good)
  then have e: "\<not> snd (session_expired now ?d)"
    by (simp add: session_expired_def touch_session_def session_timeout_ms_def store_good_def storage_works_def
        area_works_def get_active_vault_id_def)
  have "store_inv ?d" "cells ?d = cells (se_dev se)"
    using assms(1) cells_event [OF g, of "Touch now"] by simp_all
  then have "lock_of a ?d \<noteq> None" using assms(7) by (metis cells_simps(4))
  then have "lock_of a ?b \<noteq> None" using \<open>store_inv ?d\<close> by (simp add: answered_has_lock)
  then have "lock_of a (fst (pass_on ms ?b)) \<noteq> None" "snd (pass_on ms ?b) = None"
    using pass_on_has_lock pass_on_ends assms(4) inv_candidate [OF \<open>store_inv ?d\<close>] by blast+
  then obtain d where "pass_on ms ?b = (d, None)" "has_vault_credential_lock (Some a) d"
    by (metis has_lock_iff assms(6) prod.collapse)
  then show ?thesis
    using assms(2,3,5) e
    by (simp add: session_unlocked_def on_unlock_shell_def blobs_arrive_def pass_from_def pass_done_def
        enter_locked_def locked_shell_def Let_def)
qed

section \<open>Concrete sessions\<close>

text \<open>Vault b was set up before its lock could be stored; the active vault c, listed later, has a validated lock.\<close>

definition meta_b :: vault_meta where
  "meta_b = (sample_meta ''b'' ''g'')\<lparr>vm_owner_token := Some ''tok''\<rparr>"

definition meta_c :: vault_meta where
  "meta_c = (sample_meta ''c'' ''g'')\<lparr>vm_lock := Some sample_lock\<rparr>"

definition mixed_device :: device where
  "mixed_device = (sample_device [(''b'', meta_b), (''c'', meta_c)] [(''c'', ''tok2'')])
     \<lparr>dv_active := Some ''c'', dv_activity := Stamp 1000\<rparr>"

definition session_of :: "device \<Rightarrow> session" where
  "session_of d = \<lparr>se_shell = idle_shell, se_dev = d, se_effect = 0, se_runs = []\<rparr>"

lemma session_of_simps [simp]:
  "se_shell (session_of d) = idle_shell" "se_dev (session_of d) = d" "se_runs (session_of d) = []"
  by (simp_all add: session_of_def)

lemma idle_shell_open [simp]: "\<not> sh_locked idle_shell" "\<not> sh_checking idle_shell"
  by (simp_all add: idle_shell_def)

lemma mixed_reads [simp]:
  "read_all mixed_device = [(''b'', meta_b), (''c'', meta_c)]" "read_live_tokens mixed_device = [(''c'', ''tok2'')]"
  "get_active_vault_id mixed_device = Some ''c''" "dv_activity mixed_device = Stamp 1000"
  by (simp_all add: mixed_device_def sample_device_def read_all_def read_live_tokens_def working_area_def
      get_active_vault_id_def)

lemma mixed_inv: "store_inv mixed_device"
proof -
  have "storage_works mixed_device"
    by (simp add: mixed_device_def sample_device_def storage_works_def area_works_def working_area_def)
  then show ?thesis
    by (auto simp: store_inv_def store_good_def obj_ok_def get_vault_meta_def obj_get_def meta_b_def meta_c_def
        sample_meta_def split: if_splits)
qed

lemma mixed_listed: "get_all_vault_metas default mixed_device = [meta_b, meta_c]"
proof -
  have "compare (meta_order default) meta_b meta_c = Less" "compare (meta_order default) meta_c meta_b = Greater"
    by (simp_all add: meta_order_def compare_prod_lex_apply meta_b_def meta_c_def sample_meta_def)
  then show ?thesis by (simp add: get_all_vault_metas_def obj_values_def js_sort_def)
qed

lemma mixed_email: "email_shaped (js_trim (owner_address meta_b))"
  using locked_meta_password_locked
  by (simp add: password_locked_def locked_meta_def meta_b_def owner_address_def sample_meta_def)

lemma mixed_token: "get_vault_owner_token (vm_id meta_b) mixed_device = Some ''tok''"
  by (simp add: get_vault_owner_token_def meta_b_def sample_meta_def obj_get_def)

lemma mixed_facts:
  "\<not> sh_locked (se_shell (session_of mixed_device))" "\<not> sh_checking (se_shell (session_of mixed_device))"
  "get_active_vault_id (se_dev (session_of mixed_device)) = Some ''c''" "''c'' \<noteq> []"
  "dv_activity (se_dev (session_of mixed_device)) = Stamp 1000"
  "get_all_vault_metas default (se_dev (session_of mixed_device)) = [meta_b, meta_c]" "vm_lock meta_b = None"
  "truthy (get_vault_owner_token (vm_id meta_b) (se_dev (session_of mixed_device)))"
  by (simp_all add: mixed_listed mixed_token) (simp add: meta_b_def sample_meta_def)

theorem lock_waits_for_server_witness:
  "se_dev (fold (session_apply sample_crypto default)
     (Lock_Check 700000 # replicate 100 (Owner_Active 800000)) (session_of mixed_device)) = mixed_device"
  using lock_waits_for_server [OF _ mixed_facts(1-5) _ mixed_facts(6-8) mixed_email,
      of 700000 "replicate 100 (Owner_Active 800000)" sample_crypto] mixed_inv
  by (simp add: Let_def list_all_iff)


theorem lock_steps_are_the_pass_witness:
  "\<exists>n. se_dev (serve sample_crypto no_server default 700000 n
       (session_apply sample_crypto default (Lock_Check 700000) (session_of mixed_device)))
     = snd (lock_if_password_vault sample_crypto no_server default 700000 700000 idle_shell mixed_device)"
  using lock_steps_are_the_pass [of "session_of mixed_device" default 700000 _ sample_crypto no_server]
  by (metis order_refl session_of_simps snd_conv)

lemma mixed_waits:
  "session_apply C default (Lock_Check 700000) (session_of mixed_device)
     = (session_of mixed_device)\<lparr>se_shell := idle_shell\<lparr>sh_checking := True\<rparr>,
         se_runs := [\<lparr>lr_todo = [meta_b, meta_c], lr_token = ''tok'', lr_active = ''c'', lr_effect = 0\<rparr>]\<rparr>"
  using expired_stamp [OF store_inv_good [OF mixed_inv], of "''c''" 1000 700000] mixed_email mixed_token
  by (simp add: lock_check_def Let_def pass_from_def mixed_listed mixed_facts(7)) (simp add: session_of_def)

theorem late_answer_locks_new_session_witness:
  "sh_locked (se_shell (fold (session_apply sample_crypto default)
      [Lock_Check 700000, Session_Unlocked 900000, Blobs_Arrive 0 (Inl (Js_Error ''offline'')) 900000]
      (session_of mixed_device)))"
proof -
  have "lock_of ''c'' mixed_device \<noteq> None"
    by (simp add: lock_of_def get_vault_meta_def obj_get_def meta_c_def)
  then show ?thesis
    using late_answer_locks_new_session [where se = "session_apply sample_crypto default (Lock_Check 700000) (session_of mixed_device)"
        and C = sample_crypto and lc = default and i = 0 and m = meta_b and ms = "[meta_c]" and a = "''c''"
        and now = 900000 and reply = "Inl (Js_Error ''offline'')"] mixed_inv
    by (simp add: Let_def mixed_waits meta_c_def del: session_apply.simps(1))
qed

end
