(* ===== verification/Address.thy ===== *)
theory Address
  imports Js_Regex Sealed_Types
begin

text \<open>
  Destination checks (ghostkey-web/src/address.ts): the shape of a Bitcoin address, Lightning
  payment strings, and whether an address belongs to a network. The patterns are those of the
  source; a network is the text the server sends.
\<close>

section \<open>The checks\<close>

definition bech32_prefix_for :: "jstr \<Rightarrow> jstr" where
  "bech32_prefix_for network =
     (if network = ''bitcoin'' then ''bc1q''
      else if network = ''regtest'' then ''bcrt1q''
      else ''tb1q'')"

text \<open>\<open>[02-9ac-hj-np-z]\<close> and \<open>[1-9A-HJ-NP-Za-km-z]\<close>.\<close>

definition bech32_char :: "char \<Rightarrow> bool" where
  "bech32_char c = (c = CHR ''0'' \<or> in_range CHR ''2'' CHR ''9'' c \<or> c = CHR ''a''
     \<or> in_range CHR ''c'' CHR ''h'' c \<or> in_range CHR ''j'' CHR ''n'' c
     \<or> in_range CHR ''p'' CHR ''z'' c)"

definition base58_char :: "char \<Rightarrow> bool" where
  "base58_char c = (in_range CHR ''1'' CHR ''9'' c \<or> in_range CHR ''A'' CHR ''H'' c
     \<or> in_range CHR ''J'' CHR ''N'' c \<or> in_range CHR ''P'' CHR ''Z'' c
     \<or> in_range CHR ''a'' CHR ''k'' c \<or> in_range CHR ''m'' CHR ''z'' c)"

definition bech32_rx :: rx where
  "bech32_rx = RSeq (ralts [rlit_i ''bc1'', rlit_i ''tb1'', rlit_i ''bcrt1''])
                 (rmin 20 (rcls_i bech32_char))"

definition base58_rx :: rx where
  "base58_rx = RSeq (RCls (\<lambda>c. c \<in> set ''13mn2'')) (rmin 20 (RCls base58_char))"

definition looks_like_bitcoin_address :: "jstr \<Rightarrow> bool" where
  "looks_like_bitcoin_address s =
     (let t = js_trim s
      in if t = [] then False
         else if test_full bech32_rx t then True
         else if test_full base58_rx t then True
         else False)"

definition alnum_char :: "char \<Rightarrow> bool" where
  "alnum_char c = (in_range CHR ''0'' CHR ''9'' c \<or> in_range CHR ''a'' CHR ''z'' c)"

definition bolt11_rx :: rx where
  "bolt11_rx = rseqs [rlit ''ln'', ralts [rlit ''bc'', rlit ''tb'', rlit ''tbs'', rlit ''bcrt''],
                      rplus (RCls alnum_char)]"

definition lnurl_rx :: rx where
  "lnurl_rx = RSeq (rlit ''lnurl1'') (rplus (RCls alnum_char))"

text \<open>\<open>[^\s@]\<close>\<close>

definition handle_char :: "char \<Rightarrow> bool" where
  "handle_char c = (\<not> js_ws c \<and> c \<noteq> CHR ''@'')"

definition ln_address_rx :: rx where
  "ln_address_rx = rseqs [rplus (RCls handle_char), rchar CHR ''@'', rplus (RCls handle_char),
                          rchar CHR ''.'', rmin 2 (RCls handle_char)]"

definition looks_like_lightning_destination :: "jstr \<Rightarrow> bool" where
  "looks_like_lightning_destination s =
     (let t = js_lower (js_trim s)
      in if t = [] then False
         else if starts_with t ''lightning:'' then True
         else if test_full bolt11_rx t then True
         else if test_full lnurl_rx t then True
         else if test_full ln_address_rx t then True
         else False)"

definition segwit_prefix_rx :: rx where
  "segwit_prefix_rx = ralts [rlit ''bc1'', rlit ''tb1'', rlit ''bcrt1'']"

definition address_matches_network :: "jstr \<Rightarrow> jstr \<Rightarrow> bool" where
  "address_matches_network addr network =
     (let t = js_trim addr; lower = js_lower t
      in if test_start segwit_prefix_rx lower
         then (if network = ''bitcoin'' then starts_with lower ''bc1''
               else if network = ''regtest'' then starts_with lower ''bcrt1''
               else starts_with lower ''tb1'')
         else if test_start (RCls (\<lambda>c. c \<in> set ''13'')) t then network = ''bitcoin''
         else if test_start (RCls (\<lambda>c. c \<in> set ''mn2'')) t then network \<noteq> ''bitcoin''
         else False)"

section \<open>Readings of the patterns\<close>

lemma in_rcls_i_rmin [simp]:
  "in_rx s (rmin n (rcls_i P)) \<longleftrightarrow> n \<le> length s
     \<and> list_all (\<lambda>x. P x \<or> P (ascii_fold x)
         \<or> CHR ''a'' \<le> x \<and> x \<le> CHR ''z'' \<and> P (char_of (of_char x - 32 :: nat))) s"
  by (simp add: rcls_i_def)

lemma segwit_prefix:
  "test_start segwit_prefix_rx s \<longleftrightarrow>
     starts_with s ''bc1'' \<or> starts_with s ''tb1'' \<or> starts_with s ''bcrt1''"
  by (simp add: segwit_prefix_rx_def test_start_alt test_start_lit)

lemma first_char: "test_start (RCls P) s \<longleftrightarrow> (\<exists>c t. s = c # t \<and> P c)"
  by (auto simp: test_start_iff) (metis append_Cons append_Nil)

text \<open>Lowering agrees with the \<open>i\<close> flag on ASCII letters.\<close>

lemma lower_ascii: "ascii_fold c \<le> CHR 0x7F \<Longrightarrow> js_lower_char c = ascii_fold c"
  by (cases "CHR ''A'' \<le> c \<and> c \<le> CHR ''Z''")
    (auto simp: js_lower_char_def ascii_fold_def less_eq_char_def)

lemma fold_lower_letters:
  "map ascii_fold s = w \<Longrightarrow> list_all (\<lambda>c. c \<le> CHR 0x7F) w \<Longrightarrow> js_lower s = w"
  by (induction s arbitrary: w) (auto simp: js_lower_def lower_ascii)

lemma bech32_lower_prefix:
  assumes "test_full bech32_rx t"
  shows "starts_with (js_lower t) ''bc1'' \<or> starts_with (js_lower t) ''tb1''
     \<or> starts_with (js_lower t) ''bcrt1''"
proof -
  obtain p r where t: "t = p @ r"
    and p: "in_rx p (rlit_i ''bc1'') \<or> in_rx p (rlit_i ''tb1'') \<or> in_rx p (rlit_i ''bcrt1'')"
    using assms by (auto simp: test_full_iff bech32_rx_def in_rx_seq)
  have "js_lower p = ''bc1'' \<or> js_lower p = ''tb1'' \<or> js_lower p = ''bcrt1''"
    using p by (auto simp: in_rlit_i ascii_fold_def intro!: fold_lower_letters)
  then show ?thesis by (auto simp: t js_lower_def)
qed

lemma mod_256_32: "(n::nat) < 256 \<Longrightarrow> (n + 32) mod 256 = 64 \<Longrightarrow> n = 32"
  by (cases "n + 32 < 256") (simp_all add: le_mod_geq not_less)

lemma lower_at: "js_lower_char c = CHR ''@'' \<longleftrightarrow> c = CHR ''@''"
proof
  assume a: "js_lower_char c = CHR ''@''"
  show "c = CHR ''@''"
  proof (rule ccontr)
    assume "c \<noteq> CHR ''@''"
    with a have l: "CHR ''A'' \<le> c \<and> c \<le> CHR ''Z'' \<or> CHR 0xC0 \<le> c \<and> c \<le> CHR 0xDE"
      and e: "char_of (of_char c + 32 :: nat) = CHR ''@''"
      by (auto simp: js_lower_char_def split: if_splits)
    have "of_char (char_of (of_char c + 32 :: nat)) = (64 :: nat)" using e by simp
    then have "(of_char c + 32 :: nat) mod 256 = 64" by simp
    then have "(of_char c :: nat) = 32" by (rule mod_256_32 [rotated]) simp
    then show False using l by (auto simp: less_eq_char_def)
  qed
qed (simp add: js_lower_char_def less_eq_char_def)

section \<open>What the checks guarantee\<close>

lemma bech32_no_at: "test_full bech32_rx t \<Longrightarrow> CHR ''@'' \<notin> set t"
proof -
  assume "test_full bech32_rx t"
  then obtain p r where t: "t = p @ r"
    and p: "in_rx p (rlit_i ''bc1'') \<or> in_rx p (rlit_i ''tb1'') \<or> in_rx p (rlit_i ''bcrt1'')"
    and r: "in_rx r (rmin 20 (rcls_i bech32_char))"
    by (auto simp: test_full_iff bech32_rx_def in_rx_seq)
  have "CHR ''@'' \<notin> set r"
  proof
    assume "CHR ''@'' \<in> set r"
    with r show False
      by (auto simp: list_all_iff bech32_char_def in_range_def ascii_fold_def less_eq_char_def
          dest!: bspec)
  qed
  moreover have "CHR ''@'' \<notin> set p"
  proof
    assume at: "CHR ''@'' \<in> set p"
    then have "ascii_fold CHR ''@'' \<in> set (map ascii_fold p)" by simp
    then show False using p by (auto simp: in_rlit_i ascii_fold_def less_eq_char_def)
  qed
  ultimately show ?thesis by (simp add: t)
qed

lemma base58_no_at: "test_full base58_rx t \<Longrightarrow> CHR ''@'' \<notin> set t \<and> hd t \<in> set ''13mn2''"
proof -
  assume "test_full base58_rx t"
  then obtain c r where t: "t = c # r" and c: "c \<in> set ''13mn2''" and r: "list_all base58_char r"
    by (auto simp: test_full_iff base58_rx_def in_seq_cls)
  have "CHR ''@'' \<notin> set r"
  proof
    assume "CHR ''@'' \<in> set r"
    with r have "base58_char CHR ''@''" by (simp add: list_all_iff)
    then show False by (simp add: base58_char_def in_range_def less_eq_char_def)
  qed
  with c show ?thesis by (auto simp: t)
qed

lemma bitcoin_shape_first:
  assumes "looks_like_bitcoin_address s"
  shows "CHR ''@'' \<notin> set (js_trim s)"
    and "js_lower (js_trim s) \<noteq> [] \<and> hd (js_lower (js_trim s)) \<noteq> CHR ''l''"
proof -
  let ?t = "js_trim s"
  have d: "test_full bech32_rx ?t \<or> test_full base58_rx ?t" and ne: "?t \<noteq> []"
    using assms by (auto simp: looks_like_bitcoin_address_def Let_def split: if_splits)
  show "CHR ''@'' \<notin> set ?t" using d bech32_no_at base58_no_at by blast
  have "hd (js_lower ?t) \<noteq> CHR ''l''"
  proof (cases "test_full bech32_rx ?t")
    case True
    from bech32_lower_prefix [OF this] show ?thesis by (auto simp: prefix_def)
  next
    case False
    with d base58_no_at have "hd ?t \<in> set ''13mn2''" by blast
    then have "js_lower_char (hd ?t) \<noteq> CHR ''l''"
      by (auto simp: js_lower_char_def less_eq_char_def)
    with ne show ?thesis by (simp add: js_lower_def hd_map)
  qed
  with ne show "js_lower ?t \<noteq> [] \<and> hd (js_lower ?t) \<noteq> CHR ''l''" by simp
qed

lemma ln_address_at: "test_full ln_address_rx t \<Longrightarrow> CHR ''@'' \<in> set t"
  by (auto simp: test_full_iff ln_address_rx_def in_rx_seq)

lemma ln_first: "test_full bolt11_rx t \<or> test_full lnurl_rx t \<or> starts_with t ''lightning:''
    \<Longrightarrow> hd t = CHR ''l''"
  by (auto simp: test_full_iff bolt11_rx_def lnurl_rx_def in_rx_seq prefix_def)

text \<open>No text is taken both for a Bitcoin address and for a Lightning destination, so the
  Lightning hint never fires on an address an on-chain claim could pay.\<close>

theorem lightning_never_an_address:
  "\<not> (looks_like_bitcoin_address s \<and> looks_like_lightning_destination s)"
proof
  assume a: "looks_like_bitcoin_address s \<and> looks_like_lightning_destination s"
  let ?t = "js_lower (js_trim s)"
  note b = bitcoin_shape_first [OF conjunct1 [OF a]]
  have "CHR ''@'' \<notin> set ?t"
  proof
    assume "CHR ''@'' \<in> set ?t"
    then obtain c where "c \<in> set (js_trim s)" "js_lower_char c = CHR ''@''"
      unfolding js_lower_def set_map by (metis imageE)
    with b(1) show False using lower_at [of c] by simp
  qed
  then have "\<not> test_full ln_address_rx ?t" using ln_address_at by blast
  moreover have "\<not> (test_full bolt11_rx ?t \<or> test_full lnurl_rx ?t \<or> starts_with ?t ''lightning:'')"
    using ln_first b(2) by blast
  ultimately show False
    using a by (auto simp: looks_like_lightning_destination_def Let_def split: if_splits)
qed

text \<open>Every text of address shape belongs to some network, and the network check separates
  mainnet from the test networks and regtest's bech32 from testnet's: an address accepted for
  mainnet is accepted for no other network.\<close>

theorem address_network_partition:
  "(looks_like_bitcoin_address a \<longrightarrow> (\<exists>n. address_matches_network a (network_name n)))
   \<and> (address_matches_network a ''bitcoin'' \<longrightarrow>
        (\<forall>net. net \<noteq> ''bitcoin'' \<longrightarrow> \<not> address_matches_network a net))
   \<and> (address_matches_network a ''testnet'' = address_matches_network a ''signet'')"
proof -
  let ?t = "js_trim a"
  have seg: "\<not> (starts_with l ''bc1'' \<and> starts_with l ''tb1'')"
    "\<not> (starts_with l ''bc1'' \<and> starts_with l ''bcrt1'')" for l :: jstr
    by (auto simp: prefix_def)
  have ex: "\<exists>n. address_matches_network a (network_name n)" if "looks_like_bitcoin_address a"
  proof (cases "test_full bech32_rx ?t")
    case True
    from bech32_lower_prefix [OF this] consider "starts_with (js_lower ?t) ''bc1''"
      | "starts_with (js_lower ?t) ''tb1''" | "starts_with (js_lower ?t) ''bcrt1''" by blast
    then show ?thesis
    proof cases
      case 1
      then have "address_matches_network a (network_name Bitcoin)"
        by (simp add: address_matches_network_def Let_def segwit_prefix)
      then show ?thesis ..
    next
      case 2
      then have "address_matches_network a (network_name Testnet)"
        by (simp add: address_matches_network_def Let_def segwit_prefix)
      then show ?thesis ..
    next
      case 3
      then have "address_matches_network a (network_name Regtest)"
        by (simp add: address_matches_network_def Let_def segwit_prefix)
      then show ?thesis ..
    qed
  next
    case False
    then have b: "test_full base58_rx ?t"
      using that by (auto simp: looks_like_bitcoin_address_def Let_def split: if_splits)
    then obtain c r where t: "?t = c # r" and c: "c \<in> set ''13mn2''"
      by (auto simp: test_full_iff base58_rx_def in_seq_cls)
    have "\<not> test_start segwit_prefix_rx (js_lower ?t)"
      using c by (auto simp: t segwit_prefix js_lower_def js_lower_char_def less_eq_char_def)
    then have "address_matches_network a (network_name (if c \<in> set ''13'' then Bitcoin else Testnet))"
      using c by (auto simp: address_matches_network_def Let_def first_char t)
    then show ?thesis ..
  qed
  moreover have "\<not> address_matches_network a net"
    if "address_matches_network a ''bitcoin''" "net \<noteq> ''bitcoin''" for net
    using that seg by (auto simp: address_matches_network_def Let_def split: if_splits)
  moreover have "address_matches_network a ''testnet'' = address_matches_network a ''signet''"
    by (simp add: address_matches_network_def Let_def)
  ultimately show ?thesis by blast
qed

theorem address_network_partition_witness:
  "address_matches_network ''bc1qw508d6qejxtdg4y5r3zarvary0c5xw7kv8f3t4'' ''bitcoin''
   \<and> \<not> address_matches_network ''bc1qw508d6qejxtdg4y5r3zarvary0c5xw7kv8f3t4'' ''testnet''"
proof -
  have "address_matches_network ''bc1qw508d6qejxtdg4y5r3zarvary0c5xw7kv8f3t4'' ''bitcoin''"
    by code_simp
  then show ?thesis
    using address_network_partition [of "''bc1qw508d6qejxtdg4y5r3zarvary0c5xw7kv8f3t4''"] by auto
qed

end
