(* ===== verification/Timing.thy ===== *)
theory Timing
  imports GK_Prelude "HOL-Library.Word"
begin

text \<open>
  Cadence, grace and waiting-period presets (ghostkey-web/src/timing.ts), the terms the setup
  wizard sends (PasswordSetupPortal.tsx), and the server's floors on them (demo.rs). A preset list
  with its fallback index is an interface: the three single-list lookups of the code interpret it,
  and the two lookups over the union of the production and demo lists are proved over the same
  facts.
\<close>

section \<open>Presets\<close>

record preset =
  p_id :: jstr
  p_label :: jstr
  p_sub :: jstr
  p_seconds :: nat

abbreviation mk_preset :: "jstr \<Rightarrow> jstr \<Rightarrow> jstr \<Rightarrow> nat \<Rightarrow> preset" where
  "mk_preset i l u n \<equiv> \<lparr>p_id = i, p_label = l, p_sub = u, p_seconds = n\<rparr>"

definition day :: nat where
  "day = 86400"

definition monthly_cadence :: "nat \<Rightarrow> preset" where
  "monthly_cadence i =
     (let n = i + 2
      in mk_preset (if n = 3 then ''quarterly'' else ''months-'' @ show_nat n)
           (if n = 12 then ''Every year'' else ''Every '' @ show_nat n @ '' months'')
           (if n = 3 then ''Set-and-forget'' else [])
           (n * 30 * day))"

definition monthly_cadences :: "preset list" where
  "monthly_cadences = map monthly_cadence [0..<11]"

definition cadence_presets :: "preset list" where
  "cadence_presets =
     [mk_preset ''weekly'' ''Every week'' ''Tightest budget'' (7 * day),
      mk_preset ''bi-weekly'' ''Every 2 weeks'' ''Recommended'' (14 * day),
      mk_preset ''monthly'' ''Every month'' ''More relaxed'' (30 * day)] @ monthly_cadences"

definition grace_presets :: "preset list" where
  "grace_presets =
     [mk_preset ''3d'' ''3 days'' ''Recommended'' (3 * day),
      mk_preset ''1w'' ''1 week'' ''If you travel often'' (7 * day),
      mk_preset ''2w'' ''2 weeks'' ''Long trips'' (14 * day),
      mk_preset ''1m'' ''1 month'' ''Long slack'' (30 * day),
      mk_preset ''2m'' ''2 months'' ''Extended'' (60 * day),
      mk_preset ''3m'' ''3 months'' ''Maximum slack'' (90 * day)]"

definition default_cadence_id :: jstr where
  "default_cadence_id = ''bi-weekly''"

definition default_grace_id :: jstr where
  "default_grace_id = ''3d''"

definition demo_cadence_presets :: "preset list" where
  "demo_cadence_presets =
     [mk_preset ''demo-10s'' ''Every 10 seconds'' ''Fastest, for screen recordings'' 10,
      mk_preset ''demo-30s'' ''Every 30 seconds'' ''Recommended for live demos'' 30,
      mk_preset ''demo-2m'' ''Every 2 minutes'' ''Slow enough to talk through'' 120]"

definition demo_grace_presets :: "preset list" where
  "demo_grace_presets =
     [mk_preset ''demo-5s'' ''5 seconds'' ''Fastest'' 5,
      mk_preset ''demo-15s'' ''15 seconds'' ''Recommended for live demos'' 15,
      mk_preset ''demo-1m'' ''1 minute'' ''More room to narrate'' 60]"

definition default_demo_cadence_id :: jstr where
  "default_demo_cadence_id = ''demo-30s''"

definition default_demo_grace_id :: jstr where
  "default_demo_grace_id = ''demo-15s''"

definition demo_waiting_presets :: "preset list" where
  "demo_waiting_presets =
     [mk_preset ''demo-wait-30s'' ''30 seconds'' ''Fastest, recording-friendly'' 30,
      mk_preset ''demo-wait-1m'' ''1 minute'' ''Recommended for live demos'' 60,
      mk_preset ''demo-wait-3m'' ''3 minutes'' ''Time to narrate'' 180]"

definition default_demo_waiting_id :: jstr where
  "default_demo_waiting_id = ''demo-wait-1m''"

section \<open>Lookups\<close>

text \<open>\<open>ps.find((p) => p.id === id)\<close>\<close>

definition find_preset :: "jstr \<Rightarrow> preset list \<Rightarrow> preset option" where
  "find_preset i ps = find (\<lambda>p. p_id p = i) ps"

definition cadence_by_id :: "jstr \<Rightarrow> preset" where
  "cadence_by_id i =
     (case find_preset i cadence_presets of Some p \<Rightarrow> p | None \<Rightarrow> cadence_presets ! 1)"

definition grace_by_id :: "jstr \<Rightarrow> preset" where
  "grace_by_id i =
     (case find_preset i grace_presets of Some p \<Rightarrow> p | None \<Rightarrow> grace_presets ! 0)"

definition demo_waiting_by_id :: "jstr \<Rightarrow> preset" where
  "demo_waiting_by_id i =
     (case find_preset i demo_waiting_presets of Some p \<Rightarrow> p | None \<Rightarrow> demo_waiting_presets ! 1)"

definition cadence_presets_for :: "bool \<Rightarrow> preset list" where
  "cadence_presets_for demo = (if demo then demo_cadence_presets else cadence_presets)"

definition grace_presets_for :: "bool \<Rightarrow> preset list" where
  "grace_presets_for demo = (if demo then demo_grace_presets else grace_presets)"

definition default_cadence_id_for :: "bool \<Rightarrow> jstr" where
  "default_cadence_id_for demo = (if demo then default_demo_cadence_id else default_cadence_id)"

definition default_grace_id_for :: "bool \<Rightarrow> jstr" where
  "default_grace_id_for demo = (if demo then default_demo_grace_id else default_grace_id)"

definition cadence_by_id_anywhere :: "jstr \<Rightarrow> preset" where
  "cadence_by_id_anywhere i =
     (case nullish (find_preset i cadence_presets) (find_preset i demo_cadence_presets) of
        Some p \<Rightarrow> p | None \<Rightarrow> cadence_presets ! 1)"

definition grace_by_id_anywhere :: "jstr \<Rightarrow> preset" where
  "grace_by_id_anywhere i =
     (case nullish (find_preset i grace_presets) (find_preset i demo_grace_presets) of
        Some p \<Rightarrow> p | None \<Rightarrow> grace_presets ! 0)"

section \<open>The preset-list interface\<close>

definition ids :: "preset list \<Rightarrow> jstr set" where
  "ids ps = p_id ` set ps"

lemma find_preset_None_iff: "find_preset i ps = None \<longleftrightarrow> i \<notin> ids ps"
  by (auto simp: find_preset_def ids_def find_None_iff)

lemma find_preset_Some: "find_preset i ps = Some p \<Longrightarrow> p \<in> set ps \<and> p_id p = i"
  by (auto simp: find_preset_def find_Some_iff)

lemma find_preset_unique:
  assumes "distinct (map p_id ps)" "p \<in> set ps"
  shows "find_preset (p_id p) ps = Some p"
proof -
  have "p_id p \<in> ids ps" using assms(2) by (simp add: ids_def)
  then obtain q where q: "find_preset (p_id p) ps = Some q"
    using find_preset_None_iff by (cases "find_preset (p_id p) ps") auto
  from find_preset_Some [OF q] have "q \<in> set ps" "p_id q = p_id p" by auto
  with assms have "q = p" by (auto simp: distinct_map dest: inj_onD)
  with q show ?thesis by simp
qed

locale preset_list =
  fixes ps :: "preset list" and dflt :: nat and by_id :: "jstr \<Rightarrow> preset"
  assumes ids_distinct: "distinct (map p_id ps)"
    and dflt_in: "dflt < length ps"
    and by_id: "by_id i = (case find_preset i ps of Some p \<Rightarrow> p | None \<Rightarrow> ps ! dflt)"
begin

lemma total: "by_id i \<in> set ps"
  using find_preset_Some dflt_in by (auto simp: by_id split: option.split)

lemma resolves: "p \<in> set ps \<Longrightarrow> by_id (p_id p) = p"
  by (simp add: by_id find_preset_unique ids_distinct)

lemma falls_back: "i \<notin> ids ps \<Longrightarrow> by_id i = ps ! dflt"
  using find_preset_None_iff [of i ps] by (simp add: by_id)

lemma bounded: "\<forall>p\<in>set ps. lo \<le> p_seconds p \<and> p_seconds p \<le> hi \<Longrightarrow>
    lo \<le> p_seconds (by_id i) \<and> p_seconds (by_id i) \<le> hi"
  using total by blast

end

lemma monthly_unfold:
  "monthly_cadences = map monthly_cadence [0, 1, 2, 3, 4, 5, 6, 7, 8, 9, 10]"
proof -
  have "[0..<11] = [0, 1, 2, 3, 4, 5, 6, 7, 8, 9, 10 :: nat]" by (simp add: upt_rec)
  then show ?thesis by (simp only: monthly_cadences_def)
qed

lemma show_months:
  "show_nat 2 = ''2''" "show_nat 4 = ''4''" "show_nat 5 = ''5''" "show_nat 6 = ''6''"
  "show_nat 7 = ''7''" "show_nat 8 = ''8''" "show_nat 9 = ''9''" "show_nat 10 = ''10''"
  "show_nat 11 = ''11''" "show_nat 12 = ''12''" "show_nat 3 = ''3''"
  "show_nat (Suc (Suc 0)) = ''2''"
  by code_simp+

lemmas monthly_ids = monthly_unfold monthly_cadence_def Let_def show_months

interpretation cadence: preset_list cadence_presets 1 cadence_by_id
proof
  show "distinct (map p_id cadence_presets)"
    by (simp add: cadence_presets_def monthly_ids)
qed (simp_all add: cadence_presets_def cadence_by_id_def)

interpretation grace: preset_list grace_presets 0 grace_by_id
  by unfold_locales (simp_all add: grace_presets_def grace_by_id_def)

interpretation demo_waiting: preset_list demo_waiting_presets 1 demo_waiting_by_id
  by unfold_locales (simp_all add: demo_waiting_presets_def demo_waiting_by_id_def)

lemma ids_disjoint:
  "ids cadence_presets \<inter> ids demo_cadence_presets = {}"
  "ids grace_presets \<inter> ids demo_grace_presets = {}"
  by (simp_all add: ids_def cadence_presets_def demo_cadence_presets_def grace_presets_def
      demo_grace_presets_def monthly_ids)

lemma demo_distinct:
  "distinct (map p_id demo_cadence_presets)" "distinct (map p_id demo_grace_presets)"
  by (simp_all add: demo_cadence_presets_def demo_grace_presets_def)

lemma cadence_anywhere_cases:
  "cadence_by_id_anywhere i =
     (if i \<in> ids demo_cadence_presets then the (find_preset i demo_cadence_presets)
      else cadence_by_id i)"
  using ids_disjoint(1) find_preset_None_iff [of i cadence_presets]
    find_preset_None_iff [of i demo_cadence_presets]
  by (auto simp: cadence_by_id_anywhere_def cadence_by_id_def split: option.split)

lemma grace_anywhere_cases:
  "grace_by_id_anywhere i =
     (if i \<in> ids demo_grace_presets then the (find_preset i demo_grace_presets)
      else grace_by_id i)"
  using ids_disjoint(2) find_preset_None_iff [of i grace_presets]
    find_preset_None_iff [of i demo_grace_presets]
  by (auto simp: grace_by_id_anywhere_def grace_by_id_def split: option.split)

section \<open>What the wizard sends and what the server accepts\<close>

definition months_to_blocks :: "nat \<Rightarrow> nat" where
  "months_to_blocks months = max 144 (months * 30 * 144)"

record setup_terms =
  st_checkin :: nat
  st_grace :: nat
  st_blocks :: nat

text \<open>The waiting-period select offers 1 to 12 months; in demo mode the demo waiting period takes
  the place of the grace period and the on-chain wait is one block.\<close>

definition setup_terms_of :: "bool \<Rightarrow> jstr \<Rightarrow> jstr \<Rightarrow> jstr \<Rightarrow> nat \<Rightarrow> setup_terms" where
  "setup_terms_of demo cadence_id grace_id waiting_id months =
     \<lparr>st_checkin = p_seconds (cadence_by_id_anywhere cadence_id),
      st_grace = (if demo then p_seconds (demo_waiting_by_id waiting_id)
                  else p_seconds (grace_by_id_anywhere grace_id)),
      st_blocks = (if demo then 1 else months_to_blocks months)\<rparr>"

text \<open>The server's checks; the first argument is its demo-mode flag.\<close>

definition on_off :: "bool \<Rightarrow> jstr" where
  "on_off d = (if d then ''on'' else ''off'')"

definition validate_periods :: "bool \<Rightarrow> int \<Rightarrow> int \<Rightarrow> (jstr, unit) throws" where
  "validate_periods demo checkin_secs grace_secs =
     (if checkin_secs \<le> 0 then Inl ''checkin_period_secs must be positive''
      else if grace_secs < 0 then Inl ''grace_period_secs must be non-negative''
      else
        let (min_checkin, min_grace) = (if demo then (5, 3) else (3600, 60))
        in if checkin_secs < min_checkin
           then Inl (''checkin_period_secs '' @ show_int checkin_secs @ '' below minimum ''
                  @ show_int min_checkin @ '' (demo mode is '' @ on_off demo @ '')'')
           else if grace_secs < min_grace
           then Inl (''grace_period_secs '' @ show_int grace_secs @ '' below minimum ''
                  @ show_int min_grace @ '' (demo mode is '' @ on_off demo @ '')'')
           else Inr ())"

definition validate_timelock_blocks :: "bool \<Rightarrow> 32 word \<Rightarrow> (jstr, unit) throws" where
  "validate_timelock_blocks demo blocks =
     (if blocks = 0 then Inl ''timelock_blocks must be at least 1''
      else if blocks > 0xFFFF
      then Inl (''timelock_blocks '' @ show_nat (unat blocks) @ '' above maximum 65535'')
      else
        let min_blocks = (if demo then 1 else 144)
        in if blocks < min_blocks
           then Inl (''timelock_blocks '' @ show_nat (unat blocks) @ '' below minimum ''
                  @ show_nat (unat min_blocks) @ '' (about one day; demo mode is ''
                  @ on_off demo @ '')'')
           else Inr ())"

lemma validate_periods_ok:
  "validate_periods demo c g = Inr () \<longleftrightarrow> (if demo then 5 \<le> c \<and> 3 \<le> g else 3600 \<le> c \<and> 60 \<le> g)"
  by (auto simp: validate_periods_def)

lemma validate_blocks_ok:
  "n < 2 ^ 32 \<Longrightarrow> validate_timelock_blocks demo (word_of_nat n) = Inr () \<longleftrightarrow>
     n \<le> 65535 \<and> (if demo then 1 \<le> n else 144 \<le> n)"
  by (auto simp: validate_timelock_blocks_def Let_def word_less_nat_alt word_le_nat_alt
      unat_of_nat word_of_nat_eq_0_iff take_bit_nat_eq_self dest: dvd_imp_le)

lemma cadence_bounds:
  "p \<in> set cadence_presets \<Longrightarrow> 7 * day \<le> p_seconds p \<and> p_seconds p \<le> 360 * day"
  "p \<in> set demo_cadence_presets \<Longrightarrow> 10 \<le> p_seconds p \<and> p_seconds p \<le> 120"
  by (auto simp: cadence_presets_def monthly_ids demo_cadence_presets_def day_def)

lemma grace_bounds:
  "p \<in> set grace_presets \<Longrightarrow> 3 * day \<le> p_seconds p \<and> p_seconds p \<le> 90 * day"
  by (auto simp: grace_presets_def day_def)

lemma cadence_anywhere_bound:
  "i \<notin> ids demo_cadence_presets \<Longrightarrow> 7 * day \<le> p_seconds (cadence_by_id_anywhere i)"
  "10 \<le> p_seconds (cadence_by_id_anywhere i)"
proof -
  have l: "7 * day \<le> p_seconds (cadence_by_id i)" using cadence_bounds(1) cadence.total by blast
  then show "i \<notin> ids demo_cadence_presets \<Longrightarrow> 7 * day \<le> p_seconds (cadence_by_id_anywhere i)"
    by (simp add: cadence_anywhere_cases)
  show "10 \<le> p_seconds (cadence_by_id_anywhere i)"
  proof (cases "find_preset i demo_cadence_presets")
    case None
    with l show ?thesis by (simp add: cadence_anywhere_cases find_preset_None_iff day_def)
  next
    case (Some p)
    then have "i \<in> ids demo_cadence_presets"
      using find_preset_None_iff [of i demo_cadence_presets] by auto
    with Some find_preset_Some [OF Some] cadence_bounds(2) show ?thesis
      by (simp add: cadence_anywhere_cases)
  qed
qed

lemma demo_cadence_small:
  "i \<in> ids demo_cadence_presets \<Longrightarrow> p_seconds (cadence_by_id_anywhere i) < 3600"
  by (auto simp: cadence_anywhere_cases ids_def demo_cadence_presets_def find_preset_def)

lemma grace_anywhere_ok:
  "60 \<le> p_seconds (grace_by_id_anywhere i) \<longleftrightarrow> i \<notin> {''demo-5s'', ''demo-15s''}"
proof (cases "i \<in> ids demo_grace_presets")
  case True
  then show ?thesis
    by (auto simp: grace_anywhere_cases ids_def demo_grace_presets_def find_preset_def)
next
  case False
  then have "i \<notin> {''demo-5s'', ''demo-15s''}" by (auto simp: ids_def demo_grace_presets_def)
  moreover have "3 * day \<le> p_seconds (grace_by_id i)" using grace_bounds grace.total by blast
  ultimately show ?thesis using False by (simp add: grace_anywhere_cases day_def)
qed

lemma waiting_bound: "30 \<le> p_seconds (demo_waiting_by_id i)"
proof -
  have "\<forall>p\<in>set demo_waiting_presets. 30 \<le> p_seconds p \<and> p_seconds p \<le> 180"
    by (simp add: demo_waiting_presets_def)
  then show ?thesis using demo_waiting.bounded by blast
qed

text \<open>Every preset resolves to itself in its picker and in the lookup over both lists, an
  unknown id falls back to the declared default of that picker, and the default ids are ids of the
  list they are offered with, so no lookup can fail or change what the owner chose.\<close>

theorem preset_lookup_faithful:
  "(\<forall>p\<in>set cadence_presets. cadence_by_id (p_id p) = p \<and> cadence_by_id_anywhere (p_id p) = p)
   \<and> (\<forall>p\<in>set demo_cadence_presets. cadence_by_id_anywhere (p_id p) = p)
   \<and> (\<forall>p\<in>set grace_presets. grace_by_id (p_id p) = p \<and> grace_by_id_anywhere (p_id p) = p)
   \<and> (\<forall>p\<in>set demo_grace_presets. grace_by_id_anywhere (p_id p) = p)
   \<and> (\<forall>p\<in>set demo_waiting_presets. demo_waiting_by_id (p_id p) = p)
   \<and> (\<forall>i. i \<notin> ids cadence_presets \<union> ids demo_cadence_presets \<longrightarrow>
          p_id (cadence_by_id_anywhere i) = default_cadence_id)
   \<and> (\<forall>i. i \<notin> ids grace_presets \<union> ids demo_grace_presets \<longrightarrow>
          p_id (grace_by_id_anywhere i) = default_grace_id)
   \<and> (\<forall>i. i \<notin> ids demo_waiting_presets \<longrightarrow>
          p_id (demo_waiting_by_id i) = default_demo_waiting_id)
   \<and> (\<forall>d. default_cadence_id_for d \<in> ids (cadence_presets_for d)
          \<and> default_grace_id_for d \<in> ids (grace_presets_for d))"
proof (intro conjI ballI allI impI)
  fix p assume p: "p \<in> set cadence_presets"
  then show "cadence_by_id (p_id p) = p" by (rule cadence.resolves)
  moreover have "p_id p \<notin> ids demo_cadence_presets" using ids_disjoint(1) p by (auto simp: ids_def)
  ultimately show "cadence_by_id_anywhere (p_id p) = p" by (simp add: cadence_anywhere_cases)
next
  fix p assume p: "p \<in> set demo_cadence_presets"
  then show "cadence_by_id_anywhere (p_id p) = p"
    by (simp add: cadence_anywhere_cases find_preset_unique demo_distinct) (simp add: ids_def)
next
  fix p assume p: "p \<in> set grace_presets"
  then show "grace_by_id (p_id p) = p" by (rule grace.resolves)
  moreover have "p_id p \<notin> ids demo_grace_presets" using ids_disjoint(2) p by (auto simp: ids_def)
  ultimately show "grace_by_id_anywhere (p_id p) = p" by (simp add: grace_anywhere_cases)
next
  fix p assume p: "p \<in> set demo_grace_presets"
  then show "grace_by_id_anywhere (p_id p) = p"
    by (simp add: grace_anywhere_cases find_preset_unique demo_distinct) (simp add: ids_def)
next
  fix i assume "i \<notin> ids cadence_presets \<union> ids demo_cadence_presets"
  then show "p_id (cadence_by_id_anywhere i) = default_cadence_id"
    by (simp add: cadence_anywhere_cases cadence.falls_back default_cadence_id_def)
      (simp add: cadence_presets_def)
next
  fix i assume "i \<notin> ids grace_presets \<union> ids demo_grace_presets"
  then show "p_id (grace_by_id_anywhere i) = default_grace_id"
    by (simp add: grace_anywhere_cases grace.falls_back default_grace_id_def)
      (simp add: grace_presets_def)
next
  fix i assume "i \<notin> ids demo_waiting_presets"
  then show "p_id (demo_waiting_by_id i) = default_demo_waiting_id"
    by (simp add: demo_waiting.falls_back default_demo_waiting_id_def)
      (simp add: demo_waiting_presets_def)
next
  fix d show "default_cadence_id_for d \<in> ids (cadence_presets_for d)"
    by (simp add: default_cadence_id_for_def cadence_presets_for_def ids_def
        default_cadence_id_def default_demo_cadence_id_def cadence_presets_def
        demo_cadence_presets_def)
  show "default_grace_id_for d \<in> ids (grace_presets_for d)"
    by (simp add: default_grace_id_for_def grace_presets_for_def ids_def
        default_grace_id_def default_demo_grace_id_def grace_presets_def
        demo_grace_presets_def)
qed (rule demo_waiting.resolves)

theorem preset_lookup_faithful_witness:
  "cadence_by_id_anywhere ''monthly'' = mk_preset ''monthly'' ''Every month'' ''More relaxed'' (30 * day)"
proof -
  have "mk_preset ''monthly'' ''Every month'' ''More relaxed'' (30 * day) \<in> set cadence_presets"
    by (simp add: cadence_presets_def)
  from preset_lookup_faithful [THEN conjunct1, rule_format, OF this]
  show ?thesis by simp
qed

text \<open>The terms the setup wizard sends pass the server's floors and its 16-bit bound on the
  waiting period exactly when the wizard runs in the server's mode with ids of that mode: in demo
  mode always, in production unless a leftover demo cadence id or a demo grace id below a minute is
  still selected.\<close>

theorem wizard_terms_accepted:
  assumes "1 \<le> months" "months \<le> 12"
  shows "let t = setup_terms_of demo cid gid wid months
     in (validate_periods demo (int (st_checkin t)) (int (st_grace t)) = Inr ()
           \<longleftrightarrow> demo \<or> cid \<notin> ids demo_cadence_presets \<and> gid \<notin> {''demo-5s'', ''demo-15s''})
        \<and> validate_timelock_blocks demo (word_of_nat (st_blocks t)) = Inr ()"
proof -
  have b: "144 \<le> months_to_blocks months \<and> months_to_blocks months \<le> 65535"
    using assms by (simp add: months_to_blocks_def)
  have p: "3600 \<le> p_seconds (cadence_by_id_anywhere cid) \<longleftrightarrow> cid \<notin> ids demo_cadence_presets"
    using demo_cadence_small [of cid] cadence_anywhere_bound(1) [of cid] by (auto simp: day_def)
  show ?thesis
    using b p grace_anywhere_ok [of gid] cadence_anywhere_bound(2) [of cid] waiting_bound [of wid]
    by (auto simp: Let_def setup_terms_of_def validate_periods_ok validate_blocks_ok)
qed

theorem wizard_terms_accepted_witness:
  "validate_timelock_blocks False (word_of_nat (st_blocks (setup_terms_of False ''weekly'' ''3d'' [] 12)))
     = Inr ()"
  using wizard_terms_accepted [of 12 False "''weekly''" "''3d''" "[]"] by (simp add: Let_def)

end
