(* ===== verification/Calendar.thy ===== *)
theory Calendar
  imports GK_Prelude Complex_Main
begin

text \<open>
  Calendar arithmetic of ECMAScript dates and the unlock-year conversion of
  ghostkey-web/src/unlockHeight.ts. Times are milliseconds since 1970; a time outside the range of
  a Date (8.64e15 ms) is not a number.
\<close>

section \<open>ECMAScript dates\<close>

definition day_from_year :: "int \<Rightarrow> int" where
  "day_from_year y = 365 * (y - 1970) + (y - 1969) div 4 - (y - 1901) div 100 + (y - 1601) div 400"

definition ms_per_day :: int where
  "ms_per_day = 86400000"

text \<open>A number that may be NaN.\<close>

datatype js_number = NaN | Num rat

text \<open>\<open>Date.UTC(year, 0, 1)\<close>: years 0 to 99 mean 1900 to 1999.\<close>

definition date_utc_jan1 :: "int \<Rightarrow> int option" where
  "date_utc_jan1 year =
     (let y = (if 0 \<le> year \<and> year \<le> 99 then 1900 + year else year);
          t = day_from_year y * ms_per_day
      in if \<bar>t\<bar> \<le> 8640000000000000 then Some t else None)"

text \<open>\<open>getUTCFullYear\<close>: the largest year that starts at or before the day.\<close>

function year_up :: "int \<Rightarrow> int \<Rightarrow> int" where
  "year_up y d = (if day_from_year (y + 1) \<le> d then year_up (y + 1) d else y)"
  by pat_completeness auto

lemma div_succ: "0 < (n::int) \<Longrightarrow> (x + 1) div n = x div n + (if n dvd x + 1 then 1 else 0)"
proof -
  assume n: "0 < n"
  have x: "x + 1 = n * (x div n) + (x mod n + 1)" by simp
  have r: "0 \<le> x mod n" "x mod n < n" using n by simp_all
  have d: "n dvd x + 1 \<longleftrightarrow> n dvd x mod n + 1"
    by (subst x) (simp only: dvd_add_right_iff dvd_triv_left)
  have q: "(x + 1) div n = x div n + (x mod n + 1) div n"
  proof -
    have "(x + 1) div n = (n * (x div n) + (x mod n + 1)) div n" using x by simp
    also have "\<dots> = x div n + (x mod n + 1) div n"
      using n by (subst div_mult_self4) simp_all
    finally show ?thesis .
  qed
  show ?thesis
  proof (cases "x mod n + 1 = n")
    case True
    with d q n show ?thesis by simp
  next
    case False
    with r have l: "0 < x mod n + 1" "x mod n + 1 < n" by simp_all
    then have "\<not> n dvd x mod n + 1" using zdvd_not_zless by blast
    with d q l show ?thesis by simp
  qed
qed

lemma dvd_chain: "(100::int) dvd y - 1900 \<Longrightarrow> 4 dvd y - 1968" "(400::int) dvd y - 1600 \<Longrightarrow> 100 dvd y - 1900"
  by presburger+

lemma day_from_year_succ:
  "day_from_year (y + 1) = day_from_year y + 365 + (if 4 dvd y - 1968 then 1 else 0)
     - (if 100 dvd y - 1900 then 1 else 0) + (if 400 dvd y - 1600 then 1 else 0)"
  using div_succ [of 4 "y - 1969"] div_succ [of 100 "y - 1901"] div_succ [of 400 "y - 1601"]
  by (simp add: day_from_year_def algebra_simps)

lemma day_from_year_step:
  "365 \<le> day_from_year (y + 1) - day_from_year y" "day_from_year (y + 1) - day_from_year y \<le> 366"
  using dvd_chain [of y] by (auto simp: day_from_year_succ)

termination year_up
proof (relation "measure (\<lambda>(y, d). nat (d + 1 - day_from_year y))")
  fix y d :: int
  assume "day_from_year (y + 1) \<le> d"
  then show "((y + 1, d), (y, d)) \<in> measure (\<lambda>(y, d). nat (d + 1 - day_from_year y))"
    using day_from_year_step [of y] by simp
qed simp

declare year_up.simps [simp del]

definition year_from_day :: "int \<Rightarrow> int" where
  "year_from_day d = year_up (if 0 \<le> d then 1970 + d div 366 else 1970 + d div 365) d"

definition utc_full_year :: "int \<Rightarrow> int" where
  "utc_full_year ms = year_from_day (ms div ms_per_day)"

section \<open>The conversion\<close>

definition anchor_height :: int where
  "anchor_height = 880000"

definition anchor_unix :: int where
  "anchor_unix = 1737676800"

definition seconds_per_block :: int where
  "seconds_per_block = 600"

definition max_cltv_height :: int where
  "max_cltv_height = 500000000"

text \<open>\<open>Math.round\<close> is \<open>floor (x + 1/2)\<close>. The argument \<open>None\<close> stands for null, undefined, NaN and
  the infinities, which all leave by the first test; a comparison with NaN is false.\<close>

definition unlock_year_to_height :: "rat option \<Rightarrow> js_number option" where
  "unlock_year_to_height year =
     (case year of
        None \<Rightarrow> None
      | Some y \<Rightarrow>
          if y = 0 \<or> of_int \<lfloor>y\<rfloor> \<noteq> y then None
          else
            (case date_utc_jan1 \<lfloor>y\<rfloor> of
               None \<Rightarrow> Some NaN
             | Some t \<Rightarrow>
                 let target_unix = of_int t / 1000 :: rat;
                     height = anchor_height
                       + \<lfloor>(target_unix - of_int anchor_unix) / of_int seconds_per_block + 1 / 2\<rfloor>
                 in if height \<le> anchor_height \<or> max_cltv_height \<le> height then None
                    else Some (Num (of_int height))))"

definition min_unlock_year :: "int \<Rightarrow> int" where
  "min_unlock_year now = utc_full_year now + 1"

section \<open>Facts of the calendar\<close>

lemma day_from_year_mono: "y < z \<Longrightarrow> day_from_year y + 365 * (z - y) \<le> day_from_year z"
proof (induction z rule: int_gr_induct)
  case base
  then show ?case using day_from_year_step(1) [of y] by simp
next
  case (step z)
  then show ?case using day_from_year_step(1) [of z] by (simp add: algebra_simps)
qed

lemma day_from_year_mono_le: "y \<le> z \<Longrightarrow> day_from_year y \<le> day_from_year z"
  using day_from_year_mono [of y z] by (cases "y = z") auto

lemma year_up_spec:
  "day_from_year y \<le> d \<Longrightarrow> day_from_year (year_up y d) \<le> d \<and> d < day_from_year (year_up y d + 1)"
proof (induction y d rule: year_up.induct)
  case (1 y d)
  then show ?case by (subst (1 2) year_up.simps) auto
qed

lemma day_from_year_up: "day_from_year (1970 + int k) \<le> 366 * int k"
proof (induction k)
  case (Suc k)
  have e: "1970 + int (Suc k) = (1970 + int k) + 1" by simp
  show ?case unfolding e using day_from_year_step(2) [of "1970 + int k"] Suc by simp
qed (simp add: day_from_year_def)

lemma day_from_year_down: "day_from_year (1970 - int k) \<le> - (365 * int k)"
proof (induction k)
  case (Suc k)
  have e: "1970 - int k = (1970 - int (Suc k)) + 1" by simp
  show ?case using day_from_year_step(1) [of "1970 - int (Suc k)"] Suc unfolding e by simp
qed (simp add: day_from_year_def)

lemma year_start: "day_from_year (if 0 \<le> d then 1970 + d div 366 else 1970 + d div 365) \<le> d"
proof (cases "0 \<le> d")
  case True
  then have "0 \<le> d div 366" by (simp add: pos_imp_zdiv_nonneg_iff)
  then have "day_from_year (1970 + d div 366) \<le> 366 * (d div 366)"
    using day_from_year_up [of "nat (d div 366)"] by simp
  also have "\<dots> \<le> d" using pos_mod_sign [of 366 d] by (simp flip: minus_mod_eq_mult_div)
  finally show ?thesis using True by simp
next
  case False
  then have n: "d div 365 < 0" by (simp add: div_neg_pos_less0)
  then have "day_from_year (1970 + d div 365) \<le> 365 * (d div 365)"
    using day_from_year_down [of "nat (- (d div 365))"] by simp
  also have "\<dots> \<le> d" using pos_mod_sign [of 365 d] by (simp flip: minus_mod_eq_mult_div)
  finally show ?thesis using False by simp
qed
lemma year_from_day_spec:
  "day_from_year (year_from_day d) \<le> d" "d < day_from_year (year_from_day d + 1)"
  using year_up_spec [OF year_start [of d]] by (simp_all add: year_from_day_def)

lemma date_utc_jan1_recent:
  "99 < y \<Longrightarrow> date_utc_jan1 y =
     (if \<bar>day_from_year y * ms_per_day\<bar> \<le> 8640000000000000
      then Some (day_from_year y * ms_per_day) else None)"
  by (simp add: date_utc_jan1_def Let_def)

lemma blocks_exact:
  "\<lfloor>(of_int (d * ms_per_day) / 1000 - of_int anchor_unix :: rat) / of_int seconds_per_block + 1 / 2\<rfloor>
     = 144 * d - 2896128"
proof -
  have "(of_int (d * ms_per_day) / 1000 - of_int anchor_unix :: rat) / of_int seconds_per_block
      = of_int (144 * d - 2896128)"
    by (simp add: ms_per_day_def anchor_unix_def seconds_per_block_def field_simps)
  then show ?thesis by linarith
qed

lemma unlock_at_year:
  assumes "99 < y"
  shows "unlock_year_to_height (Some (of_int y)) =
    (if 8640000000000000 < \<bar>day_from_year y * ms_per_day\<bar> then Some NaN
     else let h = anchor_height + (144 * day_from_year y - 2896128)
          in if h \<le> anchor_height \<or> max_cltv_height \<le> h then None else Some (Num (of_int h)))"
  using assms
proof -
  have n: "y \<noteq> 0" using assms by simp
  show ?thesis
    unfolding unlock_year_to_height_def Let_def option.case floor_of_int
      date_utc_jan1_recent [OF assms]
    by (cases "\<bar>day_from_year y * ms_per_day\<bar> \<le> 8640000000000000",
        simp_all only: if_True if_False option.case blocks_exact not_le [symmetric]
          of_int_eq_0_iff n not_True_eq_False not_False_eq_True simp_thms)
qed

lemma day_2025: "day_from_year 2025 = 20089"
  by (simp add: day_from_year_def)

lemma day_2026: "day_from_year 2026 = 20454"
  by (simp add: day_from_year_def)

lemma day_11000: "day_from_year 11000 = 3298140"
  by (simp add: day_from_year_def)

text \<open>C40: For every year the picker can offer from 2026 to 11000 the conversion yields a block
  height strictly between the anchor and the 500,000,000 boundary, it is exactly the height the
  chain reaches at ten minutes a block at 1 January of that year, and later years give strictly
  later heights.\<close>

theorem unlock_height_exact:
  assumes "2026 \<le> y" "y \<le> 11000"
  shows "\<exists>h. unlock_year_to_height (Some (of_int y)) = Some (Num (of_int h))
     \<and> anchor_height < h \<and> h < max_cltv_height
     \<and> anchor_unix + (h - anchor_height) * seconds_per_block = day_from_year y * 86400
     \<and> (\<forall>z k. y < z \<and> unlock_year_to_height (Some (of_int z)) = Some (Num (of_int k)) \<longrightarrow> h < k)"
proof (intro exI conjI allI impI)
  let ?h = "anchor_height + (144 * day_from_year y - 2896128)"
  have d: "20454 \<le> day_from_year y" "day_from_year y \<le> 3298140"
    using day_from_year_mono_le [OF assms(1)] day_from_year_mono_le [OF assms(2)]
    by (simp_all add: day_2026 day_11000)
  show b: "anchor_height < ?h" "?h < max_cltv_height"
    using d by (simp_all add: anchor_height_def max_cltv_height_def)
  have "\<bar>day_from_year y * ms_per_day\<bar> \<le> 8640000000000000"
    using d by (simp add: ms_per_day_def)
  then show "unlock_year_to_height (Some (of_int y)) = Some (Num (of_int ?h))"
    using assms b unlock_at_year [of y] by (simp add: Let_def)
  show "anchor_unix + (?h - anchor_height) * seconds_per_block = day_from_year y * 86400"
    by (simp add: anchor_unix_def anchor_height_def seconds_per_block_def)
  fix z k
  assume z: "y < z \<and> unlock_year_to_height (Some (of_int z)) = Some (Num (of_int k))"
  then have "k = anchor_height + (144 * day_from_year z - 2896128)"
    using assms unlock_at_year [of z] by (auto simp: Let_def split: if_splits)
  with z day_from_year_mono [of y z] show "?h < k" by simp
qed

theorem unlock_height_exact_witness:
  "\<exists>h. unlock_year_to_height (Some 2042) = Some (Num (of_int h)) \<and> 880000 < h"
  using unlock_height_exact [of 2042] by (auto simp: anchor_height_def)

text \<open>The first year the picker offers, the calendar year after the current instant, starts
  after that instant and is always a usable lock while the clock reads at or after the anchor and
  before the year 10999.\<close>

theorem min_unlock_year_usable:
  assumes "anchor_unix * 1000 \<le> now" "now < day_from_year 10999 * ms_per_day"
  shows "now < day_from_year (min_unlock_year now) * ms_per_day
     \<and> (\<exists>h. unlock_year_to_height (Some (of_int (min_unlock_year now))) = Some (Num (of_int h)))"
proof -
  let ?d = "now div ms_per_day" and ?y = "utc_full_year now"
  have y: "day_from_year ?y \<le> ?d" "?d < day_from_year (?y + 1)"
    using year_from_day_spec [of ?d] by (simp_all add: utc_full_year_def)
  have m: "(0 :: int) < ms_per_day" by (simp add: ms_per_day_def)
  have "20112 \<le> ?d"
    using zdiv_mono1 [OF assms(1) m] by (simp add: anchor_unix_def ms_per_day_def)
  with y(2) have "\<not> ?y + 1 \<le> 2025"
    using day_from_year_mono_le [of "?y + 1" 2025] by (auto simp: day_2025)
  moreover have "?d < day_from_year 10999"
    using assms(2) m by (simp add: ms_per_day_def)
  with y(1) have "\<not> 10999 \<le> ?y"
    using day_from_year_mono_le [of 10999 ?y] by auto
  ultimately have r: "2026 \<le> min_unlock_year now" "min_unlock_year now \<le> 11000"
    by (simp_all add: min_unlock_year_def)
  have "now < day_from_year (min_unlock_year now) * ms_per_day"
    using y(2) m by (simp add: min_unlock_year_def ms_per_day_def)
  then show ?thesis using unlock_height_exact [OF r] by blast
qed

theorem min_unlock_year_usable_witness:
  "\<exists>h. unlock_year_to_height (Some (of_int (min_unlock_year 1800000000000))) = Some (Num (of_int h))"
  using min_unlock_year_usable [of 1800000000000]
  by (simp add: anchor_unix_def day_from_year_def ms_per_day_def)

text \<open>The conversion refuses a fractional or missing year and every year from 100 to 2025; but
  for a year past the range of a Date (from 275761) the range test compares with NaN and lets NaN
  out where the comment promises null.\<close>

theorem unlock_height_rejects:
  "unlock_year_to_height None = None
   \<and> (\<forall>y. y \<notin> range of_int \<longrightarrow> unlock_year_to_height (Some y) = None)
   \<and> (\<forall>y. 100 \<le> y \<and> y \<le> 2025 \<longrightarrow> unlock_year_to_height (Some (of_int y)) = None)
   \<and> (\<forall>y. 275761 \<le> y \<longrightarrow> unlock_year_to_height (Some (of_int y)) = Some NaN)"
proof (intro conjI allI impI)
  show "unlock_year_to_height None = None" by (simp add: unlock_year_to_height_def)
next
  fix y :: rat
  assume "y \<notin> range of_int"
  then have "of_int \<lfloor>y\<rfloor> \<noteq> y" by (metis rangeI)
  then show "unlock_year_to_height (Some y) = None" by (simp add: unlock_year_to_height_def)
next
  fix y :: int
  assume y: "100 \<le> y \<and> y \<le> 2025"
  have "day_from_year 100 = -683003" by (simp add: day_from_year_def)
  then have "-683003 \<le> day_from_year y" "day_from_year y \<le> 20089"
    using y day_from_year_mono_le [of 100 y] day_from_year_mono_le [of y 2025]
    by (simp_all add: day_2025)
  moreover from this have "\<not> 8640000000000000 < \<bar>day_from_year y * ms_per_day\<bar>"
    by (simp add: ms_per_day_def abs_le_iff not_less)
  ultimately show "unlock_year_to_height (Some (of_int y)) = None"
    using y unlock_at_year [of y] by (simp add: Let_def)
next
  fix y :: int
  assume y: "275761 \<le> y"
  have "day_from_year 275761 = 100000110" by (simp add: day_from_year_def)
  then have "8640000000000000 < day_from_year y * ms_per_day"
    using day_from_year_mono_le [OF y] by (simp add: ms_per_day_def)
  then show "unlock_year_to_height (Some (of_int y)) = Some NaN"
    using y unlock_at_year [of y] by simp
qed

theorem unlock_height_rejects_witness:
  "unlock_year_to_height (Some (of_int 2020)) = None
   \<and> unlock_year_to_height (Some (of_int 300000)) = Some NaN"
proof
  show "unlock_year_to_height (Some (of_int 2020)) = None"
    by (rule unlock_height_rejects [THEN conjunct2, THEN conjunct2, THEN conjunct1, rule_format]) simp
  show "unlock_year_to_height (Some (of_int 300000)) = Some NaN"
    by (rule unlock_height_rejects [THEN conjunct2, THEN conjunct2, THEN conjunct2, rule_format]) simp
qed

end
