(* ===== verification/Clock.thy ===== *)
theory Clock
  imports GK_Prelude
begin

text \<open>
  The deadline countdown (ghostkey-web/src/time.ts) and the check-in policy
  (ghostkey-web/src/checkin.ts). Instants are integer milliseconds. Parsing a timestamp is a
  parameter \<open>date_time\<close>, the Date constructor of the browser, whose result outside the ISO format
  is implementation-defined; \<open>None\<close> is its NaN.
\<close>

section \<open>Countdown\<close>

definition parse_rfc :: "(jstr \<Rightarrow> int option) \<Rightarrow> jstr \<Rightarrow> (jstr, int) throws" where
  "parse_rfc date_time ts =
     (case date_time ts of None \<Rightarrow> Inl (''bad timestamp: '' @ ts) | Some t \<Rightarrow> Inr t)"

definition pretty_parts :: "nat \<Rightarrow> nat \<Rightarrow> nat \<Rightarrow> nat \<Rightarrow> jstr list" where
  "pretty_parts days hours mins s =
     (if days \<noteq> 0 then [show_nat days @ ''d''] else [])
     @ (if hours \<noteq> 0 \<or> days \<noteq> 0 then [show_nat hours @ ''h''] else [])
     @ (if mins \<noteq> 0 \<or> hours \<noteq> 0 \<or> days \<noteq> 0 then [show_nat mins @ ''m''] else [])
     @ [pad2 (show_nat s) @ ''s'']"

definition pretty_duration :: "int \<Rightarrow> jstr" where
  "pretty_duration ms =
     (let sign = (if ms < 0 then ''-'' else []);
          s0 = nat \<bar>ms\<bar> div 1000;
          days = s0 div 86400;
          s1 = s0 - days * 86400;
          hours = s1 div 3600;
          s2 = s1 - hours * 3600;
          mins = s2 div 60;
          s3 = s2 - mins * 60
      in sign @ join '' '' (pretty_parts days hours mins s3))"

definition friendly_out :: "int \<Rightarrow> nat \<Rightarrow> jstr \<Rightarrow> jstr" where
  "friendly_out ms n unit =
     (let suf = (if ms < 0 then ''ago'' else ''from now'');
          pre = (if ms < 0 then [] else ''in '')
      in js_trim (pre @ show_nat n @ '' '' @ unit @ (if n = 1 then [] else ''s'')
           @ (if ms < 0 then '' '' @ suf else [])))"

text \<open>The count and the unit chosen for a distance of \<open>a\<close> milliseconds.\<close>

definition friendly_pick :: "nat \<Rightarrow> nat \<times> jstr" where
  "friendly_pick a =
     (if a < 60000 then (max 1 (a div 1000), ''second'')
      else if a < 3600000 then (a div 60000, ''minute'')
      else if a < 86400000 then (a div 3600000, ''hour'')
      else if a < 604800000 then (a div 86400000, ''day'')
      else if a < 2592000000 then (a div 604800000, ''week'')
      else (a div 2592000000, ''month''))"

definition friendly_duration :: "int \<Rightarrow> jstr" where
  "friendly_duration ms = (let (n, unit) = friendly_pick (nat \<bar>ms\<bar>) in friendly_out ms n unit)"

record countdown =
  cd_ms :: int
  cd_pretty :: jstr
  cd_friendly :: jstr

definition countdown_to :: "int \<Rightarrow> int \<Rightarrow> countdown" where
  "countdown_to target now =
     (let ms = target - now
      in \<lparr>cd_ms = ms, cd_pretty = pretty_duration ms, cd_friendly = friendly_duration ms\<rparr>)"

section \<open>Check-in policy\<close>

definition last_resort_window_ms :: int where
  "last_resort_window_ms = 24 * 60 * 60 * 1000"

definition last_resort_checkin_open :: "(jstr \<Rightarrow> int option) \<Rightarrow> jstr option \<Rightarrow> int \<Rightarrow> bool" where
  "last_resort_checkin_open date_time claim_eligible_at now =
     (case claim_eligible_at of
        None \<Rightarrow> False
      | Some ts \<Rightarrow>
          if ts = [] then False
          else (case date_time ts of
                  None \<Rightarrow> False
                | Some eligible \<Rightarrow> eligible - now \<le> last_resort_window_ms))"

datatype checkin_attempt = CheckedIn | Skipped | AttemptError jstr

record fan_out_tally =
  t_checked_in :: nat
  t_skipped :: nat
  t_hard_error :: "jstr option"

definition empty_tally :: fan_out_tally where
  "empty_tally = \<lparr>t_checked_in = 0, t_skipped = 0, t_hard_error = None\<rparr>"

definition tally_step :: "checkin_attempt \<Rightarrow> fan_out_tally \<Rightarrow> fan_out_tally" where
  "tally_step outcome t =
     (case outcome of
        CheckedIn \<Rightarrow> t\<lparr>t_checked_in := t_checked_in t + 1\<rparr>
      | Skipped \<Rightarrow> t\<lparr>t_skipped := t_skipped t + 1\<rparr>
      | AttemptError e \<Rightarrow>
          if \<not> truthy (t_hard_error t) then t\<lparr>t_hard_error := Some e\<rparr> else t)"

text \<open>An attempt acts on the world \<open>'s\<close> and either rejects or gives an outcome; a rejection leaves
  the loop.\<close>

type_synonym ('s, 'e) attempt = "jstr \<Rightarrow> 's \<Rightarrow> ('e, checkin_attempt) throws \<times> 's"

fun fan_out_loop :: "('s, 'e) attempt \<Rightarrow> jstr list \<Rightarrow> fan_out_tally \<Rightarrow> 's
    \<Rightarrow> ('e, fan_out_tally) throws \<times> 's" where
  "fan_out_loop attempt [] t w = (Inr t, w)"
| "fan_out_loop attempt (i # is) t w =
     (case attempt i w of
        (Inl e, w') \<Rightarrow> (Inl e, w')
      | (Inr outcome, w') \<Rightarrow> fan_out_loop attempt is (tally_step outcome t) w')"

definition fan_out_checkin :: "jstr list \<Rightarrow> ('s, 'e) attempt \<Rightarrow> 's
    \<Rightarrow> ('e, fan_out_tally) throws \<times> 's" where
  "fan_out_checkin vault_ids attempt w = fan_out_loop attempt vault_ids empty_tally w"

section \<open>What the display says\<close>

text \<open>Reading the compact countdown back: a sign, then numbers with a unit letter.\<close>

definition unit_secs :: "char \<Rightarrow> nat" where
  "unit_secs c = (if c = CHR ''d'' then 86400 else if c = CHR ''h'' then 3600
     else if c = CHR ''m'' then 60 else 1)"

definition read_part :: "jstr \<Rightarrow> nat" where
  "read_part w = nat_of_digits (butlast w) * unit_secs (last w)"

definition read_pretty :: "jstr \<Rightarrow> bool \<times> nat" where
  "read_pretty s =
     (let neg = starts_with s ''-''; body = (if neg then tl s else s)
      in (neg, sum_list (map read_part (split_at CHR '' '' body))))"

lemma read_part_unit:
  "read_part (show_nat n @ ''d'') = n * 86400" "read_part (show_nat n @ ''h'') = n * 3600"
  "read_part (show_nat n @ ''m'') = n * 60" "read_part (pad2 (show_nat n) @ ''s'') = n"
  by (simp_all add: read_part_def unit_secs_def)

lemma part_no_space: "digits s \<Longrightarrow> c \<noteq> CHR '' '' \<Longrightarrow> CHR '' '' \<notin> set (s @ [c])"
  using digits_no by auto

text \<open>The countdown's parts have no sign in front.\<close>

lemma join_no_minus:
  "ws \<noteq> [] \<Longrightarrow> digits s \<Longrightarrow> hd ws = s @ [u] \<Longrightarrow> \<not> prefix ''-'' (join sep ws)"
proof -
  assume "ws \<noteq> []" "digits s" "hd ws = s @ [u]"
  then obtain x xs vs where ws: "ws = (x # xs) # vs" and x: "js_digit x"
    by (cases ws; cases s) (auto simp: digits_def)
  obtain r where "join sep ws = x # r" by (cases vs) (simp_all add: ws)
  with x show ?thesis by auto
qed

lemma pretty_parts_words: "w \<in> set (pretty_parts d h m s) \<Longrightarrow> \<exists>x u. w = x @ [u] \<and> digits x \<and> u \<in> set ''dhms''"
  using show_nat_digits digits_pad2 [OF show_nat_digits]
  by (auto simp: pretty_parts_def split: if_splits)

lemma pretty_parts_sum:
  "sum_list (map read_part (pretty_parts d h m s)) = d * 86400 + h * 3600 + m * 60 + s"
  by (simp add: pretty_parts_def read_part_unit)

lemma pretty_parts_join:
  "split_at CHR '' '' (join '' '' (pretty_parts d h m s)) = pretty_parts d h m s"
  "\<not> prefix ''-'' (join '' '' (pretty_parts d h m s))"
proof -
  have ne: "pretty_parts d h m s \<noteq> []" by (simp add: pretty_parts_def)
  have "CHR '' '' \<notin> set w" if w: "w \<in> set (pretty_parts d h m s)" for w
  proof -
    obtain x u where "w = x @ [u]" "digits x" "u \<in> set ''dhms''" using pretty_parts_words [OF w] by blast
    then show ?thesis using digits_no [of x "CHR '' ''"] by auto
  qed
  with ne show "split_at CHR '' '' (join '' '' (pretty_parts d h m s)) = pretty_parts d h m s"
    by (intro split_at_join) blast+
  obtain x u where "hd (pretty_parts d h m s) = x @ [u]" "digits x"
    using pretty_parts_words [OF hd_in_set [OF ne]] by blast
  then show "\<not> prefix ''-'' (join '' '' (pretty_parts d h m s))"
    using join_no_minus [OF ne] by blast
qed

text \<open>The compact countdown loses nothing above a second: its sign and its day, hour, minute
  and second fields read back as the sign and the whole seconds of the remaining time.\<close>

theorem pretty_duration_reads_back:
  "read_pretty (pretty_duration ms) = (ms < 0, nat \<bar>ms\<bar> div 1000)"
proof -
  define s0 where "s0 = nat \<bar>ms\<bar> div 1000"
  define d where "d = s0 div 86400"
  define h where "h = (s0 - d * 86400) div 3600"
  define m where "m = (s0 - d * 86400 - h * 3600) div 60"
  define r where "r = s0 - d * 86400 - h * 3600 - m * 60"
  have p: "pretty_duration ms = (if ms < 0 then ''-'' else []) @ join '' '' (pretty_parts d h m r)"
    by (simp only: pretty_duration_def Let_def s0_def d_def h_def m_def r_def)
  have le: "d * 86400 \<le> s0" "h * 3600 \<le> s0 - d * 86400" "m * 60 \<le> s0 - d * 86400 - h * 3600"
    unfolding d_def h_def m_def by (rule div_times_less_eq_dividend)+
  have "d * 86400 + h * 3600 + m * 60 + r = s0"
    unfolding r_def using le by linarith
  then have "sum_list (map read_part (pretty_parts d h m r)) = s0" by (simp add: pretty_parts_sum)
  then have "read_pretty (pretty_duration ms) = (ms < 0, s0)"
    using pretty_parts_join [of d h m r] unfolding p read_pretty_def Let_def
    by (cases "ms < 0") simp_all
  then show ?thesis by (simp only: s0_def)
qed

text \<open>The plain-English countdown names a positive count of one of six units, never overstates
  the distance by a unit (the count is the whole units in it, rounded up only under a second), and
  says \<open>ago\<close> exactly when the deadline has passed.\<close>

theorem friendly_duration_bounds:
  "\<exists>n unit w. (unit, w) \<in> set [(''second'', 1000), (''minute'', 60000), (''hour'', 3600000),
        (''day'', 86400000), (''week'', 604800000), (''month'', 2592000000 :: nat)]
     \<and> 1 \<le> n \<and> n * w \<le> max 1000 (nat \<bar>ms\<bar>) \<and> nat \<bar>ms\<bar> < (n + 1) * w
     \<and> friendly_duration ms =
         (if ms < 0 then show_nat n @ '' '' @ unit @ (if n = 1 then [] else ''s'') @ '' ago''
          else ''in '' @ show_nat n @ '' '' @ unit @ (if n = 1 then [] else ''s''))"
proof -
  define a where "a = nat \<bar>ms\<bar>"
  obtain n unit where nu: "friendly_pick a = (n, unit)" by (cases "friendly_pick a")
  define w where "w = (if a < 60000 then 1000 else if a < 3600000 then 60000
    else if a < 86400000 then 3600000 else if a < 604800000 then 86400000
    else if a < 2592000000 then 604800000 else (2592000000 :: nat))"
  have k: "(unit, w) \<in> set [(''second'', 1000), (''minute'', 60000), (''hour'', 3600000),
        (''day'', 86400000), (''week'', 604800000), (''month'', 2592000000)]"
    using nu by (auto simp: friendly_pick_def w_def split: if_splits)
  have n: "n = max 1 (a div w)" using nu by (auto simp: friendly_pick_def w_def split: if_splits)
  have w: "1000 \<le> w" "w \<le> max 1000 a" by (auto simp: w_def)
  have le: "n * w \<le> max 1000 a"
  proof (cases "a div w = 0")
    case False
    then have "n = a div w" using n by simp
    then have "n * w \<le> a" using div_times_less_eq_dividend [of a w] by simp
    then show ?thesis by simp
  qed (use n w in simp)
  have "a < (a div w + 1) * w" using w(1) dividend_less_div_times [of w a] by simp
  also have "\<dots> \<le> (n + 1) * w" using n by (intro mult_right_mono) simp_all
  finally have lt: "a < (n + 1) * w" .
  have ends: "\<not> js_ws (hd (show_nat n))" "hd unit \<noteq> CHR '' ''" "unit \<noteq> []" "\<not> js_ws (last unit)"
    using show_nat_digits [of n] digit_not_ws k by (cases "show_nat n"; auto simp: digits_def js_ws_def)+
  have "friendly_duration ms =
         (if ms < 0 then show_nat n @ '' '' @ unit @ (if n = 1 then [] else ''s'') @ '' ago''
          else ''in '' @ show_nat n @ '' '' @ unit @ (if n = 1 then [] else ''s''))"
    using ends by (auto simp: friendly_duration_def nu [unfolded a_def] friendly_out_def js_ws_def
        intro!: js_trim_id)
  then show ?thesis using k n le lt by (intro exI [of _ n] exI [of _ unit] exI [of _ w])
      (simp add: a_def)
qed

section \<open>What the check-in policy guarantees\<close>

text \<open>The free check-in opens exactly one day before the heir is contacted, stays open from
  then on (past the deadline too), and never opens without a readable deadline.\<close>

theorem last_resort_window:
  "(last_resort_checkin_open date_time ts now \<longleftrightarrow>
     (\<exists>s e. ts = Some s \<and> s \<noteq> [] \<and> date_time s = Some e \<and> e - 86400000 \<le> now))
   \<and> (last_resort_checkin_open date_time ts now \<longrightarrow>
        last_resort_checkin_open date_time ts (now + int k))"
  by (auto simp: last_resort_checkin_open_def last_resort_window_ms_def split: option.splits if_splits)

theorem last_resort_window_witness:
  "last_resort_checkin_open (\<lambda>s. if s = ''t'' then Some 86400000 else None) (Some ''t'') (0 + int 5)"
proof -
  have "last_resort_checkin_open (\<lambda>s. if s = ''t'' then Some 86400000 else None) (Some ''t'') 0"
    by (simp add: last_resort_checkin_open_def last_resort_window_ms_def)
  then show ?thesis using last_resort_window by blast
qed

text \<open>The attempts of a list of vaults when none of them rejects.\<close>

fun run_attempts :: "('s, 'e) attempt \<Rightarrow> jstr list \<Rightarrow> 's \<Rightarrow> checkin_attempt list \<times> 's" where
  "run_attempts attempt [] w = ([], w)"
| "run_attempts attempt (i # vs) w =
     (case attempt i w of
        (Inl e, w') \<Rightarrow> ([], w')
      | (Inr out, w') \<Rightarrow> (let (outs, w'') = run_attempts attempt vs w' in (out # outs, w'')))"

definition attempt_errors :: "checkin_attempt list \<Rightarrow> jstr list" where
  "attempt_errors outs = concat (map (\<lambda>x. case x of AttemptError e \<Rightarrow> [e] | _ \<Rightarrow> []) outs)"

lemma fan_out_loop_total:
  assumes "\<And>i w. \<exists>out w'. attempt i w = (Inr out, w')"
  shows "fan_out_loop attempt vs t w =
    (let (outs, w') = run_attempts attempt vs w in (Inr (fold tally_step outs t), w'))"
proof (induction vs arbitrary: t w)
  case (Cons i vs)
  obtain out w' where "attempt i w = (Inr out, w')" using assms by blast
  then show ?case by (simp add: Cons.IH split: prod.split)
qed simp

lemma empty_tally_simps [simp]:
  "t_checked_in empty_tally = 0" "t_skipped empty_tally = 0" "t_hard_error empty_tally = None"
  by (simp_all add: empty_tally_def)

lemma tally_step_simps [simp]:
  "t_checked_in (tally_step out t) = t_checked_in t + (if out = CheckedIn then 1 else 0)"
  "t_skipped (tally_step out t) = t_skipped t + (if out = Skipped then 1 else 0)"
  "t_hard_error (tally_step CheckedIn t) = t_hard_error t"
  "t_hard_error (tally_step Skipped t) = t_hard_error t"
  "t_hard_error (tally_step (AttemptError e) t) =
     (if truthy (t_hard_error t) then t_hard_error t else Some e)"
  by (auto simp: tally_step_def split: checkin_attempt.split)

lemma attempt_errors_simps [simp]:
  "attempt_errors [] = []"
  "attempt_errors (CheckedIn # outs) = attempt_errors outs"
  "attempt_errors (Skipped # outs) = attempt_errors outs"
  "attempt_errors (AttemptError e # outs) = e # attempt_errors outs"
  by (simp_all add: attempt_errors_def)

lemma tally_counts:
  "t_checked_in (fold tally_step outs t) = t_checked_in t + length (filter (\<lambda>x. x = CheckedIn) outs)"
  "t_skipped (fold tally_step outs t) = t_skipped t + length (filter (\<lambda>x. x = Skipped) outs)"
  by (induction outs arbitrary: t) simp_all

lemma tally_keeps_error:
  "truthy (t_hard_error t) \<Longrightarrow> t_hard_error (fold tally_step outs t) = t_hard_error t"
proof (induction outs arbitrary: t)
  case (Cons out outs)
  then show ?case by (cases out) simp_all
qed simp

lemma tally_first_error:
  "\<not> truthy (t_hard_error t) \<Longrightarrow> [] \<notin> set (attempt_errors outs) \<Longrightarrow>
     t_hard_error (fold tally_step outs t) =
       (case attempt_errors outs of [] \<Rightarrow> t_hard_error t | e # es \<Rightarrow> Some e)"
proof (induction outs arbitrary: t)
  case (Cons out outs)
  then show ?case
    by (cases out) (auto simp: tally_keeps_error split: list.split)
qed simp

lemma run_attempts_length:
  assumes "\<And>i w. \<exists>out w'. attempt i w = (Inr out, w')"
  shows "length (fst (run_attempts attempt vs w)) = length vs"
proof (induction vs arbitrary: w)
  case (Cons i vs)
  obtain out w' where "attempt i w = (Inr out, w')" using assms by blast
  then show ?case using Cons.IH [of w'] by (auto split: prod.splits)
qed simp

text \<open>When no attempt rejects, a refusal or an error of one heir never stops the others: every
  heir of the group gets exactly one attempt, in the order of the list, each on the state the
  previous ones left, and the tally counts the outcomes and keeps the first error.\<close>

theorem fan_out_reaches_everyone:
  assumes "\<forall>i w. \<exists>out w'. attempt i w = (Inr out, w')"
    and "\<forall>i w. fst (attempt i w) \<noteq> Inr (AttemptError [])"
  shows "\<exists>outs w' t. run_attempts attempt vs w = (outs, w') \<and> length outs = length vs
     \<and> fan_out_checkin vs attempt w = (Inr t, w')
     \<and> t_checked_in t = length (filter (\<lambda>x. x = CheckedIn) outs)
     \<and> t_skipped t = length (filter (\<lambda>x. x = Skipped) outs)
     \<and> t_checked_in t + t_skipped t + length (attempt_errors outs) = length vs
     \<and> t_hard_error t = (case attempt_errors outs of [] \<Rightarrow> None | e # _ \<Rightarrow> Some e)"
proof -
  note tot = assms(1) [rule_format]
  obtain outs w' where r: "run_attempts attempt vs w = (outs, w')"
    by (cases "run_attempts attempt vs w")
  have ne: "[] \<notin> set (attempt_errors (fst (run_attempts attempt js v)))" for js v
  proof (induction js arbitrary: v)
    case (Cons i js)
    obtain out v' where o: "attempt i v = (Inr out, v')" using tot by blast
    moreover have "out \<noteq> AttemptError []" using assms(2) o by (metis fst_conv)
    ultimately show ?case using Cons [of v']
      by (cases out) (auto split: prod.splits)
  qed simp
  have "length (fst (run_attempts attempt vs w)) = length vs"
    by (rule run_attempts_length) (rule tot)
  then have len: "length outs = length vs" by (simp add: r)
  have cnt: "length (filter (\<lambda>x. x = CheckedIn) os) + length (filter (\<lambda>x. x = Skipped) os)
      + length (attempt_errors os) = length os" for os
    
  proof (induction os)
    case (Cons x xs)
    then show ?case by (cases x) simp_all
  qed simp
  have "fan_out_loop attempt vs empty_tally w =
      (let (outs, w') = run_attempts attempt vs w in (Inr (fold tally_step outs empty_tally), w'))"
    by (rule fan_out_loop_total) (rule tot)
  then have f: "fan_out_checkin vs attempt w = (Inr (fold tally_step outs empty_tally), w')"
    by (simp add: fan_out_checkin_def r)
  show ?thesis
    using r len f ne [of vs w] cnt [of outs] tally_first_error [of empty_tally outs]
    by (intro exI [of _ outs] exI [of _ w'] exI [of _ "fold tally_step outs empty_tally"])
      (simp add: tally_counts split: list.split)
qed

text \<open>A group of three heirs whose second is refused and whose third is claimed.\<close>

definition sample_attempt :: "(jstr list, unit) attempt" where
  "sample_attempt i w = (Inr (if i = ''b'' then AttemptError ''offline''
     else if i = ''c'' then Skipped else CheckedIn), w @ [i])"

theorem fan_out_reaches_everyone_witness:
  "fan_out_checkin [''a'', ''b'', ''c'', ''d''] sample_attempt [] =
     (Inr \<lparr>t_checked_in = 2, t_skipped = 1, t_hard_error = Some ''offline''\<rparr>, [''a'', ''b'', ''c'', ''d''])"
proof -
  have r: "run_attempts sample_attempt [''a'', ''b'', ''c'', ''d''] [] =
      ([CheckedIn, AttemptError ''offline'', Skipped, CheckedIn], [''a'', ''b'', ''c'', ''d''])"
    by (simp add: sample_attempt_def)
  have a: "\<forall>i w. \<exists>out w'. sample_attempt i w = (Inr out, w')"
    "\<forall>i w. fst (sample_attempt i w) \<noteq> Inr (AttemptError [])"
    by (simp_all add: sample_attempt_def)
  obtain outs w' t where t: "run_attempts sample_attempt [''a'', ''b'', ''c'', ''d''] [] = (outs, w')"
    "fan_out_checkin [''a'', ''b'', ''c'', ''d''] sample_attempt [] = (Inr t, w')"
    "t_checked_in t = length (filter (\<lambda>x. x = CheckedIn) outs)"
    "t_skipped t = length (filter (\<lambda>x. x = Skipped) outs)"
    "t_hard_error t = (case attempt_errors outs of [] \<Rightarrow> None | e # _ \<Rightarrow> Some e)"
    using fan_out_reaches_everyone [OF a, of "[''a'', ''b'', ''c'', ''d'']" "[]"] by blast
  from t(1) have "outs = [CheckedIn, AttemptError ''offline'', Skipped, CheckedIn]"
    "w' = [''a'', ''b'', ''c'', ''d'']" unfolding r by simp_all
  with t(2-5) show ?thesis by (cases t) simp
qed

text \<open>A rejected attempt, by contrast, ends the loop: the heirs behind it get no attempt and the
  group's tally is lost, so the guarantee rests on callers that turn every failure into a value.\<close>

theorem fan_out_rejection_stops:
  assumes "\<forall>i\<in>set before. \<forall>w. \<exists>out w'. attempt i w = (Inr out, w')"
    and "\<forall>w. attempt bad w = (Inl e, f w)"
  shows "\<exists>outs w'. run_attempts attempt before w = (outs, w')
     \<and> fan_out_checkin (before @ bad # rest) attempt w = (Inl e, f w')"
proof -
  have "fan_out_loop attempt (before @ bad # rest) t w =
      (Inl e, f (snd (run_attempts attempt before w)))" for t
    using assms(1)
  proof (induction before arbitrary: t w)
    case (Cons i before)
    have "\<exists>out w'. attempt i w = (Inr out, w')" using Cons.prems by simp
    then obtain out w' where "attempt i w = (Inr out, w')" by blast
    then show ?case using Cons by (simp split: prod.split)
  qed (simp add: assms(2))
  then show ?thesis by (cases "run_attempts attempt before w") (simp add: fan_out_checkin_def)
qed

definition rejecting_attempt :: "(jstr list, jstr) attempt" where
  "rejecting_attempt i w = (if i = ''b'' then (Inl ''crash'', w @ [i]) else (Inr CheckedIn, w @ [i]))"

theorem fan_out_rejection_stops_witness:
  "fan_out_checkin [''a'', ''b'', ''c''] rejecting_attempt [] = (Inl ''crash'', [''a'', ''b''])"
  using fan_out_rejection_stops [of "[''a'']" rejecting_attempt "''b''" "''crash''" "\<lambda>w. w @ [''b'']" "[]" "[''c'']"]
  by (simp add: rejecting_attempt_def)

end
