(* ===== verification/Kdf_Worker.thy ===== *)
theory Kdf_Worker
  imports Sealing Complex_Main
begin

text \<open>
  The Argon2 worker protocol: the registry of pending derivations in
  ghostkey-web/src/crypto/sealing.ts (getKdfWorker, deriveOwnerKek) and the worker of
  crypto/argonWorker.ts, as a step relation over the page, the worker and the messages between them.
  Messages of a terminated worker may still be in flight. The fields after \<open>ks_requests\<close> belong to
  the worker; \<open>ks_requests\<close> and \<open>ks_settled\<close> record the history of the promises.
\<close>

section \<open>State\<close>

datatype settlement = Resolved bytes | Rejected jstr

record kdf_request =
  rq_id :: nat
  rq_pw :: bytes
  rq_salt :: bytes
  rq_t :: nat
  rq_m :: nat
  rq_p :: nat
  rq_dklen :: nat

record worker_msg =
  wm_id :: nat
  wm_progress :: "rat option"
  wm_raw :: "bytes option"
  wm_error :: "jstr option"

record kdf_state =
  ks_worker :: bool
  ks_seq :: nat
  ks_pending :: "nat list"
  ks_settled :: "(nat \<times> settlement) list"
  ks_progress :: "(nat \<times> rat) list"
  ks_requests :: "kdf_request list"
  ks_jobs :: "(kdf_request \<times> int) list"
  ks_flight :: "worker_msg list"
  ks_wiped :: "nat list"

definition kdf_init :: kdf_state where
  "kdf_init = \<lparr>ks_worker = False, ks_seq = 0, ks_pending = [], ks_settled = [], ks_progress = [],
     ks_requests = [], ks_jobs = [], ks_flight = [], ks_wiped = []\<rparr>"

section \<open>The page\<close>

text \<open>\<open>supported\<close>: the browser has workers and the page is served over http; \<open>boots\<close>: constructing
  the worker does not throw.\<close>

definition get_kdf_worker :: "bool \<Rightarrow> bool \<Rightarrow> kdf_state \<Rightarrow> bool \<times> kdf_state" where
  "get_kdf_worker supported boots s =
     (if \<not> supported then (False, s)
      else if ks_worker s then (True, s)
      else if boots then (True, s\<lparr>ks_worker := True\<rparr>)
      else (False, s\<lparr>ks_worker := False\<rparr>))"

text \<open>The derivation either waits for the promise with the returned id or runs inline.\<close>

definition start_derivation :: "bool \<Rightarrow> bool \<Rightarrow> bytes \<Rightarrow> bytes \<Rightarrow> nat \<Rightarrow> nat \<Rightarrow> kdf_state
    \<Rightarrow> nat option \<times> kdf_state" where
  "start_derivation supported boots pw salt iters mem s =
     (let (w, s1) = get_kdf_worker supported boots s
      in if w then
           let i = ks_seq s1 + 1;
               req = \<lparr>rq_id = i, rq_pw = pw, rq_salt = salt, rq_t = iters, rq_m = mem,
                      rq_p = argon_parallelism, rq_dklen = kek_len\<rparr>
           in (Some i, s1\<lparr>ks_seq := i, ks_pending := ks_pending s1 @ [i],
                 ks_requests := ks_requests s1 @ [req], ks_jobs := ks_jobs s1 @ [(req, -1)]\<rparr>)
         else (None, s1))"

definition settle :: "nat \<Rightarrow> settlement \<Rightarrow> kdf_state \<Rightarrow> kdf_state" where
  "settle i r s = s\<lparr>ks_pending := filter (\<lambda>j. j \<noteq> i) (ks_pending s),
                    ks_settled := ks_settled s @ [(i, r)]\<rparr>"

definition on_worker_message :: "worker_msg \<Rightarrow> kdf_state \<Rightarrow> kdf_state" where
  "on_worker_message m s =
     (if wm_id m \<notin> set (ks_pending s) then s
      else case wm_progress m of
             Some pct \<Rightarrow> s\<lparr>ks_progress := ks_progress s @ [(wm_id m, pct)]\<rparr>
           | None \<Rightarrow>
               (case wm_raw m of
                  Some raw \<Rightarrow> settle (wm_id m) (Resolved raw) s
                | None \<Rightarrow>
                    settle (wm_id m) (Rejected (the_default ''KDF worker failed'' (wm_error m))) s))"

definition on_worker_error :: "kdf_state \<Rightarrow> kdf_state" where
  "on_worker_error s =
     s\<lparr>ks_settled := ks_settled s @ map (\<lambda>i. (i, Rejected ''KDF worker crashed'')) (ks_pending s),
       ks_pending := [], ks_worker := False, ks_jobs := []\<rparr>"

section \<open>The worker\<close>

definition progress_msg :: "nat \<Rightarrow> rat \<Rightarrow> worker_msg" where
  "progress_msg i pct = \<lparr>wm_id = i, wm_progress = Some pct, wm_raw = None, wm_error = None\<rparr>"

text \<open>A progress tick is forwarded only when the whole percentage changes.\<close>

definition job_progress :: "kdf_request \<times> int \<Rightarrow> rat \<Rightarrow> kdf_state \<Rightarrow> kdf_state" where
  "job_progress job pct s =
     (let (req, last_pct) = job; whole = \<lfloor>pct * 100\<rfloor>
      in if whole \<noteq> last_pct
         then s\<lparr>ks_jobs := map (\<lambda>j. if j = job then (req, whole) else j) (ks_jobs s),
                ks_flight := ks_flight s @ [progress_msg (rq_id req) pct]\<rparr>
         else s)"

definition run_argon :: "('a crypto_scheme) \<Rightarrow> kdf_request \<Rightarrow> (jstr, bytes) throws" where
  "run_argon C req = argon2id C (rq_pw req) (rq_salt req) (rq_t req) (rq_m req) (rq_p req) (rq_dklen req)"

definition result_msg :: "('a crypto_scheme) \<Rightarrow> kdf_request \<Rightarrow> worker_msg" where
  "result_msg C req =
     (case run_argon C req of
        Inr raw \<Rightarrow> \<lparr>wm_id = rq_id req, wm_progress = None, wm_raw = Some raw, wm_error = None\<rparr>
      | Inl e \<Rightarrow> \<lparr>wm_id = rq_id req, wm_progress = None, wm_raw = None, wm_error = Some e\<rparr>)"

definition job_finish :: "('a crypto_scheme) \<Rightarrow> kdf_request \<times> int \<Rightarrow> kdf_state \<Rightarrow> kdf_state" where
  "job_finish C job s =
     s\<lparr>ks_jobs := filter (\<lambda>j. j \<noteq> job) (ks_jobs s),
       ks_flight := ks_flight s @ [result_msg C (fst job)],
       ks_wiped := ks_wiped s @ [rq_id (fst job)]\<rparr>"

section \<open>Steps\<close>

inductive kdf_step :: "('a crypto_scheme) \<Rightarrow> kdf_state \<Rightarrow> kdf_state \<Rightarrow> bool" for C where
  step_start: "kdf_step C s (snd (start_derivation supported boots pw salt iters mem s))"
| step_progress: "job \<in> set (ks_jobs s) \<Longrightarrow> kdf_step C s (job_progress job pct s)"
| step_finish: "job \<in> set (ks_jobs s) \<Longrightarrow> kdf_step C s (job_finish C job s)"
| step_deliver: "ks_flight s = m # rest \<Longrightarrow>
    kdf_step C s (on_worker_message m (s\<lparr>ks_flight := rest\<rparr>))"
| step_crash: "ks_worker s \<Longrightarrow> kdf_step C s (on_worker_error s)"

inductive kdf_reach :: "('a crypto_scheme) \<Rightarrow> kdf_state \<Rightarrow> bool" for C where
  reach_init: "kdf_reach C kdf_init"
| reach_step: "kdf_reach C s \<Longrightarrow> kdf_step C s s' \<Longrightarrow> kdf_reach C s'"

inductive_cases kdf_stepE: "kdf_step C s s'"

section \<open>The invariant\<close>

definition settled_ids :: "kdf_state \<Rightarrow> nat set" where
  "settled_ids s = fst ` set (ks_settled s)"

definition once_inv :: "kdf_state \<Rightarrow> bool" where
  "once_inv s \<longleftrightarrow> distinct (ks_pending s) \<and> distinct (map fst (ks_settled s))
     \<and> set (ks_pending s) \<inter> settled_ids s = {}
     \<and> set (ks_pending s) \<union> settled_ids s = {1..ks_seq s}"

definition final_for :: "nat \<Rightarrow> worker_msg \<Rightarrow> bool" where
  "final_for i m \<longleftrightarrow> wm_id m = i \<and> wm_progress m = None"

definition job_ids :: "kdf_state \<Rightarrow> nat set" where
  "job_ids s = (\<lambda>j. rq_id (fst j)) ` set (ks_jobs s)"

text \<open>No promise is forgotten: its job still runs or its result is in flight.\<close>

definition served_inv :: "kdf_state \<Rightarrow> bool" where
  "served_inv s \<longleftrightarrow> (\<forall>i\<in>set (ks_pending s).
     ks_worker s \<and> (i \<in> job_ids s \<or> (\<exists>m\<in>set (ks_flight s). final_for i m)))"

definition result_inv :: "('a crypto_scheme) \<Rightarrow> kdf_state \<Rightarrow> bool" where
  "result_inv C s \<longleftrightarrow>
     (\<forall>j\<in>set (ks_jobs s). fst j \<in> set (ks_requests s))
     \<and> (\<forall>m\<in>set (ks_flight s). wm_progress m = None \<longrightarrow> (\<exists>q\<in>set (ks_requests s). m = result_msg C q))
     \<and> (\<forall>i raw. (i, Resolved raw) \<in> set (ks_settled s) \<longrightarrow>
          (\<exists>q\<in>set (ks_requests s). rq_id q = i \<and> run_argon C q = Inr raw))"

lemma result_msg_simps [simp]:
  "wm_id (result_msg C q) = rq_id q" "wm_progress (result_msg C q) = None"
  "wm_raw (result_msg C q) = Some raw \<longleftrightarrow> run_argon C q = Inr raw"
  by (auto simp: result_msg_def split: sum.splits)

lemma settle_simps [simp]:
  "ks_worker (settle i r s) = ks_worker s" "ks_seq (settle i r s) = ks_seq s"
  "ks_pending (settle i r s) = filter (\<lambda>j. j \<noteq> i) (ks_pending s)"
  "ks_settled (settle i r s) = ks_settled s @ [(i, r)]"
  "ks_jobs (settle i r s) = ks_jobs s" "ks_flight (settle i r s) = ks_flight s"
  "ks_requests (settle i r s) = ks_requests s"
  by (simp_all add: settle_def)

lemma settled_ids_simps [simp]:
  "settled_ids (settle i r s) = insert i (settled_ids s)"
  "settled_ids (on_worker_error s) = settled_ids s \<union> set (ks_pending s)"
  by (auto simp: settled_ids_def on_worker_error_def image_Un image_image)

lemma once_settle: "once_inv s \<Longrightarrow> i \<in> set (ks_pending s) \<Longrightarrow> once_inv (settle i r s)"
  by (auto simp: once_inv_def settled_ids_def)

lemma once_start:
  assumes "once_inv s"
  shows "once_inv (snd (start_derivation supported boots pw salt iters mem s))"
proof -
  have "Suc (ks_seq s) \<notin> set (ks_pending s) \<union> settled_ids s"
    using assms by (auto simp: once_inv_def)
  then have once_issue: "once_inv t"
    if "ks_seq t = Suc (ks_seq s)" "ks_pending t = ks_pending s @ [Suc (ks_seq s)]"
      "ks_settled t = ks_settled s" for t
    using assms that by (auto simp: once_inv_def settled_ids_def atLeastAtMostSuc_conv)
  moreover have "once_inv (s\<lparr>ks_worker := w\<rparr>)" for w
    using assms by (simp add: once_inv_def settled_ids_def)
  ultimately show ?thesis
    using assms by (auto simp: start_derivation_def get_kdf_worker_def Let_def intro!: once_issue)
qed

lemma once_error: "once_inv s \<Longrightarrow> once_inv (on_worker_error s)"
  unfolding once_inv_def settled_ids_simps
  by (auto simp: on_worker_error_def settled_ids_def distinct_map inj_on_def o_def)

lemma once_step: "kdf_step C s s' \<Longrightarrow> once_inv s \<Longrightarrow> once_inv s'"
proof (induction rule: kdf_step.induct)
  case (step_start s supported boots pw salt iters mem)
  then show ?case by (rule once_start)
next
  case (step_progress job s pct)
  then show ?case
    by (auto simp: job_progress_def Let_def once_inv_def settled_ids_def split: prod.splits)
next
  case (step_finish job s)
  then show ?case by (simp add: job_finish_def once_inv_def settled_ids_def)
next
  case (step_deliver s m rest)
  then have "once_inv (s\<lparr>ks_flight := rest\<rparr>)" by (simp add: once_inv_def settled_ids_def)
  then show ?case
    using once_settle [of "s\<lparr>ks_flight := rest\<rparr>" "wm_id m"]
    by (auto simp: on_worker_message_def once_inv_def settled_ids_def split: option.splits)
next
  case (step_crash s)
  then show ?case by (simp add: once_error)
qed

lemma served_step: "kdf_step C s s' \<Longrightarrow> served_inv s \<Longrightarrow> served_inv s'"
proof (induction rule: kdf_step.induct)
  case (step_start s supported boots pw salt iters mem)
  then show ?case
    by (auto simp: start_derivation_def get_kdf_worker_def Let_def served_inv_def job_ids_def)
next
  case (step_progress job s pct)
  obtain req l where j: "job = (req, l)" by (cases job)
  have "(\<lambda>j. rq_id (fst j)) ` set (map (\<lambda>j. if j = job then (req, w) else j) (ks_jobs s)) = job_ids s" for w
    unfolding job_ids_def set_map image_image by (rule image_cong) (auto simp: j)
  then have "job_ids (job_progress job pct s) = job_ids s"
    by (simp add: j job_progress_def Let_def job_ids_def)
  moreover have "ks_worker (job_progress job pct s) = ks_worker s"
    "ks_pending (job_progress job pct s) = ks_pending s"
    "set (ks_flight s) \<subseteq> set (ks_flight (job_progress job pct s))"
    by (auto simp: j job_progress_def Let_def)
  ultimately show ?case using step_progress(2) unfolding served_inv_def by (metis subsetD)
next
  case (step_finish job s)
  have "i \<in> job_ids s \<Longrightarrow> i \<in> job_ids (job_finish C job s) \<or> final_for i (result_msg C (fst job))" for i
    by (auto simp: job_ids_def job_finish_def final_for_def)
  then show ?case using step_finish(2) by (fastforce simp: served_inv_def job_finish_def)
next
  case (step_deliver s m rest)
  show ?case
  proof (cases "wm_id m \<in> set (ks_pending s)")
    case False
    then show ?thesis using step_deliver
      by (auto simp: on_worker_message_def served_inv_def job_ids_def final_for_def)
  next
    case True
    show ?thesis
    proof (cases "wm_progress m")
      case (Some pct)
      then show ?thesis using step_deliver True
        by (auto simp: on_worker_message_def served_inv_def job_ids_def final_for_def)
    next
      case None
      obtain r where r: "on_worker_message m (s\<lparr>ks_flight := rest\<rparr>) = settle (wm_id m) r (s\<lparr>ks_flight := rest\<rparr>)"
        using True None by (cases "wm_raw m") (auto simp: on_worker_message_def)
      show ?thesis using step_deliver None
        unfolding r by (auto simp: served_inv_def job_ids_def final_for_def)
    qed
  qed
next
  case (step_crash s)
  then show ?case by (simp add: on_worker_error_def served_inv_def)
qed

lemma result_start:
  "result_inv C s \<Longrightarrow> result_inv C (snd (start_derivation supported boots pw salt iters mem s))"
  by (auto simp: start_derivation_def get_kdf_worker_def Let_def result_inv_def)

lemma result_settle:
  assumes "result_inv C s" "\<And>raw. r = Resolved raw \<Longrightarrow> \<exists>q\<in>set (ks_requests s). rq_id q = i \<and> run_argon C q = Inr raw"
  shows "result_inv C (settle i r s)"
  using assms by (auto simp: result_inv_def)

lemma result_step: "kdf_step C s s' \<Longrightarrow> result_inv C s \<Longrightarrow> result_inv C s'"
proof (induction rule: kdf_step.induct)
  case (step_start s supported boots pw salt iters mem)
  then show ?case by (simp add: result_start)
next
  case (step_progress job s pct)
  obtain req l where j: "job = (req, l)" by (cases job)
  from step_progress show ?case
    by (auto simp: j job_progress_def Let_def result_inv_def progress_msg_def)
next
  case (step_finish job s)
  then show ?case by (auto simp: job_finish_def result_inv_def)
next
  case (step_deliver s m rest)
  let ?s = "s\<lparr>ks_flight := rest\<rparr>"
  have i: "result_inv C ?s" using step_deliver by (auto simp: result_inv_def)
  have q: "\<exists>q\<in>set (ks_requests ?s). m = result_msg C q" if "wm_progress m = None"
    using step_deliver that by (auto simp: result_inv_def)
  show ?case
  proof (cases "wm_id m \<in> set (ks_pending s) \<and> wm_progress m = None")
    case False
    then show ?thesis using i
      by (auto simp: on_worker_message_def result_inv_def split: option.splits)
  next
    case True
    then obtain q where q: "q \<in> set (ks_requests ?s)" "m = result_msg C q" using q by blast
    have "result_inv C (settle (wm_id m) (Resolved raw) ?s)" if "wm_raw m = Some raw" for raw
      by (rule result_settle [OF i]) (use q that in auto)
    moreover have "result_inv C (settle (wm_id m) (Rejected e) ?s)" for e
      by (rule result_settle [OF i]) simp
    ultimately show ?thesis using True
      by (auto simp: on_worker_message_def split: option.split)
  qed
next
  case (step_crash s)
  then show ?case by (auto simp: on_worker_error_def result_inv_def)
qed

lemma kdf_reach_inv: "kdf_reach C s \<Longrightarrow> once_inv s \<and> served_inv s \<and> result_inv C s"
proof (induction rule: kdf_reach.induct)
  case reach_init
  show ?case
    by (simp add: kdf_init_def once_inv_def served_inv_def result_inv_def settled_ids_def)
next
  case (reach_step s s')
  then show ?case using once_step served_step result_step by blast
qed

section \<open>What the protocol guarantees\<close>

text \<open>C37: Every derivation handed to the worker is answered at most once, whatever the interleaving of
  derivations, progress ticks, results, stale messages and worker crashes: each issued id is either
  pending or settled, never both and never twice; a pending one is being computed by a live worker or
  has its result in flight; and a derivation resolves only with the Argon2 output of its own request.\<close>

theorem kdf_promises_sound:
  assumes "kdf_reach C s"
  shows "distinct (ks_pending s) \<and> distinct (map fst (ks_settled s))
     \<and> set (ks_pending s) \<inter> settled_ids s = {}
     \<and> set (ks_pending s) \<union> settled_ids s = {1..ks_seq s}
     \<and> (ks_pending s = [] \<or> ks_worker s)
     \<and> (\<forall>i\<in>set (ks_pending s). i \<in> job_ids s \<or> (\<exists>m\<in>set (ks_flight s). final_for i m))
     \<and> (\<forall>i raw. (i, Resolved raw) \<in> set (ks_settled s) \<longrightarrow>
          (\<exists>q\<in>set (ks_requests s). rq_id q = i \<and> run_argon C q = Inr raw))"
proof -
  note inv = kdf_reach_inv [OF assms]
  have "ks_pending s = [] \<or> ks_worker s" using inv by (cases "ks_pending s") (auto simp: served_inv_def)
  with inv show ?thesis by (auto simp: once_inv_def served_inv_def result_inv_def)
qed

definition one_pending :: kdf_state where
  "one_pending = snd (start_derivation True True [1] [2] 3 4 kdf_init)"

lemma one_pending_reach: "kdf_reach C one_pending"
  unfolding one_pending_def by (rule reach_step [OF reach_init]) (rule step_start)

theorem kdf_promises_sound_witness:
  "set (ks_pending one_pending) \<union> settled_ids one_pending = {1..ks_seq one_pending}
     \<and> ks_pending one_pending = [1]"
proof
  show "set (ks_pending one_pending) \<union> settled_ids one_pending = {1..ks_seq one_pending}"
    using kdf_promises_sound [OF one_pending_reach [of sample_crypto]] by blast
  show "ks_pending one_pending = [1]"
    by (simp add: one_pending_def start_derivation_def get_kdf_worker_def kdf_init_def Let_def)
qed

text \<open>Steps of the worker and the message queue only: finishing a job and delivering a message.\<close>

inductive drains :: "('a crypto_scheme) \<Rightarrow> kdf_state \<Rightarrow> kdf_state \<Rightarrow> bool" for C where
  drains_refl: "drains C s s"
| drains_finish: "drains C s s' \<Longrightarrow> job \<in> set (ks_jobs s') \<Longrightarrow> drains C s (job_finish C job s')"
| drains_deliver: "drains C s s' \<Longrightarrow> ks_flight s' = m # rest \<Longrightarrow>
    drains C s (on_worker_message m (s'\<lparr>ks_flight := rest\<rparr>))"

lemma deliver_keeps:
  "ks_flight (on_worker_message m s) = ks_flight s"
  "i \<in> settled_ids s \<Longrightarrow> i \<in> settled_ids (on_worker_message m s)"
  "i \<in> set (ks_pending s) \<Longrightarrow> final_for i m \<Longrightarrow> i \<in> settled_ids (on_worker_message m s)"
  "i \<in> set (ks_pending s) \<Longrightarrow> i \<in> set (ks_pending (on_worker_message m s)) \<union> settled_ids (on_worker_message m s)"
  by (auto simp: on_worker_message_def settled_ids_def final_for_def settle_def split: option.split)

lemma drain_flight:
  "drains C s0 s \<Longrightarrow> i \<in> settled_ids s \<or> i \<in> set (ks_pending s) \<and> (\<exists>m\<in>set (ks_flight s). final_for i m) \<Longrightarrow>
     \<exists>s'. drains C s0 s' \<and> i \<in> settled_ids s'"
proof (induction "ks_flight s" arbitrary: s)
  case Nil
  then show ?case by auto
next
  case (Cons m rest)
  let ?s = "on_worker_message m (s\<lparr>ks_flight := rest\<rparr>)"
  have d: "drains C s0 ?s" using Cons.prems(1) Cons.hyps(2) drains_deliver by metis
  have f: "rest = ks_flight ?s" by (simp add: deliver_keeps)
  have st: "settled_ids (s\<lparr>ks_flight := rest\<rparr>) = settled_ids s" by (simp add: settled_ids_def)
  have "i \<in> settled_ids ?s \<or> i \<in> set (ks_pending ?s) \<and> (\<exists>m\<in>set (ks_flight ?s). final_for i m)"
    using Cons.prems(2) Cons.hyps(2) deliver_keeps(2-4) [of i "s\<lparr>ks_flight := rest\<rparr>" m] st
    by (auto simp: deliver_keeps(1)) (metis set_ConsD)
  from Cons.hyps(1) [OF f d this] show ?case .
qed

text \<open>C36: No derivation is stuck: from every reachable state, each pending promise is settled by
  nothing more than the worker finishing its job and the page handling the messages in flight.\<close>

theorem kdf_promise_settles:
  assumes "kdf_reach C s" "i \<in> set (ks_pending s)"
  shows "\<exists>s'. drains C s s' \<and> i \<in> settled_ids s'"
proof -
  have "i \<in> job_ids s \<or> (\<exists>m\<in>set (ks_flight s). final_for i m)"
    using kdf_reach_inv [OF assms(1)] assms(2) by (auto simp: served_inv_def)
  then show ?thesis
  proof
    assume "i \<in> job_ids s"
    then obtain job where j: "job \<in> set (ks_jobs s)" "rq_id (fst job) = i" by (auto simp: job_ids_def)
    let ?s = "job_finish C job s"
    have "drains C s ?s" by (rule drains_finish [OF drains_refl j(1)])
    moreover have "i \<in> set (ks_pending ?s) \<and> (\<exists>m\<in>set (ks_flight ?s). final_for i m)"
      using assms(2) j(2) by (simp add: job_finish_def final_for_def)
    ultimately show ?thesis using drain_flight by blast
  qed (use drain_flight [OF drains_refl] assms(2) in blast)
qed

theorem kdf_promise_settles_witness:
  "\<exists>s'. drains sample_crypto one_pending s' \<and> 1 \<in> settled_ids s'"
  by (rule kdf_promise_settles [OF one_pending_reach])
    (simp add: one_pending_def start_derivation_def get_kdf_worker_def kdf_init_def Let_def)

end
