(* ===== verification/Heir_Key.thy ===== *)
theory Heir_Key
  imports Sealing
begin

text \<open>
  Key generation (ghostkey-web/src/crypto/keygen.ts), the heir's key derived in the browser
  (crypto/heirKey.ts), and the server side it must agree with (crates/ghostkey-core/src/keys.rs).
  BIP39 and BIP32 (@scure, the bitcoin crate) are the fields of the record \<open>bip\<close>; an extended key
  is its base58 text.
\<close>

section \<open>Hex\<close>

text \<open>The value of the longest prefix of hex digits, \<open>None\<close> when there is none.\<close>

fun hex_prefix :: "nat option \<Rightarrow> jstr \<Rightarrow> nat option" where
  "hex_prefix acc [] = acc"
| "hex_prefix acc (c # s) =
     (case hex_nibble c of
        None \<Rightarrow> acc
      | Some v \<Rightarrow> hex_prefix (Some (the_default 0 acc * 16 + v)) s)"

text \<open>\<open>parseInt(s, 16)\<close>: leading white space, a sign and a \<open>0x\<close> are skipped; \<open>None\<close> is NaN.\<close>

definition parse_int16 :: "jstr \<Rightarrow> int option" where
  "parse_int16 s =
     (let t = js_trim_start s;
          neg = starts_with t ''-'';
          u = (if neg \<or> starts_with t ''+'' then tl t else t);
          v = (if starts_with u ''0x'' \<or> starts_with u ''0X'' then drop 2 u else u)
      in map_option (\<lambda>n. if neg then - int n else int n) (hex_prefix None v))"

fun hex_pairs :: "nat \<Rightarrow> jstr \<Rightarrow> (jstr, bytes) throws" where
  "hex_pairs i (a # b # s) =
     (case parse_int16 [a, b] of
        None \<Rightarrow> Inl (''invalid hex at position '' @ show_nat i)
      | Some n \<Rightarrow> and_then (hex_pairs (i + 1) s) (\<lambda>bs. Inr (word_of_int n # bs)))"
| "hex_pairs i s = Inr []"

definition hex_to_bytes :: "jstr \<Rightarrow> (jstr, bytes) throws" where
  "hex_to_bytes hex =
     (let clean = (if starts_with hex ''0x'' then drop 2 hex else hex)
      in if length clean mod 2 \<noteq> 0
         then Inl (''vault_secret hex has odd length: '' @ show_nat (length clean))
         else hex_pairs 0 clean)"

section \<open>Networks and paths\<close>

definition bip32_versions :: "jstr \<Rightarrow> nat \<times> nat" where
  "bip32_versions network =
     (if network = ''bitcoin'' then (0x0488ade4, 0x0488b21e) else (0x04358394, 0x043587cf))"

definition coin_type :: "jstr \<Rightarrow> nat" where
  "coin_type network = (if network = ''bitcoin'' then 0 else 1)"

definition account_path :: "jstr \<Rightarrow> jstr" where
  "account_path network = ''m/86'' @ [CHR 0x27] @ ''/'' @ show_nat (coin_type network)
     @ [CHR 0x27] @ ''/0'' @ [CHR 0x27]"

record account_key =
  ak_private :: "jstr option"
  ak_public :: jstr

text \<open>A master fingerprint is four bytes or a number, depending on the package version.\<close>

datatype fingerprint = FpBytes bytes | FpNumber nat

fun show_hex :: "nat \<Rightarrow> jstr" where
  "show_hex n = (if n < 16 then [hex_digit n] else show_hex (n div 16) @ [hex_digit (n mod 16)])"

declare show_hex.simps [simp del]

definition fingerprint_hex :: "fingerprint \<Rightarrow> jstr" where
  "fingerprint_hex f =
     (case f of
        FpNumber n \<Rightarrow> replicate (8 - length (show_hex n)) CHR ''0'' @ show_hex n
      | FpBytes bs \<Rightarrow> bytes_to_hex bs)"

record bip =
  entropy_to_mnemonic :: "bytes \<Rightarrow> jstr"
  mnemonic_to_seed :: "jstr \<Rightarrow> bytes"
  hd_fingerprint :: "bytes \<Rightarrow> nat \<times> nat \<Rightarrow> fingerprint"
  hd_derive :: "bytes \<Rightarrow> nat \<times> nat \<Rightarrow> jstr \<Rightarrow> (jstr, account_key) throws"

definition no_private_error :: jstr where
  "no_private_error = ''derivation produced no private key''"

section \<open>A fresh party (keygen.ts)\<close>

record generated_party =
  kp_xprv :: jstr
  kp_xpub :: jstr
  kp_fingerprint :: jstr
  kp_path :: jstr

definition generate_party :: "bip \<Rightarrow> bytes \<Rightarrow> jstr \<Rightarrow> (jstr, generated_party) throws" where
  "generate_party B entropy network =
     (let mnemonic = entropy_to_mnemonic B entropy;
          seed = mnemonic_to_seed B mnemonic;
          versions = bip32_versions network;
          fingerprint = take 8 (fingerprint_hex (hd_fingerprint B seed versions))
      in and_then (hd_derive B seed versions (account_path network)) (\<lambda>account.
         if \<not> truthy (ak_private account) then Inl no_private_error
         else Inr \<lparr>kp_xprv = the (ak_private account), kp_xpub = ak_public account,
                   kp_fingerprint = fingerprint, kp_path = account_path network\<rparr>))"

definition wipe :: "bytes list \<Rightarrow> bytes list" where
  "wipe arrays = map (\<lambda>a. replicate (length a) 0) arrays"

section \<open>The heir's key in the browser (heirKey.ts)\<close>

definition heir_bip39_info :: bytes where
  "heir_bip39_info = utf8 ''ghostkey-heir-bip39''"

record derived_heir_key =
  dh_mnemonic :: jstr
  dh_xprv :: jstr

definition heir_entropy :: "('a crypto_scheme) \<Rightarrow> bytes \<Rightarrow> bytes \<Rightarrow> bytes" where
  "heir_entropy C vault_secret email_bytes =
     take 16 (hkdf_sha256 C email_bytes vault_secret heir_bip39_info 32)"

definition derive_heir_key :: "('a crypto_scheme) \<Rightarrow> bip \<Rightarrow> jstr \<Rightarrow> jstr \<Rightarrow> jstr
    \<Rightarrow> (jstr, derived_heir_key) throws" where
  "derive_heir_key C B vault_secret_hex heir_email network =
     and_then (hex_to_bytes vault_secret_hex) (\<lambda>vault_secret.
     if length vault_secret \<noteq> 32
     then Inl (''vault_secret must be 32 bytes, got '' @ show_nat (length vault_secret))
     else
       let normalized = js_lower (js_trim heir_email)
       in if normalized = [] then Inl ''heir email is empty''
          else
            let mnemonic = entropy_to_mnemonic B (heir_entropy C vault_secret (utf8 normalized));
                seed = mnemonic_to_seed B mnemonic
            in and_then (hd_derive B seed (bip32_versions network) (account_path network)) (\<lambda>account.
               if \<not> truthy (ak_private account) then Inl no_private_error
               else Inr \<lparr>dh_mnemonic = mnemonic, dh_xprv = the (ak_private account)\<rparr>))"

section \<open>The heir's key on the server (keys.rs)\<close>

text \<open>Rust's \<open>trim\<close> drops Unicode white space, \<open>to_ascii_lowercase\<close> touches ASCII letters only.\<close>

definition rust_ws :: "char \<Rightarrow> bool" where
  "rust_ws c = (js_ws c \<or> c = CHR 0x85)"

definition rust_trim :: "jstr \<Rightarrow> jstr" where
  "rust_trim s = rev (dropWhile rust_ws (rev (dropWhile rust_ws s)))"

definition ascii_lower_char :: "char \<Rightarrow> char" where
  "ascii_lower_char c = (if CHR ''A'' \<le> c \<and> c \<le> CHR ''Z'' then char_of (of_char c + 32 :: nat) else c)"

definition normalize_heir_email :: "jstr \<Rightarrow> jstr" where
  "normalize_heir_email email = map ascii_lower_char (rust_trim email)"

definition compute_vault_secret :: "('a crypto_scheme) \<Rightarrow> jstr \<Rightarrow> bytes \<Rightarrow> bytes" where
  "compute_vault_secret C vault_id master_key =
     hkdf_sha256 C (utf8 vault_id) master_key (utf8 ''ghostkey-heir-v1-secret'') 32"

definition server_heir_entropy :: "('a crypto_scheme) \<Rightarrow> jstr \<Rightarrow> jstr \<Rightarrow> bytes \<Rightarrow> bytes" where
  "server_heir_entropy C email vault_id master_key =
     take 16 (hkdf_sha256 C (utf8 (normalize_heir_email email))
       (compute_vault_secret C vault_id master_key) heir_bip39_info 32)"

section \<open>Hex facts\<close>

lemma hex_digit_plain:
  "n < 16 \<Longrightarrow> hex_digit n \<notin> set ''-+xX'' \<and> \<not> js_ws (hex_digit n)"
proof -
  assume "n < 16"
  then have "hex_nibble (hex_digit n) = Some n" by (rule hex_nibble_digit)
  moreover have "hex_nibble c = None" if "c \<in> set ''-+xX'' \<or> js_ws c" for c
    using that by (auto simp: hex_nibble_def js_ws_def)
  ultimately show ?thesis by fastforce
qed

lemma parse_hex_pair:
  assumes "m < 16" "n < 16"
  shows "parse_int16 [hex_digit m, hex_digit n] = Some (int (m * 16 + n))"
  using hex_digit_plain [OF assms(1)] hex_digit_plain [OF assms(2)] hex_nibble_digit [OF assms(1)]
    hex_nibble_digit [OF assms(2)]
  by (auto simp: parse_int16_def Let_def js_trim_start_def)

lemma hex_pairs_round: "hex_pairs i (bytes_to_hex bs) = Inr bs"
proof (induction bs arbitrary: i)
  case (Cons b bs)
  have l: "unat b div 16 < 16" "unat b mod 16 < 16"
    using unat8 [of b] by (simp_all add: div_less_iff_less_mult)
  have "word_of_int (int (unat b div 16 * 16 + unat b mod 16)) = b" by simp
  then show ?case using Cons.IH [of "i + 1"]
    by (simp add: bytes_to_hex_def hex_byte_def parse_hex_pair [OF l])
qed (simp add: bytes_to_hex_def)

lemma length_bytes_to_hex: "length (bytes_to_hex bs) = 2 * length bs"
  by (induction bs) (simp_all add: bytes_to_hex_def hex_byte_def)

lemma hex_no_prefix: "\<not> starts_with (bytes_to_hex bs) ''0x''"
proof (cases bs)
  case (Cons b r)
  have "hex_digit (unat b mod 16) \<noteq> CHR ''x''" using hex_digit_plain [of "unat b mod 16"] by simp
  then show ?thesis using Cons by (simp add: bytes_to_hex_def hex_byte_def)
qed (simp add: bytes_to_hex_def)

lemma hex_to_bytes_round [simp]: "hex_to_bytes (bytes_to_hex bs) = Inr bs"
  by (simp add: hex_to_bytes_def hex_no_prefix length_bytes_to_hex hex_pairs_round)

text \<open>Hex written by the program or the server, with or without a 0x in front, reads back as the
  same bytes, and a text of odd length is refused.\<close>

theorem hex_round_trip:
  "hex_to_bytes (bytes_to_hex bs) = Inr bs
   \<and> hex_to_bytes (''0x'' @ bytes_to_hex bs) = Inr bs
   \<and> (\<exists>e. hex_to_bytes (CHR ''a'' # bytes_to_hex bs) = Inl e)"
  by (simp add: hex_no_prefix hex_to_bytes_def length_bytes_to_hex hex_pairs_round)

lemma hex_pairs_index: "hex_pairs i s = Inr xs \<Longrightarrow> hex_pairs j s = Inr xs"
proof (induction i s arbitrary: j xs rule: hex_pairs.induct)
  case (1 i a b s)
  from "1.prems" obtain n ys where n: "parse_int16 [a, b] = Some n" and y: "hex_pairs (i + 1) s = Inr ys"
    and x: "xs = word_of_int n # ys"
    by (auto simp: and_then_Inr_iff simp del: hex_pairs.simps(2,3) split: option.splits)
  from "1.IH" [OF n y, of "j + 1"] n x show ?case by simp
qed simp_all

text \<open>The check for invalid hex misses half of it: whenever the first character of a pair is a hex
  digit and the second is not (other than the x of a prefix), the pair is read as that one digit and no
  error is raised; a leading minus sign or blank passes as well.\<close>

theorem invalid_hex_accepted:
  assumes "hex_nibble a = Some v" "hex_nibble b = None" "b \<notin> set ''xX''" "length s mod 2 = 0"
    and "hex_to_bytes s = Inr bs" "\<not> starts_with s ''0x''"
  shows "hex_to_bytes ([a, b] @ s) = Inr (word_of_nat v # bs) \<and> hex_to_bytes ''-5'' = Inr [251]"
proof -
  have p: "a \<notin> set ''-+'' \<and> \<not> js_ws a"
    using assms(1) by (auto simp: hex_nibble_def js_ws_def)
  have pr: "parse_int16 [a, b] = Some (int v)"
    using assms(1-3) p by (auto simp: parse_int16_def Let_def js_trim_start_def)
  have idx: "hex_pairs j s = Inr bs" for j
    using assms(4-6) hex_pairs_index [of 0 s bs j] by (simp add: hex_to_bytes_def)
  have "hex_to_bytes ([a, b] @ s) = Inr (word_of_nat v # bs)"
    using assms(3,4) pr idx by (auto simp: hex_to_bytes_def)
  moreover have "hex_to_bytes ''-5'' = Inr [251]" by code_simp
  ultimately show ?thesis by blast
qed

theorem invalid_hex_accepted_witness:
  "hex_to_bytes ''1gff'' = Inr [1, 255]"
proof -
  have "hex_to_bytes ''ff'' = Inr [255]" by code_simp
  then show ?thesis
    using invalid_hex_accepted [of "CHR ''1''" 1 "CHR ''g''" "''ff''" "[255]"]
    by (simp add: hex_nibble_def)
qed

section \<open>Browser and server agree\<close>

definition ascii :: "jstr \<Rightarrow> bool" where
  "ascii s = list_all (\<lambda>c. of_char c < (128 :: nat)) s"

lemma ascii_ws: "of_char c < (128 :: nat) \<Longrightarrow> rust_ws c = js_ws c"
  by (auto simp: rust_ws_def)

lemma ascii_trim: "ascii s \<Longrightarrow> rust_trim s = js_trim s"
proof -
  assume a: "ascii s"
  have d: "list_all (\<lambda>c. of_char c < (128 :: nat)) t \<Longrightarrow> dropWhile rust_ws t = dropWhile js_ws t" for t
    by (induction t) (auto simp: ascii_ws)
  have "list_all (\<lambda>c. of_char c < (128 :: nat)) (rev (dropWhile js_ws s))"
    using a by (auto simp: ascii_def list_all_iff dest: set_dropWhileD)
  then show ?thesis using d a by (simp add: rust_trim_def js_trim_def ascii_def)
qed

lemma ascii_lower: "of_char c < (128 :: nat) \<Longrightarrow> ascii_lower_char c = js_lower_char c"
  by (auto simp: ascii_lower_char_def js_lower_char_def less_eq_char_def)

lemma ascii_normalize: "ascii s \<Longrightarrow> normalize_heir_email s = js_lower (js_trim s)"
proof -
  assume a: "ascii s"
  have "map ascii_lower_char (js_trim s) = map js_lower_char (js_trim s)"
    using a js_trim_set [of s] by (intro map_cong) (auto simp: ascii_def list_all_iff ascii_lower)
  then show ?thesis by (simp add: normalize_heir_email_def ascii_trim [OF a] js_lower_def)
qed


definition sample_bip :: bip where
  "sample_bip = \<lparr>entropy_to_mnemonic = bytes_to_hex, mnemonic_to_seed = utf8,
     hd_fingerprint = (\<lambda>s v. FpNumber 0xABC),
     hd_derive = (\<lambda>s v p. Inr \<lparr>ak_private = Some (p @ bytes_to_hex s), ak_public = ''pub''\<rparr>)\<rparr>"


text \<open>Outside ASCII the two normalisations part: the browser lowers accented letters and the server
  keeps them, so for an address such as one starting with a capital E acute the server derives the
  vault's key from other bytes than the browser does, and the mnemonics differ.\<close>

theorem heir_key_diverges_outside_ascii:
  "normalize_heir_email (CHR 0xC9 # ''a@x.fr'') \<noteq> js_lower (js_trim (CHR 0xC9 # ''a@x.fr''))
   \<and> (\<exists>k. derive_heir_key sample_crypto sample_bip
          (bytes_to_hex (compute_vault_secret sample_crypto ''v1'' [1, 2])) (CHR 0xC9 # ''a@x.fr'') ''bitcoin''
            = Inr k
        \<and> dh_mnemonic k \<noteq> entropy_to_mnemonic sample_bip
            (server_heir_entropy sample_crypto (CHR 0xC9 # ''a@x.fr'') ''v1'' [1, 2]))"
proof -
  have n: "normalize_heir_email (CHR 0xC9 # ''a@x.fr'') = CHR 0xC9 # ''a@x.fr''"
    "js_lower (js_trim (CHR 0xC9 # ''a@x.fr'')) = CHR 0xE9 # ''a@x.fr''"
    by code_simp+
  let ?vs = "compute_vault_secret sample_crypto ''v1'' [1, 2]"
  have l: "length ?vs = 32"
    using sample_crypto_laws(3) by (simp add: compute_vault_secret_def hkdf_sized_def)
  have "utf8 (CHR 0xC9 # ''a@x.fr'') = [0xC3, 0x89, 0x61, 0x40, 0x78, 0x2E, 0x66, 0x72]"
    "utf8 (CHR 0xE9 # ''a@x.fr'') = [0xC3, 0xA9, 0x61, 0x40, 0x78, 0x2E, 0x66, 0x72]"
    by code_simp+
  then have "heir_entropy sample_crypto ?vs (utf8 (CHR 0xE9 # ''a@x.fr'')) ! 1 = 0xA9"
    "server_heir_entropy sample_crypto (CHR 0xC9 # ''a@x.fr'') ''v1'' [1, 2] ! 1 = 0x89"
    by (simp_all add: heir_entropy_def server_heir_entropy_def n(1) sample_crypto_def)
  then have "heir_entropy sample_crypto ?vs (utf8 (CHR 0xE9 # ''a@x.fr''))
      \<noteq> server_heir_entropy sample_crypto (CHR 0xC9 # ''a@x.fr'') ''v1'' [1, 2]" by force
  then have d: "bytes_to_hex (heir_entropy sample_crypto ?vs (utf8 (CHR 0xE9 # ''a@x.fr'')))
      \<noteq> bytes_to_hex (server_heir_entropy sample_crypto (CHR 0xC9 # ''a@x.fr'') ''v1'' [1, 2])"
    using hex_to_bytes_round by (metis sum.inject(2))
  show ?thesis using d l n
    by (simp add: derive_heir_key_def Let_def sample_bip_def account_path_def)
qed

end
