(* ===== verification/Explorer.thy ===== *)
theory Explorer
  imports Js_Regex Js_Object Sealed_Types
begin

text \<open>
  Choosing a block explorer and reading its answers: the pure part of the recovery kit's spend panel
  (ghostkey-web/src/kit/spend.ts). A probe of a host acts on a world \<open>'w\<close>, so the order and the
  number of the requests are visible.
\<close>

section \<open>The hosts\<close>

fun explorer_mirrors :: "network \<Rightarrow> jstr list" where
  "explorer_mirrors Bitcoin =
     [''https://blockstream.info/api'', ''https://mempool.space/api'',
      ''https://mempool.emzy.de/api'', ''https://mempool.bitaroo.net/api'']"
| "explorer_mirrors Testnet =
     [''https://blockstream.info/testnet/api'', ''https://mempool.space/testnet/api'']"
| "explorer_mirrors Signet = [''https://mempool.space/signet/api'']"
| "explorer_mirrors Regtest = []"

definition advanced_label :: jstr where
  "advanced_label = ''Settings most people don'' @ [CHR 0x27] @ ''t need''"

definition default_explorer :: "network \<Rightarrow> jstr" where
  "default_explorer n = (case explorer_mirrors n of [] \<Rightarrow> [] | m # _ \<Rightarrow> m)"

definition hex_char_i :: "char \<Rightarrow> bool" where
  "hex_char_i c = (in_range CHR ''0'' CHR ''9'' c \<or> in_range CHR ''a'' CHR ''f'' c
     \<or> in_range CHR ''A'' CHR ''F'' c)"

text \<open>\<open>/^https?:\/\//i\<close>, \<open>/^[0-9a-f]{64}$/i\<close>, \<open>replace(/\/api$/, "")\<close>\<close>

definition http_rx :: rx where
  "http_rx = rseqs [rlit_i ''http'', ropt (rchar_i CHR ''s''), rlit ''://'']"

definition txid_rx :: rx where
  "txid_rx = rrep 64 (RCls hex_char_i)"

definition strip_api :: "jstr \<Rightarrow> jstr" where
  "strip_api base = (if ends_with base ''/api'' then take (length base - 4) base else base)"

definition explorer_tx_url :: "jstr \<Rightarrow> jstr \<Rightarrow> jstr option" where
  "explorer_tx_url api_base txid =
     (let base = strip_trailing CHR ''/'' (js_trim api_base)
      in if \<not> test_start http_rx base then None
         else if \<not> test_full txid_rx (js_trim txid) then None
         else
           let web = strip_api base
           in if web = base then None
              else Some (web @ ''/tx/'' @ js_lower (js_trim txid)))"

definition explorer_candidates :: "network \<Rightarrow> jstr \<Rightarrow> jstr list" where
  "explorer_candidates n typed =
     (let cleaned = strip_trailing CHR ''/'' (js_trim typed);
          mirrors = explorer_mirrors n
      in if cleaned = [] then mirrors
         else if cleaned \<notin> set mirrors then [cleaned]
         else cleaned # filter (\<lambda>m. m \<noteq> cleaned) mirrors)"

section \<open>Answers\<close>

datatype explorer_verdict = Usable | TryAnother | Answered

definition classify_status :: "int \<Rightarrow> explorer_verdict" where
  "classify_status status =
     (if 200 \<le> status \<and> status < 300 then Usable
      else if status = 429 \<or> 500 \<le> status then TryAnother
      else Answered)"

record explorer_failure =
  ef_url :: jstr
  ef_reason :: jstr
  ef_reachable :: bool

definition explorer_failure_message :: "explorer_failure list \<Rightarrow> jstr" where
  "explorer_failure_message failures =
     (if failures = [] then ''No lookup service to try. Open \"'' @ advanced_label @ ''\" and enter one.''
      else
        let answered = filter ef_reachable failures
        in if answered = []
           then
             let tried = (if length failures = 1 then ''the lookup service''
                          else ''all '' @ show_nat (length failures) @ '' lookup services'')
             in ''Couldn'' @ [CHR 0x27] @ ''t reach '' @ tried @ ''. The request never left this device, so this is the connection here, not your vault. Check your internet and try again. If it keeps failing, open \"''
                @ advanced_label @ ''\" and put a different address in the box.''
           else
             ''The lookup service answered, but refused the request ('' @ ef_reason (hd answered)
             @ ''). Your connection is fine. Open \"'' @ advanced_label
             @ ''\" and check the address there is right for this vault'' @ [CHR 0x27] @ ''s network.'')"

definition answered_markers :: "jstr list" where
  "answered_markers = [''explorer returned'', ''could not fetch transaction'']"

definition scan_failure_message :: "jstr \<Rightarrow> jstr" where
  "scan_failure_message message =
     (if list_ex (\<lambda>m. js_includes message m) answered_markers
      then ''The block explorer answered with an error ('' @ message
           @ ''). Your connection is fine. Try again, or put a different explorer in the box above.''
      else ''Lost contact with the block explorer partway through ('' @ message
           @ ''). Nothing was spent, so it is safe to try again once your connection is back.'')"

section \<open>Walking the candidates\<close>

datatype probe_result = Status int | Unreachable jstr

type_synonym 'w prober = "jstr \<Rightarrow> 'w \<Rightarrow> probe_result \<times> 'w"

definition probe_failure :: "jstr \<Rightarrow> probe_result \<Rightarrow> explorer_failure" where
  "probe_failure base r =
     (case r of
        Unreachable why \<Rightarrow> \<lparr>ef_url = base, ef_reason = why, ef_reachable = False\<rparr>
      | Status n \<Rightarrow> \<lparr>ef_url = base, ef_reason = ''error '' @ show_int n, ef_reachable = True\<rparr>)"

definition probe_ok :: "probe_result \<Rightarrow> bool" where
  "probe_ok r = (case r of Unreachable why \<Rightarrow> False | Status n \<Rightarrow> classify_status n = Usable)"

fun pick_loop :: "'w prober \<Rightarrow> explorer_failure list \<Rightarrow> jstr list \<Rightarrow> 'w
    \<Rightarrow> (explorer_failure list, jstr) throws \<times> 'w" where
  "pick_loop probe failures [] w = (Inl failures, w)"
| "pick_loop probe failures (base # rest) w =
     (let (r, w') = probe base w
      in if probe_ok r then (Inr base, w')
         else pick_loop probe (failures @ [probe_failure base r]) rest w')"

text \<open>\<open>Inr\<close> of the base that answered, or \<open>Inl\<close> of every failure.\<close>

definition pick_explorer :: "jstr list \<Rightarrow> 'w prober \<Rightarrow> 'w \<Rightarrow> (explorer_failure list, jstr) throws \<times> 'w" where
  "pick_explorer candidates probe w = pick_loop probe [] candidates w"

section \<open>What the choice guarantees\<close>

lemma mirrors_distinct: "distinct (explorer_mirrors n)"
  by (cases n) simp_all

text \<open>Whatever is typed, the hosts the kit may contact are the typed host first, then published
  mirrors only, without repetition; a host that is not published is used alone, so a private node's
  owner never has the addresses sent to a public service.\<close>

theorem explorer_candidates_private:
  "let cleaned = strip_trailing CHR ''/'' (js_trim typed); cs = explorer_candidates n typed
   in distinct cs
    \<and> set cs = (if cleaned = [] then set (explorer_mirrors n)
                else if cleaned \<in> set (explorer_mirrors n) then set (explorer_mirrors n) else {cleaned})
    \<and> (cleaned = [] \<or> hd cs = cleaned)
    \<and> (cs = [] \<longleftrightarrow> cleaned = [] \<and> n = Regtest)"
  using mirrors_distinct [of n]
  by (cases n) (auto simp: explorer_candidates_def Let_def)


text \<open>Probing a list of hosts one after the other.\<close>

fun probe_all :: "'w prober \<Rightarrow> jstr list \<Rightarrow> 'w \<Rightarrow> probe_result list \<times> 'w" where
  "probe_all probe [] w = ([], w)"
| "probe_all probe (b # bs) w =
     (let (r, w1) = probe b w; (rs, w2) = probe_all probe bs w1 in (r # rs, w2))"

lemma pick_loop_cases:
  "(\<exists>rs w'. probe_all probe cs w = (rs, w') \<and> list_all (\<lambda>r. \<not> probe_ok r) rs
      \<and> pick_loop probe fs cs w = (Inl (fs @ map2 probe_failure cs rs), w'))
   \<or> (\<exists>pre base post rs w1 r w2. cs = pre @ base # post \<and> probe_all probe pre w = (rs, w1)
      \<and> list_all (\<lambda>r. \<not> probe_ok r) rs \<and> probe base w1 = (r, w2) \<and> probe_ok r
      \<and> pick_loop probe fs cs w = (Inr base, w2))" (is "?A fs cs w \<or> ?B fs cs w")
proof (induction cs arbitrary: fs w)
  case (Cons b cs)
  obtain r w1 where r: "probe b w = (r, w1)" by (cases "probe b w")
  show ?case
  proof (cases "probe_ok r")
    case True
    with r have "?B fs (b # cs) w"
      by (intro exI [of _ "[]"] exI [of _ b] exI [of _ cs]) auto
    then show ?thesis ..
  next
    case False
    let ?fs = "fs @ [probe_failure b r]"
    from Cons.IH [of w1 ?fs] show ?thesis
    proof
      assume "?A ?fs cs w1"
      with r False have "?A fs (b # cs) w" by auto
      then show ?thesis ..
    next
      assume "?B ?fs cs w1"
      then obtain pre base post rs v1 q v2 where b: "cs = pre @ base # post"
        "probe_all probe pre w1 = (rs, v1)" "list_all (\<lambda>r. \<not> probe_ok r) rs" "probe base v1 = (q, v2)"
        "probe_ok q" "pick_loop probe ?fs cs w1 = (Inr base, v2)" by blast
      with r False have "?B fs (b # cs) w"
        by (intro exI [of _ "b # pre"] exI [of _ base] exI [of _ post] exI [of _ "r # rs"]) auto
      then show ?thesis ..
    qed
  qed
qed simp

text \<open>The walk stops at the first host that answers with a 2xx status and contacts no host after it;
  when it fails, every candidate was contacted exactly once, in order, and the failures name each of
  them with whether it was reachable.\<close>

theorem pick_explorer_first_usable:
  "(\<exists>fs rs w'. probe_all probe cs w = (rs, w') \<and> pick_explorer cs probe w = (Inl fs, w')
      \<and> map ef_url fs = cs \<and> list_all (\<lambda>r. \<not> probe_ok r) rs
      \<and> map ef_reachable fs = map (\<lambda>r. \<exists>n. r = Status n) rs)
   \<or> (\<exists>pre base post rs w1 n w2. cs = pre @ base # post \<and> probe_all probe pre w = (rs, w1)
      \<and> list_all (\<lambda>r. \<not> probe_ok r) rs \<and> probe base w1 = (Status n, w2) \<and> 200 \<le> n \<and> n < 300
      \<and> pick_explorer cs probe w = (Inr base, w2))"
proof -
  have len: "length (fst (probe_all probe bs v)) = length bs" for bs v
    by (induction bs arbitrary: v) (auto split: prod.split, metis fst_conv)
  have ok: "probe_ok r \<longleftrightarrow> (\<exists>n. r = Status n \<and> 200 \<le> n \<and> n < 300)" for r
    by (cases r) (auto simp: probe_ok_def classify_status_def)
  have f: "map ef_url (map2 probe_failure bs rs) = bs"
    "map ef_reachable (map2 probe_failure bs rs) = map (\<lambda>r. \<exists>n. r = Status n) rs"
    if "length rs = length bs" for bs rs
    using that by (induction bs rs rule: list_induct2') (auto simp: probe_failure_def split: probe_result.split)
  from pick_loop_cases [of probe cs w "[]"] show ?thesis
  proof
    assume "\<exists>rs w'. probe_all probe cs w = (rs, w') \<and> list_all (\<lambda>r. \<not> probe_ok r) rs
      \<and> pick_loop probe [] cs w = (Inl ([] @ map2 probe_failure cs rs), w')"
    then obtain rs w' where a: "probe_all probe cs w = (rs, w')" "list_all (\<lambda>r. \<not> probe_ok r) rs"
      "pick_loop probe [] cs w = (Inl (map2 probe_failure cs rs), w')" by auto
    have "length rs = length cs" using len [of cs w] a(1) by simp
    with a f [of rs cs] show ?thesis unfolding pick_explorer_def by blast
  next
    assume "\<exists>pre base post rs w1 r w2. cs = pre @ base # post \<and> probe_all probe pre w = (rs, w1)
      \<and> list_all (\<lambda>r. \<not> probe_ok r) rs \<and> probe base w1 = (r, w2) \<and> probe_ok r
      \<and> pick_loop probe [] cs w = (Inr base, w2)"
    then show ?thesis unfolding pick_explorer_def ok by blast
  qed
qed

text \<open>A link to a sent transaction is only ever an http or https URL of the explorer that was used,
  with its API segment dropped, ending in the 64 lower-case hex digits of the transaction id; any other
  service address or answer gives no link.\<close>

theorem explorer_tx_url_shape:
  assumes "explorer_tx_url api_base txid = Some url"
  shows "\<exists>web. strip_trailing CHR ''/'' (js_trim api_base) = web @ ''/api''
     \<and> url = web @ ''/tx/'' @ js_lower (js_trim txid) \<and> length (js_trim txid) = 64
     \<and> list_all hex_char_i (js_trim txid)
     \<and> (starts_with (map ascii_fold url) ''http://'' \<or> starts_with (map ascii_fold url) ''https://'')"
proof -
  let ?b = "strip_trailing CHR ''/'' (js_trim api_base)"
  have h: "test_start http_rx ?b" and t: "test_full txid_rx (js_trim txid)"
    and w: "strip_api ?b \<noteq> ?b" and u: "url = strip_api ?b @ ''/tx/'' @ js_lower (js_trim txid)"
    using assms by (auto simp: explorer_tx_url_def Let_def split: if_splits)
  from w obtain web where web: "?b = web @ ''/api''"
    by (auto simp: strip_api_def suffix_def split: if_splits)
  then have s: "strip_api ?b = web" by (simp add: strip_api_def suffix_def)
  obtain m r where m: "?b = m @ r" "in_rx m http_rx" using h by (auto simp: test_start_iff)
  define P where "P = map ascii_fold m"
  define W where "W = map ascii_fold web"
  have P: "P = ''http://'' \<or> P = ''https://''"
    using m(2) by (auto simp: P_def http_rx_def in_rx_seq in_rlit_i in_rchar_i ascii_fold_def less_eq_char_def)
  have "map ascii_fold (m @ r) = map ascii_fold (web @ ''/api'')" using m(1) web by simp
  then have "P @ map ascii_fold r = W @ ''/api''"
    by (simp add: P_def W_def ascii_fold_def less_eq_char_def)
  then obtain us where "P = W @ us \<and> us @ map ascii_fold r = ''/api'' \<or> P @ us = W"
    unfolding append_eq_append_conv2 by auto
  then have "prefix P (W @ ''/'')"
  proof
    assume a: "P = W @ us \<and> us @ map ascii_fold r = ''/api''"
    then have "us \<in> {[], ''/'', ''/a'', ''/ap'', ''/api''}"
      by (auto simp: append_eq_Cons_conv)
    moreover have "us = [] \<or> last us = CHR ''/''" using a P by (cases us rule: rev_cases) auto
    ultimately show ?thesis using a by (auto simp: prefix_def)
  next
    assume "P @ us = W"
    then have "prefix P W" by (auto simp: prefix_def)
    then show ?thesis by (simp add: prefix_prefix)
  qed
  moreover have "prefix (W @ ''/'') (map ascii_fold url)"
    using u s by (simp add: W_def ascii_fold_def less_eq_char_def)
  ultimately have "prefix P (map ascii_fold url)" using prefix_order.trans by blast
  then show ?thesis using P web u s t
    by (intro exI [of _ web]) (auto simp: test_full_iff txid_rx_def)
qed

theorem explorer_tx_url_shape_witness:
  "explorer_tx_url ''https://mempool.space/api/'' (replicate 64 CHR ''A'')
     = Some (''https://mempool.space/tx/'' @ replicate 64 CHR ''a'')"
proof -
  have "explorer_tx_url ''https://mempool.space/api/'' (replicate 64 CHR ''A'')
      = Some (''https://mempool.space/tx/'' @ replicate 64 CHR ''a'')" by code_simp
  from explorer_tx_url_shape [OF this] this show ?thesis by blast
qed

end
