(* ===== verification/Spend_Panel.thy ===== *)
theory Spend_Panel
  imports Explorer
begin

text \<open>
  The spend panel of the recovery kit (buildSpendSection in ghostkey-web/src/kit/spend.ts): finding
  the coins, signing, and broadcasting, as handlers on the panel's state. The network is a function
  of the requests made so far, so it may answer the same request differently each time; the log of
  requests is part of the state. The wasm signer (kit/signer.ts) and the browser's number formatting
  are arguments. The character U+2026 is written as three dots.
\<close>

section \<open>The network\<close>

record utxo =
  u_txid :: jstr
  u_vout :: nat
  u_value :: int
  u_confirmed :: bool
  u_height :: "nat option"

datatype http_req = HGet jstr | HPost jstr jstr

text \<open>A reply: its status, its text, and its body read as the JSON the caller casts it to; reading
  JSON can throw.\<close>

record http_reply =
  hr_status :: int
  hr_text :: jstr
  hr_utxos :: "(jstr, utxo list) throws"
  hr_height :: "(jstr, nat) throws"

type_synonym net = "http_req list \<Rightarrow> http_req \<Rightarrow> (jstr, http_reply) throws"

type_synonym log = "http_req list"

definition fetch :: "net \<Rightarrow> http_req \<Rightarrow> log \<Rightarrow> (jstr, http_reply) throws \<times> log" where
  "fetch net r log = (net log r, log @ [r])"

definition reply_ok :: "http_reply \<Rightarrow> bool" where
  "reply_ok r = (200 \<le> hr_status r \<and> hr_status r \<le> 299)"

text \<open>Sequencing of fallible steps that log their requests.\<close>

definition then_do :: "('e, 'a) throws \<times> log \<Rightarrow> ('a \<Rightarrow> log \<Rightarrow> ('e, 'b) throws \<times> log)
    \<Rightarrow> ('e, 'b) throws \<times> log" where
  "then_do x k = (case x of (Inl e, l) \<Rightarrow> (Inl e, l) | (Inr a, l) \<Rightarrow> k a l)"

definition get_ok :: "net \<Rightarrow> jstr \<Rightarrow> log \<Rightarrow> (jstr, http_reply) throws \<times> log" where
  "get_ok net url log =
     then_do (fetch net (HGet url) log) (\<lambda>r l.
       if \<not> reply_ok r
       then (Inl (''explorer returned '' @ show_int (hr_status r) @ '' for '' @ url), l)
       else (Inr r, l))"

definition get_utxos :: "net \<Rightarrow> jstr \<Rightarrow> log \<Rightarrow> (jstr, utxo list) throws \<times> log" where
  "get_utxos net url log = then_do (get_ok net url log) (\<lambda>r l. (hr_utxos r, l))"

definition get_height :: "net \<Rightarrow> jstr \<Rightarrow> log \<Rightarrow> (jstr, nat) throws \<times> log" where
  "get_height net url log = then_do (get_ok net url log) (\<lambda>r l. (hr_height r, l))"

definition probe_explorer :: "net \<Rightarrow> log prober" where
  "probe_explorer net base log =
     (case fetch net (HGet (base @ ''/blocks/tip/height'')) log of
        (Inl e, l) \<Rightarrow> (Unreachable e, l)
      | (Inr r, l) \<Rightarrow> (Status (hr_status r), l))"

section \<open>The feedback lines\<close>

datatype kit_feedback = Idle | Busy jstr | Info jstr | Failed jstr

record feedback_lines =
  fl_error :: "jstr option"
  fl_status :: "jstr option"
  fl_busy :: bool

fun feedback_lines_of :: "kit_feedback \<Rightarrow> feedback_lines" where
  "feedback_lines_of Idle = \<lparr>fl_error = None, fl_status = None, fl_busy = False\<rparr>"
| "feedback_lines_of (Busy s) = \<lparr>fl_error = None, fl_status = Some s, fl_busy = True\<rparr>"
| "feedback_lines_of (Info s) = \<lparr>fl_error = None, fl_status = Some s, fl_busy = False\<rparr>"
| "feedback_lines_of (Failed e) = \<lparr>fl_error = Some e, fl_status = None, fl_busy = False\<rparr>"

section \<open>The panel\<close>

datatype spend_role = OwnerRole | HeirRole

record spend_params =
  sp_role :: spend_role
  sp_network :: network
  sp_ext :: jstr
  sp_int :: jstr
  sp_timelock :: nat
  sp_xprv :: jstr

record funding_input =
  fi_tx_hex :: jstr
  fi_height :: nat

record sweep_request =
  sr_role :: spend_role
  sr_ext :: jstr
  sr_int :: jstr
  sr_timelock :: nat
  sr_network :: network
  sr_xprv :: jstr
  sr_funding :: "funding_input list"
  sr_tip :: nat
  sr_recipient :: jstr
  sr_amount :: "nat option"
  sr_fee_rate :: int

record sweep_result =
  sw_tx_hex :: jstr
  sw_txid :: jstr
  sw_fee :: int

record panel =
  pn_to :: jstr
  pn_fee :: jstr
  pn_explorer :: jstr
  pn_advanced_open :: bool
  pn_err_text :: jstr
  pn_err_hidden :: bool
  pn_status_text :: jstr
  pn_status_hidden :: bool
  pn_busy_hidden :: bool
  pn_find_disabled :: bool
  pn_sign_hidden :: bool
  pn_sign_disabled :: bool
  pn_signed :: "sweep_result option"
  pn_funding :: "funding_input list"
  pn_tip :: nat

definition initial_panel :: "spend_params \<Rightarrow> panel" where
  "initial_panel sp = \<lparr>pn_to = [], pn_fee = ''5'', pn_explorer = default_explorer (sp_network sp),
     pn_advanced_open = False, pn_err_text = [], pn_err_hidden = True, pn_status_text = [],
     pn_status_hidden = True, pn_busy_hidden = True, pn_find_disabled = False,
     pn_sign_hidden = True, pn_sign_disabled = False, pn_signed = None, pn_funding = [], pn_tip = 0\<rparr>"

definition set_feedback :: "kit_feedback \<Rightarrow> panel \<Rightarrow> panel" where
  "set_feedback f p =
     (let lines = feedback_lines_of f
      in p\<lparr>pn_err_text := the_default [] (fl_error lines), pn_err_hidden := (fl_error lines = None),
           pn_status_text := the_default [] (fl_status lines), pn_status_hidden := (fl_status lines = None),
           pn_busy_hidden := \<not> fl_busy lines\<rparr>)"

definition show_error :: "jstr \<Rightarrow> panel \<Rightarrow> panel" where
  "show_error msg p = set_feedback (Failed msg) p"

section \<open>Scanning\<close>

definition scan_count :: nat where "scan_count = 30"

definition gap_limit :: nat where "gap_limit = 20"

text \<open>One keychain: stop after \<open>gap_limit\<close> consecutive empty addresses.\<close>

fun scan_list :: "net \<Rightarrow> jstr \<Rightarrow> nat \<Rightarrow> jstr list \<Rightarrow> log \<Rightarrow> (jstr, utxo list) throws \<times> log" where
  "scan_list net base gap [] log = (Inr [], log)"
| "scan_list net base gap (a # as) log =
     then_do (get_utxos net (base @ ''/address/'' @ a @ ''/utxo'') log) (\<lambda>found l.
       if found = [] then
         if gap_limit \<le> gap + 1 then (Inr [], l)
         else scan_list net base (gap + 1) as l
       else then_do (scan_list net base 0 as l) (\<lambda>more l'. (Inr (found @ more), l')))"

fun scan_lists :: "net \<Rightarrow> jstr \<Rightarrow> jstr list list \<Rightarrow> log \<Rightarrow> (jstr, utxo list) throws \<times> log" where
  "scan_lists net base [] log = (Inr [], log)"
| "scan_lists net base (xs # xss) log =
     then_do (scan_list net base 0 xs log) (\<lambda>found l.
       then_do (scan_lists net base xss l) (\<lambda>more l'. (Inr (found @ more), l')))"

definition usable_utxo :: "utxo \<Rightarrow> bool" where
  "usable_utxo u = (u_confirmed u \<and> (case u_height u of None \<Rightarrow> False | Some h \<Rightarrow> h \<noteq> 0))"

text \<open>\<open>byTxid\<close>: a Map from transaction to height, in insertion order.\<close>

definition by_txid :: "utxo list \<Rightarrow> nat obj" where
  "by_txid us = fold (\<lambda>(t, h). obj_set t h) (map (\<lambda>u. (u_txid u, the (u_height u))) us) []"

fun fetch_funding :: "net \<Rightarrow> jstr \<Rightarrow> nat obj \<Rightarrow> log \<Rightarrow> (jstr, funding_input list) throws \<times> log" where
  "fetch_funding net base [] log = (Inr [], log)"
| "fetch_funding net base ((txid, h) # r) log =
     then_do (fetch net (HGet (base @ ''/tx/'' @ txid @ ''/hex'')) log) (\<lambda>reply l.
       if \<not> reply_ok reply
       then (Inl (''could not fetch transaction '' @ txid @ '' ('' @ show_int (hr_status reply) @ '')''), l)
       else then_do (fetch_funding net base r l) (\<lambda>more l'.
         (Inr (\<lparr>fi_tx_hex = js_trim (hr_text reply), fi_height = h\<rparr> # more), l')))"

section \<open>Finding the coins\<close>

type_synonym derive_addresses = "jstr \<Rightarrow> jstr \<Rightarrow> network \<Rightarrow> nat \<Rightarrow> (jstr, jstr list \<times> jstr list) throws"

definition ellipsis :: jstr where "ellipsis = ''...''"

definition no_coins_status :: jstr where
  "no_coins_status = ''No confirmed coins found at this vault. If you just funded it, wait for a confirmation and try again.''"

definition found_status :: "(int \<Rightarrow> jstr) \<Rightarrow> utxo list \<Rightarrow> jstr" where
  "found_status locale_number us =
     ''Found '' @ show_nat (length us) @ '' coin(s) totalling ''
     @ locale_number (sum_list (map u_value us))
     @ '' sats. Now put your own wallet address at the top and sign.''"

text \<open>What the lookup yields once a host answered: no usable coin, or the coins with their funding
  transactions and the chain tip.\<close>

definition look_up :: "derive_addresses \<Rightarrow> net \<Rightarrow> spend_params \<Rightarrow> jstr \<Rightarrow> log
    \<Rightarrow> (jstr, (utxo list \<times> funding_input list \<times> nat) option) throws \<times> log" where
  "look_up derive net sp base log =
     (case derive (sp_ext sp) (sp_int sp) (sp_network sp) scan_count of
        Inl e \<Rightarrow> (Inl e, log)
      | Inr (external, internal) \<Rightarrow>
          then_do (scan_lists net base [external, internal] log) (\<lambda>utxos l1.
            let confirmed = filter usable_utxo utxos
            in if confirmed = [] then (Inr None, l1)
               else then_do (fetch_funding net base (by_txid confirmed) l1) (\<lambda>funding l2.
                 then_do (get_height net (base @ ''/blocks/tip/height'') l2) (\<lambda>tip l3.
                   (Inr (Some (confirmed, funding, tip)), l3)))))"

definition on_find :: "(int \<Rightarrow> jstr) \<Rightarrow> derive_addresses \<Rightarrow> net \<Rightarrow> spend_params \<Rightarrow> panel \<Rightarrow> log
    \<Rightarrow> panel \<times> log" where
  "on_find locale_number derive net sp p log =
     (let p1 = (set_feedback Idle p)\<lparr>pn_signed := None, pn_sign_hidden := True\<rparr>;
          candidates = explorer_candidates (sp_network sp) (pn_explorer p)
      in if candidates = [] then
           (show_error (explorer_failure_message []) (p1\<lparr>pn_advanced_open := True\<rparr>), log)
         else
           let p2 = set_feedback (Busy (''Looking for a block explorer that answers'' @ ellipsis))
                      (p1\<lparr>pn_find_disabled := True\<rparr>)
           in case pick_explorer candidates (probe_explorer net) log of
                (Inl failures, l1) \<Rightarrow>
                  ((show_error (explorer_failure_message failures) (p2\<lparr>pn_advanced_open := True\<rparr>))
                     \<lparr>pn_find_disabled := False\<rparr>, l1)
              | (Inr base, l1) \<Rightarrow>
                  let p3 = set_feedback (Busy (''Looking up your addresses'' @ ellipsis))
                             (p2\<lparr>pn_explorer := base\<rparr>)
                  in (case look_up derive net sp base l1 of
                        (Inl e, l2) \<Rightarrow>
                          ((show_error (scan_failure_message e) p3)\<lparr>pn_find_disabled := False\<rparr>, l2)
                      | (Inr None, l2) \<Rightarrow>
                          ((set_feedback (Info no_coins_status) p3)\<lparr>pn_find_disabled := False\<rparr>, l2)
                      | (Inr (Some (coins, funding, tip)), l2) \<Rightarrow>
                          ((set_feedback (Info (found_status locale_number coins))
                              (p3\<lparr>pn_tip := tip, pn_funding := funding\<rparr>))
                             \<lparr>pn_sign_hidden := False, pn_find_disabled := False\<rparr>, l2)))"

section \<open>Signing and broadcasting\<close>

text \<open>\<open>number_floor\<close> is \<open>Math.floor(Number(s))\<close>, \<open>None\<close> for NaN; \<open>|| 1\<close> replaces NaN and 0.\<close>

definition fee_rate :: "(jstr \<Rightarrow> int option) \<Rightarrow> jstr \<Rightarrow> int" where
  "fee_rate number_floor s =
     max 1 (case number_floor s of None \<Rightarrow> 1 | Some n \<Rightarrow> if n = 0 then 1 else n)"

type_synonym signer = "sweep_request \<Rightarrow> (jstr, sweep_result) throws"

definition sweep_request_of :: "(jstr \<Rightarrow> int option) \<Rightarrow> spend_params \<Rightarrow> panel \<Rightarrow> sweep_request" where
  "sweep_request_of number_floor sp p =
     \<lparr>sr_role = sp_role sp, sr_ext = sp_ext sp, sr_int = sp_int sp, sr_timelock = sp_timelock sp,
      sr_network = sp_network sp, sr_xprv = sp_xprv sp, sr_funding = pn_funding p, sr_tip = pn_tip p,
      sr_recipient = js_trim (pn_to p), sr_amount = None, sr_fee_rate = fee_rate number_floor (pn_fee p)\<rparr>"

definition on_sign :: "(jstr \<Rightarrow> int option) \<Rightarrow> signer \<Rightarrow> spend_params \<Rightarrow> panel \<Rightarrow> panel" where
  "on_sign number_floor sign sp p =
     (let p1 = p\<lparr>pn_err_hidden := True, pn_signed := None\<rparr>
      in if js_trim (pn_to p1) = []
         then show_error ''Put the address of your own wallet at the top first.'' p1
         else
           let p2 = p1\<lparr>pn_sign_disabled := True\<rparr>
           in case sign (sweep_request_of number_floor sp p2) of
                Inr result \<Rightarrow> p2\<lparr>pn_signed := Some result, pn_sign_disabled := False\<rparr>
              | Inl e \<Rightarrow> (show_error (''Could not sign: '' @ e) p2)\<lparr>pn_sign_disabled := False\<rparr>)"

definition explorer_base :: "panel \<Rightarrow> jstr" where
  "explorer_base p = strip_trailing CHR ''/'' (js_trim (pn_explorer p))"

text \<open>What the broadcast line shows: the transaction id with its link when there is one, or the
  failure, after which the button is enabled again.\<close>

datatype broadcast_line = Sent jstr "jstr option" | BroadcastFailed jstr

definition on_broadcast :: "net \<Rightarrow> sweep_result \<Rightarrow> panel \<Rightarrow> log \<Rightarrow> broadcast_line \<times> log" where
  "on_broadcast net result p log =
     (let failed = (\<lambda>e. BroadcastFailed (''Broadcast failed: '' @ e
            @ ''. You can still copy the transaction above and broadcast it elsewhere.''))
      in case fetch net (HPost (explorer_base p @ ''/tx'') (sw_tx_hex result)) log of
           (Inl e, l) \<Rightarrow> (failed e, l)
         | (Inr r, l) \<Rightarrow>
             let body = js_trim (hr_text r)
             in if \<not> reply_ok r
                then (failed (if body \<noteq> [] then body
                              else ''explorer returned '' @ show_int (hr_status r)), l)
                else
                  let sent_txid = (if body \<noteq> [] then body else sw_txid result)
                  in (Sent sent_txid (explorer_tx_url (explorer_base p) sent_txid), l))"

section \<open>Requests\<close>

fun req_url :: "http_req \<Rightarrow> jstr" where
  "req_url (HGet u) = u"
| "req_url (HPost u b) = u"

text \<open>Every request a computation makes is a GET below one of the given hosts.\<close>

definition only_gets :: "jstr set \<Rightarrow> log \<Rightarrow> log \<Rightarrow> bool" where
  "only_gets bases before after \<longleftrightarrow>
     (\<exists>new. after = before @ new
        \<and> (\<forall>r\<in>set new. \<exists>b\<in>bases. \<exists>path. r = HGet (b @ CHR ''/'' # path)))"

lemma only_gets_refl [simp, intro]: "only_gets B l l"
  by (simp add: only_gets_def)

lemma only_gets_trans: "only_gets B l1 l2 \<Longrightarrow> only_gets B l2 l3 \<Longrightarrow> only_gets B l1 l3"
proof -
  assume "only_gets B l1 l2" "only_gets B l2 l3"
  then obtain n m where "l2 = l1 @ n" "l3 = l2 @ m"
    and "\<forall>r\<in>set n. \<exists>b\<in>B. \<exists>path. r = HGet (b @ CHR ''/'' # path)"
      "\<forall>r\<in>set m. \<exists>b\<in>B. \<exists>path. r = HGet (b @ CHR ''/'' # path)"
    unfolding only_gets_def by blast
  then have "l3 = l1 @ (n @ m)" "\<forall>r\<in>set (n @ m). \<exists>b\<in>B. \<exists>path. r = HGet (b @ CHR ''/'' # path)"
    by (simp, metis UnE set_append)
  then show ?thesis unfolding only_gets_def by blast
qed

lemma only_gets_fetch: "b \<in> B \<Longrightarrow> only_gets B l (snd (fetch net (HGet (b @ CHR ''/'' # path)) l))"
  unfolding fetch_def only_gets_def by auto

lemma then_do_log:
  assumes "only_gets B l (snd x)" "\<And>a l'. x = (Inr a, l') \<Longrightarrow> only_gets B l' (snd (k a l'))"
  shows "only_gets B l (snd (then_do x k))"
  using assms only_gets_trans by (cases x; cases "fst x") (auto simp: then_do_def)

lemma get_ok_log: "b \<in> B \<Longrightarrow> only_gets B l (snd (get_ok net (b @ CHR ''/'' # path) l))"
  unfolding get_ok_def by (rule then_do_log) (auto intro: only_gets_fetch)

lemma get_utxos_log: "b \<in> B \<Longrightarrow> only_gets B l (snd (get_utxos net (b @ CHR ''/'' # path) l))"
  unfolding get_utxos_def by (rule then_do_log) (auto intro: get_ok_log)

lemma get_height_log: "b \<in> B \<Longrightarrow> only_gets B l (snd (get_height net (b @ CHR ''/'' # path) l))"
  unfolding get_height_def by (rule then_do_log) (auto intro: get_ok_log)

lemma scan_list_log: "b \<in> B \<Longrightarrow> only_gets B l (snd (scan_list net b gap as l))"
proof (induction as arbitrary: gap l)
  case (Cons a as)
  have "only_gets B l (snd (get_utxos net (b @ CHR ''/'' # (''address/'' @ a @ ''/utxo'')) l))"
    using Cons.prems by (rule get_utxos_log)
  then show ?case
    using Cons by (auto intro!: then_do_log)
qed simp

lemma scan_lists_log: "b \<in> B \<Longrightarrow> only_gets B l (snd (scan_lists net b xss l))"
  by (induction xss arbitrary: l) (auto intro!: then_do_log scan_list_log)

lemma fetch_funding_log: "b \<in> B \<Longrightarrow> only_gets B l (snd (fetch_funding net b m l))"
proof (induction m arbitrary: l)
  case (Cons th m)
  obtain t h where th: "th = (t, h)" by (cases th)
  have "only_gets B l (snd (fetch net (HGet (b @ CHR ''/'' # (''tx/'' @ t @ ''/hex''))) l))"
    using Cons.prems by (rule only_gets_fetch)
  then show ?case using Cons by (auto simp: th intro!: then_do_log)
qed simp

lemma look_up_log: "b \<in> B \<Longrightarrow> only_gets B l (snd (look_up derive net sp b l))"
proof -
  assume b: "b \<in> B"
  have "only_gets B l (snd (get_height net (b @ CHR ''/'' # ''blocks/tip/height'') l))" for l
    using b by (rule get_height_log)
  then show ?thesis
    using b unfolding look_up_def
    by (auto simp: Let_def split: sum.split intro!: then_do_log scan_lists_log scan_list_log fetch_funding_log)
qed

lemma probe_log: "b \<in> B \<Longrightarrow> only_gets B l (snd (probe_explorer net b l))"
proof -
  assume b: "b \<in> B"
  have "only_gets B l (snd (fetch net (HGet (b @ CHR ''/'' # ''blocks/tip/height'')) l))"
    using b by (rule only_gets_fetch)
  then show ?thesis by (auto simp: probe_explorer_def split: prod.split sum.split)
qed

lemma pick_log:
  "set cs \<subseteq> B \<Longrightarrow> only_gets B l (snd (pick_loop (probe_explorer net) fs cs l))"
proof (induction cs arbitrary: fs l)
  case (Cons c cs)
  obtain r l' where r: "probe_explorer net c l = (r, l')" by (cases "probe_explorer net c l")
  have "only_gets B l l'" using probe_log [of c B l net] Cons.prems r by simp
  then show ?case using Cons r only_gets_trans by (auto simp: Let_def)
qed simp

lemma pick_base: "pick_loop probe fs cs w = (Inr base, w') \<Longrightarrow> base \<in> set cs"
  by (induction cs arbitrary: fs w) (auto split: prod.splits if_splits)

section \<open>What the panel guarantees\<close>

lemma on_find_log:
  "only_gets (set (explorer_candidates (sp_network sp) (pn_explorer p))) log
     (snd (on_find locale_number derive net sp p log))"
proof -
  let ?cs = "explorer_candidates (sp_network sp) (pn_explorer p)"
  obtain r l1 where r: "pick_explorer ?cs (probe_explorer net) log = (r, l1)"
    by (cases "pick_explorer ?cs (probe_explorer net) log")
  have l1: "only_gets (set ?cs) log l1"
    using pick_log [where cs = ?cs and B = "set ?cs" and net = net and fs = "[]" and l = log] r by (simp add: pick_explorer_def)
  show ?thesis
  proof (cases r)
    case (Inl fs)
    then show ?thesis using r l1 by (simp add: on_find_def Let_def)
  next
    case (Inr base)
    have "base \<in> set ?cs" using pick_base [of "probe_explorer net" "[]" ?cs log base l1] r Inr
      by (simp add: pick_explorer_def)
    then have "only_gets (set ?cs) l1 (snd (look_up derive net sp base l1))" by (rule look_up_log)
    then have l2: "only_gets (set ?cs) log (snd (look_up derive net sp base l1))"
      using l1 only_gets_trans by blast
    obtain q l2 where q: "look_up derive net sp base l1 = (q, l2)" by (cases "look_up derive net sp base l1")
    then show ?thesis using r Inr l1 l2
      by (auto simp: on_find_def Let_def split: sum.split option.split prod.split)
  qed
qed

text \<open>Looking for coins only ever reads: every request is a GET below one of the candidate hosts, and
  when the host in the box is not a published one, every request of the whole lookup, probe included,
  goes to that host.\<close>

theorem find_contacts_only_candidates:
  "let cleaned = strip_trailing CHR ''/'' (js_trim (pn_explorer p));
       log' = snd (on_find locale_number derive net sp p log)
   in only_gets (set (explorer_candidates (sp_network sp) (pn_explorer p))) log log'
    \<and> (cleaned \<noteq> [] \<and> cleaned \<notin> set (explorer_mirrors (sp_network sp)) \<longrightarrow> only_gets {cleaned} log log')"
  using on_find_log [of sp p log locale_number derive net]
  by (auto simp: Let_def explorer_candidates_def)

definition sample_params :: spend_params where
  "sample_params = \<lparr>sp_role = HeirRole, sp_network = Bitcoin, sp_ext = ''ext'', sp_int = ''int'',
     sp_timelock = 144, sp_xprv = ''xprv''\<rparr>"

definition sample_net :: net where
  "sample_net l r = Inr \<lparr>hr_status = 200, hr_text = ''beef'',
     hr_utxos = Inr (if r = HGet ''http://me/address/a2/utxo''
       then [\<lparr>u_txid = ''t1'', u_vout = 0, u_value = 5, u_confirmed = True, u_height = Some 800\<rparr>,
             \<lparr>u_txid = ''t1'', u_vout = 1, u_value = 6, u_confirmed = True, u_height = Some 800\<rparr>]
       else []), hr_height = Inr 900\<rparr>"

definition sample_derive :: derive_addresses where
  "sample_derive e i n k = Inr ([''a1'', ''a2''], [''b1''])"

definition sample_panel :: panel where
  "sample_panel = (initial_panel sample_params)\<lparr>pn_explorer := '' http://me/ '', pn_to := ''bc1q''\<rparr>"

theorem find_contacts_only_candidates_witness:
  "only_gets {''http://me''} [] (snd (on_find show_int sample_derive sample_net sample_params sample_panel []))"
proof -
  have "strip_trailing CHR ''/'' (js_trim (pn_explorer sample_panel)) = ''http://me''" by code_simp
  then show ?thesis
    using find_contacts_only_candidates [of sample_panel show_int sample_derive sample_net sample_params "[]"]
    by (simp add: Let_def sample_params_def)
qed

text \<open>Events of the panel between which it rests.\<close>

datatype ui_event = EditTo jstr | EditFee jstr | EditExplorer jstr | ClickFind | ClickSign

record ui_env =
  env_locale :: "int \<Rightarrow> jstr"
  env_derive :: derive_addresses
  env_net :: net
  env_floor :: "jstr \<Rightarrow> int option"
  env_sign :: signer
  env_params :: spend_params

fun ui_step :: "ui_env \<Rightarrow> ui_event \<Rightarrow> panel \<times> log \<Rightarrow> panel \<times> log" where
  "ui_step E (EditTo s) (p, l) = (p\<lparr>pn_to := s\<rparr>, l)"
| "ui_step E (EditFee s) (p, l) = (p\<lparr>pn_fee := s\<rparr>, l)"
| "ui_step E (EditExplorer s) (p, l) = (p\<lparr>pn_explorer := s\<rparr>, l)"
| "ui_step E ClickFind (p, l) = on_find (env_locale E) (env_derive E) (env_net E) (env_params E) p l"
| "ui_step E ClickSign (p, l) =
     (if pn_sign_hidden p then (p, l) else (on_sign (env_floor E) (env_sign E) (env_params E) p, l))"

definition run_ui :: "ui_env \<Rightarrow> ui_event list \<Rightarrow> panel \<times> log" where
  "run_ui E evs = fold (ui_step E) evs (initial_panel (env_params E), [])"

definition panel_inv :: "panel \<Rightarrow> bool" where
  "panel_inv p \<longleftrightarrow> (pn_err_hidden p \<or> pn_status_hidden p) \<and> pn_busy_hidden p
     \<and> \<not> pn_find_disabled p \<and> \<not> pn_sign_disabled p
     \<and> (pn_sign_hidden p \<or> pn_funding p \<noteq> [])
     \<and> (pn_signed p = None \<or> \<not> pn_sign_hidden p)"

lemma set_feedback_simps [simp]:
  "pn_err_hidden (set_feedback f p) = (fl_error (feedback_lines_of f) = None)"
  "pn_status_hidden (set_feedback f p) = (fl_status (feedback_lines_of f) = None)"
  "pn_busy_hidden (set_feedback f p) = (\<not> fl_busy (feedback_lines_of f))"
  "pn_find_disabled (set_feedback f p) = pn_find_disabled p"
  "pn_sign_disabled (set_feedback f p) = pn_sign_disabled p"
  "pn_sign_hidden (set_feedback f p) = pn_sign_hidden p"
  "pn_funding (set_feedback f p) = pn_funding p"
  "pn_signed (set_feedback f p) = pn_signed p"
  "pn_tip (set_feedback f p) = pn_tip p"
  by (simp_all add: set_feedback_def Let_def)

lemma by_txid_keys: "set (obj_keys (by_txid us)) = u_txid ` set us" "obj_ok (by_txid us)"
proof -
  show "set (obj_keys (by_txid us)) = u_txid ` set us"
    unfolding by_txid_def obj.keys_put_all_subset by (auto simp: obj_keys_def image_iff)
  show "obj_ok (by_txid us)"
    unfolding by_txid_def by (rule obj.ok_put_all) (simp add: obj_ok_def)
qed

lemma then_do_Inr:
  "then_do x k = (Inr b, l) \<longleftrightarrow> (\<exists>a l'. x = (Inr a, l') \<and> k a l' = (Inr b, l))"
  by (cases x; cases "fst x") (auto simp: then_do_def)

lemma fetch_funding_Inr:
  "fetch_funding net base m log = (Inr fs, log') \<Longrightarrow>
     map fi_height fs = map snd m
     \<and> log' = log @ map (\<lambda>t. HGet (base @ ''/tx/'' @ t @ ''/hex'')) (map fst m)"
proof (induction m arbitrary: log fs)
  case (Cons th m)
  obtain t h where th: "th = (t, h)" by (cases th)
  let ?get = "HGet (base @ ''/tx/'' @ t @ ''/hex'')"
  have "\<exists>hex more. fetch_funding net base m (log @ [?get]) = (Inr more, log')
      \<and> fs = \<lparr>fi_tx_hex = hex, fi_height = h\<rparr> # more"
    using Cons.prems by (auto simp: th then_do_Inr fetch_def split: if_splits)
  then obtain hex more where m: "fetch_funding net base m (log @ [?get]) = (Inr more, log')"
    and fs: "fs = \<lparr>fi_tx_hex = hex, fi_height = h\<rparr> # more" by blast
  from Cons.IH [OF m] fs show ?case by (simp add: th)
qed simp

lemma look_up_funding:
  assumes "look_up derive net sp base log = (Inr (Some (coins, funding, tip)), log')"
  shows "coins \<noteq> [] \<and> list_all usable_utxo coins \<and> length funding = card (u_txid ` set coins)"
proof -
  obtain external internal where d: "derive (sp_ext sp) (sp_int sp) (sp_network sp) scan_count = Inr (external, internal)"
    using assms by (auto simp: look_up_def split: sum.splits)
  obtain us l1 l2 where us: "coins = filter usable_utxo us" "coins \<noteq> []"
    and f: "fetch_funding net base (by_txid coins) l1 = (Inr funding, l2)"
    using assms d by (auto simp: look_up_def then_do_Inr Let_def split: if_splits)
  have "length funding = length (by_txid coins)"
    using fetch_funding_Inr [OF f] by (metis length_map)
  also have "\<dots> = card (set (obj_keys (by_txid coins)))"
    using by_txid_keys(2) [of coins] by (metis distinct_card length_map obj_keys_def obj_ok_def)
  finally show ?thesis using us by (simp add: by_txid_keys list_all_iff)
qed

lemma on_find_inv:
  assumes "panel_inv p"
  shows "panel_inv (fst (on_find locale_number derive net sp p log))"
proof -
  have ne: "funding \<noteq> []"
    if l: "look_up derive net sp base l = (Inr (Some (coins, funding, tip)), l')" for base l coins funding tip l'
  proof -
    have "card (u_txid ` set coins) \<noteq> 0" using look_up_funding [OF l] by simp
    with look_up_funding [OF l] show ?thesis by auto
  qed
  show ?thesis
    using assms ne
    by (auto simp: on_find_def panel_inv_def show_error_def Let_def split: prod.split sum.split option.split)
qed

lemma on_sign_inv:
  "panel_inv p \<Longrightarrow> \<not> pn_sign_hidden p \<Longrightarrow> panel_inv (on_sign number_floor sign sp p)"
  by (auto simp: on_sign_def panel_inv_def show_error_def Let_def split: sum.split)

text \<open>Whatever the reader does and whatever the network answers, the panel at rest never shows an
  error and a status together, no progress bar is left running and no button left disabled, and the
  sign button is offered only with funding transactions of a completed lookup in hand.\<close>

theorem panel_never_ambiguous:
  "panel_inv (fst (run_ui E evs))"
proof -
  have "panel_inv (fst s) \<Longrightarrow> panel_inv (fst (ui_step E ev s))" for ev s
    by (cases "(E, ev, s)" rule: ui_step.cases)
      (simp_all add: on_find_inv on_sign_inv, simp_all add: panel_inv_def)
  then have "panel_inv (fst s) \<Longrightarrow> panel_inv (fst (fold (ui_step E) evs s))" for s
    by (induction evs arbitrary: s) simp_all
  moreover have "panel_inv (initial_panel sp)" for sp
    by (simp add: initial_panel_def panel_inv_def)
  ultimately show ?thesis by (simp add: run_ui_def)
qed

text \<open>The answers of a service that reports, for each address, the coins it holds.\<close>

definition serves :: "net \<Rightarrow> jstr \<Rightarrow> (jstr \<Rightarrow> utxo list) \<Rightarrow> bool" where
  "serves net base coins \<longleftrightarrow>
     (\<forall>l a. \<exists>r. net l (HGet (base @ ''/address/'' @ a @ ''/utxo'')) = Inr r
        \<and> reply_ok r \<and> hr_utxos r = Inr (coins a))"

lemma get_utxos_serves:
  "serves net base coins \<Longrightarrow>
     \<exists>l'. get_utxos net (base @ ''/address/'' @ a @ ''/utxo'') l = (Inr (coins a), l')"
proof -
  assume "serves net base coins"
  then obtain r where "net l (HGet (base @ ''/address/'' @ a @ ''/utxo'')) = Inr r"
    "reply_ok r" "hr_utxos r = Inr (coins a)" unfolding serves_def by blast
  then show ?thesis by (simp add: get_utxos_def get_ok_def fetch_def then_do_def)
qed

text \<open>Scanning as a function of the coins alone.\<close>

fun scan_spec :: "(jstr \<Rightarrow> utxo list) \<Rightarrow> nat \<Rightarrow> jstr list \<Rightarrow> utxo list" where
  "scan_spec coins gap [] = []"
| "scan_spec coins gap (a # as) =
     (if coins a = [] then (if gap_limit \<le> gap + 1 then [] else scan_spec coins (gap + 1) as)
      else coins a @ scan_spec coins 0 as)"

lemma scan_list_spec:
  assumes "serves net base coins"
  shows "\<exists>l'. scan_list net base gap as l = (Inr (scan_spec coins gap as), l')"
proof (induction as arbitrary: gap l)
  case (Cons a as)
  obtain l1 where l1: "get_utxos net (base @ ''/address/'' @ a @ ''/utxo'') l = (Inr (coins a), l1)"
    using get_utxos_serves [OF assms] by blast
  obtain m0 where m0: "scan_list net base 0 as l1 = (Inr (scan_spec coins 0 as), m0)" using Cons by blast
  obtain m1 where m1: "scan_list net base (gap + 1) as l1 = (Inr (scan_spec coins (gap + 1) as), m1)"
    using Cons by blast
  show ?case using l1 m0 m1 by (simp add: then_do_def)
qed simp

text \<open>No run of \<open>gap_limit\<close> empty addresses ends at or before position \<open>n\<close>.\<close>

definition no_gap :: "bool list \<Rightarrow> nat \<Rightarrow> bool" where
  "no_gap es n \<longleftrightarrow> (\<forall>j. j + gap_limit \<le> n \<longrightarrow> (\<exists>k<gap_limit. \<not> es ! (j + k)))"

lemma no_gap_drop: "no_gap (xs @ ys) (length xs + n) \<Longrightarrow> no_gap ys n"
  unfolding no_gap_def
proof (intro allI impI)
  fix j
  assume a: "\<forall>j. j + gap_limit \<le> length xs + n \<longrightarrow> (\<exists>k<gap_limit. \<not> (xs @ ys) ! (j + k))"
    and j: "j + gap_limit \<le> n"
  from a [rule_format, of "length xs + j"] j obtain k where "k < gap_limit"
    "\<not> (xs @ ys) ! (length xs + j + k)" by auto
  then show "\<exists>k<gap_limit. \<not> ys ! (j + k)" by (auto simp: nth_append)
qed

lemma scan_spec_complete:
  "gap < gap_limit \<Longrightarrow> i < length as \<Longrightarrow> coins (as ! i) \<noteq> [] \<Longrightarrow>
     no_gap (replicate gap True @ map (\<lambda>a. coins a = []) as) (gap + i) \<Longrightarrow>
     set (coins (as ! i)) \<subseteq> set (scan_spec coins gap as)"
proof (induction as arbitrary: gap i)
  case (Cons a as)
  show ?case
  proof (cases i)
    case 0
    then show ?thesis using Cons.prems by simp
  next
    case (Suc i')
    show ?thesis
    proof (cases "coins a = []")
      case True
      have e: "replicate gap True @ map (\<lambda>a. coins a = []) (a # as)
          = replicate (gap + 1) True @ map (\<lambda>a. coins a = []) as"
        by (simp add: True replicate_append_same [symmetric] flip: append_assoc)
      have "gap + 1 < gap_limit"
      proof (rule ccontr)
        assume "\<not> gap + 1 < gap_limit"
        then have g: "gap + 1 = gap_limit" using Cons.prems(1) by simp
        have "\<exists>k<gap_limit. \<not> (replicate (gap + 1) True @ map (\<lambda>a. coins a = []) as) ! (0 + k)"
          by (rule Cons.prems(4) [unfolded e no_gap_def, rule_format]) (use Suc g in simp)
        then obtain k where "k < gap + 1" "\<not> (replicate (gap + 1) True @ map (\<lambda>a. coins a = []) as) ! k"
          using g by (metis add_0)
        then show False by (simp add: nth_append del: replicate_Suc)
      qed
      moreover have "no_gap (replicate (gap + 1) True @ map (\<lambda>a. coins a = []) as) (gap + 1 + i')"
        using Cons.prems(4) Suc unfolding e by simp
      ultimately show ?thesis using Cons.IH [of "gap + 1" i'] Cons.prems Suc True by simp
    next
      case False
      have "no_gap (map (\<lambda>a. coins a = []) as) i'"
        using Cons.prems(4) Suc no_gap_drop [of "replicate gap True @ [False]" "map (\<lambda>a. coins a = []) as" i']
        by (simp add: False)
      then have "set (coins (as ! i')) \<subseteq> set (scan_spec coins 0 as)"
        using Cons.IH [of 0 i'] Cons.prems Suc by (simp add: gap_limit_def)
      then show ?thesis using Suc False by auto
    qed
  qed
qed simp

text \<open>C39: Against a service that reports the coins of every address, the scan of a keychain finds all
  coins of each address that no run of twenty empty addresses precedes, and finds nothing the service
  did not report.\<close>

theorem scan_finds_coins:
  assumes "serves net base coins"
  shows "\<exists>found l'. scan_list net base 0 as l = (Inr found, l')
     \<and> (\<forall>i<length as. coins (as ! i) \<noteq> [] \<and> no_gap (map (\<lambda>a. coins a = []) as) i \<longrightarrow>
          set (coins (as ! i)) \<subseteq> set found)
     \<and> set found \<subseteq> (\<Union>a\<in>set as. set (coins a))"
proof -
  have "set (scan_spec coins gap bs) \<subseteq> (\<Union>a\<in>set bs. set (coins a))" for gap bs
    by (induction bs arbitrary: gap) auto
  moreover have "0 < gap_limit" by (simp add: gap_limit_def)
  ultimately show ?thesis
    using scan_list_spec [OF assms, of 0 as l] scan_spec_complete [of 0 _ as coins] by auto
qed

theorem scan_finds_coins_witness:
  "\<exists>found l'. scan_list sample_net ''http://me'' 0 [''a1'', ''a2''] [] = (Inr found, l')
     \<and> set found \<subseteq> (\<Union>a\<in>{''a1'', ''a2''}. set (if a = ''a2''
       then [\<lparr>u_txid = ''t1'', u_vout = 0, u_value = 5, u_confirmed = True, u_height = Some 800\<rparr>,
             \<lparr>u_txid = ''t1'', u_vout = 1, u_value = 6, u_confirmed = True, u_height = Some 800\<rparr>] else []))"
proof -
  have "serves sample_net ''http://me'' (\<lambda>a. if a = ''a2''
       then [\<lparr>u_txid = ''t1'', u_vout = 0, u_value = 5, u_confirmed = True, u_height = Some 800\<rparr>,
             \<lparr>u_txid = ''t1'', u_vout = 1, u_value = 6, u_confirmed = True, u_height = Some 800\<rparr>] else [])"
    by (simp add: serves_def sample_net_def reply_ok_def)
  from scan_finds_coins [OF this, of "[''a1'', ''a2'']" "[]"] show ?thesis by auto
qed

text \<open>The funding transactions handed to the signer are fetched once each: a successful lookup
  requests the hex of every distinct transaction among the confirmed coins exactly once, in order, and
  nothing else, and pairs each with the height the coins reported.\<close>

theorem funding_fetched_once:
  assumes "fetch_funding net base (by_txid coins) log = (Inr funding, log')"
  shows "\<exists>txids. distinct txids \<and> set txids = u_txid ` set coins
     \<and> log' = log @ map (\<lambda>t. HGet (base @ ''/tx/'' @ t @ ''/hex'')) txids
     \<and> length funding = length txids
     \<and> map fi_height funding = map (\<lambda>t. the (obj_get (by_txid coins) t)) txids"
proof -
  let ?m = "by_txid coins"
  have ok: "distinct (map fst ?m)" using by_txid_keys(2) [of coins] by (simp add: obj_ok_def)
  have "map snd ?m = map (\<lambda>t. the (obj_get ?m t)) (map fst ?m)"
    using ok by (auto simp: obj_get_def map_of_eq_Some_iff)
  moreover have "set (map fst ?m) = u_txid ` set coins" using by_txid_keys(1) [of coins] by (simp add: obj_keys_def)
  moreover note fetch_funding_Inr [OF assms]
  moreover from this have "length funding = length (map fst ?m)" by (metis length_map)
  ultimately show ?thesis using ok by (intro exI [of _ "map fst ?m"]) simp
qed

theorem funding_fetched_once_witness:
  "\<exists>funding log'. fetch_funding sample_net ''http://me''
       (by_txid [\<lparr>u_txid = ''t1'', u_vout = 0, u_value = 5, u_confirmed = True, u_height = Some 800\<rparr>,
                 \<lparr>u_txid = ''t1'', u_vout = 1, u_value = 6, u_confirmed = True, u_height = Some 800\<rparr>]) []
       = (Inr funding, log') \<and> length log' = 1"
proof -
  let ?cs = "[\<lparr>u_txid = ''t1'', u_vout = 0, u_value = 5, u_confirmed = True, u_height = Some 800\<rparr>,
              \<lparr>u_txid = ''t1'', u_vout = 1, u_value = 6, u_confirmed = True, u_height = Some 800\<rparr>]"
  obtain funding log' where f: "fetch_funding sample_net ''http://me'' (by_txid ?cs) [] = (Inr funding, log')"
    by (simp add: by_txid_def obj_set_def fetch_def then_do_def sample_net_def reply_ok_def)
  obtain txids where t: "distinct txids" "set txids = u_txid ` set ?cs"
    "log' = [] @ map (\<lambda>t. HGet (''http://me'' @ ''/tx/'' @ t @ ''/hex'')) txids"
    using funding_fetched_once [OF f] by blast
  have "length txids = card (set txids)" using t(1) by (simp add: distinct_card)
  also have "\<dots> = 1" unfolding t(2) by simp
  finally have "length log' = 1" using t(3) by simp
  with f show ?thesis by blast
qed

end
