(* ===== verification/Kit.thy ===== *)
theory Kit
  imports Json Spend_Panel Heir_Key
begin

text \<open>
  The recovery kit: assembling the downloadable file (ghostkey-web/src/independenceProof.ts) and
  opening it offline (ghostkey-web/src/kit/main.ts, kit/dom.ts). The page template, the server's
  replies, the clock and the cryptography are arguments; random draws are arguments too.
\<close>

section \<open>The data of a kit\<close>

record kit_data =
  kd_v :: int
  kd_role :: jstr
  kd_generated_at :: jstr
  kd_label :: "jstr option"
  kd_vault_id :: jstr
  kd_network :: jstr
  kd_timelock_blocks :: int
  kd_descriptor_external :: jstr
  kd_descriptor_internal :: jstr
  kd_password_salt_b64 :: jstr
  kd_password_kdf_mem_kib :: int
  kd_password_kdf_iters :: int
  kd_xprv_ct_b64 :: jstr
  kd_xprv_nonce_b64 :: jstr

definition str_or_null :: "jstr option \<Rightarrow> json" where
  "str_or_null x = (case x of None \<Rightarrow> JNull | Some s \<Rightarrow> JStr s)"

text \<open>The object literal, in the order the code writes it.\<close>

definition kit_json :: "kit_data \<Rightarrow> json" where
  "kit_json d = JObj
     [(''v'', JInt (kd_v d)), (''role'', JStr (kd_role d)), (''generated_at'', JStr (kd_generated_at d)),
      (''label'', str_or_null (kd_label d)), (''vault_id'', JStr (kd_vault_id d)),
      (''network'', JStr (kd_network d)), (''timelock_blocks'', JInt (kd_timelock_blocks d)),
      (''descriptor_external'', JStr (kd_descriptor_external d)),
      (''descriptor_internal'', JStr (kd_descriptor_internal d)),
      (''password_salt_b64'', JStr (kd_password_salt_b64 d)),
      (''password_kdf_mem_kib'', JInt (kd_password_kdf_mem_kib d)),
      (''password_kdf_iters'', JInt (kd_password_kdf_iters d)),
      (''owner_xprv_ct_b64'', JStr (kd_xprv_ct_b64 d)),
      (''owner_xprv_nonce_b64'', JStr (kd_xprv_nonce_b64 d))]"

text \<open>The page reads the parsed object as \<open>KitData\<close>. A missing role is the owner's; \<open>None\<close> is an object
  that does not have the shape the page casts it to.\<close>

definition fld :: "json \<Rightarrow> jstr \<Rightarrow> json option" where
  "fld j k = (case j of JObj kvs \<Rightarrow> map_of (rev kvs) k | _ \<Rightarrow> None)"

definition fld_str :: "json \<Rightarrow> jstr \<Rightarrow> jstr option" where
  "fld_str j k = (case fld j k of Some (JStr s) \<Rightarrow> Some s | _ \<Rightarrow> None)"

definition fld_int :: "json \<Rightarrow> jstr \<Rightarrow> int option" where
  "fld_int j k = (case fld j k of Some (JInt i) \<Rightarrow> Some i | _ \<Rightarrow> None)"

definition kit_of_json :: "json \<Rightarrow> kit_data option" where
  "kit_of_json j =
     (case (fld_int j ''v'', fld_str j ''generated_at'', fld_str j ''vault_id'', fld_str j ''network'',
            fld_int j ''timelock_blocks'', fld_str j ''descriptor_external'',
            fld_str j ''descriptor_internal'', fld_str j ''password_salt_b64'',
            fld_int j ''password_kdf_mem_kib'', fld_int j ''password_kdf_iters'',
            fld_str j ''owner_xprv_ct_b64'', fld_str j ''owner_xprv_nonce_b64'') of
        (Some v, Some ga, Some vid, Some net, Some tlb, Some de, Some di, Some ps, Some pm, Some pi,
         Some ct, Some nonce) \<Rightarrow>
          Some \<lparr>kd_v = v, kd_role = the_default ''owner'' (fld_str j ''role''), kd_generated_at = ga,
                kd_label = fld_str j ''label'', kd_vault_id = vid, kd_network = net,
                kd_timelock_blocks = tlb, kd_descriptor_external = de, kd_descriptor_internal = di,
                kd_password_salt_b64 = ps, kd_password_kdf_mem_kib = pm, kd_password_kdf_iters = pi,
                kd_xprv_ct_b64 = ct, kd_xprv_nonce_b64 = nonce\<rparr>
      | _ \<Rightarrow> None)"

section \<open>Assembling the file (independenceProof.ts)\<close>

definition placeholder :: jstr where
  "placeholder = ''__GHOSTKEY_KIT_DATA__''"

text \<open>\<open>t.split(p).join(r)\<close> for a non-empty separator.\<close>

function split_join :: "jstr \<Rightarrow> jstr \<Rightarrow> jstr \<Rightarrow> jstr" where
  "split_join p r s =
     (if s = [] \<or> p = [] then s
      else if prefix p s then r @ split_join p r (drop (length p) s)
      else hd s # split_join p r (tl s))"
  by pat_completeness auto
termination
  by (relation "measure (\<lambda>(p, r, s). length s)") (auto simp: neq_Nil_conv dest: prefix_length_le)

declare split_join.simps [simp del]

definition escape_lt :: "jstr \<Rightarrow> jstr" where
  "escape_lt s = concat (map (\<lambda>c. if c = CHR ''<'' then [CHR 0x5C] @ ''u003c'' else [c]) s)"

definition kit_json_text :: "kit_data \<Rightarrow> jstr" where
  "kit_json_text d = escape_lt (json_stringify (kit_json d))"

definition splice_kit :: "jstr \<Rightarrow> kit_data \<Rightarrow> jstr" where
  "splice_kit template d = split_join placeholder (kit_json_text d) template"

text \<open>The reply to the request for the template: whether it was a success, and its text.\<close>

definition fetch_template :: "(jstr, bool \<times> jstr) throws \<Rightarrow> (jstr, jstr) throws" where
  "fetch_template reply =
     and_then reply (\<lambda>(ok, template).
       if \<not> ok then Inl (''Couldn'' @ [CHR 0x27] @ ''t load the recovery template. Try again in a moment.'')
       else if \<not> js_includes template placeholder
       then Inl ''The recovery template looks corrupted. Try a hard reload.''
       else Inr template)"

definition slug_char :: "char \<Rightarrow> bool" where
  "slug_char c = (in_range CHR ''a'' CHR ''z'' c \<or> in_range CHR ''0'' CHR ''9'' c)"

text \<open>\<open>replace(/[^a-z0-9]+/g, "-")\<close>\<close>

fun dash_runs :: "bool \<Rightarrow> jstr \<Rightarrow> jstr" where
  "dash_runs in_run [] = []"
| "dash_runs in_run (c # s) =
     (if slug_char c then c # dash_runs False s
      else if in_run then dash_runs True s
      else CHR ''-'' # dash_runs True s)"

text \<open>\<open>replace(/^-+|-+$/g, "")\<close>, then \<open>slice(0, 40)\<close>\<close>

definition slugify :: "jstr \<Rightarrow> jstr" where
  "slugify s = take 40 (strip_trailing CHR ''-'' (dropWhile (\<lambda>c. c = CHR ''-'') (dash_runs False (js_lower s))))"

record kit_vault =
  kv_id :: jstr
  kv_label :: "jstr option"
  kv_network :: jstr
  kv_timelock_blocks :: int
  kv_descriptor_external :: "jstr option"
  kv_descriptor_internal :: "jstr option"

text \<open>The download: file name and contents.\<close>

definition download_independence_proof :: "kit_vault \<Rightarrow> (jstr, sealed_blobs_view) throws \<Rightarrow> jstr
    \<Rightarrow> (jstr, bool \<times> jstr) throws \<Rightarrow> (jstr, jstr \<times> jstr) throws" where
  "download_independence_proof vault blobs_reply now template_reply =
     (if \<not> truthy (kv_descriptor_external vault) \<or> \<not> truthy (kv_descriptor_internal vault)
      then Inl (''This vault'' @ [CHR 0x27] @ ''s wallet details aren'' @ [CHR 0x27] @ ''t available yet. Reload the page and try again.'')
      else
        and_then blobs_reply (\<lambda>blobs.
        let d = \<lparr>kd_v = 1, kd_role = ''owner'', kd_generated_at = now, kd_label = kv_label vault,
                 kd_vault_id = kv_id vault, kd_network = kv_network vault,
                 kd_timelock_blocks = kv_timelock_blocks vault,
                 kd_descriptor_external = the (kv_descriptor_external vault),
                 kd_descriptor_internal = the (kv_descriptor_internal vault),
                 kd_password_salt_b64 = sbv_password_salt_b64 blobs,
                 kd_password_kdf_mem_kib = sbv_password_kdf_mem_kib blobs,
                 kd_password_kdf_iters = sbv_password_kdf_iters blobs,
                 kd_xprv_ct_b64 = sbv_owner_xprv_ct_b64 blobs,
                 kd_xprv_nonce_b64 = sbv_owner_xprv_nonce_b64 blobs\<rparr>
        in and_then (fetch_template template_reply) (\<lambda>template.
           let html = splice_kit template d;
               slug = slugify (the_default (kv_id vault) (kv_label vault))
           in Inr (''ghostkey-recovery-'' @ or_str slug ''vault'' @ ''.html'', html))))"

section \<open>The heir envelope\<close>

text \<open>The passphrase: 32-bit draws, rejected at or above the largest multiple of the list's length.
  The random source is the list of its draws; \<open>None\<close> means the list ended before enough words were
  accepted.\<close>

fun pick_words :: "jstr list \<Rightarrow> nat \<Rightarrow> nat list \<Rightarrow> jstr list option" where
  "pick_words wordlist 0 draws = Some []"
| "pick_words wordlist (Suc k) [] = None"
| "pick_words wordlist (Suc k) (x # draws) =
     (let n = length wordlist; m = (2 ^ 32 div n) * n
      in if m \<le> x then pick_words wordlist (Suc k) draws
         else map_option ((#) (wordlist ! (x mod n))) (pick_words wordlist k draws))"

definition generate_passphrase :: "jstr list \<Rightarrow> nat \<Rightarrow> nat list \<Rightarrow> jstr option" where
  "generate_passphrase wordlist words draws = map_option (join ''-'') (pick_words wordlist words draws)"

record heir_envelope_params =
  he_vault_id :: jstr
  he_label :: "jstr option"
  he_network :: jstr
  he_timelock_blocks :: int
  he_descriptor_external :: jstr
  he_descriptor_internal :: jstr
  he_heir_name :: jstr
  he_heir_xprv :: jstr

record heir_envelope =
  env_filename :: jstr
  env_html :: jstr
  env_passphrase :: jstr

definition build_heir_envelope :: "('a crypto_scheme) \<Rightarrow> jstr list \<Rightarrow> nat list \<Rightarrow> bytes \<Rightarrow> bytes \<Rightarrow> jstr
    \<Rightarrow> (jstr, bool \<times> jstr) throws \<Rightarrow> heir_envelope_params \<Rightarrow> (jstr, heir_envelope) throws option" where
  "build_heir_envelope C wordlist draws salt nonce now template_reply p =
     map_option (\<lambda>passphrase.
       and_then (seal_under_password C salt nonce passphrase (utf8 (he_heir_xprv p))) (\<lambda>sealed.
       let d = \<lparr>kd_v = 1, kd_role = ''heir'', kd_generated_at = now, kd_label = he_label p,
                kd_vault_id = he_vault_id p, kd_network = he_network p,
                kd_timelock_blocks = he_timelock_blocks p,
                kd_descriptor_external = he_descriptor_external p,
                kd_descriptor_internal = he_descriptor_internal p,
                kd_password_salt_b64 = ps_salt_b64 sealed,
                kd_password_kdf_mem_kib = int (ps_mem_kib sealed),
                kd_password_kdf_iters = int (ps_iters sealed),
                kd_xprv_ct_b64 = sb_ct (ps_blob sealed),
                kd_xprv_nonce_b64 = sb_nonce (ps_blob sealed)\<rparr>
       in and_then (fetch_template template_reply) (\<lambda>template.
          let html = splice_kit template d;
              slug = slugify (or_str (he_heir_name p) (or_str (the_default [] (he_label p)) ''heir''))
          in Inr \<lparr>env_filename = ''ghostkey-for-'' @ or_str slug ''heir'' @ ''.html'',
                  env_html = html, env_passphrase = passphrase\<rparr>)))
       (generate_passphrase wordlist 5 draws)"

section \<open>Opening the file (kit/main.ts)\<close>

text \<open>The text of the kit's script element: what stands between its opening tag and the next
  \<open></script\<close>.\<close>

definition script_text :: "jstr \<Rightarrow> jstr \<Rightarrow> jstr" where
  "script_text before html =
     (let rest = drop (length before) html
      in case index_of ''</script'' rest of None \<Rightarrow> rest | Some i \<Rightarrow> take i rest)"

definition read_kit_data :: "jstr option \<Rightarrow> json option" where
  "read_kit_data text_content =
     (let raw = the_default [] text_content
      in if js_trim raw = [] \<or> js_includes raw placeholder then None
         else json_parse raw)"

definition kit_is_heir :: "kit_data \<Rightarrow> bool" where
  "kit_is_heir d = (kd_role d = ''heir'')"

definition kit_error :: "bool \<Rightarrow> jstr" where
  "kit_error is_heir =
     (if is_heir
      then ''That code didn'' @ [CHR 0x27] @ ''t work. Check for typos and try again. It'' @ [CHR 0x27]
           @ ''s the secret code that was kept together with this file.''
      else ''That password didn'' @ [CHR 0x27] @ ''t work. Check for typos and try again. It'' @ [CHR 0x27]
           @ ''s the same password you use to sign in.'')"

text \<open>Opening the ciphertext: the kit calls the cipher directly.\<close>

definition open_kit :: "('a crypto_scheme) \<Rightarrow> kit_data \<Rightarrow> jstr \<Rightarrow> (jstr, jstr) throws" where
  "open_kit C d password =
     and_then (b64decode (kd_password_salt_b64 d)) (\<lambda>salt.
     and_then (derive_owner_kek C password salt (Some (nat (kd_password_kdf_mem_kib d)))
                 (Some (nat (kd_password_kdf_iters d)))) (\<lambda>kek.
     and_then (b64decode (kd_xprv_nonce_b64 d)) (\<lambda>nonce.
     and_then (b64decode (kd_xprv_ct_b64 d)) (\<lambda>ct.
     and_then (aead_decrypt C kek nonce ct) (\<lambda>pt.
     Inr (text_decode C pt))))))"

text \<open>What the unlock handler leaves: the error line and the revealed key; the button and the bar are
  restored on every path.\<close>

record unlock_view =
  uv_button_disabled :: bool
  uv_bar_hidden :: bool
  uv_error :: "jstr option"
  uv_revealed :: "jstr option"

definition on_unlock :: "('a crypto_scheme) \<Rightarrow> kit_data \<Rightarrow> jstr \<Rightarrow> unlock_view \<Rightarrow> unlock_view" where
  "on_unlock C d password v =
     (if password = [] then v
      else
        let v1 = v\<lparr>uv_button_disabled := True, uv_error := None, uv_bar_hidden := False\<rparr>;
            v2 = (case open_kit C d password of
                    Inr xprv \<Rightarrow> v1\<lparr>uv_revealed := Some xprv\<rparr>
                  | Inl e \<Rightarrow> v1\<lparr>uv_error := Some (kit_error (kit_is_heir d))\<rparr>)
        in v2\<lparr>uv_bar_hidden := True, uv_button_disabled := False\<rparr>)"

text \<open>The spend panel's parameters and the expert descriptors: the account xpub, when it can be derived
  and occurs in the receive descriptor, is replaced by the xprv in both.\<close>

definition kit_spend_params :: "(jstr \<Rightarrow> network) \<Rightarrow> kit_data \<Rightarrow> jstr \<Rightarrow> spend_params" where
  "kit_spend_params as_network d xprv =
     \<lparr>sp_role = (if kit_is_heir d then HeirRole else OwnerRole), sp_network = as_network (kd_network d),
      sp_ext = kd_descriptor_external d, sp_int = kd_descriptor_internal d,
      sp_timelock = nat (kd_timelock_blocks d), sp_xprv = xprv\<rparr>"

definition spliced_descriptors :: "(jstr \<Rightarrow> nat \<times> nat \<Rightarrow> (jstr, jstr) throws) \<Rightarrow> kit_data \<Rightarrow> jstr
    \<Rightarrow> (jstr \<times> jstr) option" where
  "spliced_descriptors xpub_of d xprv =
     (case xpub_of xprv (bip32_versions (kd_network d)) of
        Inl e \<Rightarrow> None
      | Inr xpub \<Rightarrow>
          if js_includes (kd_descriptor_external d) xpub
          then Some (split_join xpub xprv (kd_descriptor_external d),
                     split_join xpub xprv (kd_descriptor_internal d))
          else None)"

text \<open>\<open>esc\<close> of kit/dom.ts.\<close>

definition esc_html :: "jstr \<Rightarrow> jstr" where
  "esc_html s = concat (map (\<lambda>c. if c = CHR ''&'' then ''&amp;'' else if c = CHR ''<'' then ''&lt;''
     else if c = CHR ''>'' then ''&gt;'' else [c]) s)"

section \<open>Splicing\<close>

lemma split_join_none: "\<not> js_includes s p \<Longrightarrow> split_join p r s = s"
proof (induction p r s rule: split_join.induct)
  case (1 p r s)
  show ?case
  proof (cases s)
    case (Cons c t)
    have "\<not> prefix p s" using 1(3) by (metis prefix_imp_sublist)
    moreover have "\<not> js_includes t p" using 1(3) Cons by (simp add: sublist_Cons_right)
    moreover have "p \<noteq> []" using 1(3) by auto
    ultimately show ?thesis using 1(2) Cons by (simp add: split_join.simps [of p r "c # t"])
  qed (simp add: split_join.simps)
qed

lemma split_join_once:
  assumes "index_of p (a @ p @ b) = Some (length a)" "\<not> js_includes b p" "p \<noteq> []"
  shows "split_join p r (a @ p @ b) = a @ r @ b"
  using assms(1)
proof (induction a)
  case Nil
  then show ?case using assms(2,3) by (simp add: split_join.simps [of p r "p @ b"] split_join_none)
next
  case (Cons c a)
  then have "\<not> prefix p (c # a @ p @ b)" "index_of p (a @ p @ b) = Some (length a)"
    by (auto split: if_splits)
  then show ?case using Cons assms(3) by (simp add: split_join.simps [of p r "c # a @ p @ b"])
qed

section \<open>The data inside the page\<close>

text \<open>Escaping after writing is writing with a finer escape function.\<close>

definition kit_escape :: "char \<Rightarrow> jstr" where
  "kit_escape c = escape_lt (json_escape c)"

lemma escape_lt_append [simp]: "escape_lt (s @ t) = escape_lt s @ escape_lt t"
  by (simp add: escape_lt_def)

lemma escape_lt_id: "CHR ''<'' \<notin> set s \<Longrightarrow> escape_lt s = s"
  by (induction s) (auto simp: escape_lt_def)

lemma escape_lt_concat: "escape_lt (concat (map f s)) = concat (map (\<lambda>c. escape_lt (f c)) s)"
  by (induction s) (auto simp: escape_lt_def)

lemma escape_lt_Cons: "escape_lt (c # s) = (if c = CHR ''<'' then [CHR 0x5C] @ ''u003c'' else [c]) @ escape_lt s"
  by (simp add: escape_lt_def)

lemma escape_lt_Nil [simp]: "escape_lt [] = []"
  by (simp add: escape_lt_def)

lemma show_int_no_lt: "CHR ''<'' \<notin> set (show_int i)"
proof -
  have d: "\<not> js_digit CHR ''<''" by (simp add: js_digit_def less_eq_char_def)
  have "CHR ''<'' \<notin> set (show_nat n)" for n using digits_no [OF show_nat_digits d] .
  then show ?thesis by (simp add: show_int_def)
qed

lemma escape_lt_write:
  "escape_lt (write_json json_escape v) = write_json kit_escape v"
  "escape_lt (write_list json_escape vs) = write_list kit_escape vs"
  "escape_lt (write_fields json_escape kvs) = write_fields kit_escape kvs"
proof (induction json_escape v and json_escape vs and json_escape kvs
    rule: write_json_write_list_write_fields.induct)
  case (3 i)
  then show ?case by (simp add: escape_lt_id show_int_no_lt)
qed (simp_all add: quote_def escape_lt_concat kit_escape_def [abs_def] escape_lt_Cons)

text \<open>What an escape consists of.\<close>

definition escape_alphabet :: jstr where
  "escape_alphabet = [CHR 0x22, CHR 0x5C] @ ''0123456789abcdefnrtu''"

lemma hex_digit_set: "n < 16 \<Longrightarrow> hex_digit n \<in> set escape_alphabet"
proof -
  have "list_all (\<lambda>n. hex_digit n \<in> set escape_alphabet) [0..<16]" by code_simp
  then show "n < 16 \<Longrightarrow> ?thesis" unfolding list_all_iff by simp
qed

lemma hex_byte_set: "set (hex_byte b) \<subseteq> set escape_alphabet"
proof -
  have "unat b div 16 < 16" using unat8 [of b] by (simp add: div_less_iff_less_mult)
  then have "hex_digit (unat b div 16) \<in> set escape_alphabet" by (rule hex_digit_set)
  moreover have "hex_digit (unat b mod 16) \<in> set escape_alphabet" by (rule hex_digit_set) simp
  ultimately show ?thesis unfolding hex_byte_def by simp
qed

lemma json_escape_cases:
  "json_escape c = [c] \<or> json_escape c \<noteq> [] \<and> set (json_escape c) \<subseteq> set escape_alphabet"
proof -
  have "json_escape c = [c] \<or> json_escape c = esc_u c
    \<or> json_escape c \<in> set (map (\<lambda>x. [CHR 0x5C, x]) (CHR 0x22 # CHR 0x5C # ''bfnrt''))"
    unfolding json_escape_def by simp
  moreover have "set (map (\<lambda>x. [CHR 0x5C, x]) (CHR 0x22 # CHR 0x5C # ''bfnrt''))
      \<subseteq> {s. s \<noteq> [] \<and> set s \<subseteq> set escape_alphabet}"
    by (simp add: escape_alphabet_def)
  moreover have "set (esc_u c) \<subseteq> set escape_alphabet"
  proof -
    have "set ([CHR 0x5C] @ ''u00'') \<subseteq> set escape_alphabet" by (simp add: escape_alphabet_def)
    then show ?thesis unfolding esc_u_def using hex_byte_set by (metis append_assoc le_sup_iff set_append)
  qed
  moreover have "esc_u c \<noteq> []" by (simp add: esc_u_def)
  ultimately consider "json_escape c = [c]" | "json_escape c = esc_u c"
    | "json_escape c \<in> {s. s \<noteq> [] \<and> set s \<subseteq> set escape_alphabet}" by blast
  then show ?thesis
  proof cases
    case 2
    show ?thesis unfolding 2 using \<open>set (esc_u c) \<subseteq> _\<close> \<open>esc_u c \<noteq> []\<close> by blast
  qed blast+
qed

lemma kit_escape_cases:
  "kit_escape c = [c] \<or> kit_escape c \<noteq> [] \<and> set (kit_escape c) \<subseteq> set escape_alphabet"
proof (cases "c = CHR ''<''")
  case True
  then show ?thesis
    by (simp add: kit_escape_def json_escape_def escape_lt_Cons less_char_def escape_alphabet_def)
next
  case False
  moreover have "CHR ''<'' \<notin> set escape_alphabet" by (simp add: escape_alphabet_def)
  ultimately have "CHR ''<'' \<notin> set (json_escape c)" using json_escape_cases [of c] by fastforce
  then show ?thesis using json_escape_cases [of c] by (simp add: kit_escape_def escape_lt_id)
qed

lemma good_kit_escape: "good_escape kit_escape"
  unfolding good_escape_def
proof (intro allI)
  fix c r
  show "read_chars (kit_escape c @ r) = map_option (\<lambda>(s, t). (c # s, t)) (read_chars r)"
  proof (cases "c = CHR ''<''")
    case True
    have "of_char CHR ''<'' = (60 :: nat)" by simp
    then have "char_of (60 :: nat) = CHR ''<''" by (metis char_of_char)
    then show ?thesis using True
      by (simp add: kit_escape_def json_escape_def escape_lt_Cons less_char_def hex4_def hex_nibble_def)
  next
    case False
    moreover have "CHR ''<'' \<notin> set escape_alphabet" by (simp add: escape_alphabet_def)
    ultimately have "CHR ''<'' \<notin> set (json_escape c)" using json_escape_cases [of c] by fastforce
    then have "kit_escape c = json_escape c" by (simp add: kit_escape_def escape_lt_id)
    then show ?thesis using good_json_escape by (simp add: good_escape_def)
  qed
qed

lemma kit_json_text_parses: "json_parse (kit_json_text d) = Some (kit_json d)"
  by (simp add: kit_json_text_def json_stringify_def escape_lt_write parse_written [OF good_kit_escape])

lemma escape_lt_no_lt: "CHR ''<'' \<notin> set (escape_lt s)"
  by (induction s) (auto simp: escape_lt_def)

lemma kit_of_kit_json: "kit_of_json (kit_json d) = Some d"
  by (cases d; cases "kd_label d") (auto simp: kit_json_def kit_of_json_def fld_str_def fld_int_def fld_def str_or_null_def)


section \<open>The slot marker inside the data\<close>

text \<open>The strings of a value, keys included.\<close>

fun json_strings :: "json \<Rightarrow> jstr list" where
  "json_strings (JStr s) = [s]"
| "json_strings (JArr vs) = concat (map json_strings vs)"
| "json_strings (JObj kvs) = concat (map (\<lambda>kv. fst kv # json_strings (snd kv)) kvs)"
| "json_strings _ = []"

lemma sublist_sep:
  assumes "sublist p (a @ c # b)" "c \<notin> set p" "p \<noteq> []"
  shows "sublist p a \<or> sublist p b"
proof -
  obtain x y where xy: "a @ c # b = x @ p @ y" using assms(1) by (auto simp: sublist_def)
  consider "length a < length x" | "length x \<le> length a" "length a < length x + length p"
    | "length x + length p \<le> length a" by linarith
  then show ?thesis
  proof cases
    case 1
    then have "drop (Suc (length a)) (a @ c # b) = drop (Suc (length a)) x @ p @ y" unfolding xy by simp
    then show ?thesis by (auto simp: sublist_def)
  next
    case 2
    have "(a @ c # b) ! length a = p ! (length a - length x)" proof -
      have "length a - length x < length p" using 2 by linarith
      then show ?thesis unfolding xy using 2 by (simp add: nth_append)
    qed
    then show ?thesis using 2 assms(2) by (metis add_diff_cancel_left' le_add_diff_inverse nat_add_left_cancel_less nth_append_length nth_mem)
  next
    case 3
    then have "take (length a) (a @ c # b) = x @ p @ take (length a - length x - length p) y" unfolding xy by simp
    then show ?thesis by (auto simp: sublist_def)
  qed
qed

lemma sublist_foreign: "sublist p (a @ b) \<Longrightarrow> set a \<inter> set p = {} \<Longrightarrow> p \<noteq> [] \<Longrightarrow> sublist p b"
proof (induction a)
  case (Cons c a)
  then show ?case using sublist_sep [of p "[]" c "a @ b"] by auto
qed simp

lemma sublist_concat_escape:
  assumes "\<forall>c. esc c = [c] \<or> esc c \<noteq> [] \<and> set (esc c) \<inter> set p = {}" "p \<noteq> []"
  shows "sublist p (concat (map esc s)) \<Longrightarrow> sublist p s"
proof (induction s)
  case (Cons c s)
  have pre: "prefix q (concat (map esc t)) \<Longrightarrow> set q \<subseteq> set p \<Longrightarrow> prefix q t" for q t
  proof (induction t arbitrary: q)
    case (Cons d t)
    show ?case
    proof (cases q)
      case (Cons e q')
      have "esc d = [d]"
      proof (rule ccontr)
        assume n: "esc d \<noteq> [d]"
        then obtain x xs where x: "esc d = x # xs" "set (esc d) \<inter> set p = {}"
          using assms(1) by (metis neq_Nil_conv)
        then have "x = e" using Cons.prems(1) \<open>q = e # q'\<close> by simp
        then show False using x Cons.prems(2) \<open>q = e # q'\<close> by auto
      qed
      then show ?thesis using Cons Cons.prems Cons.IH [of q'] by auto
    qed simp
  qed simp
  show ?case
  proof (cases "esc c = [c]")
    case True
    then have "prefix p (concat (map esc (c # s))) \<or> sublist p (concat (map esc s))"
      using Cons.prems by (simp add: sublist_Cons_right)
    then show ?thesis using Cons.IH pre [of p "c # s"] by (auto simp: sublist_Cons_right)
  next
    case False
    then have "set (esc c) \<inter> set p = {}" using assms(1) by blast
    then show ?thesis using Cons sublist_foreign [of p "esc c"] assms(2) by (simp add: sublist_Cons_right)
  qed
qed simp

text \<open>The slot marker consists of characters that JSON's own syntax never uses, so it stands in the
  written text only where it stands in one of the strings.\<close>

lemma placeholder_chars:
  "placeholder \<noteq> []" "set placeholder \<inter> set escape_alphabet = {}"
  "set placeholder \<inter> set ''truefalsn-0123456789{}[],:'' = {}" "CHR 0x22 \<notin> set placeholder"
  by code_simp+

lemma placeholder_foreign: "set s \<subseteq> set ''truefalsn-0123456789{}[],:'' \<Longrightarrow> js_includes (s @ r) placeholder \<Longrightarrow> js_includes r placeholder"
  using placeholder_chars(1,3) sublist_foreign [of placeholder s r] by blast

lemma show_int_set: "set (show_int i) \<subseteq> set ''truefalsn-0123456789{}[],:''"
proof -
  have "js_digit c \<Longrightarrow> c \<in> set ''0123456789''" for c
  proof -
    assume "js_digit c"
    then have "of_char c \<in> {48 ..< (58 :: nat)}" by (auto simp: js_digit_def less_eq_char_def)
    moreover have "{48 ..< 58} \<subseteq> set (map of_char ''0123456789'' :: nat list)" by code_simp
    ultimately have "of_char c \<in> set (map of_char ''0123456789'' :: nat list)" by blast
    then show ?thesis by (auto simp del: of_char_Char)
  qed
  then have d: "set (show_nat n) \<subseteq> set ''0123456789''" for n
    using show_nat_digits [of n] unfolding digits_def list_all_iff by blast
  have "set ''0123456789'' \<union> {CHR ''-''} \<subseteq> set ''truefalsn-0123456789{}[],:''" by simp
  moreover have "set (show_int i) \<subseteq> set ''0123456789'' \<union> {CHR ''-''}"
  proof (cases "i < 0")
    case True
    then have "show_int i = CHR ''-'' # show_nat (nat (- i))" by (simp add: show_int_def)
    then show ?thesis using d [of "nat (- i)"] by (metis Un_insert_right insert_mono list.simps(15) sup_bot.right_neutral)
  next
    case False
    then have "show_int i = show_nat (nat i)" by (simp add: show_int_def)
    then show ?thesis using d [of "nat i"] by (metis le_supI1)
  qed
  ultimately show ?thesis by (rule subset_trans [rotated])
qed

lemma kit_escape_foreign:
  "\<forall>c. kit_escape c = [c] \<or> kit_escape c \<noteq> [] \<and> set (kit_escape c) \<inter> set placeholder = {}"
  using kit_escape_cases placeholder_chars(2) by fastforce

lemma sublist_quote:
  assumes "js_includes (quote kit_escape s @ r) placeholder"
  shows "js_includes s placeholder \<or> js_includes r placeholder"
proof -
  have "js_includes (concat (map kit_escape s) @ CHR 0x22 # r) placeholder"
    using assms sublist_foreign [of placeholder "[CHR 0x22]"] placeholder_chars(1,4) by (simp add: quote_def)
  then have "js_includes (concat (map kit_escape s)) placeholder \<or> js_includes r placeholder"
    using placeholder_chars(1,4) by (intro sublist_sep)
  then show ?thesis using sublist_concat_escape [OF kit_escape_foreign placeholder_chars(1)] by blast
qed

lemma placeholder_in_text:
  shows "js_includes (write_json kit_escape v @ r) placeholder \<Longrightarrow>
           (\<exists>s\<in>set (json_strings v). js_includes s placeholder) \<or> js_includes r placeholder"
    and "js_includes (write_list kit_escape vs @ r) placeholder \<Longrightarrow>
           (\<exists>v\<in>set vs. \<exists>s\<in>set (json_strings v). js_includes s placeholder) \<or> js_includes r placeholder"
    and "js_includes (write_fields kit_escape kvs @ r) placeholder \<Longrightarrow>
           (\<exists>kv\<in>set kvs. \<exists>s\<in>set (fst kv # json_strings (snd kv)). js_includes s placeholder)
           \<or> js_includes r placeholder"
proof (induction kit_escape v and kit_escape vs and kit_escape kvs arbitrary: r and r and r
    rule: write_json_write_list_write_fields.induct)
  case 1
  then show ?case using placeholder_foreign [of "''null''" r] by simp
next
  case (2 b)
  then show ?case using placeholder_foreign [of "''true''" r] placeholder_foreign [of "''false''" r] by (cases b) simp_all
next
  case (3 i)
  then show ?case using placeholder_foreign [OF show_int_set] by simp
next
  case (4 s)
  then show ?case using sublist_quote [of s r] by simp
next
  case (5 vs)
  then show ?case using placeholder_foreign [of "''[''" "write_list kit_escape vs @ r"] by simp
next
  case (6 kvs)
  then show ?case using placeholder_foreign [of "''{''" "write_fields kit_escape kvs @ r"]
    by (simp add: case_prod_unfold)
next
  case 7
  then show ?case using placeholder_foreign [of "'']''" r] by simp
next
  case (8 v vs)
  let ?tail = "(if vs = [] then '']'' else '','' @ write_list kit_escape vs) @ r"
  have "(\<exists>s\<in>set (json_strings v). js_includes s placeholder) \<or> js_includes ?tail placeholder"
    using 8(1) 8(3) by simp
  moreover have "js_includes ?tail placeholder \<Longrightarrow>
      (\<exists>v\<in>set vs. \<exists>s\<in>set (json_strings v). js_includes s placeholder) \<or> js_includes r placeholder"
    using 8(2) placeholder_foreign [of "'',''" "write_list kit_escape vs @ r"] placeholder_foreign [of "'']''" r]
    by (cases "vs = []") simp_all
  ultimately show ?case by (metis list.set_intros)
next
  case 9
  then show ?case using placeholder_foreign [of "''}''" r] by simp
next
  case (10 k v kvs)
  let ?tail = "(if kvs = [] then ''}'' else '','' @ write_fields kit_escape kvs) @ r"
  have "js_includes (quote kit_escape k @ '':'' @ write_json kit_escape v @ ?tail) placeholder"
    using 10(3) by simp
  then have "js_includes k placeholder \<or> js_includes (write_json kit_escape v @ ?tail) placeholder"
    using sublist_quote placeholder_foreign [of "'':''" "write_json kit_escape v @ ?tail"] by fastforce
  then have "(\<exists>s\<in>set (k # json_strings v). js_includes s placeholder) \<or> js_includes ?tail placeholder"
    using 10(1) by (metis list.set_intros)
  moreover have "js_includes ?tail placeholder \<Longrightarrow>
      (\<exists>kv\<in>set kvs. \<exists>s\<in>set (fst kv # json_strings (snd kv)). js_includes s placeholder) \<or> js_includes r placeholder"
    using 10(2) placeholder_foreign [of "'',''" "write_fields kit_escape kvs @ r"] placeholder_foreign [of "''}''" r]
    by (cases "kvs = []") simp_all
  ultimately show ?case by (metis fst_conv snd_conv list.set_intros)
qed


lemma marker_in_kit_text:
  "js_includes (kit_json_text d) placeholder \<Longrightarrow> \<exists>s\<in>set (json_strings (kit_json d)). js_includes s placeholder"
  using placeholder_in_text(1) [of "kit_json d" "[]"] placeholder_chars(1)
  by (simp add: kit_json_text_def json_stringify_def escape_lt_write)

text \<open>The strings of the kit.\<close>

definition marker_free :: "kit_data \<Rightarrow> bool" where
  "marker_free d = (\<not> list_ex (\<lambda>s. js_includes s placeholder)
     [kd_role d, kd_generated_at d, the_default [] (kd_label d), kd_vault_id d, kd_network d,
      kd_descriptor_external d, kd_descriptor_internal d, kd_password_salt_b64 d, kd_xprv_ct_b64 d,
      kd_xprv_nonce_b64 d])"

lemma short_no_marker: "length s < 21 \<Longrightarrow> \<not> js_includes s placeholder"
  using sublist_length_le [of placeholder s] by (auto simp: placeholder_def)

lemma key_no_marker: "CHR ''K'' \<notin> set s \<Longrightarrow> \<not> js_includes s placeholder"
  using set_mono_sublist [of placeholder s] by (auto simp: placeholder_def)

lemma marker_free_text: "marker_free d \<Longrightarrow> \<not> js_includes (kit_json_text d) placeholder"
proof
  assume a: "marker_free d" "js_includes (kit_json_text d) placeholder"
  obtain s where s: "s \<in> set (json_strings (kit_json d))" "js_includes s placeholder"
    using marker_in_kit_text [OF a(2)] by blast
  have "CHR ''K'' \<in> set s" using key_no_marker s(2) by blast
  then show False using s a(1)
    by (cases "kd_label d") (auto simp: kit_json_def str_or_null_def marker_free_def)
qed

text \<open>A template with one slot, the content of its data script.\<close>

definition good_template :: "jstr \<Rightarrow> jstr \<Rightarrow> jstr \<Rightarrow> bool" where
  "good_template before after template \<longleftrightarrow>
     template = before @ placeholder @ after \<and> prefix ''</script'' after
     \<and> index_of placeholder template = Some (length before) \<and> \<not> js_includes after placeholder"

lemma index_of_first:
  "c \<notin> set a \<Longrightarrow> prefix (c # p) b \<Longrightarrow> index_of (c # p) (a @ b) = Some (length a)"
  by (induction a) (cases b; auto)+

lemma splice_then_read:
  assumes "good_template before after template" "marker_free d"
  shows "script_text before (splice_kit template d) = kit_json_text d"
    "read_kit_data (Some (script_text before (splice_kit template d))) = Some (kit_json d)"
proof -
  have h: "splice_kit template d = before @ kit_json_text d @ after"
    using assms(1) split_join_once [OF _ _ placeholder_chars(1)] by (auto simp: splice_kit_def good_template_def)
  have "CHR ''<'' \<notin> set (kit_json_text d)" by (simp add: kit_json_text_def escape_lt_no_lt)
  then have "index_of ''</script'' (kit_json_text d @ after) = Some (length (kit_json_text d))"
    using assms(1) by (intro index_of_first) (auto simp: good_template_def)
  then show t: "script_text before (splice_kit template d) = kit_json_text d"
    by (simp add: script_text_def h)
  obtain kvs where "kit_json d = JObj kvs" unfolding kit_json_def by blast
  then obtain r where "kit_json_text d = CHR ''{'' # r"
    by (simp add: kit_json_text_def json_stringify_def escape_lt_write del: write_json.simps(6))
       (simp only: write_json.simps append_Cons)
  then have "js_trim (kit_json_text d) \<noteq> []"
    by (auto simp: js_trim_def js_trim_start_def js_ws_def)
  then show "read_kit_data (Some (script_text before (splice_kit template d))) = Some (kit_json d)"
    using marker_free_text [OF assms(2)] by (simp add: read_kit_data_def t kit_json_text_parses)
qed

lemma the_kit_in_the_page:
  assumes "good_template before after template" "marker_free d"
  shows "Option.bind (read_kit_data (Some (script_text before (splice_kit template d)))) kit_of_json = Some d"
  using splice_then_read [OF assms] by (simp add: kit_of_kit_json)

lemma written_field: "(k, v) \<in> set kvs \<Longrightarrow> sublist (write_json esc v) (write_fields esc kvs)"
proof (induction kvs)
  case (Cons kv kvs)
  obtain k' v' where kv: "kv = (k', v')" by (cases kv)
  let ?a = "quote esc k' @ '':''" and ?b = "if kvs = [] then ''}'' else '','' @ write_fields esc kvs"
  have w: "write_fields esc (kv # kvs) = ?a @ write_json esc v' @ ?b" by (simp add: kv)
  show ?case
  proof (cases "v = v'")
    case True
    then show ?thesis unfolding w by (metis sublist_appendI)
  next
    case False
    then have "sublist (write_json esc v) (write_fields esc kvs)" "kvs \<noteq> []"
      using Cons kv by auto
    moreover have "sublist (write_fields esc kvs) (write_fields esc (kv # kvs))" if "kvs \<noteq> []"
    proof -
      have "write_fields esc (kv # kvs) = (?a @ write_json esc v' @ '','') @ write_fields esc kvs @ []"
        unfolding w using that by simp
      then show ?thesis by (metis sublist_appendI)
    qed
    ultimately show ?thesis by (meson sublist_order.order_trans)
  qed
qed simp

lemma written_object: "(k, v) \<in> set kvs \<Longrightarrow> sublist (write_json esc v) (write_json esc (JObj kvs))"
  using written_field [of k v kvs esc] by (simp add: sublist_Cons_right)

lemma marked_kit_unreadable:
  assumes "js_includes (the_default [] (kd_label d)) placeholder"
  shows "read_kit_data (Some (kit_json_text d)) = None"
proof -
  obtain l x y where l: "kd_label d = Some l" "l = x @ placeholder @ y"
    using assms placeholder_chars(1) by (cases "kd_label d") (auto simp: sublist_def)
  have "kit_escape c = [c]" if "c \<in> set placeholder" for c
  proof -
    have "list_all (\<lambda>c. kit_escape c = [c]) placeholder" by code_simp
    then show ?thesis using that by (simp add: list_all_iff)
  qed
  then have "concat (map kit_escape placeholder) = placeholder" by (simp add: concat_map_singleton cong: map_cong)
  then have "concat (map kit_escape l) = concat (map kit_escape x) @ placeholder @ concat (map kit_escape y)"
    by (simp add: l(2))
  then have "sublist placeholder (concat (map kit_escape l))" by (metis sublist_appendI)
  moreover have "sublist (concat (map kit_escape l)) (kit_json_text d)"
  proof -
    have "sublist (quote kit_escape l) (kit_json_text d)"
      using written_object [of "''label''" "JStr l" _ kit_escape]
      by (simp add: kit_json_text_def json_stringify_def escape_lt_write kit_json_def l(1) str_or_null_def
          del: write_fields.simps write_json.simps(6))
    moreover have "sublist (concat (map kit_escape l)) (quote kit_escape l)"
      unfolding quote_def by (rule sublist_appendI)
    ultimately show ?thesis by (rule sublist_order.order_trans [rotated])
  qed
  ultimately have "sublist placeholder (kit_json_text d)" by (rule sublist_order.order_trans)
  then show ?thesis by (simp add: read_kit_data_def)
qed

lemma b64encode_no_marker: "\<not> js_includes (b64encode bs) placeholder"
proof -
  have "CHR ''_'' \<notin> set (b64encode bs)"
    using sextets_bound [of "map unat bs"] bytes_lt [of bs] b64_char_plain
    by (fastforce simp: b64encode_sextets)
  moreover have "CHR ''_'' \<in> set placeholder" by (simp add: placeholder_def)
  ultimately show ?thesis using set_mono_sublist by (metis subsetD)
qed


definition sample_template :: jstr where
  "sample_template = ''<script id=x>'' @ placeholder @ ''</script>''"

lemma sample_template_good: "good_template ''<script id=x>'' ''</script>'' sample_template"
  unfolding good_template_def by code_simp

definition sample_envelope :: heir_envelope_params where
  "sample_envelope = \<lparr>he_vault_id = ''v1'', he_label = Some ''Family'', he_network = ''bitcoin'',
     he_timelock_blocks = 52560, he_descriptor_external = ''tr(a)'', he_descriptor_internal = ''tr(b)'',
     he_heir_name = ''Ada'', he_heir_xprv = ''xprvB''\<rparr>"



definition sample_kit_vault :: kit_vault where
  "sample_kit_vault = \<lparr>kv_id = ''v1'', kv_label = Some ''Family'', kv_network = ''bitcoin'',
     kv_timelock_blocks = 52560, kv_descriptor_external = Some ''tr(a)'', kv_descriptor_internal = Some ''tr(b)''\<rparr>"


text \<open>Drawing a word of the heir's passphrase favours no word: of the 32-bit draws, each word of the
  list is chosen by exactly as many as the list's length fits into the range, and the rest are drawn
  again.\<close>

theorem passphrase_unbiased:
  assumes "distinct wordlist" "k < length wordlist"
  shows "card {x. x < 2 ^ 32 \<and> pick_words wordlist 1 [x] = Some [wordlist ! k]} = 2 ^ 32 div length wordlist"
proof -
  let ?n = "length wordlist" and ?q = "2 ^ 32 div length wordlist"
  have n: "0 < ?n" using assms(2) by linarith
  have pick: "pick_words wordlist 1 [x] = Some [wordlist ! k] \<longleftrightarrow> x < ?q * ?n \<and> x mod ?n = k" for x
    using n nth_eq_iff_index_eq [OF assms(1) mod_less_divisor [OF n] assms(2), of x]
    by (auto simp: Let_def One_nat_def not_le simp del: One_nat_def [symmetric])
  have "{x. x < 2 ^ 32 \<and> pick_words wordlist 1 [x] = Some [wordlist ! k]} = (\<lambda>i. i * ?n + k) ` {..< ?q}"
  proof (intro equalityI subsetI)
    fix x
    assume "x \<in> {x. x < 2 ^ 32 \<and> pick_words wordlist 1 [x] = Some [wordlist ! k]}"
    then have "x < ?q * ?n" "x mod ?n = k" by (simp_all only: pick mem_Collect_eq)
    then have "x div ?n < ?q" "x = x div ?n * ?n + k"
      by (simp add: less_mult_imp_div_less) (metis div_mult_mod_eq \<open>x mod ?n = k\<close>)
    then show "x \<in> (\<lambda>i. i * ?n + k) ` {..< ?q}" by blast
  next
    fix x
    assume "x \<in> (\<lambda>i. i * ?n + k) ` {..< ?q}"
    then obtain i where i: "i < ?q" "x = i * ?n + k" by blast
    have "x < (i + 1) * ?n" using assms(2) by (simp add: i(2))
    also have "\<dots> \<le> ?q * ?n" using i(1) by (intro mult_le_mono1) simp
    finally have l: "x < ?q * ?n" .
    moreover have "?q * ?n \<le> 2 ^ 32" by (rule div_times_less_eq_dividend)
    moreover have "x mod ?n = k" using assms(2) by (simp add: i(2))
    ultimately show "x \<in> {x. x < 2 ^ 32 \<and> pick_words wordlist 1 [x] = Some [wordlist ! k]}"
      unfolding mem_Collect_eq pick by linarith
  qed
  moreover have "inj_on (\<lambda>i. i * ?n + k) {..< ?q}" using n by (intro inj_onI) simp
  ultimately show ?thesis by (simp add: card_image)
qed

theorem passphrase_unbiased_witness:
  "card {x. x < 2 ^ 32 \<and> pick_words [''able'', ''zoo'', ''you''] 1 [x] = Some [[''able'', ''zoo'', ''you''] ! 1]}
     = 2 ^ 32 div length [''able'', ''zoo'', ''you'']"
  by (rule passphrase_unbiased) simp_all

section \<open>Slugs, markup and the unlock handler\<close>

lemma dash_runs_set: "set (dash_runs b s) \<subseteq> {c. slug_char c} \<union> {CHR ''-''}"
  by (induction b s rule: dash_runs.induct) auto

lemma slugify_shape:
  "length (slugify s) \<le> 40 \<and> list_all (\<lambda>c. slug_char c \<or> c = CHR ''-'') (slugify s)
   \<and> (slugify s = [] \<or> hd (slugify s) \<noteq> CHR ''-'')"
proof -
  let ?d = "dropWhile (\<lambda>c. c = CHR ''-'') (dash_runs False (js_lower s))"
  have set: "set (slugify s) \<subseteq> {c. slug_char c} \<union> {CHR ''-''}"
    unfolding slugify_def strip_trailing_def using dash_runs_set [of False "js_lower s"]
    by (fastforce dest!: in_set_takeD set_dropWhileD)
  have "prefix (slugify s) ?d"
  proof -
    have "prefix (strip_trailing CHR ''-'' ?d) ?d"
      using suffix_dropWhile [of "\<lambda>x. x = CHR ''-''" "rev ?d"] by (simp add: strip_trailing_def suffix_to_prefix)
    then show ?thesis unfolding slugify_def by (meson prefix_order.order_trans take_is_prefix)
  qed
  then obtain t where t: "?d = slugify s @ t" unfolding prefix_def by blast
  have "slugify s = [] \<or> hd (slugify s) \<noteq> CHR ''-''"
  proof (cases "slugify s = []")
    case False
    then have d: "?d \<noteq> []" "hd ?d = hd (slugify s)" unfolding t by simp_all
    show ?thesis using hd_dropWhile [OF d(1)] unfolding d(2) by blast
  qed simp
  then show ?thesis using set by (auto simp: slugify_def list_all_iff)
qed

text \<open>The unlock handler restores the button and the bar, and shows the key or the error line.\<close>

lemma unlock_outcomes:
  assumes "password \<noteq> []"
  shows "\<not> uv_button_disabled (on_unlock C d password v) \<and> uv_bar_hidden (on_unlock C d password v)"
    "open_kit C d password = Inr xprv \<Longrightarrow>
       uv_revealed (on_unlock C d password v) = Some xprv \<and> uv_error (on_unlock C d password v) = None"
    "open_kit C d password = Inl e \<Longrightarrow> uv_revealed (on_unlock C d password v) = uv_revealed v
       \<and> uv_error (on_unlock C d password v) = Some (kit_error (kit_is_heir d))"
  using assms by (auto simp: on_unlock_def Let_def split: sum.splits)

text \<open>Text put through \<open>esc\<close> cannot open or close a tag.\<close>

lemma esc_html_no_tag: "CHR ''<'' \<notin> set (esc_html s) \<and> CHR ''>'' \<notin> set (esc_html s)"
  by (induction s) (auto simp: esc_html_def)

text \<open>It does not escape a double quote, so inside a quoted attribute it can end the attribute.\<close>

lemma esc_html_keeps_quote: "esc_html [CHR 0x22] = [CHR 0x22]"
  by (simp add: esc_html_def)
end
