(* ===== verification/Gates.thy ===== *)
theory Gates
  imports Js_Regex
begin

text \<open>
  The gates of the setup wizard: the password verdict (ghostkey-web/src/passwordStrength.ts), the
  password step (setupGates.ts) with the effect of the wizard that feeds it
  (PasswordSetupPortal.tsx), and the shape of an heir's contact (heirChannels.ts) beside the server's
  own check (validate_contact_shape in crates/ghostkey-server/src/routes.rs). The zxcvbn estimator is
  an argument. The arrow U+2192 of one advice text is written as two ASCII characters.
\<close>

section \<open>The strength verdict (passwordStrength.ts)\<close>

datatype tone = ToneBad | ToneOk | ToneGood

record strength_result =
  sr_score :: nat
  sr_acceptable :: bool
  sr_label :: jstr
  sr_tone :: tone
  sr_advice :: "jstr option"

definition min_score :: nat where "min_score = 3"

definition min_length :: nat where "min_length = 10"

record zx_result =
  zx_score :: nat
  zx_warning :: "jstr option"
  zx_suggestions :: "jstr list"

type_synonym zxcvbn = "jstr \<Rightarrow> jstr list \<Rightarrow> zx_result"

text \<open>The two module variables: the loaded estimator, and the promise of loading it. A promise settles
  once; it is represented by its outcome, \<open>None\<close> for a rejection.\<close>

record zx_loader =
  ld_loaded :: "zxcvbn option"
  ld_loading :: "zxcvbn option option"

definition initial_loader :: zx_loader where
  "initial_loader = \<lparr>ld_loaded = None, ld_loading = None\<rparr>"

text \<open>Awaiting \<open>loadZxcvbn()\<close>; \<open>attempt\<close> is what importing the dictionaries would give now.\<close>

definition load_zxcvbn :: "zxcvbn option \<Rightarrow> zx_loader \<Rightarrow> zxcvbn option \<times> zx_loader" where
  "load_zxcvbn attempt st =
     (case ld_loaded st of
        Some f \<Rightarrow> (Some f, st)
      | None \<Rightarrow>
          let outcome = (case ld_loading st of Some p \<Rightarrow> p | None \<Rightarrow> attempt)
          in (outcome, \<lparr>ld_loaded = outcome, ld_loading = Some outcome\<rparr>))"

definition preload_strength_checker :: "zxcvbn option \<Rightarrow> zx_loader \<Rightarrow> zx_loader" where
  "preload_strength_checker attempt st = snd (load_zxcvbn attempt st)"

definition apostrophe :: char where "apostrophe = CHR 0x27"

definition plain_advice :: "jstr option \<Rightarrow> jstr list \<Rightarrow> jstr option" where
  "plain_advice warning suggestions =
     (let raw = (if truthy warning then the warning else case suggestions of [] \<Rightarrow> [] | s # _ \<Rightarrow> s);
          lower = js_lower raw; has = (\<lambda>w. js_includes lower w)
      in if raw = [] then None
         else if has ''commonly used'' \<or> has ''top-10'' \<or> has ''top-100''
         then Some ''This exact password shows up in lists hackers try first. Pick something only you would think of.''
         else if has ''dates'' \<or> has ''years'' \<or> has ''recent years''
         then Some ''Dates and years are easy to guess. Leave them out.''
         else if has ''names'' \<and> has ''surnames''
         then Some ''Names are easy to guess. Try a few unrelated words instead.''
         else if has ''word by itself'' \<or> has ''dictionary''
         then Some ''A single word is easy to guess. String three or four unrelated words together.''
         else if has ''rows of keys'' \<or> has ''keyboard pattern''
         then Some ''Letters that sit next to each other on the keyboard are easy to guess.''
         else if has ''repeat'' \<or> has ([CHR 0x22] @ ''aaa'' @ [CHR 0x22]) \<or> has ([CHR 0x22] @ ''abcabcabc'' @ [CHR 0x22])
         then Some (''Repeating the same characters doesn'' @ [apostrophe] @ ''t add safety. Add different words instead.'')
         else if has ''sequence'' \<or> has ''abc'' \<or> has ''6543''
         then Some ''Sequences like abc or 123 are easy to guess.''
         else if has ''substitution'' \<or> has ''l33t'' \<or> has ''@ instead of a''
         then Some (''Swapping letters for symbols (a -> @) doesn'' @ [apostrophe] @ ''t fool anyone. Add more words instead.'')
         else Some raw)"

definition too_short_result :: strength_result where
  "too_short_result = \<lparr>sr_score = 0, sr_acceptable = False, sr_label = ''Too short'', sr_tone = ToneBad,
     sr_advice = Some (''Use at least '' @ show_nat min_length @ '' characters. Longer is better.'')\<rparr>"

definition length_only_result :: "jstr \<Rightarrow> strength_result" where
  "length_only_result password =
     (let long = 14 \<le> length password
      in \<lparr>sr_score = (if long then 3 else 2), sr_acceptable = long,
          sr_label = (if long then ''Okay'' else ''Too short''), sr_tone = (if long then ToneOk else ToneBad),
          sr_advice = (if long then None else Some ''Use at least 14 characters. Longer is better.'')\<rparr>)"

definition scored_result :: "zx_result \<Rightarrow> strength_result" where
  "scored_result r =
     (let advice = plain_advice (zx_warning r) (zx_suggestions r)
      in if min_score \<le> zx_score r
         then \<lparr>sr_score = zx_score r, sr_acceptable = True,
               sr_label = (if zx_score r = 4 then ''Excellent'' else ''Strong''), sr_tone = ToneGood,
               sr_advice = None\<rparr>
         else \<lparr>sr_score = zx_score r, sr_acceptable = False,
               sr_label = (if zx_score r \<le> 1 then ''Too easy to guess'' else ''Not strong enough''),
               sr_tone = ToneBad,
               sr_advice = Some (the_default ''Try three or four unrelated words, easy for you to remember, hard for anyone to guess.'' advice)\<rparr>)"

definition check_password :: "zxcvbn option \<Rightarrow> jstr \<Rightarrow> jstr list \<Rightarrow> zx_loader \<Rightarrow> strength_result \<times> zx_loader" where
  "check_password attempt password user_inputs st =
     (if length password < min_length then (too_short_result, st)
      else case load_zxcvbn attempt st of
             (None, st') \<Rightarrow> (length_only_result password, st')
           | (Some fn, st') \<Rightarrow> (scored_result (fn (take 72 password) user_inputs), st'))"

section \<open>The password step (setupGates.ts)\<close>

record password_step_input =
  psi_owner_email :: jstr
  psi_password :: jstr
  psi_confirm :: jstr
  psi_saved :: bool
  psi_strength :: "strength_result option"

definition password_step_error :: "password_step_input \<Rightarrow> jstr option" where
  "password_step_error i =
     (if js_trim (psi_owner_email i) = []
      then Some ''Your email lets you recover this vault on any device. We never use it for marketing.''
      else if \<not> email_shaped (js_trim (psi_owner_email i))
      then Some ''That email looks off. Double-check it.''
      else if length (psi_password i) < min_length
      then Some (''Pick a password that'' @ [apostrophe] @ ''s at least '' @ show_nat min_length @ '' characters. Longer is better.'')
      else case psi_strength i of
             None \<Rightarrow> Some ''One moment. Still checking that password.''
           | Some s \<Rightarrow>
               if \<not> sr_acceptable s
               then Some (the_default ''That password would be too easy to guess. Try three or four unrelated words.'' (sr_advice s))
               else if psi_password i \<noteq> psi_confirm i
               then Some (''The two passwords don'' @ [apostrophe] @ ''t match.'')
               else if \<not> psi_saved i
               then Some ''Save your password first, then tick the box to confirm. We can never reset it for you.''
               else None)"

definition can_create_vault :: "password_step_input \<Rightarrow> bool" where
  "can_create_vault i = (password_step_error i = None)"

section \<open>The verdict of the wizard (PasswordSetupPortal.tsx)\<close>

text \<open>The draft's password, the words an attacker would try first, the shown verdict, and the check
  that is waiting for its timer or its result. Changing the draft abandons that check.\<close>

record strength_form =
  sf_password :: jstr
  sf_personal :: "jstr list"
  sf_strength :: "strength_result option"
  sf_pending :: bool

definition initial_form :: strength_form where
  "initial_form = \<lparr>sf_password = [], sf_personal = [], sf_strength = None, sf_pending = False\<rparr>"

definition personal_words :: "jstr \<Rightarrow> (jstr \<times> jstr) list \<Rightarrow> jstr list" where
  "personal_words owner_email heirs = filter (\<lambda>w. w \<noteq> []) (owner_email # concat (map (\<lambda>(n, c). [n, c]) heirs))"

definition on_draft_change :: "jstr \<Rightarrow> jstr list \<Rightarrow> strength_form \<Rightarrow> strength_form" where
  "on_draft_change password personal f =
     (if password = [] then \<lparr>sf_password = [], sf_personal = personal, sf_strength = None, sf_pending = False\<rparr>
      else f\<lparr>sf_password := password, sf_personal := personal, sf_pending := True\<rparr>)"

definition on_check_result :: "(jstr \<Rightarrow> jstr list \<Rightarrow> strength_result) \<Rightarrow> strength_form \<Rightarrow> strength_form" where
  "on_check_result verdict f =
     (if sf_pending f
      then f\<lparr>sf_strength := Some (verdict (sf_password f) (sf_personal f)), sf_pending := False\<rparr>
      else f)"

section \<open>How an heir is reached (heirChannels.ts)\<close>

datatype channel = Sms | Email | Whatsapp

fun channel_name :: "channel \<Rightarrow> jstr" where
  "channel_name Sms = ''sms''"
| "channel_name Email = ''email''"
| "channel_name Whatsapp = ''whatsapp''"

record channel_option =
  co_id :: channel
  co_title :: jstr
  co_sub :: jstr
  co_placeholder :: jstr

definition heir_channels :: "channel_option list" where
  "heir_channels =
     [\<lparr>co_id = Sms, co_title = ''SMS'', co_sub = ''Phone number'', co_placeholder = ''+234 800 000 0000''\<rparr>,
      \<lparr>co_id = Whatsapp, co_title = ''WhatsApp'', co_sub = ''Same number'', co_placeholder = ''+234 800 000 0000''\<rparr>,
      \<lparr>co_id = Email, co_title = ''Email'', co_sub = ''Inbox'', co_placeholder = ''sarah@example.com''\<rparr>]"

definition looks_like_email :: "jstr \<Rightarrow> bool" where
  "looks_like_email contact =
     (case index_of ''@'' contact of
        None \<Rightarrow> False
      | Some at \<Rightarrow>
          if at = 0 then False
          else let domain = drop (at + 1) contact
               in js_includes domain ''.'' \<and> \<not> starts_with domain ''.'' \<and> \<not> ends_with domain ''.'')"

definition looks_like_phone :: "jstr \<Rightarrow> bool" where
  "looks_like_phone contact =
     (if \<not> starts_with contact ''+'' then False
      else let ds = drop 1 contact in 7 \<le> length ds \<and> test_full (rplus (RCls js_digit)) ds)"

definition contact_shape_error :: "channel \<Rightarrow> jstr \<Rightarrow> jstr option" where
  "contact_shape_error ch contact =
     (if ch = Email
      then (if looks_like_email contact then None
            else Some (''That doesn'' @ [apostrophe] @ ''t look like an email address.''))
      else if looks_like_phone contact then None
      else Some (''That doesn'' @ [apostrophe] @ ''t look like a phone number. Use the international format, like +2348000000000.''))"

text \<open>The server: \<open>split_once('@')\<close> and \<open>strip_prefix('+')\<close>.\<close>

definition validate_contact_shape :: "jstr \<Rightarrow> jstr \<Rightarrow> (jstr, unit) throws" where
  "validate_contact_shape ch contact =
     (if ch = ''email'' then
        (let ok = (case index_of ''@'' contact of
                     None \<Rightarrow> False
                   | Some at \<Rightarrow> take at contact \<noteq> [] \<and> js_includes (drop (at + 1) contact) ''.'')
         in if ok then Inr () else Inl (''That doesn'' @ [apostrophe] @ ''t look like an email address.''))
      else if ch = ''sms'' \<or> ch = ''whatsapp'' then
        (let ds = (if starts_with contact ''+'' then drop 1 contact else []);
             ok = (7 \<le> length ds \<and> list_all js_digit ds)
         in if ok then Inr ()
            else Inl (''That doesn'' @ [apostrophe] @ ''t look like a phone number. Use the international format, like +2348000000000.''))
      else Inr ())"

section \<open>What the gates guarantee\<close>

lemma plain_advice_nonempty: "plain_advice w ss \<noteq> Some []"
  by (simp only: plain_advice_def Let_def append_Cons append_Nil option.inject option.distinct
      list.distinct not_False_eq_True simp_thms split: if_split)

text \<open>What the three kinds of verdict have in common.\<close>

definition consistent :: "strength_result \<Rightarrow> bool" where
  "consistent r \<longleftrightarrow> (sr_advice r = None) = sr_acceptable r \<and> (sr_tone r = ToneBad) = (\<not> sr_acceptable r)
     \<and> sr_advice r \<noteq> Some []"

lemma too_short_simps [simp]: "\<not> sr_acceptable too_short_result" "consistent too_short_result"
  by (simp_all add: too_short_result_def consistent_def)

lemma length_only_simps [simp]:
  "sr_acceptable (length_only_result pw) \<longleftrightarrow> 14 \<le> length pw" "consistent (length_only_result pw)"
  by (simp_all add: length_only_result_def consistent_def Let_def)

lemma scored_simps [simp]:
  "sr_acceptable (scored_result r) \<longleftrightarrow> 3 \<le> zx_score r" "consistent (scored_result r)"
  using plain_advice_nonempty [of "zx_warning r" "zx_suggestions r"]
  by (auto simp: scored_result_def min_score_def Let_def consistent_def the_default_def split: option.split)

text \<open>A password is accepted exactly when it has ten characters and the estimator scores it three or
  more, or, with the dictionaries unreachable, when it has fourteen; a rejected one always comes with
  a non-empty advice and the bad tone, an accepted one with neither.\<close>

theorem verdict_exact:
  "let r = fst (check_password attempt password inputs st)
   in sr_acceptable r = (10 \<le> length password \<and>
        (case fst (load_zxcvbn attempt st) of
           Some fn \<Rightarrow> 3 \<le> zx_score (fn (take 72 password) inputs)
         | None \<Rightarrow> 14 \<le> length password))
    \<and> (sr_advice r = None) = sr_acceptable r \<and> (sr_tone r = ToneBad) = (\<not> sr_acceptable r)
    \<and> sr_advice r \<noteq> Some []"
proof -
  let ?r = "fst (check_password attempt password inputs st)"
  have "consistent ?r" by (auto simp: check_password_def split: option.split prod.split)
  moreover have "sr_acceptable ?r = (10 \<le> length password \<and>
        (case fst (load_zxcvbn attempt st) of
           Some fn \<Rightarrow> 3 \<le> zx_score (fn (take 72 password) inputs)
         | None \<Rightarrow> 14 \<le> length password))"
    by (auto simp: check_password_def min_length_def split: option.split prod.split)
  ultimately show ?thesis unfolding consistent_def Let_def by blast
qed

text \<open>A session of checks, each with what importing the dictionaries would give at that moment.\<close>

fun check_all :: "(zxcvbn option \<times> jstr \<times> jstr list) list \<Rightarrow> zx_loader \<Rightarrow> strength_result list" where
  "check_all [] st = []"
| "check_all ((attempt, password, inputs) # cs) st =
     (let (r, st') = check_password attempt password inputs st in r # check_all cs st')"

text \<open>A download of the dictionaries that fails is never tried again: after one failure, every later
  check of the session looks at the length alone, even when the dictionaries could be fetched by then.\<close>

theorem failed_download_is_final:
  "check_all cs (preload_strength_checker None initial_loader) =
     map (\<lambda>(attempt, password, inputs).
       if length password < 10 then too_short_result else length_only_result password) cs"
proof -
  define st where "st = preload_strength_checker None initial_loader"
  have st: "load_zxcvbn attempt st = (None, st)" for attempt
    by (simp add: st_def preload_strength_checker_def load_zxcvbn_def initial_loader_def)
  have "check_all cs st = map (\<lambda>(attempt, password, inputs).
      if length password < 10 then too_short_result else length_only_result password) cs"
    by (induction cs) (auto simp: check_password_def st min_length_def)
  then show ?thesis by (simp add: st_def)
qed

lemma password_step_ready:
  "can_create_vault i = (email_shaped (js_trim (psi_owner_email i)) \<and> 10 \<le> length (psi_password i)
     \<and> (\<exists>s. psi_strength i = Some s \<and> sr_acceptable s) \<and> psi_password i = psi_confirm i \<and> psi_saved i)"
  using email_shaped_nonempty [of "js_trim (psi_owner_email i)"]
  by (auto simp: can_create_vault_def password_step_error_def min_length_def split: option.splits)

text \<open>The wizard lets the owner create the vault exactly when every field is in order: an e-mail of
  the right shape, a password of ten characters or more with an accepting verdict, the same password
  twice, and the box ticked.\<close>

theorem password_step_ready_iff:
  "can_create_vault i = (email_shaped (js_trim (psi_owner_email i)) \<and> 10 \<le> length (psi_password i)
     \<and> (\<exists>s. psi_strength i = Some s \<and> sr_acceptable s) \<and> psi_password i = psi_confirm i \<and> psi_saved i)"
  by (rule password_step_ready)

datatype form_event = Draft jstr "jstr list" | Checked

definition form_step :: "(jstr \<Rightarrow> jstr list \<Rightarrow> strength_result) \<Rightarrow> form_event \<Rightarrow> strength_form \<Rightarrow> strength_form" where
  "form_step verdict e f =
     (case e of Draft password personal \<Rightarrow> on_draft_change password personal f
      | Checked \<Rightarrow> on_check_result verdict f)"

definition run_form :: "(jstr \<Rightarrow> jstr list \<Rightarrow> strength_result) \<Rightarrow> form_event list \<Rightarrow> strength_form" where
  "run_form verdict es = fold (form_step verdict) es initial_form"

definition form_inv :: "(jstr \<Rightarrow> jstr list \<Rightarrow> strength_result) \<Rightarrow> strength_form \<Rightarrow> bool" where
  "form_inv verdict f \<longleftrightarrow> (sf_pending f \<or> sf_strength f =
     (if sf_password f = [] then None else Some (verdict (sf_password f) (sf_personal f))))
     \<and> (sf_pending f \<longrightarrow> sf_password f \<noteq> [])"

lemma form_step_inv: "form_inv verdict f \<Longrightarrow> form_inv verdict (form_step verdict e f)"
  by (cases e) (auto simp: form_inv_def form_step_def on_draft_change_def on_check_result_def)

lemma run_form_inv: "form_inv verdict (run_form verdict es)"
proof -
  have "form_inv verdict f \<Longrightarrow> form_inv verdict (fold (form_step verdict) es f)" for f
    by (induction es arbitrary: f) (simp_all add: form_step_inv)
  moreover have "form_inv verdict initial_form" by (simp add: form_inv_def initial_form_def)
  ultimately show ?thesis by (simp add: run_form_def)
qed

text \<open>Whatever was typed before, once no check is outstanding the verdict shown is the one of the
  password in the field, with the words in the form, so a vault that can then be created has a
  password the check itself accepts.\<close>

theorem settled_verdict_is_current:
  assumes "\<not> sf_pending (run_form verdict es)"
    and "can_create_vault \<lparr>psi_owner_email = email, psi_password = sf_password (run_form verdict es),
           psi_confirm = confirm, psi_saved = saved, psi_strength = sf_strength (run_form verdict es)\<rparr>"
  shows "sr_acceptable (verdict (sf_password (run_form verdict es)) (sf_personal (run_form verdict es)))"
  using run_form_inv [of verdict es] assms
  by (auto simp: form_inv_def password_step_ready split: if_splits)

theorem settled_verdict_is_current_witness:
  "\<exists>f. f = run_form (\<lambda>pw ws. length_only_result pw) [Draft ''correct horse battery'' [], Checked]
     \<and> can_create_vault \<lparr>psi_owner_email = ''a@b.c'', psi_password = sf_password f,
           psi_confirm = ''correct horse battery'', psi_saved = True, psi_strength = sf_strength f\<rparr>
     \<and> sr_acceptable (length_only_result ''correct horse battery'')"
proof -
  let ?es = "[Draft ''correct horse battery'' [], Checked]" and ?v = "\<lambda>pw ws :: jstr list. length_only_result pw"
  have f: "run_form ?v ?es = \<lparr>sf_password = ''correct horse battery'', sf_personal = [],
      sf_strength = Some (length_only_result ''correct horse battery''), sf_pending = False\<rparr>"
    by (simp add: run_form_def form_step_def on_draft_change_def on_check_result_def initial_form_def)
  have p: "\<not> sf_pending (run_form ?v ?es)" by (simp add: f)
  have e: "email_shaped (js_trim ''a@b.c'')" by code_simp
  have c: "can_create_vault \<lparr>psi_owner_email = ''a@b.c'', psi_password = sf_password (run_form ?v ?es),
      psi_confirm = ''correct horse battery'', psi_saved = True, psi_strength = sf_strength (run_form ?v ?es)\<rparr>"
    using e by (simp add: f password_step_ready)
  show ?thesis using settled_verdict_is_current [OF p c] c by (simp add: f)
qed

text \<open>Between a keystroke and the end of its check the verdict shown is still that of the earlier
  password: a strong password, checked, and then replaced in both fields by a weak one of ten
  characters passes the gate although the check would refuse it.\<close>

theorem unchecked_password_passes:
  "let f = run_form (\<lambda>pw ws. length_only_result pw) [Draft ''correct horse battery'' [], Checked, Draft ''password12'' []]
   in can_create_vault \<lparr>psi_owner_email = ''a@b.c'', psi_password = sf_password f,
           psi_confirm = ''password12'', psi_saved = True, psi_strength = sf_strength f\<rparr>
      \<and> sf_password f = ''password12'' \<and> \<not> sr_acceptable (length_only_result ''password12'')"
proof -
  have e: "email_shaped (js_trim ''a@b.c'')" by code_simp
  then show ?thesis
    by (simp add: run_form_def form_step_def on_draft_change_def on_check_result_def initial_form_def
        password_step_ready)
qed

lemma phone_agrees:
  "looks_like_phone s \<longleftrightarrow> (7 \<le> length (if starts_with s ''+'' then drop 1 s else [])
     \<and> list_all js_digit (if starts_with s ''+'' then drop 1 s else []))"
  by (auto simp: looks_like_phone_def test_full_iff Let_def)

text \<open>A contact the form accepts is one the server accepts, and for phone numbers the two agree
  exactly; for e-mail the form is stricter: the server also takes a domain that begins or ends with
  its dot.\<close>

theorem contact_check_stricter_than_server:
  "(contact_shape_error ch s = None \<longrightarrow> validate_contact_shape (channel_name ch) s = Inr ())
   \<and> (ch \<noteq> Email \<longrightarrow> (contact_shape_error ch s = None) = (validate_contact_shape (channel_name ch) s = Inr ()))
   \<and> validate_contact_shape ''email'' ''a@.b'' = Inr () \<and> contact_shape_error Email ''a@.b'' \<noteq> None"
proof -
  have c: "validate_contact_shape ''email'' ''a@.b'' = Inr ()" "contact_shape_error Email ''a@.b'' \<noteq> None"
    by (simp_all add: validate_contact_shape_def contact_shape_error_def looks_like_email_def Let_def sublist_Cons_right)
  show ?thesis
  proof (cases "ch = Email")
    case True
    have "looks_like_email s \<Longrightarrow> validate_contact_shape ''email'' s = Inr ()"
      by (auto simp: looks_like_email_def validate_contact_shape_def Let_def split: option.splits if_splits
          dest: index_of_Some)
    then show ?thesis using True c by (simp add: contact_shape_error_def split: if_splits)
  next
    case False
    then have "channel_name ch = ''sms'' \<or> channel_name ch = ''whatsapp''" by (cases ch) simp_all
    then have "(validate_contact_shape (channel_name ch) s = Inr ()) = looks_like_phone s"
      unfolding phone_agrees by (auto simp: validate_contact_shape_def Let_def)
    then show ?thesis using False c by (simp add: contact_shape_error_def split: if_splits)
  qed
qed

theorem contact_check_stricter_than_server_witness:
  "validate_contact_shape (channel_name Sms) ''+2348000000'' = Inr ()"
proof -
  have "contact_shape_error Sms ''+2348000000'' = None"
    by (simp add: contact_shape_error_def phone_agrees js_digit_def less_eq_char_def)
  then show ?thesis using contact_check_stricter_than_server [of Sms "''+2348000000''"] by blast
qed

end
