(* ===== verification/Money.thy ===== *)
theory Money
  imports GK_Prelude Complex_Main
begin

text \<open>
  Amounts (ghostkey-web/src/fiat.ts). Amounts in sats are integers; a division by 10^8 printed with
  eight decimals is exact for every amount of bitcoin there can be, so \<open>toFixed(8)\<close> is modelled on the
  integer. Prices are rationals, and the browser's currency format is an argument. The separator of
  the combined line is written as \<open>|\<close> and its approximation sign as \<open>~\<close>.
\<close>

definition sats_per_btc :: nat where "sats_per_btc = 100000000"

definition sats_to_btc :: "int \<Rightarrow> rat" where
  "sats_to_btc sats = of_int sats / of_nat sats_per_btc"

definition sats_to_usd :: "int \<Rightarrow> rat \<Rightarrow> rat" where
  "sats_to_usd sats usd_per_btc = sats_to_btc sats * usd_per_btc"

definition format_usd :: "(rat \<Rightarrow> nat \<Rightarrow> jstr) \<Rightarrow> rat \<Rightarrow> jstr" where
  "format_usd to_currency usd =
     (let maximum_fraction_digits = (if usd \<noteq> 0 \<and> \<bar>usd\<bar> < 1 then 4 else 2)
      in to_currency usd maximum_fraction_digits)"

text \<open>\<open>toFixed(8)\<close> of an amount of sats over 10^8.\<close>

definition pad8 :: "jstr \<Rightarrow> jstr" where
  "pad8 s = replicate (8 - length s) CHR ''0'' @ s"

definition to_fixed8 :: "int \<Rightarrow> jstr" where
  "to_fixed8 sats =
     (let n = nat \<bar>sats\<bar>
      in (if sats < 0 then ''-'' else []) @ show_nat (n div sats_per_btc) @ ''.'' @ pad8 (show_nat (n mod sats_per_btc)))"

text \<open>\<open>replace(/0+$/, "")\<close>, then \<open>replace(/\.$/, "")\<close>.\<close>

definition drop_dot :: "jstr \<Rightarrow> jstr" where
  "drop_dot s = (if ends_with s ''.'' then butlast s else s)"

definition format_btc :: "int \<Rightarrow> jstr" where
  "format_btc sats = drop_dot (strip_trailing CHR ''0'' (to_fixed8 sats)) @ '' BTC''"

definition btc_and_usd :: "(rat \<Rightarrow> nat \<Rightarrow> jstr) \<Rightarrow> int \<Rightarrow> rat option \<Rightarrow> jstr" where
  "btc_and_usd to_currency sats usd_per_btc =
     (let btc = format_btc sats
      in case usd_per_btc of
           None \<Rightarrow> btc
         | Some p \<Rightarrow> btc @ '' | ~ '' @ format_usd to_currency (sats_to_usd sats p))"

section \<open>The price hook\<close>

text \<open>The module's cached rate and the rate a component shows; the reply of \<open>api.getPrice\<close> is \<open>None\<close> for a
  failure. A component that was unmounted in the meantime changes nothing.\<close>

record price_state =
  pr_cached :: "rat option"
  pr_shown :: "rat option"
  pr_mounted :: bool

definition mount_price :: "rat option \<Rightarrow> price_state" where
  "mount_price cached = \<lparr>pr_cached = cached, pr_shown = cached, pr_mounted = True\<rparr>"

definition price_request_needed :: "price_state \<Rightarrow> bool" where
  "price_request_needed s = (pr_cached s = None)"

definition on_price :: "rat option \<Rightarrow> price_state \<Rightarrow> price_state" where
  "on_price reply s =
     (case reply of
        None \<Rightarrow> s
      | Some p \<Rightarrow> if \<not> pr_mounted s then s else s\<lparr>pr_cached := Some p, pr_shown := Some p\<rparr>)"

definition unmount_price :: "price_state \<Rightarrow> price_state" where
  "unmount_price s = s\<lparr>pr_mounted := False\<rparr>"

section \<open>Reading an amount back\<close>

text \<open>A decimal with at most eight places, in units of 10^-8.\<close>

definition read_unsigned :: "jstr \<Rightarrow> nat" where
  "read_unsigned t =
     (let w = takeWhile js_digit t; f = takeWhile js_digit (drop (length w + 1) t)
      in nat_of_digits w * sats_per_btc + nat_of_digits (f @ replicate (8 - length f) CHR ''0''))"

definition read_btc :: "jstr \<Rightarrow> int" where
  "read_btc s = (if s \<noteq> [] \<and> hd s = CHR ''-'' then - int (read_unsigned (tl s)) else int (read_unsigned s))"

text \<open>The zeros cut off the end are exactly the ones reading puts back.\<close>

lemma strip_zeros:
  obtains k where "s = strip_trailing c s @ replicate k c"
proof -
  have "s = rev (dropWhile (\<lambda>x. x = c) (rev s)) @ rev (takeWhile (\<lambda>x. x = c) (rev s))"
    by (metis rev_append rev_rev_ident takeWhile_dropWhile_id)
  moreover have "takeWhile (\<lambda>x. x = c) (rev s) = replicate (length (takeWhile (\<lambda>x. x = c) (rev s))) c"
    by (metis (mono_tags, lifting) replicate_length_same set_takeWhileD)
  ultimately show thesis using that unfolding strip_trailing_def by (metis rev_replicate)
qed

lemma show_nat_length: "n < 10 ^ k \<Longrightarrow> 0 < k \<Longrightarrow> length (show_nat n) \<le> k"
proof (induction n arbitrary: k rule: show_nat.induct)
  case (1 n)
  show ?case
  proof (cases "n < 10")
    case True
    then show ?thesis using 1(3) by (simp add: show_nat.simps [of n])
  next
    case False
    obtain j where j: "k = Suc j" using 1(3) by (cases k) auto
    have "0 < j" using False 1(2) j by (cases j) auto
    moreover have "n div 10 < 10 ^ j" using 1(2) j by (simp add: less_mult_imp_div_less mult.commute)
    ultimately show ?thesis using 1(1) False j by (simp add: show_nat.simps [of n])
  qed
qed

lemma pad8_facts:
  assumes "n < sats_per_btc"
  shows "length (pad8 (show_nat n)) = 8" "nat_of_digits (pad8 (show_nat n)) = n" "digits (pad8 (show_nat n))"
proof -
  have "length (show_nat n) \<le> 8" using assms show_nat_length [of n 8] by (simp add: sats_per_btc_def)
  then show "length (pad8 (show_nat n)) = 8" by (simp add: pad8_def)
  have "nat_of_digits (replicate k CHR ''0'' @ s) = nat_of_digits s" for k s
    by (induction k) (simp_all add: nat_of_digits_zero)
  then show "nat_of_digits (pad8 (show_nat n)) = n" by (simp add: pad8_def)
  show "digits (pad8 (show_nat n))"
    using show_nat_digits [of n] by (auto simp: pad8_def digits_def js_digit_def less_eq_char_def list_all_iff)
qed

lemma strip_trailing_after: "d \<noteq> c \<Longrightarrow> strip_trailing c (a @ d # b) = a @ d # strip_trailing c b"
  by (simp add: strip_trailing_def dropWhile_append)

lemma drop_dot_snoc: "drop_dot (x @ ''.'') = x"
  by (simp add: drop_dot_def suffix_def)

lemma format_btc_parts:
  fixes sats :: int
  defines "n \<equiv> nat \<bar>sats\<bar>"
  defines "f \<equiv> strip_trailing CHR ''0'' (pad8 (show_nat (n mod sats_per_btc)))"
  shows "format_btc sats = (if sats < 0 then ''-'' else []) @ show_nat (n div sats_per_btc)
     @ (if f = [] then [] else CHR ''.'' # f) @ '' BTC''"
    and "f @ replicate (8 - length f) CHR ''0'' = pad8 (show_nat (n mod sats_per_btc))"
    and "list_all js_digit f" "f = [] \<or> last f \<noteq> CHR ''0''"
proof -
  let ?p = "pad8 (show_nat (n mod sats_per_btc))"
  have p: "length ?p = 8" "digits ?p" using pad8_facts [of "n mod sats_per_btc"] by (simp_all add: sats_per_btc_def)
  obtain k where k: "?p = f @ replicate k CHR ''0''" unfolding f_def by (rule strip_zeros)
  then have "8 - length f = k" using p(1) by (metis add_diff_cancel_left' length_append length_replicate)
  then show "f @ replicate (8 - length f) CHR ''0'' = ?p" by (simp add: k)
  show d: "list_all js_digit f" using p(2) k by (simp add: digits_def)
  show "f = [] \<or> last f \<noteq> CHR ''0''" unfolding f_def by (rule strip_trailing_ends)
  have s: "strip_trailing CHR ''0'' (to_fixed8 sats)
      = (if sats < 0 then ''-'' else []) @ show_nat (n div sats_per_btc) @ CHR ''.'' # f"
    using strip_trailing_after [of "CHR ''.''" "CHR ''0''" "(if sats < 0 then ''-'' else []) @ show_nat (n div sats_per_btc)" ?p]
    by (simp add: to_fixed8_def Let_def n_def f_def)
  show "format_btc sats = (if sats < 0 then ''-'' else []) @ show_nat (n div sats_per_btc)
     @ (if f = [] then [] else CHR ''.'' # f) @ '' BTC''"
  proof (cases "f = []")
    case True
    then show ?thesis
      using drop_dot_snoc [of "(if sats < 0 then ''-'' else []) @ show_nat (n div sats_per_btc)"]
      by (simp add: format_btc_def s split: if_splits)
  next
    case False
    then have "\<not> js_digit CHR ''.'' \<and> js_digit (last f)" using d by (simp add: list_all_iff)
    then have "\<not> ends_with ((if sats < 0 then ''-'' else []) @ show_nat (n div sats_per_btc) @ CHR ''.'' # f) ''.''"
      using False by (metis append_is_Nil_conv last_ConsR last_appendR last_snoc list.distinct(1) suffix_def)
    then show ?thesis using False by (simp add: format_btc_def s drop_dot_def)
  qed
qed

text \<open>An amount written in BTC reads back to exactly the same number of sats, and is written without
  superfluous zeros: what follows the dot, if there is one, does not end in zero.\<close>

theorem format_btc_reads_back:
  "read_btc (format_btc sats) = sats
   \<and> (\<exists>a f. format_btc sats = a @ f @ '' BTC'' \<and> CHR ''.'' \<notin> set a \<and> (f = [] \<or> hd f = CHR ''.'' \<and> last f \<noteq> CHR ''0''
        \<and> length f \<le> 9))"
proof -
  define n where "n = nat \<bar>sats\<bar>"
  define f where "f = strip_trailing CHR ''0'' (pad8 (show_nat (n mod sats_per_btc)))"
  let ?w = "show_nat (n div sats_per_btc)"
  let ?f = "if f = [] then [] else CHR ''.'' # f"
  note parts = format_btc_parts [of sats, folded n_def, folded f_def]
  have w: "list_all js_digit ?w" "?w \<noteq> []" using show_nat_digits by (simp_all add: digits_def)
  have nd: "\<not> js_digit CHR '' ''" "\<not> js_digit CHR ''.''" "\<not> js_digit CHR ''B''" "\<not> js_digit CHR ''-''"
    by (simp_all add: js_digit_def less_eq_char_def)
  have tw: "takeWhile js_digit (x @ y) = x" if "list_all js_digit x" "y = [] \<or> \<not> js_digit (hd y)" for x y
    using that by (cases y) (auto simp: list_all_iff takeWhile_append)
  have t1: "takeWhile js_digit (?w @ ?f @ '' BTC'') = ?w" using w nd by (intro tw) auto
  have t2: "takeWhile js_digit (drop (length ?w + 1) (?w @ ?f @ '' BTC'')) = f"
    using parts(3) nd by (auto simp: tw)
  have "nat_of_digits (f @ replicate (8 - length f) CHR ''0'') = n mod sats_per_btc"
    using parts(2) pad8_facts(2) [of "n mod sats_per_btc"] by (simp add: sats_per_btc_def)
  then have v: "nat_of_digits ?w * sats_per_btc + nat_of_digits (f @ replicate (8 - length f) CHR ''0'') = n"
    by simp
  have m: "hd (?w @ ?f @ '' BTC'') \<noteq> CHR ''-''" using w nd by (cases ?w) auto
  have u: "read_unsigned (?w @ ?f @ '' BTC'') = n"
    unfolding read_unsigned_def Let_def t1 t2 by (rule v)
  have "read_btc (format_btc sats) = sats"
  proof (cases "sats < 0")
    case True
    then have "format_btc sats = CHR ''-'' # ?w @ ?f @ '' BTC''" by (simp add: parts(1))
    then show ?thesis using True u by (simp add: read_btc_def n_def)
  next
    case False
    then have "format_btc sats = ?w @ ?f @ '' BTC''" by (simp add: parts(1))
    then show ?thesis using False u m by (simp add: read_btc_def n_def)
  qed
  moreover have "length f \<le> 8"
    using parts(2) pad8_facts(1) [of "n mod sats_per_btc"]
    by (metis length_append le_add1 mod_less_divisor sats_per_btc_def zero_less_numeral)
  moreover have "CHR ''.'' \<notin> set ((if sats < 0 then ''-'' else []) @ ?w)"
    using w nd by (auto simp: list_all_iff)
  ultimately show ?thesis
    using parts(1,4) by (intro conjI exI [of _ "(if sats < 0 then ''-'' else []) @ ?w"] exI [of _ ?f]) auto
qed

text \<open>However the components of a session mount, receive replies and unmount, a component shows a rate
  only when it is the cached one, a failed request shows nothing new, and once a rate is cached no
  component that mounts afterwards asks again.\<close>

theorem price_shown_is_cached:
  "pr_shown (on_price reply (mount_price cached)) = pr_cached (on_price reply (mount_price cached))
   \<and> on_price reply (unmount_price s) = unmount_price s
   \<and> (price_request_needed (mount_price (pr_cached (on_price reply (mount_price None)))) = (reply = None))"
  by (cases reply) (simp_all add: on_price_def mount_price_def unmount_price_def price_request_needed_def)

end
