(* ===== verification/Api.thy ===== *)
theory Api
  imports Claim_Errors Js_Object
begin

text \<open>
  The typed client of the server (ghostkey-web/src/api.ts): the bodies of the requests and how they
  are written as JSON, one constructor of \<open>call\<close> per function of the \<open>api\<close> object, the request that
  goes over the wire, and what a reply is turned into. The network is an argument.
\<close>

section \<open>Optional fields\<close>

text \<open>A field declared \<open>k?: T | null\<close> may be missing, null, or given; \<open>JSON.stringify\<close> leaves a missing
  one out.\<close>

datatype 'a field = Absent | Null | Given 'a

fun field_json :: "('a \<Rightarrow> json) \<Rightarrow> jstr \<Rightarrow> 'a field \<Rightarrow> (jstr \<times> json) list" where
  "field_json enc k Absent = []"
| "field_json enc k Null = [(k, JNull)]"
| "field_json enc k (Given x) = [(k, enc x)]"

definition or_null :: "jstr option \<Rightarrow> json" where
  "or_null x = (case x of None \<Rightarrow> JNull | Some s \<Rightarrow> JStr s)"

section \<open>Bodies\<close>

record sealed_setup =
  ss_password_salt_b64 :: jstr
  ss_password_kdf_mem_kib :: int
  ss_password_kdf_iters :: int
  ss_owner_xprv_ct_b64 :: jstr
  ss_owner_xprv_nonce_b64 :: jstr
  ss_owner_token_ct_b64 :: jstr
  ss_owner_token_nonce_b64 :: jstr
  ss_heir_xprv_ct_b64 :: "jstr field"
  ss_heir_xprv_nonce_b64 :: "jstr field"
  ss_owner_email_hash :: jstr
  ss_claim_token_b64 :: "jstr field"

definition sealed_setup_json :: "sealed_setup \<Rightarrow> json" where
  "sealed_setup_json s = JObj
     ([(''password_salt_b64'', JStr (ss_password_salt_b64 s)),
       (''password_kdf_mem_kib'', JInt (ss_password_kdf_mem_kib s)),
       (''password_kdf_iters'', JInt (ss_password_kdf_iters s)),
       (''owner_xprv_ct_b64'', JStr (ss_owner_xprv_ct_b64 s)),
       (''owner_xprv_nonce_b64'', JStr (ss_owner_xprv_nonce_b64 s)),
       (''owner_token_ct_b64'', JStr (ss_owner_token_ct_b64 s)),
       (''owner_token_nonce_b64'', JStr (ss_owner_token_nonce_b64 s))]
      @ field_json JStr ''heir_xprv_ct_b64'' (ss_heir_xprv_ct_b64 s)
      @ field_json JStr ''heir_xprv_nonce_b64'' (ss_heir_xprv_nonce_b64 s)
      @ [(''owner_email_hash'', JStr (ss_owner_email_hash s))]
      @ field_json JStr ''claim_token_b64'' (ss_claim_token_b64 s))"

record party_xpub =
  px_xpub :: jstr
  px_fingerprint :: "jstr field"

definition party_json :: "party_xpub \<Rightarrow> json" where
  "party_json p = JObj ((''xpub'', JStr (px_xpub p)) # field_json JStr ''fingerprint'' (px_fingerprint p))"

text \<open>The contact channels sms, email and whatsapp are texts here.\<close>

record create_vault_request =
  cv_label :: "jstr option"
  cv_network :: jstr
  cv_descriptor_external :: jstr
  cv_descriptor_internal :: jstr
  cv_timelock_blocks :: int
  cv_checkin_period_secs :: int
  cv_grace_period_secs :: int
  cv_owner_contact :: "jstr field"
  cv_owner_contact_channel :: "jstr field"
  cv_heir_contact :: "jstr field"

definition create_vault_json :: "create_vault_request \<Rightarrow> json" where
  "create_vault_json r = JObj
     ([(''label'', or_null (cv_label r)), (''network'', JStr (cv_network r)),
       (''descriptor_external'', JStr (cv_descriptor_external r)),
       (''descriptor_internal'', JStr (cv_descriptor_internal r)),
       (''timelock_blocks'', JInt (cv_timelock_blocks r)),
       (''checkin_period_secs'', JInt (cv_checkin_period_secs r)),
       (''grace_period_secs'', JInt (cv_grace_period_secs r))]
      @ field_json JStr ''owner_contact'' (cv_owner_contact r)
      @ field_json JStr ''owner_contact_channel'' (cv_owner_contact_channel r)
      @ field_json JStr ''heir_contact'' (cv_heir_contact r))"

record create_vault_from_xpub_request =
  cx_label :: "jstr option"
  cx_network :: jstr
  cx_owner :: party_xpub
  cx_heir :: party_xpub
  cx_timelock_blocks :: int
  cx_checkin_period_secs :: int
  cx_grace_period_secs :: int
  cx_owner_contact :: "jstr field"
  cx_owner_contact_channel :: "jstr field"
  cx_heir_contact :: "jstr field"
  cx_heir_contact_channel :: "jstr field"
  cx_sealed :: "sealed_setup field"
  cx_heir_derivation :: "jstr field"
  cx_trusted_contact :: "jstr field"
  cx_trusted_contact_channel :: "jstr field"
  cx_from_name :: "jstr field"
  cx_heir_note :: "jstr field"

definition create_from_xpub_json :: "create_vault_from_xpub_request \<Rightarrow> json" where
  "create_from_xpub_json r = JObj
     ([(''label'', or_null (cx_label r)), (''network'', JStr (cx_network r)),
       (''owner'', party_json (cx_owner r)), (''heir'', party_json (cx_heir r)),
       (''timelock_blocks'', JInt (cx_timelock_blocks r)),
       (''checkin_period_secs'', JInt (cx_checkin_period_secs r)),
       (''grace_period_secs'', JInt (cx_grace_period_secs r))]
      @ field_json JStr ''owner_contact'' (cx_owner_contact r)
      @ field_json JStr ''owner_contact_channel'' (cx_owner_contact_channel r)
      @ field_json JStr ''heir_contact'' (cx_heir_contact r)
      @ field_json JStr ''heir_contact_channel'' (cx_heir_contact_channel r)
      @ field_json sealed_setup_json ''sealed'' (cx_sealed r)
      @ field_json (\<lambda>email. JObj [(''email'', JStr email)]) ''heir_derivation'' (cx_heir_derivation r)
      @ field_json JStr ''trusted_contact'' (cx_trusted_contact r)
      @ field_json JStr ''trusted_contact_channel'' (cx_trusted_contact_channel r)
      @ field_json JStr ''from_name'' (cx_from_name r)
      @ field_json JStr ''heir_note'' (cx_heir_note r))"

record guardian_party =
  gp_xpub :: jstr
  gp_fingerprint :: "jstr field"
  gp_xprv_ct_b64 :: jstr
  gp_xprv_nonce_b64 :: jstr
  gp_claim_token_b64 :: jstr
  gp_contact :: "jstr field"
  gp_contact_channel :: "jstr field"

definition guardian_json :: "guardian_party \<Rightarrow> json" where
  "guardian_json g = JObj
     ([(''xpub'', JStr (gp_xpub g))] @ field_json JStr ''fingerprint'' (gp_fingerprint g)
      @ [(''xprv_ct_b64'', JStr (gp_xprv_ct_b64 g)), (''xprv_nonce_b64'', JStr (gp_xprv_nonce_b64 g)),
         (''claim_token_b64'', JStr (gp_claim_token_b64 g))]
      @ field_json JStr ''contact'' (gp_contact g)
      @ field_json JStr ''contact_channel'' (gp_contact_channel g))"

record create_vault_guardian_request =
  cg_label :: "jstr option"
  cg_network :: jstr
  cg_owner :: party_xpub
  cg_heir :: party_xpub
  cg_guardian1 :: guardian_party
  cg_guardian2 :: guardian_party
  cg_timelock_blocks :: int
  cg_checkin_period_secs :: int
  cg_grace_period_secs :: int
  cg_owner_contact :: "jstr field"
  cg_owner_contact_channel :: "jstr field"
  cg_heir_contact :: "jstr field"
  cg_heir_contact_channel :: "jstr field"
  cg_sealed :: sealed_setup
  cg_from_name :: "jstr field"
  cg_heir_note :: "jstr field"
  cg_unlock_height :: "int field"

definition create_guardian_json :: "create_vault_guardian_request \<Rightarrow> json" where
  "create_guardian_json r = JObj
     ([(''label'', or_null (cg_label r)), (''network'', JStr (cg_network r)),
       (''owner'', party_json (cg_owner r)), (''heir'', party_json (cg_heir r)),
       (''guardian1'', guardian_json (cg_guardian1 r)), (''guardian2'', guardian_json (cg_guardian2 r)),
       (''timelock_blocks'', JInt (cg_timelock_blocks r)),
       (''checkin_period_secs'', JInt (cg_checkin_period_secs r)),
       (''grace_period_secs'', JInt (cg_grace_period_secs r))]
      @ field_json JStr ''owner_contact'' (cg_owner_contact r)
      @ field_json JStr ''owner_contact_channel'' (cg_owner_contact_channel r)
      @ field_json JStr ''heir_contact'' (cg_heir_contact r)
      @ field_json JStr ''heir_contact_channel'' (cg_heir_contact_channel r)
      @ [(''sealed'', sealed_setup_json (cg_sealed r))]
      @ field_json JStr ''from_name'' (cg_from_name r)
      @ field_json JStr ''heir_note'' (cg_heir_note r)
      @ field_json JInt ''unlock_height'' (cg_unlock_height r))"

record build_claim_psbt_request =
  bp_destination :: jstr
  bp_fee_rate :: "int field"

record heir_claim_request =
  hc_destination :: jstr
  hc_fee_rate :: "int field"
  hc_heir_xprv :: jstr

record guardian_claim_request =
  gc_destination :: jstr
  gc_fee_rate :: "int field"
  gc_heir_xprv :: jstr
  gc_guardian_xprv :: jstr

record owner_send_body =
  os_destination :: jstr
  os_amount_sat :: "int field"
  os_fee_rate :: "int field"
  os_owner_xprv :: jstr

record upload_video_body =
  uv_ct :: jstr
  uv_nonce :: jstr
  uv_mime :: jstr
  uv_duration_ms :: "int option"
  uv_owner_sig :: jstr
  uv_signed_sha256 :: jstr

record push_subscription_body =
  pb_endpoint :: jstr
  pb_p256dh :: jstr
  pb_auth :: jstr

record assist_message =
  am_user :: bool
  am_content :: jstr

section \<open>The functions of the client\<close>

text \<open>One constructor per function of \<open>api\<close>, with its parameters in order; an owner token that may be
  null is an option. \<open>trackEvent\<close>, which bypasses \<open>request\<close>, follows below.\<close>

datatype call =
    Health
  | HealthLightning
  | GetVault jstr "jstr option"
  | GetVaultHeir jstr "jstr option"
  | CheckContact jstr
  | UpdateVaultHeir jstr "jstr option" jstr jstr
  | DeleteVault jstr jstr
  | PushSubscribe jstr push_subscription_body jstr
  | PushUnsubscribe jstr jstr jstr
  | CreateVault create_vault_request
  | CreateVaultFromXpub create_vault_from_xpub_request
  | CreateVaultGuardian create_vault_guardian_request
  | RequestOwnerRecovery jstr
  | ExchangeOwnerRecovery jstr
  | GetSealedBlobs jstr jstr
  | GetVaultAddress jstr
  | OwnerSend jstr jstr owner_send_body
  | GetVaultBalance jstr
  | AssistChat "assist_message list"
  | SealOwnerToken jstr jstr jstr jstr
  | GetVideoStatus jstr "jstr option"
  | DeleteVideo jstr "jstr option"
  | GetVaultClaimToken jstr "jstr option"
  | UploadVideo jstr jstr upload_video_body
  | Checkin jstr "jstr option"
  | CheckinFromLink jstr jstr
  | VerifyContact jstr jstr
  | ResendVerification jstr "jstr option"
  | LightningCreateInvoice jstr "jstr option"
  | LightningInvoiceStatus jstr jstr "jstr option"
  | LightningCreateInvoiceFromLink jstr jstr
  | LightningInvoiceStatusFromLink jstr jstr jstr
  | ListEvents jstr "jstr option"
  | ResolveClaim jstr
  | StartDrill jstr jstr
  | CompleteDrill jstr
  | ClaimUnlockEstimate jstr
  | GetClaimVideo jstr
  | BuildClaimPsbt jstr build_claim_psbt_request
  | BroadcastClaim jstr jstr
  | GetSealedHeirXprv jstr
  | GetHeirDerivationParams jstr
  | HeirClaim jstr heir_claim_request
  | GetSealedGuardianXprv jstr
  | GuardianClaim jstr guardian_claim_request
  | GetPrice
  | SubscribeNewsletter jstr "jstr option"

text \<open>\<open>encodeURIComponent\<close>: UTF-8, percent-encoded outside the unreserved characters.\<close>

definition uri_unreserved :: "char \<Rightarrow> bool" where
  "uri_unreserved c = (in_range CHR ''a'' CHR ''z'' c \<or> in_range CHR ''A'' CHR ''Z'' c \<or> js_digit c
     \<or> c \<in> set ''-_.!~*()'' \<or> c = CHR 0x27)"

definition hex_upper :: "nat \<Rightarrow> char" where
  "hex_upper n = (if n < 10 then char_of (48 + n) else char_of (55 + n))"

definition percent_byte :: "8 word \<Rightarrow> jstr" where
  "percent_byte b = [CHR ''%'', hex_upper (unat b div 16), hex_upper (unat b mod 16)]"

definition encode_uri_component :: "jstr \<Rightarrow> jstr" where
  "encode_uri_component s =
     concat (map (\<lambda>c. if uri_unreserved c then [c] else concat (map percent_byte (utf8_char c))) s)"

definition vault_path :: "jstr \<Rightarrow> jstr \<Rightarrow> jstr" where
  "vault_path i rest = ''/vaults/'' @ i @ rest"

definition claim_path :: "jstr \<Rightarrow> jstr \<Rightarrow> jstr" where
  "claim_path token rest = ''/claim/'' @ encode_uri_component token @ rest"

definition link_path :: "jstr \<Rightarrow> jstr \<Rightarrow> jstr" where
  "link_path i token = vault_path i (''/checkin-link/'' @ encode_uri_component token)"

fun call_path :: "call \<Rightarrow> jstr" where
  "call_path Health = ''/health''"
| "call_path HealthLightning = ''/health/lightning''"
| "call_path (GetVault i _) = vault_path i []"
| "call_path (GetVaultHeir i _) = vault_path i ''/heir''"
| "call_path (CheckContact _) = ''/contact/check''"
| "call_path (UpdateVaultHeir i _ _ _) = vault_path i ''/heir''"
| "call_path (DeleteVault i _) = vault_path i []"
| "call_path (PushSubscribe i _ _) = vault_path i ''/push-subscriptions''"
| "call_path (PushUnsubscribe i _ _) = vault_path i ''/push-subscriptions''"
| "call_path (CreateVault _) = ''/vaults''"
| "call_path (CreateVaultFromXpub _) = ''/vaults/from-xpub''"
| "call_path (CreateVaultGuardian _) = ''/vaults/guardian''"
| "call_path (RequestOwnerRecovery _) = ''/recovery/request''"
| "call_path (ExchangeOwnerRecovery _) = ''/recovery/exchange''"
| "call_path (GetSealedBlobs i _) = vault_path i ''/sealed-blobs''"
| "call_path (GetVaultAddress i) = vault_path i ''/address''"
| "call_path (OwnerSend i _ _) = vault_path i ''/send''"
| "call_path (GetVaultBalance i) = vault_path i ''/balance''"
| "call_path (AssistChat _) = ''/assist/chat''"
| "call_path (SealOwnerToken i _ _ _) = vault_path i ''/seal-owner-token''"
| "call_path (GetVideoStatus i _) = vault_path i ''/video''"
| "call_path (DeleteVideo i _) = vault_path i ''/video''"
| "call_path (GetVaultClaimToken i _) = vault_path i ''/claim-token''"
| "call_path (UploadVideo i _ _) = vault_path i ''/video''"
| "call_path (Checkin i _) = vault_path i ''/checkin''"
| "call_path (CheckinFromLink i token) = vault_path i (''/checkin-from-link/'' @ encode_uri_component token)"
| "call_path (VerifyContact i token) = vault_path i (''/verify-contact/'' @ encode_uri_component token)"
| "call_path (ResendVerification i _) = vault_path i ''/resend-verification''"
| "call_path (LightningCreateInvoice i _) = vault_path i ''/lightning-checkin/invoice''"
| "call_path (LightningInvoiceStatus i h _) =
     vault_path i (''/lightning-checkin/status/'' @ encode_uri_component h)"
| "call_path (LightningCreateInvoiceFromLink i token) = link_path i token @ ''/lightning-invoice''"
| "call_path (LightningInvoiceStatusFromLink i token h) =
     link_path i token @ ''/lightning-status/'' @ encode_uri_component h"
| "call_path (ListEvents i _) = vault_path i ''/events''"
| "call_path (ResolveClaim t) = claim_path t []"
| "call_path (StartDrill i _) = vault_path i ''/drill''"
| "call_path (CompleteDrill t) = claim_path t ''/drill-complete''"
| "call_path (ClaimUnlockEstimate t) = claim_path t ''/unlock-estimate''"
| "call_path (GetClaimVideo t) = claim_path t ''/video''"
| "call_path (BuildClaimPsbt t _) = claim_path t ''/build-psbt''"
| "call_path (BroadcastClaim t _) = claim_path t ''/broadcast''"
| "call_path (GetSealedHeirXprv t) = claim_path t ''/sealed-heir''"
| "call_path (GetHeirDerivationParams t) = claim_path t ''/heir-derivation-params''"
| "call_path (HeirClaim t _) = claim_path t ''/heir-claim''"
| "call_path (GetSealedGuardianXprv t) = claim_path t ''/sealed-guardian''"
| "call_path (GuardianClaim t _) = claim_path t ''/guardian-claim''"
| "call_path GetPrice = ''/price''"
| "call_path (SubscribeNewsletter _ _) = ''/newsletter''"

datatype http_method = GET | POST | PUT | DELETE

fun call_method :: "call \<Rightarrow> http_method" where
  "call_method (CheckContact _) = POST"
| "call_method (UpdateVaultHeir _ _ _ _) = PUT"
| "call_method (DeleteVault _ _) = DELETE"
| "call_method (PushSubscribe _ _ _) = POST"
| "call_method (PushUnsubscribe _ _ _) = DELETE"
| "call_method (CreateVault _) = POST"
| "call_method (CreateVaultFromXpub _) = POST"
| "call_method (CreateVaultGuardian _) = POST"
| "call_method (RequestOwnerRecovery _) = POST"
| "call_method (ExchangeOwnerRecovery _) = POST"
| "call_method (OwnerSend _ _ _) = POST"
| "call_method (AssistChat _) = POST"
| "call_method (SealOwnerToken _ _ _ _) = POST"
| "call_method (DeleteVideo _ _) = DELETE"
| "call_method (UploadVideo _ _ _) = POST"
| "call_method (Checkin _ _) = POST"
| "call_method (CheckinFromLink _ _) = POST"
| "call_method (VerifyContact _ _) = POST"
| "call_method (ResendVerification _ _) = POST"
| "call_method (LightningCreateInvoice _ _) = POST"
| "call_method (LightningCreateInvoiceFromLink _ _) = POST"
| "call_method (StartDrill _ _) = POST"
| "call_method (CompleteDrill _) = POST"
| "call_method (BuildClaimPsbt _ _) = POST"
| "call_method (BroadcastClaim _ _) = POST"
| "call_method (HeirClaim _ _) = POST"
| "call_method (GuardianClaim _ _) = POST"
| "call_method (SubscribeNewsletter _ _) = POST"
| "call_method _ = GET"

fun call_body :: "call \<Rightarrow> json option" where
  "call_body (CheckContact address) = Some (JObj [(''address'', JStr address)])"
| "call_body (UpdateVaultHeir _ _ contact ch) = Some (JObj [(''contact'', JStr contact), (''channel'', JStr ch)])"
| "call_body (PushSubscribe _ s _) = Some (JObj [(''endpoint'', JStr (pb_endpoint s)),
     (''p256dh'', JStr (pb_p256dh s)), (''auth'', JStr (pb_auth s))])"
| "call_body (PushUnsubscribe _ endpoint _) = Some (JObj [(''endpoint'', JStr endpoint)])"
| "call_body (CreateVault r) = Some (create_vault_json r)"
| "call_body (CreateVaultFromXpub r) = Some (create_from_xpub_json r)"
| "call_body (CreateVaultGuardian r) = Some (create_guardian_json r)"
| "call_body (RequestOwnerRecovery h) = Some (JObj [(''owner_email_hash'', JStr h)])"
| "call_body (ExchangeOwnerRecovery token) = Some (JObj [(''token'', JStr token)])"
| "call_body (OwnerSend _ _ b) = Some (JObj
     ([(''destination'', JStr (os_destination b))] @ field_json JInt ''amount_sat'' (os_amount_sat b)
      @ field_json JInt ''fee_rate_sat_per_vb'' (os_fee_rate b) @ [(''owner_xprv'', JStr (os_owner_xprv b))]))"
| "call_body (AssistChat ms) = Some (JObj [(''messages'', JArr (map (\<lambda>m. JObj
     [(''role'', JStr (if am_user m then ''user'' else ''assistant'')), (''content'', JStr (am_content m))]) ms))])"
| "call_body (SealOwnerToken _ _ ct nonce) =
     Some (JObj [(''owner_token_ct_b64'', JStr ct), (''owner_token_nonce_b64'', JStr nonce)])"
| "call_body (UploadVideo _ _ b) = Some (JObj [(''video_ct_b64'', JStr (uv_ct b)),
     (''video_nonce_b64'', JStr (uv_nonce b)), (''mime'', JStr (uv_mime b)),
     (''duration_ms'', (case uv_duration_ms b of None \<Rightarrow> JNull | Some d \<Rightarrow> JInt d)),
     (''owner_sig_b64'', JStr (uv_owner_sig b)), (''signed_sha256_hex'', JStr (uv_signed_sha256 b))])"
| "call_body (BuildClaimPsbt _ r) = Some (JObj
     ((''destination'', JStr (bp_destination r)) # field_json JInt ''fee_rate_sat_per_vb'' (bp_fee_rate r)))"
| "call_body (BroadcastClaim _ psbt) = Some (JObj [(''signed_psbt_b64'', JStr psbt)])"
| "call_body (HeirClaim _ r) = Some (JObj
     ([(''destination'', JStr (hc_destination r))] @ field_json JInt ''fee_rate_sat_per_vb'' (hc_fee_rate r)
      @ [(''heir_xprv'', JStr (hc_heir_xprv r))]))"
| "call_body (GuardianClaim _ r) = Some (JObj
     ([(''destination'', JStr (gc_destination r))] @ field_json JInt ''fee_rate_sat_per_vb'' (gc_fee_rate r)
      @ [(''heir_xprv'', JStr (gc_heir_xprv r)), (''guardian_xprv'', JStr (gc_guardian_xprv r))]))"
| "call_body (SubscribeNewsletter email source) = Some (JObj
     (if truthy source then [(''email'', JStr email), (''source'', JStr (the source))]
      else [(''email'', JStr email)]))"
| "call_body _ = None"

text \<open>The owner token handed to \<open>request\<close>.\<close>

fun call_token :: "call \<Rightarrow> jstr option" where
  "call_token (GetVault _ t) = t"
| "call_token (GetVaultHeir _ t) = t"
| "call_token (UpdateVaultHeir _ t _ _) = t"
| "call_token (DeleteVault _ t) = Some t"
| "call_token (PushSubscribe _ _ t) = Some t"
| "call_token (PushUnsubscribe _ _ t) = Some t"
| "call_token (GetSealedBlobs _ t) = Some t"
| "call_token (OwnerSend _ t _) = Some t"
| "call_token (SealOwnerToken _ t _ _) = Some t"
| "call_token (GetVideoStatus _ t) = t"
| "call_token (DeleteVideo _ t) = t"
| "call_token (GetVaultClaimToken _ t) = t"
| "call_token (UploadVideo _ t _) = Some t"
| "call_token (Checkin _ t) = t"
| "call_token (ResendVerification _ t) = t"
| "call_token (LightningCreateInvoice _ t) = t"
| "call_token (LightningInvoiceStatus _ _ t) = t"
| "call_token (ListEvents _ t) = t"
| "call_token (StartDrill _ t) = Some t"
| "call_token _ = None"

section \<open>The request and its reply\<close>

record http_message =
  hm_method :: http_method
  hm_url :: jstr
  hm_headers :: "jstr obj"
  hm_body :: "jstr option"

definition auth_headers :: "jstr option \<Rightarrow> jstr obj" where
  "auth_headers token = (if truthy token then [(''authorization'', ''Bearer '' @ the token)] else [])"

definition request_message :: "jstr \<Rightarrow> call \<Rightarrow> http_message" where
  "request_message base c =
     \<lparr>hm_method = call_method c, hm_url = base @ call_path c,
      hm_headers = fold (\<lambda>(k, v). obj_set k v) (auth_headers (call_token c)) [(''content-type'', ''application/json'')],
      hm_body = map_option json_stringify (call_body c)\<rparr>"

record api_reply =
  ar_status :: int
  ar_status_text :: jstr
  ar_text :: jstr

type_synonym api_net = "http_message \<Rightarrow> (jstr, api_reply) throws"

text \<open>\<open>String(v)\<close> of a parsed value.\<close>

fun js_string :: "json \<Rightarrow> jstr" where
  "js_string JNull = ''null''"
| "js_string (JBool b) = (if b then ''true'' else ''false'')"
| "js_string (JInt i) = show_int i"
| "js_string (JStr s) = s"
| "js_string (JArr vs) = join '','' (map (\<lambda>v. case v of JNull \<Rightarrow> [] | _ \<Rightarrow> js_string v) vs)"
| "js_string (JObj kvs) = ''[object Object]''"

definition parse_body :: "jstr \<Rightarrow> json" where
  "parse_body text = (if text = [] then JNull else the_default JNull (json_parse text))"

definition error_field :: "json \<Rightarrow> json option" where
  "error_field body = (case body of JObj kvs \<Rightarrow> map_of (rev kvs) ''error'' | _ \<Rightarrow> None)"

definition read_reply :: "api_reply \<Rightarrow> (thrown, json) throws" where
  "read_reply r =
     (let body = parse_body (ar_text r)
      in if \<not> (200 \<le> ar_status r \<and> ar_status r \<le> 299)
         then let msg = (case error_field body of
                           Some v \<Rightarrow> js_string v
                         | None \<Rightarrow> show_int (ar_status r) @ '' '' @ ar_status_text r)
              in Inl (Api_Error (ar_status r) body msg)
         else Inr body)"

definition request :: "jstr \<Rightarrow> api_net \<Rightarrow> call \<Rightarrow> (thrown, json) throws" where
  "request base net c =
     (case net (request_message base c) of Inl e \<Rightarrow> Inl (Js_Error e) | Inr r \<Rightarrow> read_reply r)"

text \<open>\<open>trackEvent\<close>: its message, and its result, which is the same whatever the network does.\<close>

definition track_event_message :: "jstr \<Rightarrow> jstr \<Rightarrow> jstr option \<Rightarrow> http_message" where
  "track_event_message base event label =
     \<lparr>hm_method = POST, hm_url = base @ ''/events'', hm_headers = [(''content-type'', ''application/json'')],
      hm_body = Some (json_stringify (JObj (if truthy label
        then [(''event'', JStr event), (''label'', JStr (the label))] else [(''event'', JStr event)])))\<rparr>"

section \<open>Reading an encoded component back\<close>

fun percent_decode :: "jstr \<Rightarrow> bytes" where
  "percent_decode [] = []"
| "percent_decode (c # s) =
     (if c = CHR ''%''
      then (case s of
              a # b # r \<Rightarrow>
                (case (hex_nibble a, hex_nibble b) of
                   (Some x, Some y) \<Rightarrow> word_of_nat (x * 16 + y) # percent_decode r
                 | _ \<Rightarrow> [])
            | _ \<Rightarrow> [])
      else word_of_nat (of_char c) # percent_decode s)"

fun utf8_read :: "bytes \<Rightarrow> jstr" where
  "utf8_read [] = []"
| "utf8_read [b] = [char_of (unat b)]"
| "utf8_read (b # b' # bs) =
     (if unat b < 128 then char_of (unat b) # utf8_read (b' # bs)
      else char_of ((unat b - 192) * 64 + (unat b' - 128)) # utf8_read bs)"

definition decode_uri_component :: "jstr \<Rightarrow> jstr" where
  "decode_uri_component s = utf8_read (percent_decode s)"

lemma hex_upper_facts: "n < 16 \<Longrightarrow> hex_nibble (hex_upper n) = Some n \<and> hex_upper n \<in> set ''0123456789ABCDEF''"
proof
  have "list_all (\<lambda>n. hex_upper n \<in> set ''0123456789ABCDEF'') [0..<16]" by code_simp
  then show "n < 16 \<Longrightarrow> hex_upper n \<in> set ''0123456789ABCDEF''" unfolding list_all_iff by simp
qed (auto simp: hex_nibble_def hex_upper_def Let_def)

lemma percent_decode_byte: "percent_decode (percent_byte b @ r) = b # percent_decode r"
proof -
  have d: "unat b div 16 < 16" using unat8 [of b] by (simp add: div_less_iff_less_mult)
  have "word_of_nat (unat b div 16 * 16 + unat b mod 16) = b" by (simp only: div_mult_mod_eq) simp
  then show ?thesis using hex_upper_facts [OF d] hex_upper_facts [of "unat b mod 16"]
    by (simp add: percent_byte_def)
qed

lemma percent_decode_bytes: "percent_decode (concat (map percent_byte bs) @ r) = bs @ percent_decode r"
  by (induction bs) (simp_all add: percent_decode_byte)

lemma unreserved_ascii: "uri_unreserved c \<Longrightarrow> of_char c < (128 :: nat) \<and> c \<notin> set ''%/?#''"
  by (auto simp: uri_unreserved_def in_range_def js_digit_def less_eq_char_def)

lemma percent_decode_encode: "percent_decode (encode_uri_component s) = utf8 s"
proof (induction s)
  case (Cons c s)
  show ?case
  proof (cases "uri_unreserved c")
    case True
    then show ?thesis using Cons unreserved_ascii [OF True]
      by (simp add: encode_uri_component_def utf8_def utf8_char_def Let_def)
  next
    case False
    then show ?thesis using Cons percent_decode_bytes [of "utf8_char c"]
      by (simp add: encode_uri_component_def utf8_def)
  qed
qed (simp add: encode_uri_component_def utf8_def)

lemma unat_byte: "m < 256 \<Longrightarrow> unat (word_of_nat m :: 8 word) = m"
  by (simp add: unat_of_nat)

lemma utf8_read_char: "utf8_read (utf8_char c @ bs) = c # utf8_read bs"
proof (cases "of_char c < (128 :: nat)")
  case True
  then have u: "unat (word_of_nat (of_char c) :: 8 word) = of_char c" by (simp add: unat_of_nat)
  show ?thesis using True u by (cases bs) (simp_all add: utf8_char_def Let_def)
next
  case False
  let ?n = "of_char c :: nat"
  have n: "?n < 256" by simp
  have a: "unat (word_of_nat (192 + ?n div 64) :: 8 word) = 192 + ?n div 64"
    using n by (intro unat_byte) linarith
  have b: "unat (word_of_nat (128 + ?n mod 64) :: 8 word) = 128 + ?n mod 64"
    by (intro unat_byte) (use mod_less_divisor [of 64 ?n] in linarith)
  have "utf8_char c = [word_of_nat (192 + ?n div 64), word_of_nat (128 + ?n mod 64)]"
    using False by (simp add: utf8_char_def Let_def)
  then show ?thesis using a b by (simp del: of_nat_add of_nat_numeral)
qed

lemma utf8_read_utf8: "utf8_read (utf8 s) = s"
  by (induction s) (simp_all add: utf8_def utf8_read_char)

lemma decode_encode [simp]: "decode_uri_component (encode_uri_component s) = s"
  by (simp add: decode_uri_component_def percent_decode_encode utf8_read_utf8)

lemma encoded_chars: "set (encode_uri_component s) \<inter> set ''/?#'' = {}"
proof -
  have "set (percent_byte b) \<inter> set ''/?#'' = {}" for b
  proof -
    have "unat b div 16 < 16" using unat8 [of b] by (simp add: div_less_iff_less_mult)
    then have "set (percent_byte b) \<subseteq> set ''%0123456789ABCDEF''"
      using hex_upper_facts [of "unat b div 16"] hex_upper_facts [of "unat b mod 16"]
      unfolding percent_byte_def by auto
    moreover have "set ''%0123456789ABCDEF'' \<inter> set ''/?#'' = {}" by simp
    ultimately show ?thesis by blast
  qed
  moreover have "uri_unreserved c \<Longrightarrow> c \<notin> set ''/?#''" for c using unreserved_ascii by auto
  ultimately show ?thesis by (fastforce simp: encode_uri_component_def)
qed


section \<open>What goes over the wire\<close>

fun without_token :: "call \<Rightarrow> call" where
  "without_token (GetVault i t) = GetVault i None"
| "without_token (GetVaultHeir i t) = GetVaultHeir i None"
| "without_token (UpdateVaultHeir i t a b) = UpdateVaultHeir i None a b"
| "without_token (DeleteVault i t) = DeleteVault i []"
| "without_token (PushSubscribe i s t) = PushSubscribe i s []"
| "without_token (PushUnsubscribe i e t) = PushUnsubscribe i e []"
| "without_token (GetSealedBlobs i t) = GetSealedBlobs i []"
| "without_token (OwnerSend i t b) = OwnerSend i [] b"
| "without_token (SealOwnerToken i t a b) = SealOwnerToken i [] a b"
| "without_token (GetVideoStatus i t) = GetVideoStatus i None"
| "without_token (DeleteVideo i t) = DeleteVideo i None"
| "without_token (GetVaultClaimToken i t) = GetVaultClaimToken i None"
| "without_token (UploadVideo i t b) = UploadVideo i [] b"
| "without_token (Checkin i t) = Checkin i None"
| "without_token (ResendVerification i t) = ResendVerification i None"
| "without_token (LightningCreateInvoice i t) = LightningCreateInvoice i None"
| "without_token (LightningInvoiceStatus i h t) = LightningInvoiceStatus i h None"
| "without_token (ListEvents i t) = ListEvents i None"
| "without_token (StartDrill i t) = StartDrill i []"
| "without_token c = c"

lemma headers_of:
  "hm_headers (request_message base c) = (''content-type'', ''application/json'') # auth_headers (call_token c)"
  by (simp add: request_message_def auth_headers_def obj_set_def)

text \<open>C30: The owner's bearer token reaches the wire in the authorization header and nowhere else: blanking
  the token of a call leaves the method, the address and the body as they were, and takes exactly that
  header away.\<close>

theorem owner_token_only_in_header:
  "request_message base (without_token c)
     = (request_message base c)\<lparr>hm_headers := [(''content-type'', ''application/json'')]\<rparr>
   \<and> hm_headers (request_message base c) = (''content-type'', ''application/json'') #
       (if truthy (call_token c) then [(''authorization'', ''Bearer '' @ the (call_token c))] else [])"
proof -
  have "call_method (without_token c) = call_method c \<and> call_path (without_token c) = call_path c
      \<and> call_body (without_token c) = call_body c \<and> \<not> truthy (call_token (without_token c))"
    by (cases c) simp_all
  then have "request_message base (without_token c)
     = (request_message base c)\<lparr>hm_headers := [(''content-type'', ''application/json'')]\<rparr>"
    using headers_of [of base "without_token c"] headers_of [of base c]
    by (simp add: request_message_def auth_headers_def)
  then show ?thesis using headers_of [of base c] by (simp add: auth_headers_def)
qed

fun claim_token_of :: "call \<Rightarrow> jstr option" where
  "claim_token_of (ResolveClaim t) = Some t"
| "claim_token_of (CompleteDrill t) = Some t"
| "claim_token_of (ClaimUnlockEstimate t) = Some t"
| "claim_token_of (GetClaimVideo t) = Some t"
| "claim_token_of (BuildClaimPsbt t _) = Some t"
| "claim_token_of (BroadcastClaim t _) = Some t"
| "claim_token_of (GetSealedHeirXprv t) = Some t"
| "claim_token_of (GetHeirDerivationParams t) = Some t"
| "claim_token_of (HeirClaim t _) = Some t"
| "claim_token_of (GetSealedGuardianXprv t) = Some t"
| "claim_token_of (GuardianClaim t _) = Some t"
| "claim_token_of _ = None"

lemma encoded_no_slash: "CHR ''/'' \<notin> set (encode_uri_component t)"
  using encoded_chars [of t] by auto



text \<open>What the client sends and receives is what was meant: the body parses back to the value of the
  call, an error reply of the server becomes an error with its status and its own message, an error
  page that is not JSON becomes one with the status line and no body, and a successful reply gives the
  value it encodes. A successful reply that is not JSON, though, is passed to the caller as null.\<close>

theorem request_reads_and_writes:
  "Option.bind (hm_body (request_message base c)) json_parse = call_body c
   \<and> read_reply \<lparr>ar_status = s, ar_status_text = st, ar_text = json_stringify v\<rparr> =
       (if 200 \<le> s \<and> s \<le> 299 then Inr v
        else Inl (Api_Error s v (case error_field v of Some e \<Rightarrow> js_string e | None \<Rightarrow> show_int s @ '' '' @ st)))
   \<and> read_reply \<lparr>ar_status = s, ar_status_text = st, ar_text = CHR ''<'' # page\<rparr> =
       (if 200 \<le> s \<and> s \<le> 299 then Inr JNull else Inl (Api_Error s JNull (show_int s @ '' '' @ st)))"
proof -
  have "write_json json_escape v \<noteq> []" for v
    using write_start [of json_escape v] by auto
  then have p: "parse_body (json_stringify v) = v" for v
    by (simp add: parse_body_def json_stringify_def parse_written [OF good_json_escape])
  have "json_parse (CHR ''<'' # page) = None" for page
    by (simp add: json_parse_def json_ws_def read_int_def js_digit_def less_eq_char_def Let_def)
  then have h: "parse_body (CHR ''<'' # page) = JNull" for page by (simp add: parse_body_def)
  have "Option.bind (hm_body (request_message base c)) json_parse = call_body c"
    by (cases "call_body c") (simp_all add: request_message_def json_stringify_def parse_written [OF good_json_escape])
  then show ?thesis by (auto simp: read_reply_def p h error_field_def split: option.split)
qed

text \<open>Two tokens never share a claim address.\<close>

lemma claim_path_inj: "claim_path t [] = claim_path u [] \<Longrightarrow> t = u"
  using decode_encode by (metis append_Nil2 claim_path_def same_append_eq)

end
