(* ===== verification/Sign_In.thy ===== *)
theory Sign_In
  imports App_Shell
begin

text \<open>
  The sign-in portal (ghostkey-web/src/SignInPortal.tsx): asking for a sign-in link, unlocking the
  vaults of a trusted device with the owner password, and restoring one vault or a group of vaults
  from the bundles of a sign-in link. The server's answers, the random draws and the collation are
  arguments; progress reports are left out, and the derived keys, which the program overwrites with
  zeros when it is done, do not leave the functions.
\<close>

section \<open>Texts\<close>

definition placeholder_owner_token :: jstr where
  "placeholder_owner_token = ''ghostkey-placeholder-owner-token-v1''"

text \<open>\<open>/^(.+?)'s (?:share|inheritance)$/i\<close>: the suffix fixes the split.\<close>

definition before_suffix :: "jstr \<Rightarrow> jstr \<Rightarrow> jstr option" where
  "before_suffix suf s =
     (let n = length s - length suf; name = take n s
      in if length suf \<le> length s \<and> map ascii_fold (drop n s) = map ascii_fold suf
            \<and> test_full (rplus rdot) name then Some name else None)"

definition share_suffix :: jstr where
  "share_suffix = CHR 0x27 # ''s share''"

definition inheritance_suffix :: jstr where
  "inheritance_suffix = CHR 0x27 # ''s inheritance''"

definition heir_name_from_label :: "jstr option \<Rightarrow> jstr" where
  "heir_name_from_label label =
     the_default ''Heir'' (Option.bind label (\<lambda>s. nullish (before_suffix share_suffix s)
       (before_suffix inheritance_suffix s)))"

text \<open>Three bullets in the source, three asterisks here.\<close>

definition mask_email :: "jstr \<Rightarrow> jstr" where
  "mask_email address =
     (case index_of ''@'' address of
        None \<Rightarrow> address
      | Some at \<Rightarrow> if at = 0 then address
                   else take (min 2 at) address @ ''***'' @ drop at address)"

section \<open>Asking for a link\<close>

datatype phase = Idle | Looking | Sent | Exchanging | Ready | Unsealing jstr | Done

text \<open>The result: the request sent, if any, with the phase and the error after it.\<close>

definition look_up :: "('a crypto_scheme) \<Rightarrow> (jstr \<Rightarrow> thrown option) \<Rightarrow> jstr
    \<Rightarrow> jstr option \<times> phase \<times> jstr option" where
  "look_up C request_owner_recovery email =
     (if js_trim email = [] then (None, Idle, Some ''Enter your email.'')
      else if \<not> email_shaped (js_trim email)
      then (None, Idle, Some ''That email looks off. Double-check it.'')
      else (let hash = hash_email_for_lookup C email
            in case request_owner_recovery hash of
                 None \<Rightarrow> (Some hash, Sent, None)
               | Some e \<Rightarrow> (Some hash, Idle, Some (string_of_error e))))"

definition expired_link_text :: jstr where
  "expired_link_text = ''This sign-in link has expired or was already used. Request a new one.''"

definition exchange_error :: "thrown \<Rightarrow> jstr" where
  "exchange_error e = (case e of Api_Error st b m \<Rightarrow> if st = 404 then expired_link_text else m
     | _ \<Rightarrow> string_of_error e)"

section \<open>The trusted device\<close>

text \<open>What the portal shows: the local vault, whether the password form is offered, and the stored
  address.\<close>

record trusted_form =
  tf_vault :: "jstr option"
  tf_trusted :: bool
  tf_email :: jstr

definition trusted_form_of :: "bool \<Rightarrow> bool \<Rightarrow> jstr comparator \<Rightarrow> device \<Rightarrow> trusted_form" where
  "trusted_form_of local_unlock use_email_link lc d =
     (let local = (if local_unlock then get_trusted_vault_id lc d else None);
          meta = (if truthy local then get_vault_meta (the local) d else None);
          lk = Option.bind meta vm_lock;
          token = (if truthy local then get_vault_owner_token (the local) d else None);
          trusted = (local_unlock \<and> truthy local \<and> (lk \<noteq> None \<or> truthy token) \<and> \<not> use_email_link)
      in \<lparr>tf_vault = local, tf_trusted = trusted,
          tf_email = (if trusted then the_default [] (map_option owner_address meta) else [])\<rparr>)"

text \<open>Seeding: a vault with a usable token and no lock gets the server's ciphertext as a candidate.\<close>

definition seed_one :: "('a crypto_scheme) \<Rightarrow> fetch_blobs \<Rightarrow> jstr \<Rightarrow> vault_meta \<Rightarrow> device \<Rightarrow> device" where
  "seed_one C get_sealed_blobs email_hash m d =
     (if vm_lock m \<noteq> None then d
      else (let owner_token = get_vault_owner_token (vm_id m) d
            in if \<not> truthy owner_token \<or> hash_email_for_lookup C (owner_address m) \<noteq> email_hash then d
               else case get_sealed_blobs (vm_id m) (the owner_token) of
                 Inl _ \<Rightarrow> d
               | Inr blobs \<Rightarrow>
                   fst (save_vault_credential_lock (vm_id m) (candidate_lock email_hash blobs) d)))"

definition cache_key :: "locked_owner_token \<Rightarrow> jstr" where
  "cache_key lk = lk_salt lk @ '':'' @ show_int (lk_mem_kib lk) @ '':'' @ show_int (lk_iters lk)"

text \<open>The key of a lock, without the cache; the parameters are natural numbers of KiB and passes.\<close>

definition derive_lock_key :: "('a crypto_scheme) \<Rightarrow> jstr \<Rightarrow> locked_owner_token \<Rightarrow> (jstr, bytes) throws" where
  "derive_lock_key C password lk =
     and_then (b64decode (lk_salt lk)) (\<lambda>salt.
       derive_owner_kek C password salt (Some (nat (lk_mem_kib lk))) (Some (nat (lk_iters lk))))"

definition kek_for :: "('a crypto_scheme) \<Rightarrow> jstr \<Rightarrow> locked_owner_token \<Rightarrow> bytes obj
    \<Rightarrow> (jstr, bytes) throws \<times> bytes obj" where
  "kek_for C password lk keks =
     (case obj_get keks (cache_key lk) of
        Some kek \<Rightarrow> (Inr kek, keks)
      | None \<Rightarrow> (case derive_lock_key C password lk of
            Inl e \<Rightarrow> (Inl e, keks)
          | Inr kek \<Rightarrow> (Inr kek, obj_set (cache_key lk) kek keks)))"

record unlock_run =
  ur_tokens :: "jstr obj"
  ur_keks :: "bytes obj"
  ur_dev :: device
  ur_resealed :: "(jstr \<times> jstr \<times> sealed_blob) list"

type_synonym reseal_call = "jstr \<Rightarrow> jstr \<Rightarrow> sealed_blob \<Rightarrow> thrown option"

text \<open>The ciphertext wraps something else than the live token: seal the live token again, hand it to
  the server, and cache it as validated. The nonce is the next draw.\<close>

definition repair_one :: "('a crypto_scheme) \<Rightarrow> jstr \<Rightarrow> reseal_call \<Rightarrow> (nat \<Rightarrow> bytes) \<Rightarrow> vault_meta
    \<Rightarrow> locked_owner_token \<Rightarrow> jstr \<Rightarrow> unlock_run \<Rightarrow> unlock_run \<times> thrown option" where
  "repair_one C password seal_owner_token draw m lk live s =
     (case kek_for C password lk (ur_keks s) of
        (Inl e, keks) \<Rightarrow> (s\<lparr>ur_keks := keks\<rparr>, Some (Js_Error e))
      | (Inr kek, keks) \<Rightarrow>
          (case seal_with_key C (draw (length (ur_resealed s))) kek (utf8 live) of
             Inl e \<Rightarrow> (s\<lparr>ur_keks := keks\<rparr>, Some (Js_Error e))
           | Inr repaired \<Rightarrow>
               (case seal_owner_token (vm_id m) live repaired of
                  Some e \<Rightarrow> (s\<lparr>ur_keks := keks\<rparr>, Some e)
                | None \<Rightarrow>
                    (s\<lparr>ur_keks := keks,
                       ur_dev := fst (save_vault_credential_lock (vm_id m)
                                   (lk\<lparr>lk_blob := repaired, lk_validated := Some True\<rparr>) (ur_dev s)),
                       ur_resealed := ur_resealed s @ [(vm_id m, live, repaired)],
                       ur_tokens := obj_set (vm_id m) live (ur_tokens s)\<rparr>, None))))"

text \<open>One turn of the loop over the matching vaults: the new run, and the error that leaves the
  loop.\<close>

definition open_one :: "('a crypto_scheme) \<Rightarrow> jstr \<Rightarrow> jstr \<Rightarrow> reseal_call \<Rightarrow> (nat \<Rightarrow> bytes) \<Rightarrow> vault_meta
    \<Rightarrow> unlock_run \<Rightarrow> unlock_run \<times> thrown option" where
  "open_one C password local_id seal_owner_token draw m s =
     (let lk = the (vm_lock m)
      in case kek_for C password lk (ur_keks s) of (kek, keks) \<Rightarrow>
         (let s1 = s\<lparr>ur_keks := keks\<rparr>
          in case and_then kek (\<lambda>k. open_with_key C k (lk_blob lk)) of
               Inl e \<Rightarrow> (s1, if vm_id m = local_id then Some (Js_Error e) else None)
             | Inr plain \<Rightarrow>
                 (let decrypted = text_decode C plain;
                      live = get_vault_owner_token (vm_id m) (ur_dev s1)
                  in if decrypted = placeholder_owner_token \<and> \<not> truthy live then (s1, None)
                     else if truthy live \<and> Some decrypted \<noteq> live
                     then repair_one C password seal_owner_token draw m lk (the live) s1
                     else (s1\<lparr>ur_tokens := obj_set (vm_id m) decrypted (ur_tokens s1)\<rparr>, None))))"

fun open_all :: "('a crypto_scheme) \<Rightarrow> jstr \<Rightarrow> jstr \<Rightarrow> reseal_call \<Rightarrow> (nat \<Rightarrow> bytes) \<Rightarrow> vault_meta list
    \<Rightarrow> unlock_run \<Rightarrow> unlock_run \<times> thrown option" where
  "open_all C password local_id seal_owner_token draw [] s = (s, None)"
| "open_all C password local_id seal_owner_token draw (m # ms) s =
     (case open_one C password local_id seal_owner_token draw m s of
        (s', Some e) \<Rightarrow> (s', Some e)
      | (s', None) \<Rightarrow> open_all C password local_id seal_owner_token draw ms s')"

text \<open>The vaults sealed under the owner's e-mail address, the local one first.\<close>

definition matching_vaults :: "jstr comparator \<Rightarrow> jstr \<Rightarrow> jstr \<Rightarrow> device \<Rightarrow> vault_meta list" where
  "matching_vaults lc email_hash local_id d =
     js_sort (key (\<lambda>m. vm_id m \<noteq> local_id) default)
       (filter (\<lambda>m. map_option lk_email_hash (vm_lock m) = Some email_hash) (get_all_vault_metas lc d))"

datatype sign_in_result = Opened | Refused jstr

definition wrong_email_text :: jstr where
  "wrong_email_text = ''The saved sign-in on this device doesn'' @ [CHR 0x27] @ ''t match this vault. ''
     @ ''Use the email link below instead.''"

definition wrong_password_retry :: jstr where
  "wrong_password_retry = ''Wrong password. Try again.''"

definition not_restored_text :: jstr where
  "not_restored_text = ''The saved credential could not be restored.''"

definition sign_in_error :: "thrown \<Rightarrow> jstr" where
  "sign_in_error e =
     (let message = raw_error_message e
      in if message = ''wrong-email'' then wrong_email_text
         else if test_search rx_unseal message then wrong_password_retry else message)"

definition unlock_trusted_device :: "('a crypto_scheme) \<Rightarrow> fetch_blobs \<Rightarrow> reseal_call \<Rightarrow> (nat \<Rightarrow> bytes)
    \<Rightarrow> jstr comparator \<Rightarrow> jstr \<Rightarrow> jstr option \<Rightarrow> jstr \<Rightarrow> device \<Rightarrow> sign_in_result \<times> device" where
  "unlock_trusted_device C get_sealed_blobs seal_owner_token draw lc password local_vault stored_email d =
     (if password = [] then (Refused ''Enter your password.'', d)
      else if \<not> truthy local_vault \<or> stored_email = []
      then (Refused ''This browser no longer has its trusted-device credential.'', d)
      else
        (let local_id = the local_vault;
             email_hash = hash_email_for_lookup C stored_email;
             d1 = fold (seed_one C get_sealed_blobs email_hash) (get_all_vault_metas lc d) d
         in if map_option lk_email_hash (lock_of local_id d1) \<noteq> Some email_hash
            then (Refused (sign_in_error (Js_Error ''wrong-email'')), d1)
            else
              (case open_all C password local_id seal_owner_token draw
                      (matching_vaults lc email_hash local_id d1)
                      \<lparr>ur_tokens = [], ur_keks = [], ur_dev = d1, ur_resealed = []\<rparr> of
                 (s, Some e) \<Rightarrow> (Refused (sign_in_error e), ur_dev s)
               | (s, None) \<Rightarrow>
                   if \<not> truthy (obj_get (ur_tokens s) local_id)
                   then (Refused (sign_in_error (Js_Error not_restored_text)), ur_dev s)
                   else (case unlock_vault_credentials (ur_tokens s) (ur_dev s) of
                           (d2, ok) \<Rightarrow> if ok then (Opened, d2)
                                       else (Refused (sign_in_error (Js_Error not_restored_text)), d2)))))"

section \<open>The key cache\<close>

lemma show_int_no_colon: "CHR '':'' \<notin> set (show_int n)"
  using digits_no [OF show_nat_digits [of "nat n"], of "CHR '':''"]
    digits_no [OF show_nat_digits [of "nat (- n)"], of "CHR '':''"]
  by (auto simp: show_int_def js_digit_def less_eq_char_def)

lemma show_int_inj: "show_int m = show_int n \<Longrightarrow> m = n"
proof -
  assume e: "show_int m = show_int n"
  have "CHR ''-'' \<notin> set (show_nat k)" for k
    using digits_no [OF show_nat_digits [of k], of "CHR ''-''"] by simp
  then have *: "CHR ''-'' # y \<noteq> show_nat k" "show_nat k \<noteq> CHR ''-'' # y" for k y
    by (metis list.set_intros(1))+
  then show "m = n" using e
    by (auto simp: show_int_def split: if_splits dest!: show_nat_inj)
qed

lemma last_sep_inj:
  "x @ c # y = x' @ c # y' \<Longrightarrow> c \<notin> set y \<Longrightarrow> c \<notin> set y' \<Longrightarrow> x = x' \<and> y = y'"
proof -
  assume e: "x @ c # y = x' @ c # y'" and n: "c \<notin> set y" "c \<notin> set y'"
  have "takeWhile (\<lambda>a. a \<noteq> c) (rev (u @ c # v)) = rev v" if "c \<notin> set v" for u v :: "'a list"
    using that by (auto simp: takeWhile_tail takeWhile_eq_all_conv)
  then have "rev y = rev y'" using n e by metis
  then show ?thesis using e by simp
qed

lemma cache_key_inj:
  assumes "cache_key a = cache_key b"
  shows "lk_salt a = lk_salt b \<and> lk_mem_kib a = lk_mem_kib b \<and> lk_iters a = lk_iters b"
proof -
  have "(lk_salt a @ '':'' @ show_int (lk_mem_kib a)) @ CHR '':'' # show_int (lk_iters a)
      = (lk_salt b @ '':'' @ show_int (lk_mem_kib b)) @ CHR '':'' # show_int (lk_iters b)"
    using assms by (simp add: cache_key_def)
  from last_sep_inj [OF this] have "lk_salt a @ CHR '':'' # show_int (lk_mem_kib a)
      = lk_salt b @ CHR '':'' # show_int (lk_mem_kib b)" and "show_int (lk_iters a) = show_int (lk_iters b)"
    by (simp_all add: show_int_no_colon)
  then show ?thesis using last_sep_inj show_int_inj show_int_no_colon by metis
qed

definition keks_ok :: "('a crypto_scheme) \<Rightarrow> jstr \<Rightarrow> bytes obj \<Rightarrow> bool" where
  "keks_ok C password keks \<longleftrightarrow>
     (\<forall>lk kek. obj_get keks (cache_key lk) = Some kek \<longrightarrow> derive_lock_key C password lk = Inr kek)"

lemma keks_ok_Nil [simp]: "keks_ok C password []"
  by (simp add: keks_ok_def)

lemma kek_for_ok:
  assumes "keks_ok C password keks"
  shows "fst (kek_for C password lk keks) = derive_lock_key C password lk"
    and "keks_ok C password (snd (kek_for C password lk keks))"
proof -
  show "fst (kek_for C password lk keks) = derive_lock_key C password lk"
    using assms by (auto simp: kek_for_def keks_ok_def split: option.split sum.split)
  have same: "derive_lock_key C password a = derive_lock_key C password lk" if "cache_key a = cache_key lk" for a
    using cache_key_inj [OF that] by (simp add: derive_lock_key_def)
  show "keks_ok C password (snd (kek_for C password lk keks))"
  proof (cases "obj_get keks (cache_key lk) = None \<and> (\<exists>k. derive_lock_key C password lk = Inr k)")
    case True
    then obtain k where n: "obj_get keks (cache_key lk) = None" and d: "derive_lock_key C password lk = Inr k"
      by blast
    have "derive_lock_key C password a = Inr k" if "cache_key a = cache_key lk" for a
      using d cache_key_inj [OF that] by (simp add: derive_lock_key_def)
    then show ?thesis using assms
      by (simp add: kek_for_def n d keks_ok_def obj.get_put)
  next
    case False
    then have "snd (kek_for C password lk keks) = keks"
      by (auto simp: kek_for_def split: option.split sum.split)
    with assms show ?thesis by simp
  qed
qed

text \<open>What the ciphertext of a lock holds, under a password.\<close>

definition open_lock :: "('a crypto_scheme) \<Rightarrow> jstr \<Rightarrow> locked_owner_token \<Rightarrow> (jstr, jstr) throws" where
  "open_lock C password lk =
     and_then (derive_lock_key C password lk) (\<lambda>kek.
     and_then (open_with_key C kek (lk_blob lk)) (\<lambda>plain. Inr (text_decode C plain)))"

section \<open>The loop's invariant\<close>

text \<open>The token a vault of the loop ends up with: its live one, or what its ciphertext holds.\<close>

definition earned :: "('a crypto_scheme) \<Rightarrow> jstr \<Rightarrow> jstr \<Rightarrow> device \<Rightarrow> jstr \<Rightarrow> jstr \<Rightarrow> bool" where
  "earned C password eh d j t \<longleftrightarrow> (\<exists>lk. lock_of j d = Some lk \<and> lk_email_hash lk = eh
     \<and> (if truthy (get_vault_owner_token j d) then get_vault_owner_token j d = Some t
        else open_lock C password lk = Inr t \<and> t \<noteq> placeholder_owner_token))"

definition run_inv :: "('a crypto_scheme) \<Rightarrow> jstr \<Rightarrow> jstr \<Rightarrow> device \<Rightarrow> unlock_run \<Rightarrow> bool" where
  "run_inv C password eh d s \<longleftrightarrow> store_good (ur_dev s) \<and> keks_ok C password (ur_keks s) \<and> obj_ok (ur_tokens s)
     \<and> (\<forall>j. get_vault_owner_token j (ur_dev s) = get_vault_owner_token j d)
     \<and> (\<forall>j. obj_get (ur_tokens s) j = None \<longrightarrow> get_vault_meta j (ur_dev s) = get_vault_meta j d)
     \<and> (\<forall>j. map_option vm_id (get_vault_meta j (ur_dev s)) = map_option vm_id (get_vault_meta j d))
     \<and> (\<forall>j. lock_of j (ur_dev s) = None \<longleftrightarrow> lock_of j d = None)
     \<and> read_live_tokens (ur_dev s) = read_live_tokens d
     \<and> get_active_vault_id (ur_dev s) = get_active_vault_id d
     \<and> (\<forall>j t. obj_get (ur_tokens s) j = Some t \<longrightarrow> earned C password eh d j t)"

lemma cache_effect:
  fixes i :: jstr and lk :: locked_owner_token
  assumes "store_good d"
  defines "d' \<equiv> fst (save_vault_credential_lock i lk d)"
  shows "store_good d'" and "get_vault_owner_token j d' = get_vault_owner_token j d"
    and "j \<noteq> i \<Longrightarrow> get_vault_meta j d' = get_vault_meta j d"
    and "map_option vm_id (get_vault_meta j d') = map_option vm_id (get_vault_meta j d)"
    and "lock_of i d \<noteq> None \<Longrightarrow> lock_of j d' = None \<longleftrightarrow> lock_of j d = None"
    and "get_active_vault_id d' = get_active_vault_id d"
    and "read_live_tokens d' = read_live_tokens d"
proof -
  show "store_good d'" "get_vault_owner_token j d' = get_vault_owner_token j d"
    unfolding d'_def by (rule cred.cache_good [OF assms(1)], rule cred.cache_tokens [OF assms(1)])
  show "j \<noteq> i \<Longrightarrow> get_vault_meta j d' = get_vault_meta j d"
    "map_option vm_id (get_vault_meta j d') = map_option vm_id (get_vault_meta j d)"
    "lock_of i d \<noteq> None \<Longrightarrow> lock_of j d' = None \<longleftrightarrow> lock_of j d = None"
    "get_active_vault_id d' = get_active_vault_id d" "read_live_tokens d' = read_live_tokens d"
    using assms(1)
    by (auto simp: d'_def save_vault_credential_lock_def Let_def get_vault_meta_def lock_of_def store_good_def
        store_frame store_reads obj_laws get_active_vault_id_def split: option.splits)
qed

lemma run_inv_keks: "run_inv C pw eh d s \<Longrightarrow> keks_ok C pw k \<Longrightarrow> run_inv C pw eh d (s\<lparr>ur_keks := k\<rparr>)"
  by (simp add: run_inv_def)

lemma run_inv_token:
  "run_inv C pw eh d s \<Longrightarrow> earned C pw eh d i t \<Longrightarrow>
     run_inv C pw eh d (s\<lparr>ur_keks := k', ur_tokens := obj_set i t (ur_tokens s)\<rparr>) = keks_ok C pw k'"
  by (auto simp: run_inv_def obj_laws)

lemma repair_inv:
  assumes inv: "run_inv C pw eh d s" and lk: "lock_of (vm_id m) d = Some lk" "lk_email_hash lk = eh"
    and live: "get_vault_owner_token (vm_id m) d = Some live" "live \<noteq> []"
  shows "run_inv C pw eh d (fst (repair_one C pw reseal draw m lk live s))"
proof -
  have k: "keks_ok C pw (ur_keks s)" "store_good (ur_dev s)" using inv by (simp_all add: run_inv_def)
  obtain r keks where kf: "kek_for C pw lk (ur_keks s) = (r, keks)" by fastforce
  have ko: "keks_ok C pw keks" using kek_for_ok(2) [OF k(1), of lk] kf by simp
  have e: "earned C pw eh d (vm_id m) live" using lk live by (simp add: earned_def)
  have "lock_of (vm_id m) (ur_dev s) \<noteq> None" using inv lk by (auto simp: run_inv_def)
  note c = cache_effect(1-4,6,7) [OF k(2), where i = "vm_id m"] cache_effect(5) [OF k(2) this]
  show ?thesis
    using inv ko e c by (auto simp: repair_one_def kf run_inv_def obj_laws split: sum.split option.split)
qed

lemma open_one_inv:
  assumes inv: "run_inv C pw eh d s" and lk: "lock_of (vm_id m) d = vm_lock m" "map_option lk_email_hash (vm_lock m) = Some eh"
  shows "run_inv C pw eh d (fst (open_one C pw local reseal draw m s))"
proof -
  let ?lk = "the (vm_lock m)"
  have k: "keks_ok C pw (ur_keks s)" using inv by (simp add: run_inv_def)
  obtain r keks where kf: "kek_for C pw ?lk (ur_keks s) = (r, keks)" by fastforce
  have ko: "keks_ok C pw keks" and r: "r = derive_lock_key C pw ?lk"
    using kek_for_ok [OF k, of ?lk] kf by simp_all
  let ?s = "s\<lparr>ur_keks := keks\<rparr>"
  have i1: "run_inv C pw eh d ?s" by (rule run_inv_keks [OF inv ko])
  then have tok: "get_vault_owner_token (vm_id m) (ur_dev ?s) = get_vault_owner_token (vm_id m) d"
    by (simp add: run_inv_def)
  have L: "lock_of (vm_id m) d = Some ?lk" "lk_email_hash ?lk = eh" using lk by auto
  show ?thesis
  proof (cases "and_then r (\<lambda>k. open_with_key C k (lk_blob ?lk))")
    case (Inl e)
    then show ?thesis using i1 by (simp add: open_one_def kf)
  next
    case (Inr plain)
    let ?t = "text_decode C plain"
    have op: "open_lock C pw ?lk = Inr ?t"
      using Inr by (auto simp: open_lock_def r and_then_Inr_iff)
    consider "?t = placeholder_owner_token" "\<not> truthy (get_vault_owner_token (vm_id m) d)"
      | live where "get_vault_owner_token (vm_id m) d = Some live" "live \<noteq> []" "?t \<noteq> live"
      | "if truthy (get_vault_owner_token (vm_id m) d) then get_vault_owner_token (vm_id m) d = Some ?t
         else ?t \<noteq> placeholder_owner_token"
      by (cases "get_vault_owner_token (vm_id m) d"; cases "?t = placeholder_owner_token";
          cases "truthy (get_vault_owner_token (vm_id m) d)"; cases "get_vault_owner_token (vm_id m) d = Some ?t")
        auto
    then show ?thesis
    proof cases
      case 1
      then show ?thesis using i1 tok by (simp add: open_one_def kf Inr)
    next
      case (2 live)
      then show ?thesis
        using repair_inv [OF i1 L 2(1,2), of reseal draw] tok by (simp add: open_one_def kf Inr)
    next
      case 3
      then have "earned C pw eh d (vm_id m) ?t" using L op by (auto simp: earned_def)
      from run_inv_token [OF i1 this, of keks] ko
      have "run_inv C pw eh d (s\<lparr>ur_keks := keks, ur_tokens := obj_set (vm_id m) ?t (ur_tokens s)\<rparr>)" by simp
      then show ?thesis using 3 tok
        by (auto simp: open_one_def kf Inr Let_def split: if_splits)
    qed
  qed
qed

lemma open_all_inv:
  assumes "run_inv C pw eh d s" and "\<forall>m\<in>set ms. lock_of (vm_id m) d = vm_lock m
      \<and> map_option lk_email_hash (vm_lock m) = Some eh"
  shows "run_inv C pw eh d (fst (open_all C pw local reseal draw ms s))"
  using assms
proof (induction ms arbitrary: s)
  case (Cons m ms)
  have "run_inv C pw eh d (fst (open_one C pw local reseal draw m s))"
    by (rule open_one_inv) (use Cons.prems in auto)
  then show ?case using Cons by (auto split: prod.split option.split)
qed simp

section \<open>Signing in on a trusted device\<close>

lemma seed_one_cases:
  "seed_one C fetch eh m d = d
   \<or> (\<exists>b. truthy (get_vault_owner_token (vm_id m) d)
        \<and> seed_one C fetch eh m d = fst (save_vault_credential_lock (vm_id m) (candidate_lock eh b) d))"
  by (auto simp: seed_one_def Let_def split: sum.split)

lemma seed_one_effect:
  fixes C :: "'a crypto_scheme" and fetch :: fetch_blobs and eh :: jstr and m :: vault_meta
  assumes "store_inv d"
  defines "d' \<equiv> seed_one C fetch eh m d"
  shows "store_inv d'" and "get_vault_owner_token j d' = get_vault_owner_token j d"
    and "\<not> truthy (get_vault_owner_token j d) \<Longrightarrow> lock_of j d' = lock_of j d"
    and "get_active_vault_id d' = get_active_vault_id d"
proof -
  note g = store_inv_good [OF assms(1)]
  consider "d' = d"
    | b where "truthy (get_vault_owner_token (vm_id m) d)"
        "d' = fst (save_vault_credential_lock (vm_id m) (candidate_lock eh b) d)"
    unfolding d'_def using seed_one_cases [of C fetch eh m d] by metis
  then have "store_inv d' \<and> get_vault_owner_token j d' = get_vault_owner_token j d
    \<and> (\<not> truthy (get_vault_owner_token j d) \<longrightarrow> lock_of j d' = lock_of j d)
    \<and> get_active_vault_id d' = get_active_vault_id d"
  proof cases
    case (2 b)
    have "store_inv d'" using cache_inv [OF assms(1)] by (simp add: 2 candidate_lock_def)
    moreover have "lock_of j d' = lock_of j d" if "\<not> truthy (get_vault_owner_token j d)"
      using that 2 cred.cache_locks [OF g, of j "vm_id m"] by (cases "j = vm_id m") auto
    ultimately show ?thesis using 2 cache_effect(2,6) [OF g, where i = "vm_id m"] by simp
  qed (simp add: assms(1))
  then show "store_inv d'" "get_vault_owner_token j d' = get_vault_owner_token j d"
    "\<not> truthy (get_vault_owner_token j d) \<Longrightarrow> lock_of j d' = lock_of j d"
    "get_active_vault_id d' = get_active_vault_id d" by blast+
qed

lemma seed_all_effect:
  assumes "store_inv d"
  shows "store_inv (fold (seed_one C fetch eh) ms d)
    \<and> get_vault_owner_token j (fold (seed_one C fetch eh) ms d) = get_vault_owner_token j d
    \<and> (\<not> truthy (get_vault_owner_token j d) \<longrightarrow> lock_of j (fold (seed_one C fetch eh) ms d) = lock_of j d)
    \<and> get_active_vault_id (fold (seed_one C fetch eh) ms d) = get_active_vault_id d"
  using assms
proof (induction ms arbitrary: d)
  case (Cons m ms)
  let ?d = "seed_one C fetch eh m d"
  note e = seed_one_effect [OF Cons.prems]
  have "store_inv ?d" by (rule e(1))
  then show ?case using Cons.IH [of ?d] by (simp add: e)
qed simp

lemma matching_vaults_lock:
  "store_inv d \<Longrightarrow> m \<in> set (matching_vaults lc eh i d) \<Longrightarrow>
     lock_of (vm_id m) d = vm_lock m \<and> map_option lk_email_hash (vm_lock m) = Some eh"
  by (simp add: matching_vaults_def listed_iff lock_of_def)

text \<open>The run of the loop of a sign-in that gets that far.\<close>

definition sign_in_run :: "('a crypto_scheme) \<Rightarrow> fetch_blobs \<Rightarrow> reseal_call \<Rightarrow> (nat \<Rightarrow> bytes)
    \<Rightarrow> jstr comparator \<Rightarrow> jstr \<Rightarrow> jstr \<Rightarrow> jstr \<Rightarrow> device \<Rightarrow> device \<times> unlock_run \<times> thrown option" where
  "sign_in_run C fetch reseal draw lc pw a stored d =
     (let eh = hash_email_for_lookup C stored;
          d1 = fold (seed_one C fetch eh) (get_all_vault_metas lc d) d
      in (d1, open_all C pw a reseal draw (matching_vaults lc eh a d1)
                \<lparr>ur_tokens = [], ur_keks = [], ur_dev = d1, ur_resealed = []\<rparr>))"

lemma sign_in_run_inv:
  assumes "store_inv d" and "sign_in_run C fetch reseal draw lc pw a stored d = (d1, s, e)"
  shows "run_inv C pw (hash_email_for_lookup C stored) d1 s" and "store_inv d1"
    and "get_vault_owner_token j d1 = get_vault_owner_token j d"
    and "\<not> truthy (get_vault_owner_token j d) \<Longrightarrow> lock_of j d1 = lock_of j d"
proof -
  let ?eh = "hash_email_for_lookup C stored"
  have d1: "d1 = fold (seed_one C fetch ?eh) (get_all_vault_metas lc d) d"
    using assms(2) by (simp add: sign_in_run_def Let_def)
  show i: "store_inv d1" and "get_vault_owner_token j d1 = get_vault_owner_token j d"
    and "\<not> truthy (get_vault_owner_token j d) \<Longrightarrow> lock_of j d1 = lock_of j d"
    unfolding d1 using seed_all_effect [OF assms(1)] by blast+
  have "run_inv C pw ?eh d1 \<lparr>ur_tokens = [], ur_keks = [], ur_dev = d1, ur_resealed = []\<rparr>"
    using store_inv_good [OF i] by (simp add: run_inv_def)
  from open_all_inv [OF this, of "matching_vaults lc ?eh a d1" a reseal draw] matching_vaults_lock [OF i]
  show "run_inv C pw ?eh d1 s"
    using assms(2) by (simp add: sign_in_run_def Let_def d1 [symmetric])
qed

lemma unlock_trusted_run:
  assumes "pw \<noteq> []" "a \<noteq> []" "stored \<noteq> []" "sign_in_run C fetch reseal draw lc pw a stored d = (d1, s, e)"
  shows "unlock_trusted_device C fetch reseal draw lc pw (Some a) stored d =
    (if map_option lk_email_hash (lock_of a d1) \<noteq> Some (hash_email_for_lookup C stored)
     then (Refused (sign_in_error (Js_Error ''wrong-email'')), d1)
     else case e of Some e \<Rightarrow> (Refused (sign_in_error e), ur_dev s)
       | None \<Rightarrow> if \<not> truthy (obj_get (ur_tokens s) a)
           then (Refused (sign_in_error (Js_Error not_restored_text)), ur_dev s)
           else (case unlock_vault_credentials (ur_tokens s) (ur_dev s) of
                   (d2, ok) \<Rightarrow> if ok then (Opened, d2)
                               else (Refused (sign_in_error (Js_Error not_restored_text)), d2)))"
proof -
  have d1: "fold (seed_one C fetch (hash_email_for_lookup C stored)) (get_all_vault_metas lc d) d = d1"
    and all: "open_all C pw a reseal draw (matching_vaults lc (hash_email_for_lookup C stored) a d1)
       \<lparr>ur_tokens = [], ur_keks = [], ur_dev = d1, ur_resealed = []\<rparr> = (s, e)"
    using assms(4) by (auto simp: sign_in_run_def Let_def)
  show ?thesis
    unfolding unlock_trusted_device_def Let_def option.sel d1 all
    by (cases "map_option lk_email_hash (lock_of a d1) = Some (hash_email_for_lookup C stored)"; cases e)
      (simp_all add: assms(1-3) del: map_option_eq_Some)
qed

lemma unlock_failed_same:
  "\<not> snd (unlock_vault_credentials toks d) \<Longrightarrow> fst (unlock_vault_credentials toks d) = d"
  by (auto simp: unlock_vault_credentials_def Let_def split: if_splits)

lemma unlock_trusted_cases:
  assumes "unlock_trusted_device C fetch reseal draw lc pw (Some a) stored d = (r, d')"
  obtains (early) msg where "r = Refused msg" "d' = d"
  | (no_lock) msg where "r = Refused msg" "d' = fst (sign_in_run C fetch reseal draw lc pw a stored d)"
  | (failed) msg d1 s e where "r = Refused msg" "sign_in_run C fetch reseal draw lc pw a stored d = (d1, s, e)"
      "d' = ur_dev s"
  | (opened) d1 s where "r = Opened" "sign_in_run C fetch reseal draw lc pw a stored d = (d1, s, None)"
      "truthy (obj_get (ur_tokens s) a)" "snd (unlock_vault_credentials (ur_tokens s) (ur_dev s))"
      "d' = fst (unlock_vault_credentials (ur_tokens s) (ur_dev s))"
proof (cases "pw = [] \<or> a = [] \<or> stored = []")
  case True
  then have "\<exists>msg. r = Refused msg \<and> d' = d"
    using assms by (cases "pw = []") (auto simp: unlock_trusted_device_def)
  then show thesis using early by blast
next
  case False
  obtain d1 s e where run: "sign_in_run C fetch reseal draw lc pw a stored d = (d1, s, e)"
    by (metis prod_cases3)
  obtain d2 ok where un: "unlock_vault_credentials (ur_tokens s) (ur_dev s) = (d2, ok)" by fastforce
  have ne: "pw \<noteq> []" "a \<noteq> []" "stored \<noteq> []" using False by simp_all
  have "(r, d') = (if map_option lk_email_hash (lock_of a d1) \<noteq> Some (hash_email_for_lookup C stored)
     then (Refused (sign_in_error (Js_Error ''wrong-email'')), d1)
     else case e of Some e \<Rightarrow> (Refused (sign_in_error e), ur_dev s)
       | None \<Rightarrow> if \<not> truthy (obj_get (ur_tokens s) a)
           then (Refused (sign_in_error (Js_Error not_restored_text)), ur_dev s)
           else if ok then (Opened, d2) else (Refused (sign_in_error (Js_Error not_restored_text)), d2))"
    using assms unfolding unlock_trusted_run [OF ne run] un prod.case by (rule sym)
  moreover have "d2 = ur_dev s" if "\<not> ok" using unlock_failed_same [of "ur_tokens s" "ur_dev s"] un that by simp
  ultimately show thesis
    using no_lock [of _] failed [OF _ run] opened [of d1 s] run un
    by (auto split: if_splits option.splits)
qed

lemma opened_effect:
  assumes "store_inv d" and run: "sign_in_run C fetch reseal draw lc pw a stored d = (d1, s, e)"
    and ok: "snd (unlock_vault_credentials (ur_tokens s) (ur_dev s))"
  defines "d' \<equiv> fst (unlock_vault_credentials (ur_tokens s) (ur_dev s))"
  shows "store_inv d'"
    and "get_vault_owner_token j d' = (case obj_get (ur_tokens s) j of Some t \<Rightarrow> Some t
           | None \<Rightarrow> get_vault_owner_token j d)"
proof -
  have inv: "run_inv C pw (hash_email_for_lookup C stored) d1 s" and i1: "store_inv d1"
    using sign_in_run_inv [OF assms(1) run] by blast+
  have tk: "get_vault_owner_token i d1 = get_vault_owner_token i d" for i
    using sign_in_run_inv [OF assms(1) run] by blast
  have g: "store_good (ur_dev s)" "obj_ok (ur_tokens s)"
    and lv: "read_live_tokens (ur_dev s) = read_live_tokens d1"
    and toks: "get_vault_owner_token i (ur_dev s) = get_vault_owner_token i d1"
    and rest: "obj_get (ur_tokens s) i = None \<Longrightarrow> get_vault_meta i (ur_dev s) = get_vault_meta i d1"
    and ids: "map_option vm_id (get_vault_meta i (ur_dev s)) = map_option vm_id (get_vault_meta i d1)" for i
    using inv by (simp_all add: run_inv_def)
  note ue = unlock_effect [OF g ok, folded d'_def]
  show "get_vault_owner_token j d' = (case obj_get (ur_tokens s) j of Some t \<Rightarrow> Some t
           | None \<Rightarrow> get_vault_owner_token j d)"
    using ue(3) [of j] toks tk by (simp split: option.split)
  have pre: "get_vault_meta i (ur_dev s) \<noteq> None" if "obj_get (read_live_tokens (ur_dev s)) i \<noteq> None" for i
    using that i1 ids [of i] unfolding lv store_inv_def by (metis option.map_disc_iff)
  have live: "get_vault_meta i d' \<noteq> None" if "obj_get (read_live_tokens d') i \<noteq> None" for i
    unfolding d'_def by (rule unlock_live [OF g ok pre that [unfolded d'_def]])
  have meta: "vm_id m = i \<and> i \<noteq> [] \<and> (\<forall>lk. vm_lock m = Some lk \<longrightarrow> lock_validated lk \<longrightarrow>
      \<not> truthy (vm_owner_token m))" if m: "get_vault_meta i d' = Some m" for i m
  proof (cases "obj_get (ur_tokens s) i")
    case None
    then have "get_vault_meta i d1 = Some m" using m ue(2) [of i] rest [of i] by simp
    then show ?thesis using i1 by (simp add: store_inv_def)
  next
    case (Some t)
    then obtain x where x: "get_vault_meta i (ur_dev s) = Some x" and mx: "m = unlocked_meta x"
      using m ue(2) [of i] by auto
    obtain y where "get_vault_meta i d1 = Some y" "vm_id y = vm_id x"
      using ids [of i] x by (cases "get_vault_meta i d1") auto
    then show ?thesis using i1 mx by (auto simp: store_inv_def unlocked_meta_def)
  qed
  show "store_inv d'" using ue(1) live meta unfolding store_inv_def by blast
qed

text \<open>C8: Signing in on a trusted device never loses a usable token and never invents one, whatever the
  server answers and whatever password is typed: a vault that had a usable token keeps exactly that
  token, and a vault that gains one gains what its own ciphertext, sealed under the owner's e-mail
  address, holds under the typed password (never the setup placeholder). If the portal reports
  success, the vault signed in to has a usable token and no validated vault has one on disk.\<close>

theorem sign_in_tokens_earned:
  assumes "store_inv d" and "unlock_trusted_device C fetch reseal draw lc pw (Some a) stored d = (r, d')"
  shows "(\<forall>j. truthy (get_vault_owner_token j d) \<longrightarrow> get_vault_owner_token j d' = get_vault_owner_token j d)
    \<and> (\<forall>j. get_vault_owner_token j d' = get_vault_owner_token j d
         \<or> r = Opened \<and> (\<exists>lk t. lock_of j d = Some lk \<and> lk_email_hash lk = hash_email_for_lookup C stored
              \<and> open_lock C pw lk = Inr t \<and> t \<noteq> placeholder_owner_token
              \<and> get_vault_owner_token j d' = Some t))
    \<and> (r = Opened \<longrightarrow> truthy (get_vault_owner_token a d') \<and> store_inv d')"
  using assms(2)
proof (cases rule: unlock_trusted_cases)
  case (no_lock msg)
  then show ?thesis using sign_in_run_inv(3) [OF assms(1)] by (metis fst_conv prod_cases3 sign_in_result.distinct(1))
next
  case (failed msg d1 s e)
  then have "get_vault_owner_token j d' = get_vault_owner_token j d" for j
    using sign_in_run_inv(1) [OF assms(1) failed(2)] sign_in_run_inv(3) [OF assms(1) failed(2)]
    by (simp add: run_inv_def)
  with failed(1) show ?thesis by simp
next
  case (opened d1 s)
  let ?eh = "hash_email_for_lookup C stored"
  have inv: "run_inv C pw ?eh d1 s" by (rule sign_in_run_inv(1) [OF assms(1) opened(2)])
  have tk: "get_vault_owner_token j d1 = get_vault_owner_token j d" for j
    by (rule sign_in_run_inv(3) [OF assms(1) opened(2)])
  note oe = opened_effect [OF assms(1) opened(2,4), folded opened(5)]
  have e: "earned C pw ?eh d1 j t" if "obj_get (ur_tokens s) j = Some t" for j t
    using inv that by (simp add: run_inv_def)
  have keep: "get_vault_owner_token j d' = get_vault_owner_token j d" if "truthy (get_vault_owner_token j d)" for j
    using oe(2) [of j] e [of j] that tk by (auto simp: earned_def split: option.splits)
  moreover have "get_vault_owner_token j d' = get_vault_owner_token j d
      \<or> (\<exists>lk t. lock_of j d = Some lk \<and> lk_email_hash lk = ?eh \<and> open_lock C pw lk = Inr t
              \<and> t \<noteq> placeholder_owner_token \<and> get_vault_owner_token j d' = Some t)" for j
  proof (cases "truthy (get_vault_owner_token j d) \<or> obj_get (ur_tokens s) j = None")
    case True
    then show ?thesis using keep [of j] oe(2) [of j] by auto
  next
    case False
    then obtain t where t: "obj_get (ur_tokens s) j = Some t" by auto
    have "lock_of j d1 = lock_of j d" using sign_in_run_inv(4) [OF assms(1) opened(2)] False by blast
    then show ?thesis using e [OF t] False tk oe(2) [of j] t by (auto simp: earned_def)
  qed
  moreover have "truthy (get_vault_owner_token a d')" using oe(2) [of a] opened(3) by (auto split: option.splits)
  ultimately show ?thesis using opened(1) oe(1) by blast
qed simp

section \<open>Locking and signing in again\<close>

lemma lock_one_lock:
  assumes "store_good d" and "vm_id m = j \<Longrightarrow> vm_lock m = Some lk" and "lock_of j d = Some lk"
  shows "lock_of j (lock_one C fetch m d) = Some lk"
proof (cases "vm_id m = j")
  case True
  then show ?thesis
    using assms cred.lock_clears [OF assms(1), of lk j] cred.lock_refused [of lk j d]
    by (cases "lock_validated lk") (auto simp: lock_one_def Let_def)
next
  case False
  then show ?thesis
    using assms cred.lock_frame [OF assms(1), of j "vm_id m"] cred.cache_locks [OF assms(1), of j "vm_id m"]
    by (auto simp: lock_one_def Let_def split: option.split sum.split)
qed

lemma lock_fold_lock:
  "store_good d \<Longrightarrow> \<forall>m\<in>set ms. vm_id m = j \<longrightarrow> vm_lock m = Some lk \<Longrightarrow> lock_of j d = Some lk \<Longrightarrow>
     lock_of j (fold (lock_one C fetch) ms d) = Some lk"
  by (induction ms arbitrary: d) (auto simp: lock_one_good lock_one_lock)

lemma lock_pass_lock:
  assumes "store_inv d" "lock_of j d = Some lk"
  shows "lock_of j (lock_pass C fetch lc d) = Some lk"
  unfolding lock_pass_def
  by (rule lock_fold_lock [OF store_inv_good [OF assms(1)] _ assms(2)])
    (use assms in \<open>auto simp: listed_iff lock_of_def\<close>)

lemma lock_one_inv: "store_inv d \<Longrightarrow> store_inv (lock_one C fetch m d)"
  by (auto simp: lock_one_def Let_def lock_inv cache_inv candidate_lock_def split: option.split sum.split)

lemma lock_pass_inv: "store_inv d \<Longrightarrow> store_inv (lock_pass C fetch lc d)"
proof -
  have "store_inv d \<Longrightarrow> store_inv (fold (lock_one C fetch) ms d)" for ms
    by (induction ms arbitrary: d) (auto simp: lock_one_inv)
  then show "store_inv d \<Longrightarrow> ?thesis" by (simp add: lock_pass_def)
qed

lemma kek_twice:
  assumes "keks_ok C pw keks" "derive_lock_key C pw lk = Inr kek"
  shows "fst (kek_for C pw lk (snd (kek_for C pw lk keks))) = Inr kek"
  using kek_for_ok(1) [OF kek_for_ok(2) [OF assms(1)]] assms(2) by simp

lemma derive_lock_key_len: "hkdf_sized C \<Longrightarrow> derive_lock_key C pw lk = Inr kek \<Longrightarrow> length kek = 32"
  by (auto simp: derive_lock_key_def and_then_Inr_iff dest: derive_owner_kek_len)

text \<open>A server that accepts the repaired ciphertexts.\<close>

definition accepts :: "reseal_call \<Rightarrow> bool" where
  "accepts reseal \<longleftrightarrow> (\<forall>i token b. reseal i token b = None)"

lemma repair_ok:
  assumes "keks_ok C pw (ur_keks s)" "hkdf_sized C" "accepts reseal" "derive_lock_key C pw lk = Inr kek"
  shows "snd (repair_one C pw reseal draw m lk live s) = None
    \<and> ur_tokens (fst (repair_one C pw reseal draw m lk live s)) = obj_set (vm_id m) live (ur_tokens s)"
proof -
  obtain keks where k: "kek_for C pw lk (ur_keks s) = (Inr kek, keks)"
    using kek_for_ok(1) [OF assms(1), of lk] assms(4) by (metis prod.exhaust_sel)
  then show ?thesis
    using derive_lock_key_len [OF assms(2,4)] assms(3)
    by (simp add: repair_one_def seal_with_key_def kek_len_def accepts_def)
qed

lemma open_one_ok:
  assumes inv: "run_inv C pw eh d s" and C: "hkdf_sized C" and acc: "accepts reseal"
    and a: "vm_id m = a \<Longrightarrow> \<exists>t. open_lock C pw (the (vm_lock m)) = Inr t \<and> t \<noteq> placeholder_owner_token"
  shows "snd (open_one C pw a reseal draw m s) = None"
    and "vm_id m = a \<Longrightarrow> obj_get (ur_tokens (fst (open_one C pw a reseal draw m s))) a \<noteq> None"
    and "obj_get (ur_tokens s) a \<noteq> None \<Longrightarrow>
           obj_get (ur_tokens (fst (open_one C pw a reseal draw m s))) a \<noteq> None"
proof -
  let ?lk = "the (vm_lock m)"
  have k: "keks_ok C pw (ur_keks s)" using inv by (simp add: run_inv_def)
  obtain r keks where kf: "kek_for C pw ?lk (ur_keks s) = (r, keks)" by fastforce
  have ko: "keks_ok C pw keks" and r: "r = derive_lock_key C pw ?lk"
    using kek_for_ok [OF k, of ?lk] kf by simp_all
  let ?o = "open_one C pw a reseal draw m s"
  have "snd ?o = None \<and> (vm_id m = a \<longrightarrow> obj_get (ur_tokens (fst ?o)) a \<noteq> None)
    \<and> (obj_get (ur_tokens s) a \<noteq> None \<longrightarrow> obj_get (ur_tokens (fst ?o)) a \<noteq> None)"
  proof (cases "and_then r (\<lambda>k. open_with_key C k (lk_blob ?lk))")
    case (Inl e)
    then have "open_lock C pw ?lk = Inl e"
      by (cases r) (auto simp: open_lock_def r [symmetric])
    then have "vm_id m \<noteq> a" using a by auto
    with Inl show ?thesis by (simp add: open_one_def kf)
  next
    case (Inr plain)
    then obtain kek where kek: "derive_lock_key C pw ?lk = Inr kek" by (auto simp: r and_then_Inr_iff)
    have op: "open_lock C pw ?lk = Inr (text_decode C plain)"
      using Inr by (auto simp: open_lock_def r and_then_Inr_iff)
    have ph: "text_decode C plain \<noteq> placeholder_owner_token" if "vm_id m = a" using a [OF that] op by simp
    have "keks_ok C pw (ur_keks (s\<lparr>ur_keks := keks\<rparr>))" using ko by simp
    from repair_ok [OF this C acc kek] ph show ?thesis
      by (simp add: open_one_def kf Inr Let_def obj.get_put)
  qed
  then show "snd ?o = None" "vm_id m = a \<Longrightarrow> obj_get (ur_tokens (fst ?o)) a \<noteq> None"
    "obj_get (ur_tokens s) a \<noteq> None \<Longrightarrow> obj_get (ur_tokens (fst ?o)) a \<noteq> None" by blast+
qed

lemma open_all_ok:
  assumes "run_inv C pw eh d s" "hkdf_sized C" "accepts reseal"
    and "\<forall>m\<in>set ms. lock_of (vm_id m) d = vm_lock m \<and> map_option lk_email_hash (vm_lock m) = Some eh"
    and "\<forall>m\<in>set ms. vm_id m = a \<longrightarrow> (\<exists>t. open_lock C pw (the (vm_lock m)) = Inr t \<and> t \<noteq> placeholder_owner_token)"
  shows "snd (open_all C pw a reseal draw ms s) = None
    \<and> (obj_get (ur_tokens s) a \<noteq> None \<or> a \<in> vm_id ` set ms
        \<longrightarrow> obj_get (ur_tokens (fst (open_all C pw a reseal draw ms s))) a \<noteq> None)"
  using assms
proof (induction ms arbitrary: s)
  case (Cons m ms)
  have am: "vm_id m = a \<Longrightarrow> \<exists>t. open_lock C pw (the (vm_lock m)) = Inr t \<and> t \<noteq> placeholder_owner_token"
    using Cons.prems(5) by simp
  note o = open_one_ok [where a = a and draw = draw, OF Cons.prems(1-3) am]
  obtain s' where s': "open_one C pw a reseal draw m s = (s', None)"
    using o(1) by (metis prod.collapse)
  have inv: "run_inv C pw eh d s'"
    using open_one_inv [OF Cons.prems(1), of m a reseal draw] Cons.prems(4) s' by simp
  have "snd (open_all C pw a reseal draw ms s') = None
    \<and> (obj_get (ur_tokens s') a \<noteq> None \<or> a \<in> vm_id ` set ms
        \<longrightarrow> obj_get (ur_tokens (fst (open_all C pw a reseal draw ms s'))) a \<noteq> None)"
    by (rule Cons.IH [OF inv Cons.prems(2,3)]) (use Cons.prems in auto)
  moreover have "vm_id m = a \<Longrightarrow> obj_get (ur_tokens s') a \<noteq> None"
    "obj_get (ur_tokens s) a \<noteq> None \<Longrightarrow> obj_get (ur_tokens s') a \<noteq> None"
    using open_one_ok(2,3) [where a = a and draw = draw, OF Cons.prems(1-3) am] by (simp_all add: s')
  ultimately show ?case using s' by auto
qed simp

lemma tokens_nonempty:
  assumes "run_inv C pw eh d s" and "\<forall>j lk. lock_of j d = Some lk \<longrightarrow> \<not> truthy (get_vault_owner_token j d) \<longrightarrow> open_lock C pw lk \<noteq> Inr []"
  shows "snd (unlock_vault_credentials (ur_tokens s) (ur_dev s))"
  unfolding unlock_success_iff
proof clarify
  fix i t assume "(i, t) \<in> set (ur_tokens s)"
  then have "earned C pw eh d i t"
    using assms(1) obj_entry_get by (fastforce simp: run_inv_def)
  then show "lock_of i (ur_dev s) \<noteq> None \<and> t \<noteq> []"
    using assms by (auto simp: earned_def run_inv_def split: if_splits)
qed

text \<open>The loop of a sign-in opens the active vault whose lock the password opens.\<close>

lemma run_opens_active:
  assumes run: "sign_in_run C fetch' reseal draw lc pw a em d1 = (ds, s, e)" and i1: "store_inv d1" and a: "a \<noteq> []"
    and la: "lock_of a d1 = Some lk" "lk_email_hash lk = hash_email_for_lookup C em"
    and op: "open_lock C pw lk = Inr t" "t \<noteq> placeholder_owner_token"
    and C: "hkdf_sized C" "accepts reseal" and gone: "\<not> truthy (get_vault_owner_token a d1)"
  shows "e = None \<and> lock_of a ds = Some lk \<and> obj_get (ur_tokens s) a = Some t"
proof -
  let ?eh = "hash_email_for_lookup C em" and ?ms = "matching_vaults lc (hash_email_for_lookup C em) a ds"
  have inv: "run_inv C pw ?eh ds s" and ids: "store_inv ds" using sign_in_run_inv [OF i1 run] by blast+
  have tok: "get_vault_owner_token a ds = get_vault_owner_token a d1"
    and las: "lock_of a ds = Some lk"
    using sign_in_run_inv [OF i1 run] gone la(1) by auto
  then obtain ma where ma: "get_vault_meta a ds = Some ma" "vm_lock ma = Some lk" "vm_id ma = a"
    using store_inv_meta [OF ids] by (auto simp: lock_of_def bind_eq_Some_conv)
  have inm: "ma \<in> set ?ms" using ma la(2) by (simp add: matching_vaults_def listed_iff [OF ids])
  let ?s0 = "\<lparr>ur_tokens = [], ur_keks = [], ur_dev = ds, ur_resealed = []\<rparr>"
  have all: "open_all C pw a reseal draw ?ms ?s0 = (s, e)" using run by (auto simp: sign_in_run_def Let_def)
  have i0: "run_inv C pw ?eh ds ?s0" using store_inv_good [OF ids] by (simp add: run_inv_def)
  have only: "x = ma" if "x \<in> set ?ms" "vm_id x = a" for x
    using that ma by (simp add: matching_vaults_def listed_iff [OF ids])
  have "snd (s, e) = None \<and> (obj_get (ur_tokens ?s0) a \<noteq> None \<or> a \<in> vm_id ` set ?ms
      \<longrightarrow> obj_get (ur_tokens (fst (s, e))) a \<noteq> None)"
    unfolding all [symmetric]
  proof (rule open_all_ok [OF i0 C])
    show "\<forall>x\<in>set ?ms. lock_of (vm_id x) ds = vm_lock x \<and> map_option lk_email_hash (vm_lock x) = Some ?eh"
      using matching_vaults_lock [OF ids] by blast
    show "\<forall>x\<in>set ?ms. vm_id x = a \<longrightarrow>
        (\<exists>t. open_lock C pw (the (vm_lock x)) = Inr t \<and> t \<noteq> placeholder_owner_token)"
      using only ma(2) op by fastforce
  qed
  then have e: "e = None" and ta: "obj_get (ur_tokens s) a \<noteq> None" using inm ma(3) by auto
  have "earned C pw ?eh ds a x" if "obj_get (ur_tokens s) a = Some x" for x
    using inv that by (simp add: run_inv_def)
  then show ?thesis using e las ta gone tok op(1) by (auto simp: earned_def)
qed

text \<open>C7: One full cycle: the inactivity lock takes the owner token off the device, and the owner's
  password brings exactly that token back. This holds for a vault whose validated lock seals its token
  under that password and is filed under the owner's e-mail address, provided the server accepts
  repaired ciphertexts and no lock of the device seals an empty token; siblings sealed under other
  passwords do not get in the way.\<close>

theorem lock_then_sign_in:
  assumes "store_inv d" and m: "get_vault_meta a d = Some m" "vm_lock m = Some lk" "password_locked m"
    and lk: "lk_email_hash lk = hash_email_for_lookup C (owner_address m)"
      "derive_lock_key C pw lk = Inr kek" "seal_with_key C n kek (utf8 t) = Inr (lk_blob lk)"
    and t: "get_vault_owner_token a d = Some t" "t \<noteq> placeholder_owner_token" "t \<noteq> []" "text_faithful C t"
    and C: "aead_correct C" "hkdf_sized C" "length n = 24" and acc: "accepts reseal" and pw: "pw \<noteq> []"
    and blank: "\<forall>j lk'. lock_of j (lock_pass C fetch lc d) = Some lk' \<longrightarrow> open_lock C pw lk' \<noteq> Inr []"
  defines "d1 \<equiv> lock_pass C fetch lc d"
  shows "\<not> truthy (get_vault_owner_token a d1)
    \<and> (\<exists>d2. unlock_trusted_device C fetch' reseal draw lc pw (Some a) (owner_address m) d1 = (Opened, d2)
          \<and> get_vault_owner_token a d2 = Some t)"
proof -
  let ?em = "owner_address m" and ?eh = "hash_email_for_lookup C (owner_address m)"
  have a: "a \<noteq> []" using store_inv_meta [OF assms(1) m(1)] by simp
  have "email_shaped (js_trim ?em)" using m(3) by (simp add: password_locked_def)
  then have em: "?em \<noteq> []" using email_shaped_nonempty [of "js_trim ?em"] by (cases ?em) auto
  have i1: "store_inv d1" unfolding d1_def by (rule lock_pass_inv [OF assms(1)])
  have gone: "\<not> truthy (get_vault_owner_token a d1)"
    using lock_pass_core [OF assms(1) m(1), of C fetch lc] m(3) by (simp add: d1_def)
  have la: "lock_of a d1 = Some lk"
    unfolding d1_def by (rule lock_pass_lock [OF assms(1)]) (simp add: lock_of_def m(1,2))
  have op: "open_lock C pw lk = Inr t"
    using lk(2) open_seal [OF C(1,3) lk(3)] t(4) by (simp add: open_lock_def text_faithful_def)
  obtain ds s e where run: "sign_in_run C fetch' reseal draw lc pw a ?em d1 = (ds, s, e)"
    by (metis prod_cases3)
  have inv: "run_inv C pw ?eh ds s" using sign_in_run_inv [OF i1 run] by blast
  have tok: "get_vault_owner_token j ds = get_vault_owner_token j d1"
    and lock: "\<not> truthy (get_vault_owner_token j d1) \<Longrightarrow> lock_of j ds = lock_of j d1" for j
    using sign_in_run_inv [OF i1 run] by blast+
  have e: "e = None" and las: "lock_of a ds = Some lk" and ta: "obj_get (ur_tokens s) a = Some t"
    using run_opens_active [OF run i1 a la lk(1) op t(2) C(2) acc gone] by blast+
  have ok: "snd (unlock_vault_credentials (ur_tokens s) (ur_dev s))"
    by (rule tokens_nonempty [OF inv]) (use tok lock blank in \<open>auto simp: d1_def\<close>)
  have "unlock_trusted_device C fetch' reseal draw lc pw (Some a) ?em d1
      = (Opened, fst (unlock_vault_credentials (ur_tokens s) (ur_dev s)))"
    using unlock_trusted_run [OF pw a em run] las lk(1) e ta t(3) ok by (auto split: prod.split)
  moreover have "get_vault_owner_token a (fst (unlock_vault_credentials (ur_tokens s) (ur_dev s))) = Some t"
    using opened_effect(2) [OF i1 run ok, of a] ta by simp
  ultimately show ?thesis using gone by blast
qed

section \<open>Restoring vaults from a sign-in link\<close>

record found_vault =
  fv_id :: jstr
  fv_label :: "jstr option"
  fv_status :: jstr
  fv_created_at :: jstr

record recovery_bundle =
  rb_vault :: found_vault
  rb_blobs :: sealed_blobs_view

definition unseal_blobs :: "('a crypto_scheme) \<Rightarrow> jstr \<Rightarrow> sealed_blobs_view \<Rightarrow> (jstr, jstr \<times> jstr) throws" where
  "unseal_blobs C password b =
     unseal_owner C \<lparr>uo_password = password, uo_salt = sbv_password_salt_b64 b,
       uo_mem_kib = nat (sbv_password_kdf_mem_kib b), uo_iters = nat (sbv_password_kdf_iters b),
       uo_xprv_blob = mk_blob (sbv_owner_xprv_ct_b64 b) (sbv_owner_xprv_nonce_b64 b),
       uo_token_blob = mk_blob (sbv_owner_token_ct_b64 b) (sbv_owner_token_nonce_b64 b)\<rparr>"

definition or_else :: "jstr \<Rightarrow> jstr \<Rightarrow> jstr" where
  "or_else a b = (if a = [] then b else a)"

text \<open>The entry written for a restored vault; the token is undefined for a placeholder.\<close>

definition restored_meta :: "('a crypto_scheme) \<Rightarrow> jstr \<Rightarrow> jstr \<Rightarrow> jstr option \<Rightarrow> recovery_bundle \<Rightarrow> jstr option
    \<Rightarrow> vault_meta" where
  "restored_meta C recovered_email email group_id b token =
     \<lparr>vm_id = fv_id (rb_vault b), vm_label = the_default ''Your vault'' (fv_label (rb_vault b)),
      vm_owner = \<lparr>oi_address = or_else recovered_email (js_trim email)\<rparr>,
      vm_heir = \<lparr>hi_name = heir_name_from_label (fv_label (rb_vault b)), hi_email = [], hi_address = []\<rparr>,
      vm_created_at = fv_created_at (rb_vault b), vm_owner_token = token,
      vm_lock = (if truthy token
        then Some ((candidate_lock (hash_email_for_lookup C (or_else recovered_email email)) (rb_blobs b))
                     \<lparr>lk_validated := Some True\<rparr>)
        else None),
      vm_group_id = group_id\<rparr>"

definition not_ready_text :: jstr where
  "not_ready_text = ''We can open your vault but the sign-in credentials aren'' @ [CHR 0x27]
     @ ''t ready yet for this device. Check in once from the device you used to set up the vault, ''
     @ ''then try again here.''"

definition open_vault :: "('a crypto_scheme) \<Rightarrow> jstr \<Rightarrow> jstr \<Rightarrow> jstr \<Rightarrow> recovery_bundle \<Rightarrow> device
    \<Rightarrow> sign_in_result \<times> device" where
  "open_vault C password recovered_email email b d =
     (case unseal_blobs C password (rb_blobs b) of
        Inl e \<Rightarrow> (Refused (if test_search rx_unseal e then wrong_password_retry else e), d)
      | Inr (xprv, owner_token) \<Rightarrow>
          if owner_token = placeholder_owner_token then (Refused not_ready_text, d)
          else (Opened, set_active_vault_id (Some (fv_id (rb_vault b)))
                  (save_vault_meta
                    ((restored_meta C recovered_email email None b (Some owner_token))
                       \<lparr>vm_lock := Some ((candidate_lock (hash_email_for_lookup C (or_else recovered_email email)) (rb_blobs b))
                          \<lparr>lk_validated := Some True\<rparr>)\<rparr>) d)))"

text \<open>Oldest first, ties broken by identifier.\<close>

definition bundle_order :: "jstr comparator \<Rightarrow> recovery_bundle comparator" where
  "bundle_order lc = key (\<lambda>b. (fv_created_at (rb_vault b), fv_id (rb_vault b))) (prod_lex lc lc)"

definition group_token :: "jstr \<Rightarrow> jstr option" where
  "group_token t = (if t = placeholder_owner_token then None else Some t)"

text \<open>The loop over the bundles: the first identifier and the first one not yet claimed; a failure keeps
  what has been written so far.\<close>

fun open_bundles :: "('a crypto_scheme) \<Rightarrow> jstr \<Rightarrow> jstr \<Rightarrow> jstr \<Rightarrow> jstr \<Rightarrow> recovery_bundle list
    \<Rightarrow> jstr option \<Rightarrow> jstr option \<Rightarrow> device \<Rightarrow> (jstr \<times> device, jstr option \<times> jstr option \<times> device) throws" where
  "open_bundles C password recovered_email email group_id [] first_id first_live d = Inr (first_id, first_live, d)"
| "open_bundles C password recovered_email email group_id (b # bs) first_id first_live d =
     (case unseal_blobs C password (rb_blobs b) of
        Inl e \<Rightarrow> Inl (if test_search rx_unseal e then wrong_password_retry else e, d)
      | Inr (xprv, owner_token) \<Rightarrow>
          (let i = fv_id (rb_vault b)
           in open_bundles C password recovered_email email group_id bs
                (if truthy first_id then first_id else Some i)
                (if \<not> truthy first_live \<and> fv_status (rb_vault b) \<noteq> ''claimed'' then Some i else first_live)
                (save_vault_meta
                  (restored_meta C recovered_email email (Some group_id) b (group_token owner_token)) d)))"

definition no_bundle_text :: jstr where
  "no_bundle_text = ''This vault was set up before cross-device sign-in shipped. ''
     @ ''Check in from the device you used originally.''"

definition open_group :: "('a crypto_scheme) \<Rightarrow> jstr comparator \<Rightarrow> jstr \<Rightarrow> jstr \<Rightarrow> jstr \<Rightarrow> jstr
    \<Rightarrow> recovery_bundle list \<Rightarrow> device \<Rightarrow> sign_in_result \<times> device" where
  "open_group C lc group_id password recovered_email email bundles d =
     (case open_bundles C password recovered_email email group_id (js_sort (bundle_order lc) bundles) None None d of
        Inl (message, d') \<Rightarrow> (Refused message, d')
      | Inr (first_id, first_live, d') \<Rightarrow>
          if \<not> truthy first_id then (Refused no_bundle_text, d')
          else (Opened, set_active_vault_id (nullish first_live first_id) d'))"

definition recover :: "('a crypto_scheme) \<Rightarrow> jstr comparator \<Rightarrow> jstr \<Rightarrow> jstr \<Rightarrow> jstr \<Rightarrow> jstr
    \<Rightarrow> recovery_bundle list \<Rightarrow> device \<Rightarrow> sign_in_result \<times> device" where
  "recover C lc group_id password recovered_email email bundles d =
     (if password = [] then (Refused ''Enter your password.'', d)
      else case bundles of
        [] \<Rightarrow> (Refused ''No password-enabled vaults were found for this recovery link.'', d)
      | [b] \<Rightarrow> open_vault C password recovered_email email b d
      | _ \<Rightarrow> open_group C lc group_id password recovered_email email bundles d)"

section \<open>What a sign-in link restores\<close>

lemma unseal_sealed:
  assumes "aead_correct C" "hkdf_sized C" "text_faithful C (sai_owner_xprv i)" "text_faithful C (sai_owner_token i)"
    and "length (d_nonce1 r) = 24" "length (d_nonce2 r) = 24"
    and "seal_vault_secrets C r i = Inr s" and "nfkc C pw = nfkc C (sai_password i)"
  shows "unseal_blobs C pw (sealed_view v net blocks frag s) = Inr (sai_owner_xprv i, sai_owner_token i)"
proof -
  obtain kek b1 b2 where kek: "derive_owner_kek C (sai_password i) (d_salt r) None None = Inr kek"
    and b: "seal_with_key C (d_nonce1 r) kek (utf8 (sai_owner_xprv i)) = Inr b1"
      "seal_with_key C (d_nonce2 r) kek (utf8 (sai_owner_token i)) = Inr b2"
    and s: "svs_password_salt s = b64encode (d_salt r)" "svs_mem_kib s = argon_mem_kib"
      "svs_iters s = argon_iters" "svs_owner_xprv s = b1" "svs_owner_token s = b2"
    using assms(7) by (auto simp: seal_vault_secrets_def Let_def and_then_Inr_iff)
  have "mk_blob (sb_ct b1) (sb_nonce b1) = b1" "mk_blob (sb_ct b2) (sb_nonce b2) = b2"
    using b by (auto simp: seal_ok mk_blob_def)
  then show ?thesis
    using assms(3,4) kek open_seal [OF assms(1,5) b(1)] open_seal [OF assms(1,6) b(2)]
      derive_normalises [OF assms(8), of "d_salt r"] derive_defaults [of C pw "d_salt r"]
    by (simp add: unseal_blobs_def unseal_owner_def sealed_view_def s text_faithful_def)
qed

text \<open>The last unclaimed-first choice of the loop.\<close>

definition first_live_of :: "recovery_bundle list \<Rightarrow> jstr option" where
  "first_live_of bs = map_option (\<lambda>b. fv_id (rb_vault b)) (find (\<lambda>b. fv_status (rb_vault b) \<noteq> ''claimed'') bs)"

lemma open_bundles_ok:
  assumes "\<forall>b\<in>set bs. fv_id (rb_vault b) \<noteq> [] \<and> (\<exists>x. unseal_blobs C pw (rb_blobs b) = Inr (x, tok b))"
  shows "open_bundles C pw re em g bs f l d =
    Inr (if truthy f then f else case bs of [] \<Rightarrow> f | b # _ \<Rightarrow> Some (fv_id (rb_vault b)),
         if truthy l then l else nullish (first_live_of bs) l,
         fold (\<lambda>b. save_vault_meta (restored_meta C re em (Some g) b (group_token (tok b)))) bs d)"
  using assms
proof (induction bs arbitrary: f l d)
  case (Cons b bs)
  obtain x where x: "unseal_blobs C pw (rb_blobs b) = Inr (x, tok b)" using Cons.prems by auto
  have i: "fv_id (rb_vault b) \<noteq> []" using Cons.prems by simp
  show ?case
    using Cons.IH [of "if truthy f then f else Some (fv_id (rb_vault b))"] Cons.prems i
    by (auto simp: x Let_def first_live_of_def)
qed (simp add: first_live_of_def)

definition stored_form :: "vault_meta \<Rightarrow> vault_meta" where
  "stored_form m = (if truthy (vm_owner_token m) \<and> (\<exists>lk. vm_lock m = Some lk \<and> lock_validated lk)
     then m\<lparr>vm_owner_token := None\<rparr> else m)"

lemma save_live:
  assumes "store_good d" "\<not> truthy (vm_owner_token m)"
  shows "read_live_tokens (save_vault_meta m d) = read_live_tokens d"
  using assms by (auto simp: save_vault_meta_def Let_def store_frame)

lemma save_fold:
  assumes "store_good d" "distinct (map vm_id ms)"
  shows "store_good (fold save_vault_meta ms d)
    \<and> (\<forall>j. j \<notin> vm_id ` set ms \<longrightarrow> get_vault_meta j (fold save_vault_meta ms d) = get_vault_meta j d
          \<and> get_vault_owner_token j (fold save_vault_meta ms d) = get_vault_owner_token j d)
    \<and> (\<forall>m\<in>set ms. get_vault_meta (vm_id m) (fold save_vault_meta ms d) = Some (stored_form m)
          \<and> (\<forall>lk. truthy (vm_owner_token m) \<longrightarrow> vm_lock m = Some lk \<longrightarrow> lock_validated lk \<longrightarrow>
               get_vault_owner_token (vm_id m) (fold save_vault_meta ms d) = vm_owner_token m))"
  using assms
proof (induction ms arbitrary: d)
  case (Cons m ms)
  note e = save_effect [OF Cons.prems(1), where meta = m]
  have ih: "store_good (save_vault_meta m d)" "distinct (map vm_id ms)" using e(1) Cons.prems by auto
  note ih = Cons.IH [OF ih]
  have n: "vm_id m \<notin> vm_id ` set ms" using Cons.prems by auto
  show ?case using ih e(2,3) n save_effect(4,5) [OF Cons.prems(1), where meta = m]
    by (auto simp: stored_form_def)
qed simp

lemma distinct_js_sort: "distinct (map f (js_sort c xs)) \<longleftrightarrow> distinct (map f xs)"
proof -
  have "mset (map f (js_sort c xs)) = mset (map f xs)" by simp
  then show ?thesis by (rule mset_eq_imp_distinct_iff)
qed

lemma restored_meta_id [simp]: "vm_id (restored_meta C re em g b t) = fv_id (rb_vault b)"
  by (simp add: restored_meta_def)

lemma restored_lock:
  "truthy t \<Longrightarrow> \<exists>lk. vm_lock (restored_meta C re em g b t) = Some lk \<and> lock_validated lk"
  by (simp add: restored_meta_def)

lemma restored_fields:
  "vm_owner_token (restored_meta C re em g b t) = t" "vm_group_id (restored_meta C re em g b t) = g"
  "vm_lock (restored_meta C re em g b None) = None"
  by (simp_all add: restored_meta_def)

lemma open_group_effect:
  fixes lc :: "jstr comparator"
  assumes "store_good d" "bundles \<noteq> []" "distinct (map (\<lambda>b. fv_id (rb_vault b)) bundles)"
    and "\<forall>b\<in>set bundles. fv_id (rb_vault b) \<noteq> [] \<and> tok b \<noteq> [] \<and> (\<exists>x. unseal_blobs C pw (rb_blobs b) = Inr (x, tok b))"
  defines "ordered \<equiv> js_sort (bundle_order lc) bundles"
  shows "\<exists>d'. open_group C lc g pw re em bundles d = (Opened, d')
    \<and> (\<forall>b\<in>set bundles. \<exists>m. get_vault_meta (fv_id (rb_vault b)) d' = Some m \<and> vm_group_id m = Some g
          \<and> vm_owner_token m = None
          \<and> (if tok b = placeholder_owner_token then vm_lock m = None
             else get_vault_owner_token (fv_id (rb_vault b)) d' = Some (tok b)))
    \<and> (\<forall>j. j \<notin> (\<lambda>b. fv_id (rb_vault b)) ` set bundles \<longrightarrow> get_vault_meta j d' = get_vault_meta j d
          \<and> get_vault_owner_token j d' = get_vault_owner_token j d)
    \<and> get_active_vault_id d' = nullish (first_live_of ordered) (Some (fv_id (rb_vault (hd ordered))))"
proof -
  let ?f = "\<lambda>b. restored_meta C re em (Some g) b (group_token (tok b))"
  let ?ms = "map ?f ordered"
  let ?d = "fold save_vault_meta ?ms d"
  have set: "set ordered = set bundles" by (simp add: ordered_def)
  have ne: "ordered \<noteq> []" using assms(2) set by auto
  then obtain b0 bs where b0: "ordered = b0 # bs" by (cases ordered) auto
  have i0: "fv_id (rb_vault b0) \<noteq> []" using assms(4) set b0 by auto
  have all: "\<forall>b\<in>set ordered. fv_id (rb_vault b) \<noteq> [] \<and> (\<exists>x. unseal_blobs C pw (rb_blobs b) = Inr (x, tok b))"
    using assms(4) set by auto
  have "open_bundles C pw re em g ordered None None d
      = Inr (Some (fv_id (rb_vault b0)), first_live_of ordered, ?d)"
    using open_bundles_ok [OF all, of re em g None None d]
    by (cases "first_live_of ordered") (simp_all add: b0 fold_map comp_def del: open_bundles.simps)
  then have og: "open_group C lc g pw re em bundles d
      = (Opened, set_active_vault_id (nullish (first_live_of ordered) (Some (fv_id (rb_vault b0)))) ?d)"
    using i0 by (simp add: open_group_def ordered_def [symmetric])
  have "distinct (map vm_id ?ms)"
    using assms(3) by (simp add: comp_def ordered_def distinct_js_sort)
  note sf = save_fold [OF assms(1) this]
  have act: "get_active_vault_id (set_active_vault_id (nullish (first_live_of ordered) (Some (fv_id (rb_vault b0)))) ?d)
      = nullish (first_live_of ordered) (Some (fv_id (rb_vault b0)))"
  proof -
    have "truthy (nullish (first_live_of ordered) (Some (fv_id (rb_vault b0))))"
    proof (cases "find (\<lambda>b. fv_status (rb_vault b) \<noteq> ''claimed'') ordered")
      case (Some x)
      then have "x \<in> set ordered" by (auto simp: find_Some_iff)
      with Some all show ?thesis by (simp add: first_live_of_def)
    qed (simp add: first_live_of_def i0)
    moreover have "storage_works ?d" using sf by (simp add: store_good_def)
    ultimately show ?thesis by (simp add: active_set_active)
  qed
  have frame: "get_vault_meta j (set_active_vault_id x ?d) = get_vault_meta j ?d"
    "get_vault_owner_token j (set_active_vault_id x ?d) = get_vault_owner_token j ?d" for j x
    by (simp_all add: get_vault_meta_def get_vault_owner_token_def store_frame)
  have mine: "\<exists>m. get_vault_meta (fv_id (rb_vault b)) ?d = Some m \<and> vm_group_id m = Some g
      \<and> vm_owner_token m = None
      \<and> (if tok b = placeholder_owner_token then vm_lock m = None
         else get_vault_owner_token (fv_id (rb_vault b)) ?d = Some (tok b))" if "b \<in> set bundles" for b
  proof -
    have "?f b \<in> set ?ms" using that set by auto
    then have m: "get_vault_meta (fv_id (rb_vault b)) ?d = Some (stored_form (?f b))"
      and t: "truthy (group_token (tok b)) \<Longrightarrow> vm_lock (?f b) = Some lk \<Longrightarrow> lock_validated lk \<Longrightarrow>
        get_vault_owner_token (fv_id (rb_vault b)) ?d = group_token (tok b)" for lk
      using sf by (fastforce simp: restored_fields)+
    show ?thesis
    proof (cases "tok b = placeholder_owner_token")
      case True
      then show ?thesis using m by (simp add: group_token_def stored_form_def restored_fields)
    next
      case False
      then have tr: "truthy (group_token (tok b))" using assms(4) that by (simp add: group_token_def)
      from restored_lock [OF this] obtain lk where "vm_lock (?f b) = Some lk" "lock_validated lk" by blast
      then show ?thesis using m t [of lk] tr False
        by (simp add: stored_form_def restored_fields group_token_def)
    qed
  qed
  have rest: "\<forall>j. j \<notin> (\<lambda>b. fv_id (rb_vault b)) ` set bundles \<longrightarrow> get_vault_meta j ?d = get_vault_meta j d
          \<and> get_vault_owner_token j ?d = get_vault_owner_token j d"
    using sf by (simp add: set image_image)
  let ?e = "set_active_vault_id (nullish (first_live_of ordered) (Some (fv_id (rb_vault b0)))) ?d"
  have "\<forall>b\<in>set bundles. \<exists>m. get_vault_meta (fv_id (rb_vault b)) ?e = Some m \<and> vm_group_id m = Some g
      \<and> vm_owner_token m = None
      \<and> (if tok b = placeholder_owner_token then vm_lock m = None
         else get_vault_owner_token (fv_id (rb_vault b)) ?e = Some (tok b))"
    unfolding frame using mine by blast
  moreover have "\<forall>j. j \<notin> (\<lambda>b. fv_id (rb_vault b)) ` set bundles \<longrightarrow> get_vault_meta j ?e = get_vault_meta j d
          \<and> get_vault_owner_token j ?e = get_vault_owner_token j d"
    unfolding frame by (rule rest)
  moreover have "get_active_vault_id ?e = nullish (first_live_of ordered) (Some (fv_id (rb_vault (hd ordered))))"
    unfolding b0 list.sel using act unfolding b0 .
  ultimately show ?thesis using og by blast
qed

text \<open>Redeeming a sign-in link for a group of vaults, with a password that opens every bundle, restores
  every vault whose bundle holds its token: the token is usable and not on disk. All vaults get the
  same group, no other vault of the device is touched, and the dashboard opens on the oldest vault not
  yet claimed (the oldest one if all are).\<close>

theorem group_link_restores:
  assumes "store_good d" "bundles \<noteq> []" "distinct (map (\<lambda>b. fv_id (rb_vault b)) bundles)"
    and "\<forall>b\<in>set bundles. fv_id (rb_vault b) \<noteq> [] \<and> tok b \<noteq> [] \<and> (\<exists>x. unseal_blobs C pw (rb_blobs b) = Inr (x, tok b))"
  shows "\<exists>d'. open_group C lc g pw re em bundles d = (Opened, d')
    \<and> (\<forall>b\<in>set bundles. \<exists>m. get_vault_meta (fv_id (rb_vault b)) d' = Some m \<and> vm_group_id m = Some g
          \<and> vm_owner_token m = None
          \<and> (if tok b = placeholder_owner_token then vm_lock m = None
             else get_vault_owner_token (fv_id (rb_vault b)) d' = Some (tok b)))
    \<and> (\<forall>j. j \<notin> (\<lambda>b. fv_id (rb_vault b)) ` set bundles \<longrightarrow> get_vault_meta j d' = get_vault_meta j d
          \<and> get_vault_owner_token j d' = get_vault_owner_token j d)
    \<and> get_active_vault_id d' = nullish (first_live_of (js_sort (bundle_order lc) bundles))
          (Some (fv_id (rb_vault (hd (js_sort (bundle_order lc) bundles)))))"
  by (rule open_group_effect [OF assms])

text \<open>Redeeming the sign-in link of one vault on any device, with the password of the setup (up to
  Unicode normalisation), makes exactly the sealed owner token usable there, keeps it off the disk and
  opens the vault; a vault whose sealed token is still the setup placeholder is refused and nothing is
  written.\<close>

theorem link_restores_vault:
  assumes "aead_correct C" "hkdf_sized C" "text_faithful C (sai_owner_xprv i)" "text_faithful C (sai_owner_token i)"
    and "length (d_nonce1 r) = 24" "length (d_nonce2 r) = 24"
    and "seal_vault_secrets C r i = Inr s" and "nfkc C pw = nfkc C (sai_password i)" and "sai_owner_token i \<noteq> []"
    and "store_good d" "fv_id (rb_vault b) \<noteq> []" "rb_blobs b = sealed_view v net blocks frag s"
  shows "if sai_owner_token i = placeholder_owner_token
    then open_vault C pw re em b d = (Refused not_ready_text, d)
    else \<exists>d'. open_vault C pw re em b d = (Opened, d')
      \<and> get_vault_owner_token (fv_id (rb_vault b)) d' = Some (sai_owner_token i)
      \<and> get_active_vault_id d' = Some (fv_id (rb_vault b))
      \<and> (\<exists>m. get_vault_meta (fv_id (rb_vault b)) d' = Some m \<and> vm_owner_token m = None)"
proof (cases "sai_owner_token i = placeholder_owner_token")
  case False
  let ?t = "sai_owner_token i"
  let ?m = "restored_meta C re em None b (Some ?t)"
  have u: "unseal_blobs C pw (rb_blobs b) = Inr (sai_owner_xprv i, ?t)"
    unfolding assms(12) by (rule unseal_sealed [OF assms(1-8)])
  have "?m\<lparr>vm_lock := Some ((candidate_lock (hash_email_for_lookup C (or_else re em)) (rb_blobs b))\<lparr>lk_validated := Some True\<rparr>)\<rparr> = ?m"
    using assms(9) by (simp add: restored_meta_def)
  then have o: "open_vault C pw re em b d = (Opened, set_active_vault_id (Some (fv_id (rb_vault b))) (save_vault_meta ?m d))"
    using u False by (simp add: open_vault_def)
  obtain lk where lk: "vm_lock ?m = Some lk" "lock_validated lk" using restored_lock [of "Some ?t"] assms(9) by force
  note e = save_effect [OF assms(10), where meta = ?m]
  have tr: "truthy (vm_owner_token ?m)" using assms(9) by (simp add: restored_fields)
  have "get_vault_owner_token (fv_id (rb_vault b)) (save_vault_meta ?m d) = Some ?t"
    using e(3) [OF tr lk] by (simp add: restored_fields)
  moreover have "\<exists>m. get_vault_meta (fv_id (rb_vault b)) (save_vault_meta ?m d) = Some m \<and> vm_owner_token m = None"
    using e(2) tr lk by auto
  moreover have "storage_works (save_vault_meta ?m d)" using e(1) by (simp add: store_good_def)
  ultimately show ?thesis
    using False assms(11)
    by (simp add: o active_set_active get_vault_owner_token_def get_vault_meta_def store_frame)
next
  case True
  have "unseal_blobs C pw (rb_blobs b) = Inr (sai_owner_xprv i, sai_owner_token i)"
    unfolding assms(12) by (rule unseal_sealed [OF assms(1-8)])
  with True show ?thesis by (simp add: open_vault_def)
qed

lemma save_fold_live:
  assumes "store_good d" "\<forall>m\<in>set ms. vm_id m = j \<longrightarrow> \<not> truthy (vm_owner_token m)"
  shows "obj_get (read_live_tokens (fold save_vault_meta ms d)) j = obj_get (read_live_tokens d) j"
  using assms
proof (induction ms arbitrary: d)
  case (Cons m ms)
  have g: "store_good (save_vault_meta m d)" by (rule save_effect(1) [OF Cons.prems(1)])
  have "obj_get (read_live_tokens (save_vault_meta m d)) j = obj_get (read_live_tokens d) j"
    using Cons.prems
    by (auto simp: save_vault_meta_def Let_def store_frame store_reads store_good_def obj_laws split: if_splits)
  then show ?case using Cons.IH [OF g] Cons.prems(2) by simp
qed simp

text \<open>The same link, redeemed on the device that set the vaults up while the server still holds the
  placeholder of one of them (the repair after setup failed), reports success and erases that vault's
  only usable token from localStorage, where the single-vault path refuses and writes nothing.\<close>

theorem group_link_erases_token:
  assumes "store_good d" "bundles \<noteq> []" "distinct (map (\<lambda>b. fv_id (rb_vault b)) bundles)"
    and "\<forall>b\<in>set bundles. fv_id (rb_vault b) \<noteq> [] \<and> tok b \<noteq> [] \<and> (\<exists>x. unseal_blobs C pw (rb_blobs b) = Inr (x, tok b))"
    and "b \<in> set bundles" "tok b = placeholder_owner_token"
    and "obj_get (read_live_tokens d) (fv_id (rb_vault b)) = None"
  shows "fst (open_group C lc g pw re em bundles d) = Opened
    \<and> get_vault_owner_token (fv_id (rb_vault b)) (snd (open_group C lc g pw re em bundles d)) = None"
proof -
  let ?i = "fv_id (rb_vault b)" and ?o = "js_sort (bundle_order lc) bundles"
  let ?ms = "map (\<lambda>b. restored_meta C re em (Some g) b (group_token (tok b))) ?o"
  obtain d' m where og: "open_group C lc g pw re em bundles d = (Opened, d')"
    and m: "get_vault_meta ?i d' = Some m" "vm_owner_token m = None"
    using open_group_effect [OF assms(1-4), of lc g re em] assms(5) by blast
  have all: "\<forall>b\<in>set ?o. fv_id (rb_vault b) \<noteq> [] \<and> (\<exists>x. unseal_blobs C pw (rb_blobs b) = Inr (x, tok b))"
    using assms(4) by auto
  obtain f l where "open_bundles C pw re em g ?o None None d = Inr (f, l, fold save_vault_meta ?ms d)"
    using open_bundles_ok [OF all, of re em g None None d] by (simp add: fold_map comp_def)
  then have "read_live_tokens d' = read_live_tokens (fold save_vault_meta ?ms d)"
    using og by (auto simp: open_group_def store_frame split: if_splits)
  moreover have "b' = b" if "b' \<in> set bundles" "fv_id (rb_vault b') = ?i" for b'
    using that assms(3,5) by (auto simp: distinct_map inj_on_def)
  then have "obj_get (read_live_tokens (fold save_vault_meta ?ms d)) ?i = None"
    using assms(6,7) by (subst save_fold_live [OF assms(1)]) (auto simp: restored_fields group_token_def)
  ultimately have "get_vault_owner_token ?i d' = None"
    using m by (simp add: get_vault_owner_token_def get_vault_meta_def)
  with og show ?thesis by simp
qed

section \<open>Concrete devices\<close>

definition cycle_kek :: bytes where
  "cycle_kek = hkdf_sha256 sample_crypto
     (take kek_len (utf8 ''correct horse'' @ replicate 16 7 @ replicate kek_len 0)) (replicate 16 7)
     (utf8 password_info) kek_len"

definition cycle_lock :: locked_owner_token where
  "cycle_lock = \<lparr>lk_salt = b64encode (replicate 16 7), lk_mem_kib = 65536, lk_iters = 3,
     lk_blob = \<lparr>sb_v = 1, sb_ct = b64encode (aead_encrypt sample_crypto cycle_kek (replicate 24 2) (utf8 ''tok'')),
       sb_nonce = b64encode (replicate 24 2)\<rparr>,
     lk_email_hash = hash_email_for_lookup sample_crypto ''a@b.c'', lk_validated = Some True\<rparr>"

definition cycle_meta :: vault_meta where
  "cycle_meta = locked_meta\<lparr>vm_lock := Some cycle_lock\<rparr>"

definition cycle_device :: device where
  "cycle_device = sample_device [(''a'', cycle_meta)] [(''a'', ''tok'')]"

definition willing :: reseal_call where
  "willing i token b = None"

lemma cycle_device_facts:
  "store_inv cycle_device" "get_vault_meta ''a'' cycle_device = Some cycle_meta"
  "get_vault_owner_token ''a'' cycle_device = Some ''tok''"
  "get_all_vault_metas default cycle_device = [cycle_meta]"
  by (auto simp: cycle_device_def store_inv_def store_good_def obj_ok_def get_vault_meta_def obj_get_def
      get_vault_owner_token_def get_all_vault_metas_def obj_values_def js_sort_def cycle_meta_def split: if_splits)

lemma cycle_meta_facts:
  "vm_id cycle_meta = ''a''" "vm_lock cycle_meta = Some cycle_lock" "owner_address cycle_meta = ''a@b.c''"
  "password_locked cycle_meta" "lock_validated cycle_lock"
  using locked_meta_password_locked
  by (simp_all add: cycle_meta_def locked_meta_def owner_address_def sample_meta_def password_locked_def cycle_lock_def)

lemma cycle_kek_facts:
  "derive_lock_key sample_crypto ''correct horse'' cycle_lock = Inr cycle_kek"
  "seal_with_key sample_crypto (replicate 24 2) cycle_kek (utf8 ''tok'') = Inr (lk_blob cycle_lock)"
proof -
  show d: "derive_lock_key sample_crypto ''correct horse'' cycle_lock = Inr cycle_kek"
    by (simp add: derive_lock_key_def cycle_lock_def derive_owner_kek_def Let_def cycle_kek_def sample_crypto_def min.commute)
  have "length cycle_kek = 32" using derive_lock_key_len [OF sample_crypto_laws(3) d] .
  then show "seal_with_key sample_crypto (replicate 24 2) cycle_kek (utf8 ''tok'') = Inr (lk_blob cycle_lock)"
    by (simp add: seal_ok cycle_lock_def)
qed

lemma cycle_open: "open_lock sample_crypto ''correct horse'' cycle_lock = Inr ''tok''"
  using open_seal [OF sample_crypto_laws(1) _ cycle_kek_facts(2)] sample_text [of "''tok''"]
  by (simp add: open_lock_def cycle_kek_facts(1) text_faithful_def)

lemma cycle_lock_only:
  "lock_of j (lock_pass sample_crypto no_server default cycle_device) = Some lk \<Longrightarrow> lk = cycle_lock"
proof -
  let ?d = "lock_pass sample_crypto no_server default cycle_device"
  have g: "store_good cycle_device" by (rule store_inv_good [OF cycle_device_facts(1)])
  assume l: "lock_of j ?d = Some lk"
  show "lk = cycle_lock"
  proof (cases "j = ''a''")
    case True
    have "lock_of ''a'' cycle_device = Some cycle_lock"
      by (simp add: lock_of_def cycle_device_facts cycle_meta_facts)
    then have "lock_of ''a'' ?d = Some cycle_lock" by (rule lock_pass_lock [OF cycle_device_facts(1)])
    with l True show ?thesis by simp
  next
    case False
    have "?d = fst (lock_vault_credential ''a'' cycle_lock cycle_device)
        \<or> ?d = cycle_device"
      by (auto simp: lock_pass_def cycle_device_facts lock_one_def Let_def cycle_meta_facts)
    then have "get_vault_meta j ?d = get_vault_meta j cycle_device"
      using lock_effect(6) [OF g cycle_meta_facts(5) _ False] cycle_device_facts(3) by auto
    then show ?thesis using l False by (simp add: lock_of_def cycle_device_def get_vault_meta_def obj_get_def)
  qed
qed

theorem sign_in_tokens_earned_witness:
  "truthy (get_vault_owner_token ''a'' cycle_device)
   \<and> get_vault_owner_token ''a'' (snd (unlock_trusted_device sample_crypto no_server willing
        (\<lambda>_. []) default ''guess'' (Some ''a'') ''a@b.c'' cycle_device)) = Some ''tok''"
proof -
  obtain r d' where u: "unlock_trusted_device sample_crypto no_server willing (\<lambda>_. []) default ''guess'' (Some ''a'')
      ''a@b.c'' cycle_device = (r, d')" by fastforce
  from sign_in_tokens_earned [OF cycle_device_facts(1) u] show ?thesis
    by (simp add: u cycle_device_facts)
qed

theorem lock_then_sign_in_witness:
  "\<exists>d2. unlock_trusted_device sample_crypto no_server willing (\<lambda>_. []) default ''correct horse'' (Some ''a'')
        ''a@b.c'' (lock_pass sample_crypto no_server default cycle_device) = (Opened, d2)
     \<and> get_vault_owner_token ''a'' d2 = Some ''tok''"
proof -
  have "lk_email_hash cycle_lock = hash_email_for_lookup sample_crypto (owner_address cycle_meta)"
    unfolding cycle_meta_facts(3) by (simp add: cycle_lock_def)
  moreover have "''tok'' \<noteq> placeholder_owner_token" by (simp add: placeholder_owner_token_def)
  moreover have "text_faithful sample_crypto ''tok''" by (rule sample_text) simp
  moreover have "accepts willing" by (simp add: accepts_def willing_def)
  moreover have "\<forall>j lk. lock_of j (lock_pass sample_crypto no_server default cycle_device) = Some lk \<longrightarrow>
      open_lock sample_crypto ''correct horse'' lk \<noteq> Inr []"
    using cycle_lock_only cycle_open by fastforce
  ultimately show ?thesis
    using lock_then_sign_in [OF cycle_device_facts(1,2) cycle_meta_facts(2,4) _ cycle_kek_facts
        cycle_device_facts(3) _ _ _ sample_crypto_laws(1,3), of willing no_server default no_server "\<lambda>_. []"]
    by (simp add: cycle_meta_facts(3))
qed

definition sample_bundle :: "jstr \<Rightarrow> jstr \<Rightarrow> sealed_vault_secrets \<Rightarrow> recovery_bundle" where
  "sample_bundle i st s = \<lparr>rb_vault = \<lparr>fv_id = i, fv_label = Some (''Ada'' @ share_suffix), fv_status = st,
     fv_created_at = ''2026''\<rparr>, rb_blobs = sealed_view i ''bitcoin'' 52560 None s\<rparr>"

lemma sample_unseal:
  assumes "seal_vault_secrets sample_crypto sample_draws (sample_input\<lparr>sai_owner_token := t\<rparr>) = Inr s"
    and "list_all (\<lambda>c. of_char c < (128 :: nat)) t"
  shows "unseal_blobs sample_crypto ''correct horse'' (rb_blobs (sample_bundle i st s)) = Inr (''xprvA'', t)"
proof -
  have "text_faithful sample_crypto (sai_owner_xprv (sample_input\<lparr>sai_owner_token := t\<rparr>))"
    "text_faithful sample_crypto (sai_owner_token (sample_input\<lparr>sai_owner_token := t\<rparr>))"
    using assms(2) by (simp_all add: sample_text sample_input_def)
  moreover have "length (d_nonce1 sample_draws) = 24" "length (d_nonce2 sample_draws) = 24"
    by (simp_all add: sample_draws_def)
  ultimately show ?thesis
    using unseal_sealed [OF sample_crypto_laws(1,3) _ _ _ _ assms(1), of "''correct horse''"]
    by (simp add: sample_bundle_def sample_input_def)
qed

lemma sample_seals:
  obtains s where "seal_vault_secrets sample_crypto sample_draws (sample_input\<lparr>sai_owner_token := t\<rparr>) = Inr s"
proof -
  obtain kek where kek: "derive_owner_kek sample_crypto ''correct horse'' (replicate 16 7) None None = Inr kek"
    by (simp add: derive_owner_kek_def sample_crypto_def Let_def)
  then have "length kek = 32" using derive_owner_kek_len sample_crypto_laws(3) by blast
  then show thesis
    using kek derive_claim_kek_len [OF sample_crypto_laws(3)] that
    by (simp add: seal_vault_secrets_def sample_draws_def sample_input_def seal_with_key_def kek_len_def Let_def)
qed

lemma ascii_texts:
  "list_all (\<lambda>c. of_char c < (128 :: nat)) ''tok''"
  "list_all (\<lambda>c. of_char c < (128 :: nat)) placeholder_owner_token"
  by (simp_all add: placeholder_owner_token_def)

theorem link_restores_vault_witness:
  "\<exists>s d'. seal_vault_secrets sample_crypto sample_draws sample_input = Inr s
     \<and> open_vault sample_crypto ''correct horse'' ''a@b.c'' [] (sample_bundle ''v'' ''active'' s) fresh_device = (Opened, d')
     \<and> get_vault_owner_token ''v'' d' = Some ''tok''"
proof -
  obtain s where s: "seal_vault_secrets sample_crypto sample_draws sample_input = Inr s" by (rule sample_sealed)
  have t: "text_faithful sample_crypto (sai_owner_xprv sample_input)" "text_faithful sample_crypto (sai_owner_token sample_input)"
    by (simp_all add: sample_input_def sample_text)
  have n: "length (d_nonce1 sample_draws) = 24" "length (d_nonce2 sample_draws) = 24"
    by (simp_all add: sample_draws_def)
  have i: "sai_owner_token sample_input = ''tok''" "sai_password sample_input = ''correct horse''"
    by (simp_all add: sample_input_def)
  have "''tok'' \<noteq> placeholder_owner_token" by (simp add: placeholder_owner_token_def)
  then show ?thesis
    using link_restores_vault [OF sample_crypto_laws(1,3) t n s, of "''correct horse''" fresh_device
        "sample_bundle ''v'' ''active'' s" "''v''" "''bitcoin''" 52560 None "''a@b.c''" "[]"] s
    by (simp add: i sample_good sample_bundle_def) blast
qed

definition two_bundles :: "sealed_vault_secrets \<Rightarrow> sealed_vault_secrets \<Rightarrow> recovery_bundle list" where
  "two_bundles s p = [sample_bundle ''v'' ''claimed'' s, sample_bundle ''w'' ''active'' p]"

text \<open>The setup device: vault w has a token on disk and no lock yet.\<close>

definition setup_device :: device where
  "setup_device = sample_device [(''w'', (sample_meta ''w'' ''g'')\<lparr>vm_owner_token := Some ''live''\<rparr>)] []"

lemma setup_device_facts:
  "store_good setup_device" "obj_get (read_live_tokens setup_device) ''w'' = None"
  "get_vault_owner_token ''w'' setup_device = Some ''live''"
  by (simp_all add: setup_device_def store_good_def obj_ok_def obj_get_def get_vault_owner_token_def)

lemma two_bundles_open:
  assumes "seal_vault_secrets sample_crypto sample_draws (sample_input\<lparr>sai_owner_token := ''tok''\<rparr>) = Inr s"
    and "seal_vault_secrets sample_crypto sample_draws (sample_input\<lparr>sai_owner_token := placeholder_owner_token\<rparr>) = Inr p"
  shows "\<forall>b\<in>set (two_bundles s p). fv_id (rb_vault b) \<noteq> []
    \<and> (if fv_id (rb_vault b) = ''v'' then ''tok'' else placeholder_owner_token) \<noteq> []
    \<and> (\<exists>x. unseal_blobs sample_crypto ''correct horse'' (rb_blobs b)
          = Inr (x, if fv_id (rb_vault b) = ''v'' then ''tok'' else placeholder_owner_token))"
  using sample_unseal [OF assms(1) ascii_texts(1)] sample_unseal [OF assms(2) ascii_texts(2)]
  by (simp add: two_bundles_def sample_bundle_def placeholder_owner_token_def)

lemma two_bundles_shape:
  "two_bundles s p \<noteq> []" "distinct (map (\<lambda>b. fv_id (rb_vault b)) (two_bundles s p))"
  "sample_bundle ''v'' ''claimed'' s \<in> set (two_bundles s p)" "sample_bundle ''w'' ''active'' p \<in> set (two_bundles s p)"
  "fv_id (rb_vault (sample_bundle i st s)) = i"
  by (simp_all add: two_bundles_def sample_bundle_def)

theorem group_link_restores_witness:
  "\<exists>s p d'. open_group sample_crypto default ''g'' ''correct horse'' ''a@b.c'' [] (two_bundles s p) fresh_device
       = (Opened, d') \<and> get_vault_owner_token ''v'' d' = Some ''tok''"
proof -
  obtain s where s: "seal_vault_secrets sample_crypto sample_draws (sample_input\<lparr>sai_owner_token := ''tok''\<rparr>) = Inr s"
    by (rule sample_seals)
  obtain p where p: "seal_vault_secrets sample_crypto sample_draws (sample_input\<lparr>sai_owner_token := placeholder_owner_token\<rparr>) = Inr p"
    by (rule sample_seals)
  from group_link_restores [OF sample_good(1) two_bundles_shape(1,2) two_bundles_open [OF s p], of default "''g''" "''a@b.c''" "[]"]
  obtain d' where "open_group sample_crypto default ''g'' ''correct horse'' ''a@b.c'' [] (two_bundles s p) fresh_device = (Opened, d')"
    and r: "\<forall>b\<in>set (two_bundles s p). \<exists>m. get_vault_meta (fv_id (rb_vault b)) d' = Some m \<and> vm_group_id m = Some ''g''
          \<and> vm_owner_token m = None
          \<and> (if (if fv_id (rb_vault b) = ''v'' then ''tok'' else placeholder_owner_token) = placeholder_owner_token then vm_lock m = None
             else get_vault_owner_token (fv_id (rb_vault b)) d'
               = Some (if fv_id (rb_vault b) = ''v'' then ''tok'' else placeholder_owner_token))" by blast
  moreover have "get_vault_owner_token ''v'' d' = Some ''tok''"
    using bspec [OF r two_bundles_shape(3)] by (auto simp: two_bundles_shape(5) placeholder_owner_token_def)
  ultimately show ?thesis by blast
qed

theorem group_link_erases_token_witness:
  "\<exists>s p. get_vault_owner_token ''w'' setup_device = Some ''live''
     \<and> fst (open_group sample_crypto default ''g'' ''correct horse'' ''a@b.c'' [] (two_bundles s p) setup_device) = Opened
     \<and> get_vault_owner_token ''w'' (snd (open_group sample_crypto default ''g'' ''correct horse'' ''a@b.c'' []
           (two_bundles s p) setup_device)) = None"
proof -
  obtain s where s: "seal_vault_secrets sample_crypto sample_draws (sample_input\<lparr>sai_owner_token := ''tok''\<rparr>) = Inr s"
    by (rule sample_seals)
  obtain p where p: "seal_vault_secrets sample_crypto sample_draws (sample_input\<lparr>sai_owner_token := placeholder_owner_token\<rparr>) = Inr p"
    by (rule sample_seals)
  from group_link_erases_token [OF setup_device_facts(1) two_bundles_shape(1,2) two_bundles_open [OF s p]
      two_bundles_shape(4)]
  show ?thesis using setup_device_facts by (simp add: two_bundles_shape(5)) blast
qed

end
