(* ===== verification/Claim_Flow.thy ===== *)
theory Claim_Flow
  imports Api Address Sign_In Heir_Key Kit Clock
begin

text \<open>
  The heir's claim page (ghostkey-web/src/ClaimPage.tsx) and the portal that leads to it
  (InheritPortal.tsx): what a link resolves to, the waits before a claim, the probe that chooses the
  sub-flow, and the four ways to send a claim. A handler returns the requests it makes, in order,
  beside its result; the server's answers are arguments. Texts shown to the heir are values of small
  datatypes that name the vocabulary entry.
\<close>

section \<open>Views\<close>

record claim_view =
  cw_vault_id :: jstr
  cw_label :: "jstr option"
  cw_network :: jstr
  cw_status :: jstr
  cw_timelock_blocks :: int
  cw_next_deadline_at :: jstr
  cw_heir_channel :: "jstr option"
  cw_heir_display_name :: "jstr option"
  cw_claim_available_at :: "jstr option"
  cw_vault_kind :: jstr
  cw_token_role :: jstr
  cw_guardian_slot :: "int option"
  cw_drill :: "bool option"
  cw_claimed_txid :: "jstr option"
  cw_claimed_explorer_url :: "jstr option"

record sealed_heir_view =
  shv_vault_id :: jstr
  shv_network :: jstr
  shv_timelock_blocks :: int
  shv_heir_xprv_ct_b64 :: jstr
  shv_heir_xprv_nonce_b64 :: jstr
  shv_descriptor_external :: jstr
  shv_descriptor_internal :: jstr

record heir_derivation_params =
  hdp_vault_id :: jstr
  hdp_network :: jstr
  hdp_timelock_blocks :: int
  hdp_vault_secret_hex :: jstr
  hdp_heir_email :: jstr
  hdp_descriptor_external :: jstr
  hdp_descriptor_internal :: jstr

record sealed_guardian_view =
  sgv_vault_id :: jstr
  sgv_slot :: int
  sgv_network :: jstr
  sgv_timelock_blocks :: int
  sgv_guardian_xprv_ct_b64 :: jstr
  sgv_guardian_xprv_nonce_b64 :: jstr
  sgv_descriptor_external :: jstr
  sgv_descriptor_internal :: jstr

record unlock_estimate =
  ue_matured :: bool
  ue_tip_height :: int
  ue_unlock_height :: "int option"
  ue_blocks_remaining :: int
  ue_unlock_eta :: "jstr option"

record broadcast_view =
  bv_txid :: jstr
  bv_explorer_url :: jstr

section \<open>Loading the link\<close>

datatype claim_state = Claim_Loading | Claim_Ok claim_view | Claim_Not_Found | Claim_Used | Claim_Error thrown

fun claim_load :: "(thrown, claim_view) throws \<Rightarrow> claim_state" where
  "claim_load (Inr view) = Claim_Ok view"
| "claim_load (Inl e) =
     (if thrown_status e = Some 404 then Claim_Not_Found
      else if thrown_status e = Some 409 then Claim_Used
      else Claim_Error e)"

text \<open>The error state offers a retry unless the classified error asks to contact someone.\<close>

definition error_offers_retry :: "thrown \<Rightarrow> claim_errors_copy \<Rightarrow> bool" where
  "error_offers_retry e errors = (cc_kind (classify_claim_error e Resolve errors) \<noteq> Contact)"

definition technical_details :: "thrown \<Rightarrow> jstr option" where
  "technical_details e = (if raw_error_message e = [] then None else Some (raw_error_message e))"

section \<open>What a resolved link shows\<close>

datatype claim_body = Drill_Flow | Not_Ready | Maturity_Gate "jstr option" | Claimed_Success jstr | Already_Claimed

definition resolved_body :: "claim_view \<Rightarrow> claim_body" where
  "resolved_body v =
     (if cw_drill v = Some True then Drill_Flow
      else if cw_status v = ''ok'' \<or> cw_status v = ''warning'' then Not_Ready
      else if cw_status v = ''alarmed'' \<or> cw_status v = ''timelock_started''
      then Maturity_Gate (if truthy (cw_claim_available_at v) then cw_claim_available_at v else None)
      else if cw_status v = ''claimed''
      then (if truthy (cw_claimed_txid v) then Claimed_Success (the (cw_claimed_txid v)) else Already_Claimed)
      else Not_Ready)"

text \<open>The practice run: the step, the flag of the button and the error.\<close>

datatype drill_step = Drill_Intro | Drill_Walkthrough | Drill_Done

record drill_state =
  dr_step :: drill_step
  dr_finishing :: bool
  dr_error :: "thrown option"

definition drill_init :: drill_state where
  "drill_init = \<lparr>dr_step = Drill_Intro, dr_finishing = False, dr_error = None\<rparr>"

definition drill_begin :: "drill_state \<Rightarrow> drill_state" where
  "drill_begin s = s\<lparr>dr_step := Drill_Walkthrough\<rparr>"

definition drill_finish :: "(jstr \<Rightarrow> thrown option) \<Rightarrow> jstr \<Rightarrow> drill_state \<Rightarrow> call list \<times> drill_state" where
  "drill_finish complete_drill token s =
     ([CompleteDrill token],
      (case complete_drill token of
         None \<Rightarrow> s\<lparr>dr_step := Drill_Done, dr_finishing := False, dr_error := None\<rparr>
       | Some e \<Rightarrow> s\<lparr>dr_finishing := False, dr_error := Some e\<rparr>))"

section \<open>The maturity gate\<close>

datatype gate_view = Timelock_Wait "jstr option" | Safety_Wait countdown | Claimable | Checking | First_Load bool

record gate_state =
  mg_est :: "unlock_estimate option"
  mg_failed :: bool
  mg_slow :: bool

definition gate_init :: gate_state where
  "gate_init = \<lparr>mg_est = None, mg_failed = False, mg_slow = False\<rparr>"

text \<open>A tick starts a new lookup; its answer or failure is recorded; after six seconds without an
  answer the wait is called slow.\<close>

definition gate_tick :: "gate_state \<Rightarrow> gate_state" where
  "gate_tick s = s\<lparr>mg_failed := False, mg_slow := False\<rparr>"

definition gate_reply :: "(thrown, unlock_estimate) throws \<Rightarrow> gate_state \<Rightarrow> gate_state" where
  "gate_reply r s = (case r of Inr e \<Rightarrow> s\<lparr>mg_est := Some e\<rparr> | Inl _ \<Rightarrow> s\<lparr>mg_failed := True\<rparr>)"

definition gate_slow :: "gate_state \<Rightarrow> gate_state" where
  "gate_slow s = s\<lparr>mg_slow := True\<rparr>"

text \<open>\<open>available_at\<close> is a date, possibly an invalid one; no number is below \<open>NaN\<close>.\<close>

definition gate_view :: "(jstr \<Rightarrow> int option) \<Rightarrow> jstr option \<Rightarrow> int \<Rightarrow> gate_state \<Rightarrow> gate_view" where
  "gate_view date_time available_at now s =
     (case mg_est s of
        Some est \<Rightarrow>
          if \<not> ue_matured est then Timelock_Wait (ue_unlock_eta est)
          else (case Option.bind available_at date_time of
                  Some t \<Rightarrow> if now < t then Safety_Wait (countdown_to t now) else Claimable
                | None \<Rightarrow> Claimable)
      | None \<Rightarrow> if mg_failed s then Checking else First_Load (mg_slow s))"

section \<open>The form\<close>

datatype destination_hint = Hint_Lightning jstr | Hint_Shape | Hint_Network jstr

definition destination_hint_for :: "jstr \<Rightarrow> jstr \<Rightarrow> destination_hint option" where
  "destination_hint_for address network =
     (if address = [] then None
      else if looks_like_lightning_destination address then Some (Hint_Lightning (bech32_prefix_for network))
      else if \<not> looks_like_bitcoin_address address then Some Hint_Shape
      else if \<not> address_matches_network address network then Some (Hint_Network (bech32_prefix_for network))
      else None)"

definition valid_addr :: "jstr \<Rightarrow> jstr \<Rightarrow> bool" where
  "valid_addr address network = (looks_like_bitcoin_address address \<and> address_matches_network address network)"

text \<open>A blank field is \<open>undefined\<close>, a refused one \<open>null\<close>.\<close>

definition parse_fee_rate :: "jstr \<Rightarrow> int field" where
  "parse_fee_rate s =
     (let t = js_trim s
      in if t = [] then field.Absent
         else if \<not> test_full (rplus (RCls js_digit)) t then Null
         else (let n = nat_of_digits t in if n < 1 \<or> 1000 < n then Null else Given (int n)))"

definition fee_rate_valid :: "jstr \<Rightarrow> bool" where
  "fee_rate_valid s = (js_trim s = [] \<or> parse_fee_rate s \<noteq> Null)"

definition or_name :: "jstr option \<Rightarrow> jstr \<Rightarrow> jstr" where
  "or_name name fallback = (if truthy (map_option js_trim name) then js_trim (the name) else fallback)"

definition network_label :: "jstr \<Rightarrow> jstr" where
  "network_label network = (if network = ''bitcoin'' then ''Bitcoin network'' else network @ '' network'')"

definition fee_label :: "int field \<Rightarrow> jstr option" where
  "fee_label f = (case f of Given n \<Rightarrow> if n = 0 then None else Some (show_int n @ '' sat/vB'') | _ \<Rightarrow> None)"

section \<open>Choosing the sub-flow\<close>

datatype heir_flow =
    Password_Vault sealed_heir_view
  | Derived_Heir heir_derivation_params
  | Manual_Psbt
  | Probe_Error thrown

definition is_wrong_shape :: "thrown \<Rightarrow> bool" where
  "is_wrong_shape e =
     (case e of
        Api_Error status body message \<Rightarrow>
          status = 422 \<or> status = 400 \<and> test_search (rlit_i ''this vault was not created with'') message
      | _ \<Rightarrow> False)"

definition probe_heir :: "(jstr \<Rightarrow> (thrown, heir_derivation_params) throws) \<Rightarrow> (jstr \<Rightarrow> (thrown, sealed_heir_view) throws)
    \<Rightarrow> jstr \<Rightarrow> call list \<times> heir_flow" where
  "probe_heir get_heir_derivation_params get_sealed_heir_xprv token =
     (case get_heir_derivation_params token of
        Inr params \<Rightarrow> ([GetHeirDerivationParams token], Derived_Heir params)
      | Inl e \<Rightarrow>
          if \<not> is_wrong_shape e then ([GetHeirDerivationParams token], Probe_Error e)
          else ([GetHeirDerivationParams token, GetSealedHeirXprv token],
                (case get_sealed_heir_xprv token of
                   Inr sealed \<Rightarrow> Password_Vault sealed
                 | Inl e' \<Rightarrow> if is_wrong_shape e' then Manual_Psbt else Probe_Error e')))"

text \<open>\<open>ClaimableState\<close>: a guardian vault has its own flow, without the probe.\<close>

definition claimable_flow :: "(jstr \<Rightarrow> (thrown, heir_derivation_params) throws) \<Rightarrow> (jstr \<Rightarrow> (thrown, sealed_heir_view) throws)
    \<Rightarrow> claim_view \<Rightarrow> jstr \<Rightarrow> call list \<times> heir_flow option" where
  "claimable_flow get_params get_sealed v token =
     (if cw_vault_kind v = ''guardian'' then ([], None)
      else (case probe_heir get_params get_sealed token of (calls, flow) \<Rightarrow> (calls, Some flow)))"

section \<open>Sending a claim\<close>

text \<open>A submission: the requests made, and \<open>None\<close> when the handler returns at its guard.\<close>

type_synonym 'a submission = "call list \<times> (thrown, 'a) throws option"

definition claim_request :: "jstr \<Rightarrow> jstr \<Rightarrow> jstr \<Rightarrow> heir_claim_request" where
  "claim_request address fee xprv =
     \<lparr>hc_destination = js_trim address, hc_fee_rate = parse_fee_rate fee, hc_heir_xprv = xprv\<rparr>"

definition unwrap_key :: "('a crypto_scheme) \<Rightarrow> jstr \<Rightarrow> jstr \<Rightarrow> jstr \<Rightarrow> (jstr, jstr) throws" where
  "unwrap_key C token ct nonce =
     and_then (b64decode token) (\<lambda>raw. unseal_heir_xprv C raw (mk_blob ct nonce))"

type_synonym send_call = "call \<Rightarrow> (thrown, broadcast_view) throws"

definition password_on_submit :: "('a crypto_scheme) \<Rightarrow> send_call \<Rightarrow> jstr \<Rightarrow> sealed_heir_view \<Rightarrow> jstr \<Rightarrow> jstr
    \<Rightarrow> broadcast_view submission" where
  "password_on_submit C send token sealed address fee =
     (if \<not> valid_addr address (shv_network sealed) \<or> \<not> fee_rate_valid fee then ([], None)
      else (case unwrap_key C token (shv_heir_xprv_ct_b64 sealed) (shv_heir_xprv_nonce_b64 sealed) of
              Inl e \<Rightarrow> ([], Some (Inl (Js_Error e)))
            | Inr xprv \<Rightarrow>
                (let c = HeirClaim token (claim_request address fee xprv) in ([c], Some (send c)))))"

definition derived_on_submit :: "('a crypto_scheme) \<Rightarrow> bip \<Rightarrow> send_call \<Rightarrow> jstr \<Rightarrow> heir_derivation_params
    \<Rightarrow> jstr \<Rightarrow> jstr \<Rightarrow> (broadcast_view \<times> jstr) submission" where
  "derived_on_submit C B send token params address fee =
     (if \<not> valid_addr address (hdp_network params) \<or> \<not> fee_rate_valid fee then ([], None)
      else (case derive_heir_key C B (hdp_vault_secret_hex params) (hdp_heir_email params) (hdp_network params) of
              Inl e \<Rightarrow> ([], Some (Inl (Js_Error e)))
            | Inr derived \<Rightarrow>
                (let c = HeirClaim token (claim_request address fee (dh_xprv derived))
                 in ([c], Some (and_then (send c) (\<lambda>r. Inr (r, dh_mnemonic derived)))))))"

text \<open>The manual flow: preparing the transaction, and broadcasting the signed one.\<close>

definition manual_on_build :: "(call \<Rightarrow> (thrown, 'b) throws) \<Rightarrow> jstr \<Rightarrow> jstr \<Rightarrow> jstr \<Rightarrow> jstr \<Rightarrow> 'b submission" where
  "manual_on_build build token network address fee =
     (if \<not> valid_addr address network \<or> \<not> fee_rate_valid fee then ([], None)
      else (let c = BuildClaimPsbt token \<lparr>bp_destination = js_trim address, bp_fee_rate = parse_fee_rate fee\<rparr>
            in ([c], Some (build c))))"

definition manual_on_broadcast :: "send_call \<Rightarrow> jstr \<Rightarrow> jstr \<Rightarrow> broadcast_view submission" where
  "manual_on_broadcast send token signed_psbt =
     (if js_trim signed_psbt = [] then ([], None)
      else (let c = BroadcastClaim token (js_trim signed_psbt) in ([c], Some (send c))))"

section \<open>The two-link claim of a guardian vault\<close>

text \<open>\<open>raw.split(/[/?#\s]/)[0]\<close>\<close>

definition link_separator :: "char \<Rightarrow> bool" where
  "link_separator c = (c \<in> set ''/?#'' \<or> js_ws c)"

definition extract_claim_token :: "jstr \<Rightarrow> jstr option" where
  "extract_claim_token input =
     (let s = js_trim input
      in if s = [] then None
         else (let raw = (case last_index_of ''/claim/'' s of Some i \<Rightarrow> drop (i + 7) s | None \<Rightarrow> s);
                   tok = takeWhile (\<lambda>c. \<not> link_separator c) raw
               in if tok = [] then None else Some tok))"

datatype guardian_err = Invalid_Link | Same_Link | Different_Vault | Wrong_Role bool | Already_Used | Check_Failed

record guardian_state =
  gs_other_token :: "jstr option"
  gs_other_err :: "guardian_err option"

text \<open>\<open>checkOtherLink\<close>; the view and the token are those of the opened link.\<close>

definition check_other_link :: "(jstr \<Rightarrow> (thrown, claim_view) throws) \<Rightarrow> claim_view \<Rightarrow> jstr \<Rightarrow> jstr \<Rightarrow> guardian_state
    \<Rightarrow> call list \<times> guardian_state" where
  "check_other_link resolve_claim view token other_link s =
     (case extract_claim_token other_link of
        None \<Rightarrow> ([], s\<lparr>gs_other_err := Some Invalid_Link\<rparr>)
      | Some t \<Rightarrow>
          if t = token then ([], s\<lparr>gs_other_err := Some Same_Link\<rparr>)
          else ([ResolveClaim t],
            (case resolve_claim t of
               Inl e \<Rightarrow> s\<lparr>gs_other_err := Some (if thrown_status e = Some 409 then Already_Used else Check_Failed),
                          gs_other_token := None\<rparr>
             | Inr other \<Rightarrow>
                 if cw_vault_id other \<noteq> cw_vault_id view
                 then s\<lparr>gs_other_err := Some Different_Vault, gs_other_token := None\<rparr>
                 else if cw_token_role other \<noteq> (if cw_token_role view = ''heir'' then ''guardian'' else ''heir'')
                 then s\<lparr>gs_other_err := Some (Wrong_Role (cw_token_role view = ''heir'')), gs_other_token := None\<rparr>
                 else s\<lparr>gs_other_err := None, gs_other_token := Some t\<rparr>)))"

definition heir_token :: "claim_view \<Rightarrow> jstr \<Rightarrow> guardian_state \<Rightarrow> jstr option" where
  "heir_token view token s = (if cw_token_role view = ''heir'' then Some token else gs_other_token s)"

definition guardian_token :: "claim_view \<Rightarrow> jstr \<Rightarrow> guardian_state \<Rightarrow> jstr option" where
  "guardian_token view token s = (if cw_token_role view = ''guardian'' then Some token else gs_other_token s)"

definition both_ready :: "claim_view \<Rightarrow> jstr \<Rightarrow> guardian_state \<Rightarrow> bool" where
  "both_ready view token s = (truthy (heir_token view token s) \<and> truthy (guardian_token view token s))"

definition guardian_on_submit :: "('a crypto_scheme) \<Rightarrow> (jstr \<Rightarrow> (thrown, sealed_heir_view) throws)
    \<Rightarrow> (jstr \<Rightarrow> (thrown, sealed_guardian_view) throws) \<Rightarrow> send_call \<Rightarrow> claim_view \<Rightarrow> jstr \<Rightarrow> guardian_state
    \<Rightarrow> jstr \<Rightarrow> jstr \<Rightarrow> broadcast_view submission" where
  "guardian_on_submit C get_sealed_heir_xprv get_sealed_guardian_xprv send view token s address fee =
     (if \<not> both_ready view token s \<or> \<not> valid_addr address (cw_network view) \<or> \<not> fee_rate_valid fee then ([], None)
      else
        (let h = the (heir_token view token s); g = the (guardian_token view token s)
         in case and_then (get_sealed_heir_xprv h) (\<lambda>v.
                   map_sum Js_Error (\<lambda>x. x) (unwrap_key C h (shv_heir_xprv_ct_b64 v) (shv_heir_xprv_nonce_b64 v))) of
              Inl e \<Rightarrow> ([GetSealedHeirXprv h], Some (Inl e))
            | Inr heir_xprv \<Rightarrow>
                (case and_then (get_sealed_guardian_xprv g) (\<lambda>v.
                   map_sum Js_Error (\<lambda>x. x) (unwrap_key C g (sgv_guardian_xprv_ct_b64 v) (sgv_guardian_xprv_nonce_b64 v))) of
                   Inl e \<Rightarrow> ([GetSealedHeirXprv h, GetSealedGuardianXprv g], Some (Inl e))
                 | Inr guardian_xprv \<Rightarrow>
                     (let c = GuardianClaim h \<lparr>gc_destination = js_trim address, gc_fee_rate = parse_fee_rate fee,
                                gc_heir_xprv = heir_xprv, gc_guardian_xprv = guardian_xprv\<rparr>
                      in ([GetSealedHeirXprv h, GetSealedGuardianXprv g, c], Some (send c))))))"

section \<open>The heir's recovery file\<close>

datatype file_status = File_Idle | File_Ready heir_envelope | File_Error jstr

text \<open>\<open>onCreate\<close>; the envelope's builder is \<open>buildHeirEnvelope\<close> of the recovery kit, and \<open>None\<close> means its
  random source ended early.\<close>

definition recovery_file_params :: "jstr \<Rightarrow> jstr \<Rightarrow> int \<Rightarrow> jstr \<Rightarrow> jstr \<Rightarrow> jstr \<Rightarrow> jstr \<Rightarrow> heir_envelope_params" where
  "recovery_file_params vault_id network blocks dext dint heir_name xprv =
     \<lparr>he_vault_id = vault_id,
      he_label = (if heir_name \<noteq> [] then Some (heir_name @ inheritance_suffix) else None),
      he_network = network, he_timelock_blocks = blocks, he_descriptor_external = dext,
      he_descriptor_internal = dint, he_heir_name = heir_name, he_heir_xprv = xprv\<rparr>"

definition recovery_file_offered :: "jstr \<Rightarrow> jstr \<Rightarrow> bool" where
  "recovery_file_offered dext dint = (dext \<noteq> [] \<and> dint \<noteq> [])"

definition on_create_file :: "(heir_envelope_params \<Rightarrow> (jstr, heir_envelope) throws option) \<Rightarrow> (jstr, jstr) throws
    \<Rightarrow> (jstr \<Rightarrow> heir_envelope_params) \<Rightarrow> file_status option" where
  "on_create_file build derived params =
     (case derived of
        Inl e \<Rightarrow> Some (File_Error e)
      | Inr xprv \<Rightarrow> map_option (\<lambda>r. case r of Inl e \<Rightarrow> File_Error e | Inr env \<Rightarrow> File_Ready env) (build (params xprv)))"

section \<open>Pasting a link into the inherit page (InheritPortal.tsx)\<close>

definition pasted_token :: "jstr \<Rightarrow> jstr" where
  "pasted_token trimmed =
     (case last_index_of ''claim/'' trimmed of
        Some i \<Rightarrow> dropWhile (\<lambda>c. c = CHR ''/'' \<or> c = CHR ''#'') (js_trim (drop (i + 6) trimmed))
      | None \<Rightarrow> trimmed)"

text \<open>The hash the page navigates to, if any.\<close>

definition inherit_submit :: "jstr \<Rightarrow> jstr option" where
  "inherit_submit claim_url =
     (let trimmed = js_trim claim_url; token = pasted_token trimmed
      in if trimmed = [] \<or> token = [] then None else Some (''#/claim/'' @ token))"

section \<open>Balances\<close>

text \<open>\<open>VaultValueLine\<close> shows the balance only when it is known and positive.\<close>

definition value_line :: "int option \<Rightarrow> int option" where
  "value_line balance = (case balance of None \<Rightarrow> None | Some n \<Rightarrow> if n \<le> 0 then None else Some n)"

section \<open>Reading links\<close>

lemma last_index_of_None: "last_index_of p s = None \<longleftrightarrow> \<not> sublist p s"
  by (induction p s rule: last_index_of.induct) (auto simp: sublist_Cons_right split: option.splits)

lemma last_index_of_append:
  "last_index_of p s = Some i \<Longrightarrow> last_index_of p (u @ s) = Some (length u + i)"
  by (induction u) auto

lemma sublist_filter_length: "sublist xs ys \<Longrightarrow> length (filter P xs) \<le> length (filter P ys)"
  by (auto simp: sublist_def)

lemma last_index_here: "last_index_of p s = None \<Longrightarrow> prefix p (c # s) \<Longrightarrow> last_index_of p (c # s) = Some 0"
  by simp

lemma last_marker:
  assumes "CHR ''/'' \<notin> set token"
  shows "last_index_of ''/claim/'' (u @ ''/claim/'' @ token) = Some (length u)"
proof -
  define r where "r = ''claim/'' @ token"
  have r: "CHR ''/'' # r = ''/claim/'' @ token" by (simp add: r_def)
  have "filter (\<lambda>c. c = CHR ''/'') token = []" using assms by (auto simp: filter_empty_conv)
  then have "\<not> sublist ''/claim/'' r"
    using sublist_filter_length [of "''/claim/''" r "\<lambda>c. c = CHR ''/''"] by (auto simp: r_def)
  then have "last_index_of ''/claim/'' r = None" by (rule iffD2 [OF last_index_of_None])
  then have "last_index_of ''/claim/'' (CHR ''/'' # r) = Some 0"
    by (rule last_index_here) (simp add: r)
  from last_index_of_append [OF this, of u] show ?thesis unfolding r by simp
qed

lemma takeWhile_whole: "list_all P s \<Longrightarrow> takeWhile P s = s"
  by (simp add: list_all_iff takeWhile_eq_all_conv)

lemma dropWhile_front:
  assumes "\<not> js_ws c"
  shows "\<exists>b'. dropWhile js_ws (b @ c # r) = b' @ c # r"
  using assms by (induction b) auto

lemma js_trim_link:
  assumes "token \<noteq> []" "\<not> js_ws (last token)" "\<not> js_ws c"
  shows "\<exists>b'. js_trim (b @ c # r @ token) = b' @ c # r @ token"
proof -
  obtain b' where b': "dropWhile js_ws (b @ c # r @ token) = b' @ c # r @ token"
    using dropWhile_front [OF assms(3)] by blast
  have "hd (rev (b' @ c # r @ token)) = last token" using assms(1) by (simp add: hd_rev)
  then have "dropWhile js_ws (rev (b' @ c # r @ token)) = rev (b' @ c # r @ token)"
    using assms(2) by (intro dropWhile_eq_self) simp
  then show ?thesis unfolding js_trim_def b' by (metis rev_rev_ident)
qed

lemma extract_link:
  assumes "token \<noteq> []" "list_all (\<lambda>c. \<not> link_separator c) token"
  shows "extract_claim_token (base @ ''/#/claim/'' @ token) = Some token"
proof -
  have w: "\<not> js_ws (last token)" "CHR ''/'' \<notin> set token"
    using assms by (auto simp: list_all_iff link_separator_def)
  obtain b where b: "js_trim (base @ CHR ''/'' # ''#/claim/'' @ token) = b @ CHR ''/'' # ''#/claim/'' @ token"
    using js_trim_link [OF assms(1) w(1), of "CHR ''/''" base "''#/claim/''"] by (auto simp: js_ws_def)
  have "last_index_of ''/claim/'' (b @ CHR ''/'' # ''#/claim/'' @ token) = Some (length b + 2)"
    using last_marker [OF w(2), of "b @ ''/#''"] by simp
  then show ?thesis
    using assms b by (simp add: extract_claim_token_def Let_def takeWhile_whole)
qed

lemma takeWhile_result:
  "(if takeWhile P r = [] then None else Some (takeWhile P r)) = Some t \<Longrightarrow> t \<noteq> [] \<and> list_all P t"
  by (auto split: if_splits simp: list_all_iff dest: set_takeWhileD)

lemma extract_no_separator:
  assumes "extract_claim_token s = Some t"
  shows "t \<noteq> [] \<and> list_all (\<lambda>c. \<not> link_separator c) t"
proof -
  have ne: "(js_trim s = []) = False" using assms by (auto simp: extract_claim_token_def)
  let ?raw = "case last_index_of ''/claim/'' (js_trim s) of Some i \<Rightarrow> drop (i + 7) (js_trim s) | None \<Rightarrow> js_trim s"
  have "(if takeWhile (\<lambda>c. \<not> link_separator c) ?raw = [] then None
      else Some (takeWhile (\<lambda>c. \<not> link_separator c) ?raw)) = Some t"
    using assms ne by (simp only: extract_claim_token_def Let_def if_False)
  then show ?thesis by (rule takeWhile_result)
qed

text \<open>A pasted claim link gives its token exactly when the token has no slash, question mark, hash sign
  or white space.\<close>

theorem pasted_link_exact:
  "extract_claim_token (base @ ''/#/claim/'' @ token) = Some token
     \<longleftrightarrow> token \<noteq> [] \<and> list_all (\<lambda>c. \<not> link_separator c) token"
  using extract_no_separator extract_link by blast

lemma b64_slash_first: "\<exists>r. b64encode (255 # a # b # s) = CHR ''/'' # r"
  by (simp add: b64encode_def btoa_def b64_char_def)

lemma minted_link_opens:
  assumes "raw \<noteq> []"
  shows "location_from_hash (''#/claim/'' @ b64encode raw) = At_Claim (b64encode raw)"
proof -
  have "token_link ''claim/'' (''claim/'' @ b64encode raw) = Some (b64encode raw)"
    by (rule token_link_read) (simp_all add: assms b64encode_nonempty)
  then show ?thesis by (simp add: location_from_hash_def strip_hash_def)
qed

text \<open>The token of a vault set up in the browser is standard base64, which uses the slash. There are
  such tokens that open the claim page from their link and that the two-link form cannot read from the
  same link, so the second party's link is refused.\<close>

theorem minted_link_refused:
  "\<exists>raw. length raw = 32 \<and> location_from_hash (''#/claim/'' @ b64encode raw) = At_Claim (b64encode raw)
     \<and> extract_claim_token (base @ ''/#/claim/'' @ b64encode raw) \<noteq> Some (b64encode raw)"
proof (intro exI conjI)
  let ?raw = "255 # 0 # 0 # replicate 29 0 :: bytes"
  let ?t = "b64encode ?raw"
  show "length ?raw = 32" by simp
  obtain r where t: "?t = CHR ''/'' # r" using b64_slash_first by blast
  show "location_from_hash (''#/claim/'' @ ?t) = At_Claim ?t" by (rule minted_link_opens) simp
  have "\<not> list_all (\<lambda>c. \<not> link_separator c) ?t" by (simp add: t link_separator_def)
  then show "extract_claim_token (base @ ''/#/claim/'' @ ?t) \<noteq> Some ?t" using extract_no_separator by blast
qed

section \<open>The form accepts what the server gets\<close>

lemma valid_addr_trim [simp]: "valid_addr (js_trim a) n = valid_addr a n"
  by (simp add: valid_addr_def looks_like_bitcoin_address_def address_matches_network_def)

lemma valid_addr_nonempty: "valid_addr a n \<Longrightarrow> a \<noteq> []"
  by (auto simp: valid_addr_def looks_like_bitcoin_address_def)

text \<open>The field under the address shows no hint exactly when the field is empty or the address is one the
  form will send: there is no address that is refused silently.\<close>

theorem destination_hint_consistent:
  "destination_hint_for a n = None \<longleftrightarrow> a = [] \<or> valid_addr a n"
  using lightning_never_an_address [of a] by (auto simp: destination_hint_for_def valid_addr_def)

lemma digits_rx: "test_full (rplus (RCls js_digit)) t \<longleftrightarrow> digits t"
  by (simp add: test_full_iff digits_def)

lemma parse_fee_cases:
  "parse_fee_rate s = field.Absent \<and> js_trim s = []
   \<or> parse_fee_rate s = Null \<and> js_trim s \<noteq> []
   \<or> (\<exists>n. parse_fee_rate s = Given (int n) \<and> digits (js_trim s) \<and> n = nat_of_digits (js_trim s) \<and> 1 \<le> n \<and> n \<le> 1000)"
  by (auto simp: parse_fee_rate_def Let_def digits_rx)

lemma show_nat_trim [simp]: "js_trim (show_nat n) = show_nat n"
  using show_nat_digits [of n] digit_not_ws
  by (intro js_trim_id) (auto simp: digits_def list_all_iff)

text \<open>The fee field: a text is accepted exactly when, trimmed, it is a decimal numeral from 1 to 1000,
  and then its value is what is sent; every rate of that range can be entered; a blank field sends no
  rate.\<close>

theorem fee_rate_exact:
  "(parse_fee_rate s = Given r \<longleftrightarrow> digits (js_trim s) \<and> r = int (nat_of_digits (js_trim s)) \<and> 1 \<le> r \<and> r \<le> 1000)
   \<and> (parse_fee_rate s = field.Absent \<longleftrightarrow> js_trim s = [])
   \<and> (parse_fee_rate (show_nat n) = (if 1 \<le> n \<and> n \<le> 1000 then Given (int n) else Null))"
  using show_nat_digits [of n]
  by (auto simp: parse_fee_rate_def Let_def digits_rx digits_def)

text \<open>Destination and fee rate of a request that moves money or prepares to.\<close>

fun call_terms :: "call \<Rightarrow> (jstr \<times> int field) option" where
  "call_terms (HeirClaim t r) = Some (hc_destination r, hc_fee_rate r)"
| "call_terms (GuardianClaim t r) = Some (gc_destination r, gc_fee_rate r)"
| "call_terms (BuildClaimPsbt t r) = Some (bp_destination r, bp_fee_rate r)"
| "call_terms _ = None"

definition safe_terms :: "jstr \<Rightarrow> call \<Rightarrow> bool" where
  "safe_terms network c = (case call_terms c of None \<Rightarrow> True
     | Some (dest, fee) \<Rightarrow> valid_addr dest network \<and> js_trim dest = dest
         \<and> (case fee of field.Absent \<Rightarrow> True | Null \<Rightarrow> False | Given n \<Rightarrow> 1 \<le> n \<and> n \<le> 1000))"

lemma accepted_terms:
  "valid_addr address network \<Longrightarrow> fee_rate_valid fee \<Longrightarrow>
     valid_addr (js_trim address) network
     \<and> (case parse_fee_rate fee of field.Absent \<Rightarrow> True | Null \<Rightarrow> False | Given n \<Rightarrow> 1 \<le> n \<and> n \<le> 1000)"
  using parse_fee_cases [of fee] by (auto simp: fee_rate_valid_def)


section \<open>The gates before the form\<close>

text \<open>Whether the page shows a claim form.\<close>

definition shows_claim_form :: "(jstr \<Rightarrow> int option) \<Rightarrow> claim_view \<Rightarrow> int \<Rightarrow> gate_state \<Rightarrow> bool" where
  "shows_claim_form date_time v now gs =
     (case resolved_body v of
        Maturity_Gate at \<Rightarrow> gate_view date_time at now gs = Claimable
      | _ \<Rightarrow> False)"

text \<open>A claim form is shown exactly when the link is not a practice run, the vault is alarmed or its
  timelock has started, the last chain lookup that answered said the coins can move, and the safety
  wait, if the server gave one, is over.\<close>

theorem claim_form_gate:
  "shows_claim_form date_time v now gs \<longleftrightarrow>
     cw_drill v \<noteq> Some True \<and> cw_status v \<in> {''alarmed'', ''timelock_started''}
     \<and> Option.bind (mg_est gs) (\<lambda>e. if ue_matured e then Some e else None) \<noteq> None
     \<and> (case (if truthy (cw_claim_available_at v) then Option.bind (cw_claim_available_at v) date_time else None) of
           Some t \<Rightarrow> t \<le> now | None \<Rightarrow> True)"
  by (cases "mg_est gs"; cases "cw_claim_available_at v")
    (auto simp: shows_claim_form_def resolved_body_def gate_view_def split: option.splits)

text \<open>The probe: a vault with derivation parameters is claimed from them and its sealed key is not even
  asked for; otherwise a sealed key gives the password-vault flow; only when the server answers to both
  that the vault was not created that way does the manual flow appear, and any other error (a network
  failure, a bad request) is shown as an error.\<close>

theorem probe_exact:
  "snd (probe_heir get_params get_sealed token) =
    (case get_params token of
       Inr p \<Rightarrow> Derived_Heir p
     | Inl e \<Rightarrow> if \<not> is_wrong_shape e then Probe_Error e
         else (case get_sealed token of
                 Inr s \<Rightarrow> Password_Vault s
               | Inl e' \<Rightarrow> if is_wrong_shape e' then Manual_Psbt else Probe_Error e'))
   \<and> (GetSealedHeirXprv token \<in> set (fst (probe_heir get_params get_sealed token))
        \<longleftrightarrow> (case get_params token of Inl e \<Rightarrow> is_wrong_shape e | Inr _ \<Rightarrow> False))
   \<and> \<not> is_wrong_shape (Js_Error m)
   \<and> (is_wrong_shape (Api_Error 400 body m) \<longleftrightarrow> has_i ''this vault was not created with'' m)"
  by (auto simp: probe_heir_def is_wrong_shape_def test_search_lit_i split: sum.split)

section \<open>From the setup to the claim\<close>

lemma unwrap_sealed_heir:
  assumes "aead_correct C" "hkdf_sized C" "text_faithful C (sai_heir_xprv i)" "length (d_nonce3 d) = 24"
    and "seal_vault_secrets C d i = Inr s"
  shows "unwrap_key C (b64encode (sai_claim_token i)) (sb_ct (svs_heir_xprv s)) (sb_nonce (svs_heir_xprv s))
    = Inr (sai_heir_xprv i)"
proof -
  obtain b where b: "seal_with_key C (d_nonce3 d) (derive_claim_kek C (sai_claim_token i)) (utf8 (sai_heir_xprv i)) = Inr b"
    and s: "svs_heir_xprv s = b"
    using assms(5) by (auto simp: seal_vault_secrets_def Let_def and_then_Inr_iff)
  have "mk_blob (sb_ct b) (sb_nonce b) = b" using b by (auto simp: seal_ok mk_blob_def)
  with open_seal [OF assms(1,4) b] assms(3) show ?thesis
    by (simp add: s unwrap_key_def unseal_heir_xprv_def text_faithful_def)
qed

text \<open>C5: What the setup seals for the heir, the heir's page sends: the link made of the claim token opens
  the claim page with that token, and a submission with a valid destination and fee makes exactly one
  request, the heir claim to that token with the trimmed destination, the parsed fee rate and the very
  key that was sealed at setup.\<close>

theorem heir_claim_delivers:
  assumes "aead_correct C" "hkdf_sized C" "text_faithful C (sai_heir_xprv i)" "length (d_nonce3 d) = 24"
    and "seal_vault_secrets C d i = Inr s" "sai_claim_token i \<noteq> []"
    and "shv_heir_xprv_ct_b64 view = sb_ct (svs_heir_xprv s)"
    and "shv_heir_xprv_nonce_b64 view = sb_nonce (svs_heir_xprv s)"
    and "valid_addr address (shv_network view)" "fee_rate_valid fee"
  shows "location_from_hash (''#/claim/'' @ b64encode (sai_claim_token i)) = At_Claim (b64encode (sai_claim_token i))
     \<and> password_on_submit C send (b64encode (sai_claim_token i)) view address fee
        = (let c = HeirClaim (b64encode (sai_claim_token i)) (claim_request address fee (sai_heir_xprv i))
           in ([c], Some (send c)))"
  using minted_link_opens [OF assms(6)] unwrap_sealed_heir [OF assms(1-5)] assms(7-10)
  by (simp add: password_on_submit_def)

definition sample_sealed_heir :: "sealed_vault_secrets \<Rightarrow> sealed_heir_view" where
  "sample_sealed_heir s = \<lparr>shv_vault_id = ''v1'', shv_network = ''regtest'', shv_timelock_blocks = 144,
     shv_heir_xprv_ct_b64 = sb_ct (svs_heir_xprv s), shv_heir_xprv_nonce_b64 = sb_nonce (svs_heir_xprv s),
     shv_descriptor_external = [], shv_descriptor_internal = []\<rparr>"

definition sample_destination :: jstr where
  "sample_destination = ''bcrt1qqqqqqqqqqqqqqqqqqqqqqqqqqqqqqqqqqqqqqq''"

lemma sample_destination_valid: "valid_addr sample_destination ''regtest''"
  by code_simp

lemma sample_fee_valid: "fee_rate_valid ''12''"
  by code_simp

theorem heir_claim_delivers_witness:
  "\<exists>s. password_on_submit sample_crypto (\<lambda>_. Inl (Js_Error []))  (b64encode (sai_claim_token sample_input)) (sample_sealed_heir s)
          sample_destination ''12''
     = (let c = HeirClaim (b64encode (sai_claim_token sample_input))
                  (claim_request sample_destination ''12'' (sai_heir_xprv sample_input))
        in ([c], Some (Inl (Js_Error []))))"
proof -
  obtain s where s: "seal_vault_secrets sample_crypto sample_draws sample_input = Inr s"
    by (rule sample_sealed)
  have t: "text_faithful sample_crypto (sai_heir_xprv sample_input)"
    by (simp add: sample_input_def sample_text)
  have n: "length (d_nonce3 sample_draws) = 24" "sai_claim_token sample_input \<noteq> []"
    by (simp_all add: sample_draws_def sample_input_def)
  have v: "shv_heir_xprv_ct_b64 (sample_sealed_heir s) = sb_ct (svs_heir_xprv s)"
    "shv_heir_xprv_nonce_b64 (sample_sealed_heir s) = sb_nonce (svs_heir_xprv s)"
    "valid_addr sample_destination (shv_network (sample_sealed_heir s))"
    using sample_destination_valid by (simp_all add: sample_sealed_heir_def)
  show ?thesis
    using heir_claim_delivers [OF sample_crypto_laws(1) sample_crypto_laws(3) t n(1) s n(2) v sample_fee_valid, of "\<lambda>_. Inl (Js_Error [])"]
    by (intro exI) (rule conjunct2)
qed

section \<open>Two parties\<close>

definition guardian_init :: guardian_state where
  "guardian_init = \<lparr>gs_other_token = None, gs_other_err = None\<rparr>"

text \<open>The states of the two-link form: any number of links checked, each against the server's answers
  of that moment; \<open>A\<close> is the set of answers given over the session.\<close>

inductive guardian_reach :: "(jstr \<times> claim_view) set \<Rightarrow> claim_view \<Rightarrow> jstr \<Rightarrow> guardian_state \<Rightarrow> bool"
  for A view token where
  guardian_start: "guardian_reach A view token guardian_init"
| guardian_check: "guardian_reach A view token s \<Longrightarrow> (\<And>t v. resolve t = Inr v \<Longrightarrow> (t, v) \<in> A) \<Longrightarrow>
    guardian_reach A view token (snd (check_other_link resolve view token link s))"

definition other_party :: "(jstr \<times> claim_view) set \<Rightarrow> claim_view \<Rightarrow> jstr \<Rightarrow> jstr \<Rightarrow> bool" where
  "other_party A view token t \<longleftrightarrow> t \<noteq> token \<and> t \<noteq> []
     \<and> (\<exists>v. (t, v) \<in> A \<and> cw_vault_id v = cw_vault_id view
          \<and> cw_token_role v = (if cw_token_role view = ''heir'' then ''guardian'' else ''heir''))"

lemma check_other_link_token:
  assumes "\<And>t v. resolve t = Inr v \<Longrightarrow> (t, v) \<in> A"
    and "\<And>t. gs_other_token s = Some t \<Longrightarrow> other_party A view token t"
    and "gs_other_token (snd (check_other_link resolve view token link s)) = Some t"
  shows "other_party A view token t"
  using assms(3) assms(1) [of t] assms(2) [of t] extract_no_separator [of link t]
  by (auto simp: check_other_link_def other_party_def split: option.splits sum.splits if_splits)

lemma guardian_reach_token:
  "guardian_reach A view token s \<Longrightarrow> gs_other_token s = Some t \<Longrightarrow> other_party A view token t"
proof (induction arbitrary: t rule: guardian_reach.induct)
  case guardian_start
  then show ?case by (simp add: guardian_init_def)
next
  case (guardian_check s resolve link)
  show ?case by (rule check_other_link_token [OF guardian_check.hyps(2) guardian_check.IH guardian_check.prems])
qed

lemma map_sum_Inr_iff: "map_sum f (\<lambda>x. x) r = Inr b \<longleftrightarrow> r = Inr b"
  by (cases r) auto

lemma guardian_request:
  "GuardianClaim h req \<in> set (fst (guardian_on_submit C gsh gsg send view token s address fee)) \<Longrightarrow>
     \<exists>g v w. heir_token view token s = Some h \<and> guardian_token view token s = Some g
       \<and> gsh h = Inr v \<and> unwrap_key C h (shv_heir_xprv_ct_b64 v) (shv_heir_xprv_nonce_b64 v) = Inr (gc_heir_xprv req)
       \<and> gsg g = Inr w \<and> unwrap_key C g (sgv_guardian_xprv_ct_b64 w) (sgv_guardian_xprv_nonce_b64 w)
           = Inr (gc_guardian_xprv req)"
  by (cases "heir_token view token s"; cases "guardian_token view token s")
    (auto simp: guardian_on_submit_def both_ready_def Let_def and_then_Inr_iff map_sum_Inr_iff
      split: if_splits sum.splits)


text \<open>C20: A two-key claim is only ever posted to the heir's link, and only after the server resolved the other
  link, for the same vault and with the complementary role; the keys in it are the ones sealed under
  the two links' tokens.\<close>

theorem guardian_claim_sound:
  assumes "guardian_reach A view token s" "cw_token_role view \<in> {''heir'', ''guardian''}"
    and "GuardianClaim h req \<in> set (fst (guardian_on_submit C gsh gsg send view token s address fee))"
  shows "\<exists>t v w. other_party A view token t
     \<and> h = (if cw_token_role view = ''heir'' then token else t)
     \<and> gsh h = Inr v \<and> unwrap_key C h (shv_heir_xprv_ct_b64 v) (shv_heir_xprv_nonce_b64 v) = Inr (gc_heir_xprv req)
     \<and> gsg (if cw_token_role view = ''heir'' then t else token) = Inr w
     \<and> unwrap_key C (if cw_token_role view = ''heir'' then t else token) (sgv_guardian_xprv_ct_b64 w)
           (sgv_guardian_xprv_nonce_b64 w) = Inr (gc_guardian_xprv req)"
proof -
  obtain g v w where r: "heir_token view token s = Some h" "guardian_token view token s = Some g" "gsh h = Inr v"
    "unwrap_key C h (shv_heir_xprv_ct_b64 v) (shv_heir_xprv_nonce_b64 v) = Inr (gc_heir_xprv req)" "gsg g = Inr w"
    "unwrap_key C g (sgv_guardian_xprv_ct_b64 w) (sgv_guardian_xprv_nonce_b64 w) = Inr (gc_guardian_xprv req)"
    using guardian_request [OF assms(3)] by blast
  show ?thesis
  proof (cases "cw_token_role view = ''heir''")
    case True
    then have "h = token" "gs_other_token s = Some g" using r(1,2) by (simp_all add: heir_token_def guardian_token_def)
    with True r guardian_reach_token [OF assms(1)] show ?thesis
      by (intro exI [of _ g] exI [of _ v] exI [of _ w]) simp
  next
    case False
    then have "g = token" "gs_other_token s = Some h" using r(1,2) assms(2) by (simp_all add: heir_token_def guardian_token_def)
    with False r guardian_reach_token [OF assms(1)] show ?thesis
      by (intro exI [of _ h] exI [of _ v] exI [of _ w]) simp
  qed
qed

text \<open>A sample session: the heir's page, with the guardian's link checked.\<close>

definition sample_view :: "jstr \<Rightarrow> claim_view" where
  "sample_view role = \<lparr>cw_vault_id = ''v1'', cw_label = None, cw_network = ''regtest'', cw_status = ''alarmed'',
     cw_timelock_blocks = 144, cw_next_deadline_at = [], cw_heir_channel = None, cw_heir_display_name = None,
     cw_claim_available_at = None, cw_vault_kind = ''guardian'', cw_token_role = role, cw_guardian_slot = None,
     cw_drill = None, cw_claimed_txid = None, cw_claimed_explorer_url = None\<rparr>"

definition sample_resolve :: "jstr \<Rightarrow> (thrown, claim_view) throws" where
  "sample_resolve t = Inr (sample_view ''guardian'')"

definition sample_guardian_state :: guardian_state where
  "sample_guardian_state =
     snd (check_other_link sample_resolve (sample_view ''heir'') ''AAAA'' ''http://h/#/claim/BBBB'' guardian_init)"

lemma sample_guardian_reach:
  "guardian_reach {(t, v). sample_resolve t = Inr v} (sample_view ''heir'') ''AAAA'' sample_guardian_state"
  unfolding sample_guardian_state_def by (rule guardian_check [OF guardian_start]) simp

definition sample_heir_answer :: "jstr \<Rightarrow> (thrown, sealed_heir_view) throws" where
  "sample_heir_answer t = Inr (\<lparr>shv_vault_id = ''v1'', shv_network = ''regtest'', shv_timelock_blocks = 144,
     shv_heir_xprv_ct_b64 = [], shv_heir_xprv_nonce_b64 = [], shv_descriptor_external = [], shv_descriptor_internal = []\<rparr>)"

definition sample_guardian_answer :: "jstr \<Rightarrow> (thrown, sealed_guardian_view) throws" where
  "sample_guardian_answer t = Inr (\<lparr>sgv_vault_id = ''v1'', sgv_slot = 1, sgv_network = ''regtest'', sgv_timelock_blocks = 144,
     sgv_guardian_xprv_ct_b64 = [], sgv_guardian_xprv_nonce_b64 = [], sgv_descriptor_external = [], sgv_descriptor_internal = []\<rparr>)"

text \<open>A cipher that opens everything, to run the handler on.\<close>

definition open_crypto :: crypto where
  "open_crypto = sample_crypto\<lparr>aead_decrypt := \<lambda>k n c. Inr c\<rparr>"

lemma sample_token_read: "extract_claim_token ''http://h/#/claim/BBBB'' = Some ''BBBB''"
  using extract_link [of "''BBBB''" "''http://h''"] by (simp add: link_separator_def js_ws_def)

lemma sample_guardian_token: "gs_other_token sample_guardian_state = Some ''BBBB''"
  by (simp add: sample_guardian_state_def check_other_link_def sample_token_read sample_resolve_def sample_view_def)

lemma sample_unwrap:
  "unwrap_key open_crypto ''AAAA'' [] [] = Inr []" "unwrap_key open_crypto ''BBBB'' [] [] = Inr []"
  by code_simp+

theorem guardian_claim_sound_witness:
  "\<exists>req. GuardianClaim ''AAAA'' req \<in> set (fst (guardian_on_submit open_crypto sample_heir_answer sample_guardian_answer
            (\<lambda>_. Inl (Js_Error [])) (sample_view ''heir'') ''AAAA'' sample_guardian_state sample_destination ''12''))
     \<and> (\<exists>t. other_party {(t, v). sample_resolve t = Inr v} (sample_view ''heir'') ''AAAA'' t)"
proof -
  let ?req = "\<lparr>gc_destination = js_trim sample_destination, gc_fee_rate = parse_fee_rate ''12'', gc_heir_xprv = [],
    gc_guardian_xprv = []\<rparr>"
  have r: "cw_token_role (sample_view ''heir'') \<in> {''heir'', ''guardian''}" by (simp add: sample_view_def)
  have "valid_addr sample_destination (cw_network (sample_view ''heir''))"
    using sample_destination_valid by (simp add: sample_view_def)
  then have m: "GuardianClaim ''AAAA'' ?req \<in> set (fst (guardian_on_submit open_crypto sample_heir_answer
      sample_guardian_answer (\<lambda>_. Inl (Js_Error [])) (sample_view ''heir'') ''AAAA'' sample_guardian_state
      sample_destination ''12''))"
    using sample_fee_valid sample_guardian_token sample_unwrap
    by (simp add: guardian_on_submit_def both_ready_def heir_token_def guardian_token_def sample_view_def
        sample_heir_answer_def sample_guardian_answer_def Let_def)
  from guardian_claim_sound [OF sample_guardian_reach r m] m show ?thesis by blast
qed

end
