(* ===== verification/Claim_Page.thy ===== *)
theory Claim_Page
  imports Claim_Flow
begin

text \<open>
  The claim page (ghostkey-web/src/ClaimPage.tsx) over time: the requests that resolve a link and those that ask when the
  coins unlock, with their answers as separate steps. A link is resolved without a guard against a change of the link; a lookup
  of the maturity gate belongs to one run of its effect, which a tick of the minute clock, or a return to the tab, replaces.
\<close>

section \<open>Resolving a link\<close>

text \<open>\<open>pg_from\<close> records the link whose answer the page shows.\<close>

record claim_page =
  pg_token :: jstr
  pg_state :: claim_state
  pg_loads :: "jstr list"
  pg_from :: "jstr option"

definition page_load :: "claim_page \<Rightarrow> claim_page" where
  "page_load s = s\<lparr>pg_state := Claim_Loading, pg_loads := pg_loads s @ [pg_token s], pg_from := None\<rparr>"

definition page_open :: "jstr \<Rightarrow> claim_page" where
  "page_open token = page_load \<lparr>pg_token = token, pg_state = Claim_Loading, pg_loads = [], pg_from = None\<rparr>"

text \<open>Another claim link is opened in the same tab: the component stays, its token changes.\<close>

definition page_link :: "jstr \<Rightarrow> claim_page \<Rightarrow> claim_page" where
  "page_link token s = (if token = pg_token s then s else page_load (s\<lparr>pg_token := token\<rparr>))"

definition page_answer :: "jstr \<Rightarrow> (thrown, claim_view) throws \<Rightarrow> claim_page \<Rightarrow> claim_page" where
  "page_answer asked reply s =
     s\<lparr>pg_state := claim_load reply, pg_loads := remove1 asked (pg_loads s), pg_from := Some asked\<rparr>"

datatype link_event = Page_Link jstr | Page_Answer jstr "(thrown, claim_view) throws" | Page_Retry

fun page_offered :: "link_event \<Rightarrow> claim_page \<Rightarrow> bool" where
  "page_offered (Page_Link token) s = True"
| "page_offered (Page_Answer asked reply) s = (asked \<in> set (pg_loads s))"
| "page_offered Page_Retry s = (case pg_state s of Claim_Error e \<Rightarrow> True | _ \<Rightarrow> False)"

fun page_apply :: "link_event \<Rightarrow> claim_page \<Rightarrow> claim_page" where
  "page_apply (Page_Link token) s = page_link token s"
| "page_apply (Page_Answer asked reply) s = page_answer asked reply s"
| "page_apply Page_Retry s = page_load s"

inductive page_reach :: "jstr \<Rightarrow> claim_page \<Rightarrow> bool" for token where
  page_opened: "page_reach token (page_open token)"
| page_step: "page_reach token s \<Longrightarrow> page_offered e s \<Longrightarrow> \<forall>t. e \<noteq> Page_Link t \<Longrightarrow> page_reach token (page_apply e s)"

lemmas page_ops = page_load_def page_open_def page_link_def page_answer_def

lemma claim_load_done [simp]: "claim_load reply \<noteq> Claim_Loading"
  by (cases reply) auto

text \<open>In a tab that opens one claim link, whatever the server answers and however often the heir tries again,
  there is at most one request at a time, the page shows the spinner exactly while it waits for it, and what it shows
  otherwise is the answer for its own link.\<close>

theorem page_shows_its_link:
  assumes "page_reach token s"
  shows "pg_token s = token
    \<and> (if pg_state s = Claim_Loading then pg_loads s = [token] else pg_loads s = [] \<and> pg_from s = Some token)"
  using assms
proof (induction rule: page_reach.induct)
  case (page_step s e)
  then show ?case by (cases e) (auto simp: page_ops split: if_splits claim_state.splits)
qed (simp add: page_ops)

theorem page_shows_its_link_witness:
  "pg_from (page_apply (Page_Answer ''t'' (Inl (Js_Error ''offline''))) (page_open ''t'')) = Some ''t''"
proof -
  have "page_reach ''t'' (page_apply (Page_Answer ''t'' (Inl (Js_Error ''offline''))) (page_open ''t''))"
    by (rule page_step [OF page_opened]) (simp_all add: page_ops)
  from page_shows_its_link [OF this] show ?thesis by (simp add: page_ops)
qed

text \<open>With two links it is not so: the answer for the first link, when it comes after that for the second, puts the first
  vault on the page of the second link, whose token every later request of the page carries.\<close>

theorem late_link_replaces_page:
  assumes "a \<noteq> b"
  shows "let s1 = page_link b (page_open a); s2 = page_answer b reply s1; s3 = page_answer a (Inr view) s2
    in page_offered (Page_Answer b reply) s1 \<and> page_offered (Page_Answer a (Inr view)) s2
      \<and> pg_state s3 = Claim_Ok view \<and> pg_from s3 = Some a \<and> pg_token s3 = b \<and> pg_loads s3 = []"
  using assms by (simp add: page_ops Let_def)

theorem late_link_replaces_page_witness:
  "pg_state (page_answer ''a'' (Inr (sample_view ''heir'')) (page_answer ''b'' (Inl (Js_Error [])) (page_link ''b'' (page_open ''a''))))
     = Claim_Ok (sample_view ''heir'')"
  using late_link_replaces_page [of "''a''" "''b''" "Inl (Js_Error [])" "sample_view ''heir''"] by (simp add: Let_def)

section \<open>The lookups of the gate\<close>

record gate_page =
  gp_gate :: gate_state
  gp_lookup :: nat
  gp_awaited :: "nat list"

definition gate_open :: gate_page where
  "gate_open = \<lparr>gp_gate = gate_init, gp_lookup = 0, gp_awaited = [0]\<rparr>"

datatype gate_event = Gate_Tick | Gate_Answer nat "(thrown, unlock_estimate) throws" | Gate_Slow nat

text \<open>The clean-up of an effect's run ends its interest in the answer and its timer.\<close>

fun gate_apply :: "gate_event \<Rightarrow> gate_page \<Rightarrow> gate_page" where
  "gate_apply Gate_Tick s =
     \<lparr>gp_gate = gate_tick (gp_gate s), gp_lookup = gp_lookup s + 1, gp_awaited = gp_awaited s @ [gp_lookup s + 1]\<rparr>"
| "gate_apply (Gate_Answer i reply) s =
     s\<lparr>gp_gate := (if i = gp_lookup s then gate_reply reply (gp_gate s) else gp_gate s),
       gp_awaited := remove1 i (gp_awaited s)\<rparr>"
| "gate_apply (Gate_Slow i) s =
     s\<lparr>gp_gate := (if i = gp_lookup s then gate_slow (gp_gate s) else gp_gate s)\<rparr>"

text \<open>The estimates that came while their lookup was the latest, when \<open>k\<close> is the latest at the start.\<close>

fun in_time :: "nat \<Rightarrow> gate_event list \<Rightarrow> unlock_estimate list" where
  "in_time k [] = []"
| "in_time k (Gate_Tick # es) = in_time (k + 1) es"
| "in_time k (Gate_Answer i (Inr est) # es) = (if i = k then est # in_time k es else in_time k es)"
| "in_time k (Gate_Answer i (Inl e) # es) = in_time k es"
| "in_time k (Gate_Slow i # es) = in_time k es"

definition last_or :: "'a option \<Rightarrow> 'a list \<Rightarrow> 'a option" where
  "last_or x xs = (if xs = [] then x else Some (last xs))"

lemma gate_run_estimate:
  "mg_est (gp_gate (fold gate_apply es s)) = last_or (mg_est (gp_gate s)) (in_time (gp_lookup s) es)"
proof (induction es arbitrary: s)
  case (Cons e es)
  show ?case
  proof (cases e)
    case (Gate_Answer i reply)
    then show ?thesis by (cases reply) (simp_all add: Cons.IH gate_reply_def last_or_def)
  qed (simp_all add: Cons.IH gate_tick_def gate_slow_def)
qed (simp add: last_or_def)

text \<open>The claim form appears exactly when, of the estimates that came before the next tick replaced their lookup, the last says that the
  coins can move and the safety wait is over; whatever came later than its tick, matured or not, has no part in it.\<close>

theorem form_follows_answers_in_time:
  "gate_view dt available now (gp_gate (fold gate_apply es gate_open)) = Claimable
     \<longleftrightarrow> in_time 0 es \<noteq> [] \<and> ue_matured (last (in_time 0 es))
       \<and> (case Option.bind available dt of None \<Rightarrow> True | Some t \<Rightarrow> t \<le> now)"
proof -
  have "mg_est (gp_gate (fold gate_apply es gate_open)) = last_or None (in_time 0 es)"
    using gate_run_estimate [of es gate_open] by (simp add: gate_open_def gate_init_def)
  then show ?thesis
    by (auto simp: gate_view_def last_or_def split: option.split)
qed

text \<open>So a chain scan that takes longer than a minute is asked for again every minute and never heard: the page stays
  at its first line, or says it cannot check, for as long as it is open.\<close>

fun too_late :: "nat \<Rightarrow> gate_event list \<Rightarrow> bool" where
  "too_late k [] = True"
| "too_late k (Gate_Tick # es) = too_late (k + 1) es"
| "too_late k (Gate_Answer i reply # es) = (i < k \<and> too_late k es)"
| "too_late k (Gate_Slow i # es) = too_late k es"

lemma too_late_in_time: "too_late k es \<Longrightarrow> in_time k es = []"
  by (induction k es rule: in_time.induct) auto

lemma slow_lookups_never_heard:
  "too_late 0 es \<Longrightarrow> mg_est (gp_gate (fold gate_apply es gate_open)) = None"
  using gate_run_estimate [of es gate_open] by (simp add: too_late_in_time gate_open_def gate_init_def last_or_def)

end
