(* ===== verification/Claim_Screens.thy ===== *)
theory Claim_Screens
  imports Claim_Flow
begin

text \<open>
  The forms of the claim page (ghostkey-web/src/ClaimPage.tsx) as the heir uses them: the fields, the review
  panel (ConfirmSend.tsx), the confirmation and the answer, for the three forms that send one claim, and the
  form that prepares a transaction for a wallet and broadcasts what was signed. A request and its answer are
  separate steps. What a form sends is Claim_Flow's; here it is the argument \<open>prepare\<close>.
\<close>

section \<open>The forms that send one claim\<close>

text \<open>What a confirmed form sends: an error found in the browser, or the claim.\<close>

type_synonym prepare = "jstr \<Rightarrow> jstr \<Rightarrow> (thrown, call) throws"

definition password_prepare :: "('a crypto_scheme) \<Rightarrow> jstr \<Rightarrow> sealed_heir_view \<Rightarrow> prepare" where
  "password_prepare C token sealed address fee =
     map_sum Js_Error (\<lambda>xprv. HeirClaim token (claim_request address fee xprv))
       (unwrap_key C token (shv_heir_xprv_ct_b64 sealed) (shv_heir_xprv_nonce_b64 sealed))"

definition derived_prepare :: "('a crypto_scheme) \<Rightarrow> bip \<Rightarrow> jstr \<Rightarrow> heir_derivation_params \<Rightarrow> prepare" where
  "derived_prepare C B token params address fee =
     map_sum Js_Error (\<lambda>k. HeirClaim token (claim_request address fee (dh_xprv k)))
       (derive_heir_key C B (hdp_vault_secret_hex params) (hdp_heir_email params) (hdp_network params))"

definition guardian_prepare :: "('a crypto_scheme) \<Rightarrow> (jstr \<Rightarrow> (thrown, sealed_heir_view) throws)
    \<Rightarrow> (jstr \<Rightarrow> (thrown, sealed_guardian_view) throws) \<Rightarrow> jstr \<Rightarrow> jstr \<Rightarrow> prepare" where
  "guardian_prepare C get_heir get_guardian h g address fee =
     and_then (get_heir h) (\<lambda>v.
     and_then (map_sum Js_Error (\<lambda>x. x) (unwrap_key C h (shv_heir_xprv_ct_b64 v) (shv_heir_xprv_nonce_b64 v))) (\<lambda>heir_xprv.
     and_then (get_guardian g) (\<lambda>w.
     and_then (map_sum Js_Error (\<lambda>x. x) (unwrap_key C g (sgv_guardian_xprv_ct_b64 w) (sgv_guardian_xprv_nonce_b64 w))) (\<lambda>guardian_xprv.
     Inr (GuardianClaim h \<lparr>gc_destination = js_trim address, gc_fee_rate = parse_fee_rate fee,
            gc_heir_xprv = heir_xprv, gc_guardian_xprv = guardian_xprv\<rparr>)))))"

text \<open>\<open>cs_reviewed\<close> are the labels of every review panel that was opened, \<open>cs_claims\<close> the claims sent and
  \<open>cs_answers\<close> how many of them were answered.\<close>

record claim_screen =
  cs_wallet :: "bool option"
  cs_address :: jstr
  cs_fee :: jstr
  cs_confirming :: bool
  cs_submitting :: bool
  cs_result :: "broadcast_view option"
  cs_error :: "thrown option"
  cs_reviewed :: "(jstr \<times> jstr option) list"
  cs_claims :: "call list"
  cs_answers :: nat

definition open_claim_screen :: claim_screen where
  "open_claim_screen = \<lparr>cs_wallet = None, cs_address = [], cs_fee = [], cs_confirming = False, cs_submitting = False,
     cs_result = None, cs_error = None, cs_reviewed = [], cs_claims = [], cs_answers = 0\<rparr>"

text \<open>The panel plays back the address and the fee rate.\<close>

definition panel_labels :: "jstr \<Rightarrow> jstr \<Rightarrow> jstr \<times> jstr option" where
  "panel_labels address fee = (js_trim address, fee_label (parse_fee_rate fee))"

definition claim_ready :: "jstr \<Rightarrow> claim_screen \<Rightarrow> bool" where
  "claim_ready network s = (valid_addr (cs_address s) network \<and> fee_rate_valid (cs_fee s))"

definition claim_review :: "claim_screen \<Rightarrow> claim_screen" where
  "claim_review s = s\<lparr>cs_confirming := True, cs_reviewed := cs_reviewed s @ [panel_labels (cs_address s) (cs_fee s)]\<rparr>"

definition claim_back :: "claim_screen \<Rightarrow> claim_screen" where
  "claim_back s = s\<lparr>cs_confirming := False\<rparr>"

definition claim_confirm :: "jstr \<Rightarrow> prepare \<Rightarrow> claim_screen \<Rightarrow> claim_screen" where
  "claim_confirm network prepare s =
     (if \<not> claim_ready network s then s
      else (case prepare (cs_address s) (cs_fee s) of
              Inl e \<Rightarrow> s\<lparr>cs_error := Some e\<rparr>
            | Inr c \<Rightarrow> s\<lparr>cs_submitting := True, cs_error := None, cs_claims := cs_claims s @ [c]\<rparr>))"

definition claim_answer :: "(thrown, broadcast_view) throws \<Rightarrow> claim_screen \<Rightarrow> claim_screen" where
  "claim_answer reply s0 =
     (let s = s0\<lparr>cs_submitting := False, cs_answers := cs_answers s0 + 1\<rparr>
      in case reply of Inr r \<Rightarrow> s\<lparr>cs_result := Some r\<rparr> | Inl e \<Rightarrow> s\<lparr>cs_error := Some e\<rparr>)"

datatype screen_event =
    Pick_Wallet bool | Type_Address jstr | Type_Fee jstr | Claim_Review | Claim_Back | Claim_Confirm
  | Claim_Answer "(thrown, broadcast_view) throws"

text \<open>\<open>wallet_step\<close>: whether the form waits for the question about the wallet.\<close>

fun screen_offered :: "bool \<Rightarrow> jstr \<Rightarrow> screen_event \<Rightarrow> claim_screen \<Rightarrow> bool" where
  "screen_offered wallet_step network e s =
     (cs_result s = None \<and> (case e of
        Pick_Wallet b \<Rightarrow> wallet_step
      | Claim_Answer r \<Rightarrow> cs_submitting s
      | _ \<Rightarrow> (wallet_step \<longrightarrow> cs_wallet s \<noteq> None)
          \<and> (case e of
               Claim_Review \<Rightarrow> \<not> cs_confirming s \<and> claim_ready network s
             | Claim_Back \<Rightarrow> cs_confirming s \<and> \<not> cs_submitting s
             | Claim_Confirm \<Rightarrow> cs_confirming s \<and> \<not> cs_submitting s
             | _ \<Rightarrow> \<not> cs_submitting s \<and> \<not> cs_confirming s)))"

fun screen_apply :: "jstr \<Rightarrow> prepare \<Rightarrow> screen_event \<Rightarrow> claim_screen \<Rightarrow> claim_screen" where
  "screen_apply network prepare (Pick_Wallet b) s = s\<lparr>cs_wallet := Some b\<rparr>"
| "screen_apply network prepare (Type_Address t) s = s\<lparr>cs_address := t\<rparr>"
| "screen_apply network prepare (Type_Fee t) s = s\<lparr>cs_fee := t\<rparr>"
| "screen_apply network prepare Claim_Review s = claim_review s"
| "screen_apply network prepare Claim_Back s = claim_back s"
| "screen_apply network prepare Claim_Confirm s = claim_confirm network prepare s"
| "screen_apply network prepare (Claim_Answer r) s = claim_answer r s"

inductive screen_reach :: "bool \<Rightarrow> jstr \<Rightarrow> prepare \<Rightarrow> claim_screen \<Rightarrow> bool" for wallet_step network prepare where
  screen_open: "screen_reach wallet_step network prepare open_claim_screen"
| screen_step: "screen_reach wallet_step network prepare s \<Longrightarrow> screen_offered wallet_step network e s \<Longrightarrow>
    screen_reach wallet_step network prepare (screen_apply network prepare e s)"

text \<open>A claim as the panel had shown it.\<close>

definition as_reviewed :: "jstr \<Rightarrow> (jstr \<times> jstr option) list \<Rightarrow> call \<Rightarrow> bool" where
  "as_reviewed network reviewed c = (case call_terms c of None \<Rightarrow> False
     | Some (dest, fee) \<Rightarrow> (dest, fee_label fee) \<in> set reviewed \<and> safe_terms network c)"

lemmas screen_ops = claim_review_def claim_back_def claim_confirm_def claim_answer_def Let_def

section \<open>What all such forms guarantee\<close>

text \<open>The contract between the screen and what it sends: the claim names the trimmed address and the fee of
  the fields.\<close>

locale claim_form =
  fixes prepare :: prepare
  assumes prepared_terms: "prepare address fee = Inr c \<Longrightarrow> call_terms c = Some (js_trim address, parse_fee_rate fee)"
begin

definition screen_inv :: "jstr \<Rightarrow> claim_screen \<Rightarrow> bool" where
  "screen_inv network s = (list_all (as_reviewed network (cs_reviewed s)) (cs_claims s)
     \<and> (cs_confirming s \<longrightarrow> panel_labels (cs_address s) (cs_fee s) \<in> set (cs_reviewed s))
     \<and> (cs_submitting s \<longrightarrow> cs_confirming s \<and> cs_result s = None)
     \<and> length (cs_claims s) = cs_answers s + (if cs_submitting s then 1 else 0))"

lemma prepared_reviewed:
  assumes "prepare a f = Inr c" "valid_addr a network" "fee_rate_valid f" "panel_labels a f \<in> set reviewed"
  shows "as_reviewed network reviewed c"
  using prepared_terms [OF assms(1)] accepted_terms [OF assms(2,3)] assms(4)
  by (simp add: as_reviewed_def safe_terms_def panel_labels_def)

lemma as_reviewed_mono: "as_reviewed network rs c \<Longrightarrow> as_reviewed network (rs @ qs) c"
  by (auto simp: as_reviewed_def split: option.splits)

lemma screen_inv_step:
  assumes "screen_inv network s" "screen_offered wallet_step network e s"
  shows "screen_inv network (screen_apply network prepare e s)"
proof (cases e)
  case Claim_Confirm
  show ?thesis
  proof (cases "claim_ready network s")
    case ready: True
    show ?thesis
    proof (cases "prepare (cs_address s) (cs_fee s)")
      case (Inr c)
      have "as_reviewed network (cs_reviewed s) c"
        using prepared_reviewed [OF Inr] ready assms Claim_Confirm by (simp add: screen_inv_def claim_ready_def)
      then show ?thesis using assms Claim_Confirm Inr ready by (simp add: screen_inv_def screen_ops)
    next
      case (Inl e)
      then show ?thesis using assms Claim_Confirm by (simp add: screen_inv_def screen_ops)
    qed
  next
    case False
    then show ?thesis using assms Claim_Confirm by (simp add: screen_inv_def screen_ops)
  qed
next
  case Claim_Review
  then show ?thesis using assms as_reviewed_mono by (auto simp: screen_inv_def screen_ops list_all_iff)
next
  case (Claim_Answer r)
  then show ?thesis using assms by (cases r) (simp_all add: screen_inv_def screen_ops)
qed (use assms in \<open>auto simp: screen_inv_def screen_ops\<close>)

lemma screen_inv_reach: "screen_reach wallet_step network prepare s \<Longrightarrow> screen_inv network s"
proof (induction rule: screen_reach.induct)
  case screen_open
  then show ?case by (simp add: screen_inv_def open_claim_screen_def)
next
  case screen_step
  then show ?case by (blast intro: screen_inv_step)
qed

lemma sends_reviewed:
  assumes "screen_reach wallet_step network prepare s" "c \<in> set (cs_claims s)"
  shows "as_reviewed network (cs_reviewed s) c"
  using screen_inv_reach [OF assms(1)] assms(2) by (simp add: screen_inv_def list_all_iff)

lemma one_at_a_time:
  assumes "screen_reach wallet_step network prepare s"
  shows "length (cs_claims s) = cs_answers s + (if cs_submitting s then 1 else 0)"
  using screen_inv_reach [OF assms] by (simp add: screen_inv_def)

end

lemma map_sum_Inr: "map_sum f g r = Inr b \<longleftrightarrow> (\<exists>x. r = Inr x \<and> b = g x)"
  by (cases r) auto

interpretation pw: claim_form "password_prepare C token sealed" for C token sealed
  by unfold_locales (auto simp: password_prepare_def map_sum_Inr claim_request_def)

interpretation dv: claim_form "derived_prepare C B token params" for C B token params
  by unfold_locales (auto simp: derived_prepare_def map_sum_Inr claim_request_def)

interpretation gd: claim_form "guardian_prepare C get_heir get_guardian h g" for C get_heir get_guardian h g
  by unfold_locales (auto simp: guardian_prepare_def and_then_Inr_iff)

text \<open>The screens send what the handlers of Claim_Flow send.\<close>

lemma password_prepare_sends:
  "fst (password_on_submit C send token sealed a f) =
     (if valid_addr a (shv_network sealed) \<and> fee_rate_valid f
      then (case password_prepare C token sealed a f of Inl _ \<Rightarrow> [] | Inr c \<Rightarrow> [c]) else [])"
  by (auto simp: password_on_submit_def password_prepare_def Let_def split: sum.splits)

lemma derived_prepare_sends:
  "fst (derived_on_submit C B send token params a f) =
     (if valid_addr a (hdp_network params) \<and> fee_rate_valid f
      then (case derived_prepare C B token params a f of Inl _ \<Rightarrow> [] | Inr c \<Rightarrow> [c]) else [])"
  by (auto simp: derived_on_submit_def derived_prepare_def Let_def split: sum.splits)

lemma guardian_prepare_sends:
  assumes "both_ready view token s" "valid_addr a (cw_network view)" "fee_rate_valid f"
    and "guardian_prepare C gsh gsg (the (heir_token view token s)) (the (guardian_token view token s)) a f = Inr c"
  shows "last (fst (guardian_on_submit C gsh gsg send view token s a f)) = c"
  using assms by (auto simp: guardian_on_submit_def guardian_prepare_def and_then_Inr_iff map_sum_Inr_iff Let_def)

text \<open>C6: However the heir uses a claim form - password, derived key or two links - every claim that leaves it
  names exactly the destination and fee rate a review panel had shown, both of which passed the checks for the
  vault's network; no claim is sent while another is unanswered.\<close>

theorem claim_sends_reviewed:
  "(screen_reach True (shv_network sealed) (password_prepare C token sealed) s \<longrightarrow>
      list_all (as_reviewed (shv_network sealed) (cs_reviewed s)) (cs_claims s))
   \<and> (screen_reach False (hdp_network params) (derived_prepare C B token params) s \<longrightarrow>
      list_all (as_reviewed (hdp_network params) (cs_reviewed s)) (cs_claims s))
   \<and> (screen_reach False (cw_network view) (guardian_prepare C gsh gsg h g) s \<longrightarrow>
      list_all (as_reviewed (cw_network view) (cs_reviewed s)) (cs_claims s))
   \<and> (screen_reach wallet_step network (password_prepare C token sealed) s
        \<or> screen_reach wallet_step network (derived_prepare C B token params) s
        \<or> screen_reach wallet_step network (guardian_prepare C gsh gsg h g) s \<longrightarrow>
      length (cs_claims s) = cs_answers s + (if cs_submitting s then 1 else 0))"
  using pw.sends_reviewed dv.sends_reviewed gd.sends_reviewed pw.one_at_a_time dv.one_at_a_time gd.one_at_a_time
  unfolding list_all_iff by meson

theorem claim_sends_reviewed_witness:
  "\<exists>s sealed c. screen_reach True (shv_network sealed)
       (password_prepare sample_crypto (b64encode (sai_claim_token sample_input)) sealed) s
     \<and> cs_claims s = [c] \<and> as_reviewed (shv_network sealed) (cs_reviewed s) c"
proof -
  obtain t where t: "seal_vault_secrets sample_crypto sample_draws sample_input = Inr t" by (rule sample_sealed)
  let ?tok = "b64encode (sai_claim_token sample_input)" and ?sealed = "sample_sealed_heir t"
  let ?P = "password_prepare sample_crypto ?tok ?sealed" and ?N = "shv_network (sample_sealed_heir t)"
  let ?s1 = "screen_apply ?N ?P (Pick_Wallet True) open_claim_screen"
  let ?s2 = "screen_apply ?N ?P (Type_Address sample_destination) ?s1"
  let ?s3 = "screen_apply ?N ?P (Type_Fee ''12'') ?s2"
  let ?s4 = "screen_apply ?N ?P Claim_Review ?s3"
  let ?s5 = "screen_apply ?N ?P Claim_Confirm ?s4"
  have net: "?N = ''regtest''" by (simp add: sample_sealed_heir_def)
  have ready: "claim_ready ''regtest'' ?s3" "claim_ready ''regtest'' ?s4"
    using sample_destination_valid sample_fee_valid by (simp_all add: claim_ready_def claim_review_def)
  note o = open_claim_screen_def screen_ops
  have "screen_reach True ?N ?P ?s1" by (rule screen_step [OF screen_open]) (simp add: o)
  then have "screen_reach True ?N ?P ?s2" by (rule screen_step) (simp add: o)
  then have "screen_reach True ?N ?P ?s3" by (rule screen_step) (simp add: o)
  then have "screen_reach True ?N ?P ?s4" by (rule screen_step) (use ready net in \<open>simp add: o\<close>)
  then have r: "screen_reach True ?N ?P ?s5" by (rule screen_step) (simp add: o)
  have faithful: "text_faithful sample_crypto (sai_heir_xprv sample_input)" by (simp add: sample_input_def sample_text)
  have "\<exists>x. unwrap_key sample_crypto ?tok (shv_heir_xprv_ct_b64 ?sealed) (shv_heir_xprv_nonce_b64 ?sealed) = Inr x"
    using unwrap_sealed_heir [OF sample_crypto_laws(1,3) faithful _ t]
    by (auto simp: sample_sealed_heir_def sample_draws_def)
  then obtain c where c: "?P sample_destination ''12'' = Inr c" by (auto simp: password_prepare_def)
  then have "cs_claims ?s5 = [c]" using ready net by (simp add: o)
  moreover have "list_all (as_reviewed ?N (cs_reviewed ?s5)) (cs_claims ?s5)"
    using claim_sends_reviewed [where sealed = ?sealed and C = sample_crypto and token = ?tok and s = ?s5] r by blast
  ultimately show ?thesis using r by (intro exI [of _ ?s5] exI [of _ ?sealed] exI [of _ c]) simp
qed

section \<open>The form for a wallet that signs itself\<close>

record psbt_build =
  bd_psbt :: jstr
  bd_total_input :: int
  bd_output :: int
  bd_fee :: int
  bd_network :: jstr

record manual_screen =
  ms_wallet :: "bool option"
  ms_address :: jstr
  ms_fee :: jstr
  ms_building :: bool
  ms_build :: "psbt_build option"
  ms_build_error :: "thrown option"
  ms_signed :: jstr
  ms_broadcasting :: bool
  ms_broadcast :: "broadcast_view option"
  ms_broadcast_error :: "thrown option"
  ms_calls :: "call list"

definition open_manual :: manual_screen where
  "open_manual = \<lparr>ms_wallet = None, ms_address = [], ms_fee = [], ms_building = False, ms_build = None,
     ms_build_error = None, ms_signed = [], ms_broadcasting = False, ms_broadcast = None,
     ms_broadcast_error = None, ms_calls = []\<rparr>"

definition manual_ready :: "jstr \<Rightarrow> manual_screen \<Rightarrow> bool" where
  "manual_ready network s = (valid_addr (ms_address s) network \<and> fee_rate_valid (ms_fee s))"

definition build_call :: "jstr \<Rightarrow> manual_screen \<Rightarrow> call" where
  "build_call token s = BuildClaimPsbt token \<lparr>bp_destination = js_trim (ms_address s), bp_fee_rate = parse_fee_rate (ms_fee s)\<rparr>"

definition manual_build :: "jstr \<Rightarrow> jstr \<Rightarrow> manual_screen \<Rightarrow> manual_screen" where
  "manual_build token network s =
     (if \<not> manual_ready network s then s
      else s\<lparr>ms_building := True, ms_build_error := None, ms_build := None, ms_calls := ms_calls s @ [build_call token s]\<rparr>)"

definition build_answer :: "(thrown, psbt_build) throws \<Rightarrow> manual_screen \<Rightarrow> manual_screen" where
  "build_answer reply s =
     (case reply of
        Inr b \<Rightarrow> s\<lparr>ms_build := Some b, ms_building := False\<rparr>
      | Inl e \<Rightarrow> s\<lparr>ms_build_error := Some e, ms_building := False\<rparr>)"

definition manual_broadcast :: "jstr \<Rightarrow> manual_screen \<Rightarrow> manual_screen" where
  "manual_broadcast token s =
     (if js_trim (ms_signed s) = [] then s
      else s\<lparr>ms_broadcasting := True, ms_broadcast_error := None, ms_broadcast := None,
             ms_calls := ms_calls s @ [BroadcastClaim token (js_trim (ms_signed s))]\<rparr>)"

definition broadcast_answer :: "(thrown, broadcast_view) throws \<Rightarrow> manual_screen \<Rightarrow> manual_screen" where
  "broadcast_answer reply s =
     (case reply of
        Inr r \<Rightarrow> s\<lparr>ms_broadcast := Some r, ms_broadcasting := False\<rparr>
      | Inl e \<Rightarrow> s\<lparr>ms_broadcast_error := Some e, ms_broadcasting := False\<rparr>)"

datatype manual_event =
    Manual_Wallet bool | Manual_Address jstr | Manual_Fee jstr | Manual_Build
  | Build_Answer "(thrown, psbt_build) throws" | Manual_Signed jstr | Manual_Broadcast
  | Broadcast_Answer "(thrown, broadcast_view) throws"

fun manual_offered :: "jstr \<Rightarrow> manual_event \<Rightarrow> manual_screen \<Rightarrow> bool" where
  "manual_offered network (Manual_Wallet b) s = True"
| "manual_offered network (Manual_Address t) s = (ms_wallet s \<noteq> None \<and> ms_build s = None \<and> \<not> ms_building s)"
| "manual_offered network (Manual_Fee t) s = (ms_wallet s \<noteq> None \<and> ms_build s = None \<and> \<not> ms_building s)"
| "manual_offered network Manual_Build s =
     (ms_wallet s \<noteq> None \<and> manual_ready network s \<and> \<not> ms_building s \<and> ms_build s = None)"
| "manual_offered network (Build_Answer r) s = ms_building s"
| "manual_offered network (Manual_Signed t) s = (ms_build s \<noteq> None \<and> ms_broadcast s = None \<and> \<not> ms_broadcasting s)"
| "manual_offered network Manual_Broadcast s =
     (ms_build s \<noteq> None \<and> ms_broadcast s = None \<and> js_trim (ms_signed s) \<noteq> [] \<and> \<not> ms_broadcasting s)"
| "manual_offered network (Broadcast_Answer r) s = ms_broadcasting s"

fun manual_apply :: "jstr \<Rightarrow> jstr \<Rightarrow> manual_event \<Rightarrow> manual_screen \<Rightarrow> manual_screen" where
  "manual_apply token network (Manual_Wallet b) s = s\<lparr>ms_wallet := Some b\<rparr>"
| "manual_apply token network (Manual_Address t) s = s\<lparr>ms_address := t\<rparr>"
| "manual_apply token network (Manual_Fee t) s = s\<lparr>ms_fee := t\<rparr>"
| "manual_apply token network Manual_Build s = manual_build token network s"
| "manual_apply token network (Build_Answer r) s = build_answer r s"
| "manual_apply token network (Manual_Signed t) s = s\<lparr>ms_signed := t\<rparr>"
| "manual_apply token network Manual_Broadcast s = manual_broadcast token s"
| "manual_apply token network (Broadcast_Answer r) s = broadcast_answer r s"

inductive manual_reach :: "jstr \<Rightarrow> jstr \<Rightarrow> manual_screen \<Rightarrow> bool" for token network where
  manual_open: "manual_reach token network open_manual"
| manual_step: "manual_reach token network s \<Longrightarrow> manual_offered network e s \<Longrightarrow>
    manual_reach token network (manual_apply token network e s)"

text \<open>The last transaction asked for.\<close>

definition last_build :: "call list \<Rightarrow> call option" where
  "last_build cs = find (\<lambda>c. call_terms c \<noteq> None) (rev cs)"

lemma last_build_simps [simp]:
  "last_build (cs @ [build_call t s]) = Some (build_call t s)" "last_build (cs @ [BroadcastClaim t x]) = last_build cs"
  by (simp_all add: last_build_def build_call_def)

definition manual_inv :: "jstr \<Rightarrow> jstr \<Rightarrow> manual_screen \<Rightarrow> bool" where
  "manual_inv token network s =
     ((ms_build s \<noteq> None \<or> ms_building s \<longrightarrow> manual_ready network s \<and> last_build (ms_calls s) = Some (build_call token s))
     \<and> (ms_building s \<longrightarrow> ms_build s = None)
     \<and> (ms_broadcasting s \<or> ms_broadcast s \<noteq> None \<longrightarrow> ms_build s \<noteq> None \<and> \<not> ms_building s))"

lemmas manual_ops = manual_build_def build_answer_def manual_broadcast_def broadcast_answer_def

lemma build_call_simps [simp]:
  "build_call t (s\<lparr>ms_wallet := w\<rparr>) = build_call t s" "build_call t (s\<lparr>ms_build := b\<rparr>) = build_call t s"
  "build_call t (s\<lparr>ms_signed := x\<rparr>) = build_call t s" "build_call t (s\<lparr>ms_building := f\<rparr>) = build_call t s"
  "build_call t (s\<lparr>ms_build_error := e\<rparr>) = build_call t s" "build_call t (s\<lparr>ms_calls := cs\<rparr>) = build_call t s"
  "build_call t (s\<lparr>ms_broadcasting := f\<rparr>) = build_call t s" "build_call t (s\<lparr>ms_broadcast := r\<rparr>) = build_call t s"
  "build_call t (s\<lparr>ms_broadcast_error := e\<rparr>) = build_call t s"
  by (simp_all add: build_call_def)

lemma manual_inv_step:
  "manual_inv token network s \<Longrightarrow> manual_offered network e s \<Longrightarrow> manual_inv token network (manual_apply token network e s)"
  by (cases e) (auto simp: manual_inv_def manual_ops manual_ready_def split: sum.splits)

lemma manual_inv_reach: "manual_reach token network s \<Longrightarrow> manual_inv token network s"
proof (induction rule: manual_reach.induct)
  case manual_open
  then show ?case by (simp add: manual_inv_def open_manual_def)
next
  case manual_step
  then show ?case by (blast intro: manual_inv_step)
qed

text \<open>The transaction the page shows for signing is the answer to a request for exactly the destination and
  fee rate still in the (locked) fields, which pass the checks of the vault's network, and nothing is broadcast
  without one.\<close>

theorem shown_transaction_is_for_fields:
  assumes "manual_reach token network s" "ms_build s = Some b"
  shows "last_build (ms_calls s) = Some (build_call token s) \<and> manual_ready network s
    \<and> \<not> manual_offered network (Manual_Address a) s \<and> \<not> manual_offered network (Manual_Fee f) s
    \<and> \<not> manual_offered network Manual_Build s"
  using manual_inv_reach [OF assms(1)] assms(2) by (simp add: manual_inv_def)

theorem shown_transaction_is_for_fields_witness:
  "\<exists>s. manual_reach ''t'' ''regtest'' s \<and> ms_build s \<noteq> None \<and> last_build (ms_calls s) = Some (build_call ''t'' s)"
proof -
  let ?a = "manual_apply ''t'' ''regtest''"
  let ?s1 = "?a (Manual_Wallet True) open_manual" let ?s2 = "?a (Manual_Address sample_destination) ?s1"
  let ?s3 = "?a Manual_Build ?s2"
  let ?s4 = "?a (Build_Answer (Inr \<lparr>bd_psbt = ''p'', bd_total_input = 2, bd_output = 1, bd_fee = 1, bd_network = ''regtest''\<rparr>)) ?s3"
  have f: "fee_rate_valid []" by (simp add: fee_rate_valid_def)
  note o = open_manual_def manual_ops manual_ready_def sample_destination_valid f
  have "manual_reach ''t'' ''regtest'' ?s1" by (rule manual_step [OF manual_open]) simp
  then have "manual_reach ''t'' ''regtest'' ?s2" by (rule manual_step) (simp add: o)
  then have "manual_reach ''t'' ''regtest'' ?s3" by (rule manual_step) (simp add: o)
  then have r: "manual_reach ''t'' ''regtest'' ?s4" by (rule manual_step) (simp add: o)
  moreover have b: "ms_build ?s4 = Some \<lparr>bd_psbt = ''p'', bd_total_input = 2, bd_output = 1, bd_fee = 1, bd_network = ''regtest''\<rparr>"
    by (simp add: o)
  ultimately show ?thesis using shown_transaction_is_for_fields [OF r b] by blast
qed

section \<open>The wallets the page names\<close>

record wallet_rec =
  wr_name :: jstr
  wr_blurb :: jstr
  wr_url :: jstr
  wr_note :: jstr

definition wallets_mainnet :: "wallet_rec list" where
  "wallets_mainnet =
     [\<lparr>wr_name = ''Blink'', wr_blurb = ''Free. Popular in Nigeria. Works without ID.'',
        wr_url = ''https://blink.sv/'',
        wr_note = ''Tap Receive -> Bitcoin -> copy the address.''\<rparr>,
      \<lparr>wr_name = ''Wallet of Satoshi'', wr_blurb = ''Free. Works on any phone. No setup.'',
        wr_url = ''https://www.walletofsatoshi.com/'',
        wr_note = ''Tap Receive -> On-chain -> copy the address.''\<rparr>,
      \<lparr>wr_name = ''Cake Wallet'', wr_blurb = ''Free. You hold your own keys.'',
        wr_url = ''https://cakewallet.com/'',
        wr_note = ''Tap the QR icon top-right -> copy the address.''\<rparr>,
      \<lparr>wr_name = ''Sparrow'', wr_blurb = ''Desktop. Power user. Hardware wallet support.'',
        wr_url = ''https://sparrowwallet.com/'',
        wr_note = ''File -> New Wallet -> Receive tab -> copy the address.''\<rparr>]"

definition wallets_test :: "wallet_rec list" where
  "wallets_test =
     [\<lparr>wr_name = ''Sparrow'', wr_blurb = ''Desktop. Switch network to Signet/Testnet at first launch.'',
        wr_url = ''https://sparrowwallet.com/'',
        wr_note = ''File -> New Wallet -> set Server type to Signet/Testnet -> Receive tab -> copy the address.''\<rparr>,
      \<lparr>wr_name = ''Mutiny Wallet'', wr_blurb = ''Web wallet. Built for signet. No install.'',
        wr_url = ''https://signet.mutinywallet.com/'',
        wr_note = ''Open the link -> Receive -> copy the tb1q... address.''\<rparr>,
      \<lparr>wr_name = ''BlueWallet'', wr_blurb = ''Mobile. Long-press the + button when adding to pick Testnet.'',
        wr_url = ''https://bluewallet.io/'',
        wr_note = ''Add wallet -> long-press Plus -> Testnet -> Receive -> copy the address.''\<rparr>]"

definition wallets_for :: "jstr \<Rightarrow> wallet_rec list" where
  "wallets_for network = (if network = ''bitcoin'' then wallets_mainnet else wallets_test)"

definition wallet_examples_inline :: "jstr \<Rightarrow> jstr" where
  "wallet_examples_inline network = join '', '' (map wr_name (wallets_for network))"

text \<open>The words under the success of a derived claim: the mnemonic, split at white space.\<close>

fun split_ws :: "jstr \<Rightarrow> jstr list" where
  "split_ws [] = [[]]"
| "split_ws (c # s) =
     (if js_ws c then [] # (case s of d # t \<Rightarrow> if js_ws d then tl (split_ws s) else split_ws s | [] \<Rightarrow> split_ws s)
      else (case split_ws s of [] \<Rightarrow> [[c]] | w # ws \<Rightarrow> (c # w) # ws))"

end
