(* ===== verification/Setup_Wizard.thy ===== *)
theory Setup_Wizard
  imports Claim_Flow Timing Calendar Gates
begin

text \<open>
  The password-vault wizard (ghostkey-web/src/PasswordSetupPortal.tsx): the draft, its validation, the
  three steps, and the creation of the vaults, with every key minted, every secret sealed, every request
  and every write to the device, in order. Random draws, the clock, the server's answers and the
  envelope builder (its own draws and its template) are arguments; the progress figures and the wiping
  of key bytes, which no result depends on, are left out.
\<close>

section \<open>The draft\<close>

record heir_draft =
  hd_name :: jstr
  hd_contact :: jstr
  hd_channel :: channel
  hd_note :: "jstr option"
  hd_own_key :: "bool option"
  hd_heir_xpub :: "jstr option"

record guardian_draft =
  gd_name :: jstr
  gd_contact :: jstr
  gd_channel :: channel

datatype vault_kind = Standard_Vault | Guardian_Vault

record setup_draft =
  sd_kind :: vault_kind
  sd_heirs :: "heir_draft list"
  sd_guardians :: "guardian_draft list"
  sd_unlock_year :: "rat option"
  sd_waiting_months :: nat
  sd_cadence_id :: jstr
  sd_grace_id :: jstr
  sd_demo_waiting_id :: jstr
  sd_owner_email :: jstr
  sd_owner_name :: jstr
  sd_password :: jstr
  sd_password_confirm :: jstr
  sd_saved_password :: bool
  sd_trusted_contact :: jstr
  sd_trusted_channel :: channel

definition max_heirs :: nat where "max_heirs = 5"

definition empty_heir :: heir_draft where
  "empty_heir = \<lparr>hd_name = [], hd_contact = [], hd_channel = Email, hd_note = None, hd_own_key = None, hd_heir_xpub = None\<rparr>"

definition empty_guardian :: guardian_draft where
  "empty_guardian = \<lparr>gd_name = [], gd_contact = [], gd_channel = Email\<rparr>"

definition empty_draft :: setup_draft where
  "empty_draft =
     \<lparr>sd_kind = Standard_Vault, sd_heirs = [empty_heir], sd_guardians = [empty_guardian, empty_guardian],
      sd_unlock_year = None, sd_waiting_months = 3, sd_cadence_id = default_cadence_id,
      sd_grace_id = default_grace_id, sd_demo_waiting_id = default_demo_waiting_id, sd_owner_email = [],
      sd_owner_name = [], sd_password = [], sd_password_confirm = [], sd_saved_password = False,
      sd_trusted_contact = [], sd_trusted_channel = Email\<rparr>"

section \<open>Extended public keys of heirs who hold their own\<close>

definition base58_char :: "char \<Rightarrow> bool" where
  "base58_char c = (in_range CHR ''1'' CHR ''9'' c \<or> in_range CHR ''A'' CHR ''H'' c \<or> in_range CHR ''J'' CHR ''N'' c
     \<or> in_range CHR ''P'' CHR ''Z'' c \<or> in_range CHR ''a'' CHR ''k'' c \<or> in_range CHR ''m'' CHR ''z'' c)"

definition rx_xpub :: rx where
  "rx_xpub = rseqs [RCls (\<lambda>c. c \<in> set ''xtvuyz''), rlit ''pub'', rmin 50 (RCls base58_char)]"

text \<open>\<open>t.replace(/^\[[^\]]+\]/, "")\<close>: the tag ends at the first closing bracket, and is not empty.\<close>

definition strip_origin :: "jstr \<Rightarrow> jstr" where
  "strip_origin t =
     (case index_of '']'' t of
        Some i \<Rightarrow> if starts_with t ''['' \<and> 2 \<le> i then drop (i + 1) t else t
      | None \<Rightarrow> t)"

definition looks_like_xpub :: "jstr \<Rightarrow> bool" where
  "looks_like_xpub s =
     (let t = js_trim s
      in if t = [] then False
         else test_full rx_xpub (if starts_with t ''['' then strip_origin t else t))"

definition hex_char :: "char \<Rightarrow> bool" where
  "hex_char c = (js_digit c \<or> in_range CHR ''a'' CHR ''f'' c \<or> in_range CHR ''A'' CHR ''F'' c)"

definition extract_fingerprint :: "jstr \<Rightarrow> jstr option" where
  "extract_fingerprint s =
     (let t = js_trim s; f = take 8 (drop 1 t)
      in if starts_with t ''['' \<and> length f = 8 \<and> list_all hex_char f \<and> starts_with (drop 9 t) ''/''
         then Some (js_lower f) else None)"

definition is_valid_heir_xpub :: "jstr option \<Rightarrow> bool" where
  "is_valid_heir_xpub s = (truthy s \<and> looks_like_xpub (the s) \<and> extract_fingerprint (the s) \<noteq> None)"

section \<open>Editing the draft\<close>

definition update_heir :: "nat \<Rightarrow> (heir_draft \<Rightarrow> heir_draft) \<Rightarrow> setup_draft \<Rightarrow> setup_draft" where
  "update_heir index p d =
     d\<lparr>sd_heirs := map (\<lambda>(i, h). if i = index then p h else h) (enumerate 0 (sd_heirs d))\<rparr>"

definition remove_heir :: "nat \<Rightarrow> setup_draft \<Rightarrow> setup_draft" where
  "remove_heir index d =
     (if length (sd_heirs d) \<le> 1 then d
      else d\<lparr>sd_heirs := map snd (filter (\<lambda>(i, h). i \<noteq> index) (enumerate 0 (sd_heirs d)))\<rparr>)"

definition add_heir :: "setup_draft \<Rightarrow> setup_draft" where
  "add_heir d = (if max_heirs \<le> length (sd_heirs d) then d else d\<lparr>sd_heirs := sd_heirs d @ [empty_heir]\<rparr>)"

definition update_guardian :: "nat \<Rightarrow> (guardian_draft \<Rightarrow> guardian_draft) \<Rightarrow> setup_draft \<Rightarrow> setup_draft" where
  "update_guardian index p d =
     d\<lparr>sd_guardians := map (\<lambda>(i, g). if i = index then p g else g) (enumerate 0 (sd_guardians d))\<rparr>"

definition set_vault_kind :: "vault_kind \<Rightarrow> setup_draft \<Rightarrow> setup_draft" where
  "set_vault_kind k d =
     (case k of
        Guardian_Vault \<Rightarrow>
          (let first = (case sd_heirs d of h # _ \<Rightarrow> h | [] \<Rightarrow> empty_heir)
           in d\<lparr>sd_kind := Guardian_Vault, sd_heirs := [first\<lparr>hd_own_key := Some False, hd_heir_xpub := None\<rparr>]\<rparr>)
      | Standard_Vault \<Rightarrow> d\<lparr>sd_kind := Standard_Vault\<rparr>)"

text \<open>What the answer of \<open>/health\<close> does to the draft: the presets follow the server's mode unless one
  was changed.\<close>

definition on_health_draft :: "bool \<Rightarrow> setup_draft \<Rightarrow> setup_draft" where
  "on_health_draft demo d =
     (if sd_cadence_id d \<noteq> default_cadence_id \<or> sd_grace_id d \<noteq> default_grace_id then d
      else d\<lparr>sd_cadence_id := default_cadence_id_for demo, sd_grace_id := default_grace_id_for demo\<rparr>)"

section \<open>The page's events\<close>

datatype heir_edit =
  Heir_Name jstr | Heir_Contact jstr | Heir_Channel channel | Heir_Own_Key bool | Heir_Xpub jstr | Heir_Note jstr

fun edit_heir :: "heir_edit \<Rightarrow> heir_draft \<Rightarrow> heir_draft" where
  "edit_heir (Heir_Name x) h = h\<lparr>hd_name := x\<rparr>"
| "edit_heir (Heir_Contact x) h = h\<lparr>hd_contact := x\<rparr>"
| "edit_heir (Heir_Channel c) h = h\<lparr>hd_channel := c\<rparr>"
| "edit_heir (Heir_Own_Key b) h = h\<lparr>hd_own_key := Some b\<rparr>"
| "edit_heir (Heir_Xpub x) h = h\<lparr>hd_heir_xpub := Some x\<rparr>"
| "edit_heir (Heir_Note x) h = h\<lparr>hd_note := Some x\<rparr>"

datatype guardian_edit = Guardian_Name jstr | Guardian_Contact jstr | Guardian_Channel channel

fun edit_guardian :: "guardian_edit \<Rightarrow> guardian_draft \<Rightarrow> guardian_draft" where
  "edit_guardian (Guardian_Name x) g = g\<lparr>gd_name := x\<rparr>"
| "edit_guardian (Guardian_Contact x) g = g\<lparr>gd_contact := x\<rparr>"
| "edit_guardian (Guardian_Channel c) g = g\<lparr>gd_channel := c\<rparr>"

datatype page_event =
    Heir_Edited nat heir_edit
  | Heir_Removed nat
  | Heir_Added
  | Guardian_Edited nat guardian_edit
  | Kind_Chosen vault_kind
  | Health_Answered bool
  | Unlock_Year_Chosen "rat option"
  | Waiting_Chosen nat
  | Cadence_Chosen jstr
  | Grace_Chosen jstr
  | Demo_Waiting_Chosen jstr
  | Owner_Email_Typed jstr
  | Owner_Name_Typed jstr
  | Password_Typed jstr
  | Confirm_Typed jstr
  | Saved_Ticked bool
  | Trusted_Typed jstr

text \<open>What the page offers: a guardian vault hides the own-key box, the removal and the addition of heirs;
  the guardian cards and the unlock year belong to it alone.\<close>

fun offered :: "page_event \<Rightarrow> setup_draft \<Rightarrow> bool" where
  "offered (Heir_Edited i (Heir_Own_Key b)) d = (sd_kind d \<noteq> Guardian_Vault)"
| "offered (Heir_Edited i (Heir_Xpub x)) d = (sd_kind d \<noteq> Guardian_Vault)"
| "offered (Heir_Removed i) d = (sd_kind d \<noteq> Guardian_Vault \<and> 1 < length (sd_heirs d))"
| "offered Heir_Added d = (sd_kind d \<noteq> Guardian_Vault \<and> length (sd_heirs d) < max_heirs)"
| "offered (Guardian_Edited i e) d = (sd_kind d = Guardian_Vault)"
| "offered (Unlock_Year_Chosen y) d = (sd_kind d = Guardian_Vault)"
| "offered _ d = True"

fun on_page_event :: "page_event \<Rightarrow> setup_draft \<Rightarrow> setup_draft" where
  "on_page_event (Heir_Edited i e) d = update_heir i (edit_heir e) d"
| "on_page_event (Heir_Removed i) d = remove_heir i d"
| "on_page_event Heir_Added d = add_heir d"
| "on_page_event (Guardian_Edited i e) d = update_guardian i (edit_guardian e) d"
| "on_page_event (Kind_Chosen k) d = set_vault_kind k d"
| "on_page_event (Health_Answered demo) d = on_health_draft demo d"
| "on_page_event (Unlock_Year_Chosen y) d = d\<lparr>sd_unlock_year := y\<rparr>"
| "on_page_event (Waiting_Chosen n) d = d\<lparr>sd_waiting_months := n\<rparr>"
| "on_page_event (Cadence_Chosen i) d = d\<lparr>sd_cadence_id := i\<rparr>"
| "on_page_event (Grace_Chosen i) d = d\<lparr>sd_grace_id := i\<rparr>"
| "on_page_event (Demo_Waiting_Chosen i) d = d\<lparr>sd_demo_waiting_id := i\<rparr>"
| "on_page_event (Owner_Email_Typed x) d = d\<lparr>sd_owner_email := x\<rparr>"
| "on_page_event (Owner_Name_Typed x) d = d\<lparr>sd_owner_name := x\<rparr>"
| "on_page_event (Password_Typed x) d = d\<lparr>sd_password := x\<rparr>"
| "on_page_event (Confirm_Typed x) d = d\<lparr>sd_password_confirm := x\<rparr>"
| "on_page_event (Saved_Ticked b) d = d\<lparr>sd_saved_password := b\<rparr>"
| "on_page_event (Trusted_Typed x) d = d\<lparr>sd_trusted_contact := x\<rparr>"

definition page_step :: "page_event \<Rightarrow> setup_draft \<Rightarrow> setup_draft" where
  "page_step e d = (if offered e d then on_page_event e d else d)"

section \<open>Validation\<close>

fun first_problem :: "(nat \<Rightarrow> 'h \<Rightarrow> jstr option) \<Rightarrow> nat \<Rightarrow> 'h list \<Rightarrow> jstr option" where
  "first_problem check i [] = None"
| "first_problem check i (h # hs) = nullish (check i h) (first_problem check (i + 1) hs)"

text \<open>\<open>cs.find((c, i) => cs.indexOf(c) !== i)\<close>: the first entry that occurred before.\<close>

fun first_repeat :: "jstr list \<Rightarrow> jstr list \<Rightarrow> jstr option" where
  "first_repeat seen [] = None"
| "first_repeat seen (c # cs) = (if c \<in> set seen then Some c else first_repeat (c # seen) cs)"

definition heir_problem :: "nat \<Rightarrow> nat \<Rightarrow> heir_draft \<Rightarrow> jstr option" where
  "heir_problem n i h =
     (let tag = (if n = 1 then [] else '' (heir #'' @ show_nat (i + 1) @ '')'')
      in if js_trim (hd_name h) = [] then Some (''Tell us who is inheriting'' @ tag @ ''.'')
         else if js_trim (hd_contact h) = []
         then Some (''Add a phone number or email so we can reach them'' @ tag @ ''.'')
         else if hd_channel h = Email \<and> \<not> email_shaped (js_trim (hd_contact h))
         then Some (''That email looks off'' @ tag @ ''. Double-check it.'')
         else None)"

definition guardian_problem :: "nat \<Rightarrow> guardian_draft \<Rightarrow> jstr option" where
  "guardian_problem i g =
     (let tag = '' (guardian #'' @ show_nat (i + 1) @ '')''
      in if js_trim (gd_name g) = [] then Some (''Tell us who the guardian is'' @ tag @ ''.'')
         else if js_trim (gd_contact g) = []
         then Some (''Add a phone number or email for the guardian'' @ tag @ ''.'')
         else if gd_channel g = Email \<and> \<not> email_shaped (js_trim (gd_contact g))
         then Some (''That guardian email looks off'' @ tag @ ''. Double-check it.'')
         else None)"

definition shared_heir_text :: "jstr \<Rightarrow> jstr" where
  "shared_heir_text c = ''Two heirs share the same contact ('' @ c @ ''). Each heir needs a different email or phone.''"

definition shared_party_text :: "jstr \<Rightarrow> jstr" where
  "shared_party_text c = ''Two people in this vault share the same contact ('' @ c
     @ ''). The heir and each guardian need a different email or phone.''"

definition heir_contacts :: "setup_draft \<Rightarrow> jstr list" where
  "heir_contacts d = map (\<lambda>h. js_lower (js_trim (hd_contact h))) (sd_heirs d)"

definition guardian_contacts :: "setup_draft \<Rightarrow> jstr list" where
  "guardian_contacts d = map (\<lambda>g. js_lower (js_trim (gd_contact g))) (sd_guardians d)"

text \<open>A text that is empty is no error.\<close>

definition repeated :: "(jstr \<Rightarrow> jstr) \<Rightarrow> jstr list \<Rightarrow> jstr option" where
  "repeated message cs =
     (case first_repeat [] cs of Some c \<Rightarrow> if c = [] then None else Some (message c) | None \<Rightarrow> None)"

definition heir_step_error :: "setup_draft \<Rightarrow> jstr option" where
  "heir_step_error d =
     (if sd_heirs d = [] then Some ''Add at least one heir.''
      else nullish (first_problem (heir_problem (length (sd_heirs d))) 0 (sd_heirs d))
          (nullish (repeated shared_heir_text (heir_contacts d))
            (if sd_kind d = Guardian_Vault
             then nullish (first_problem guardian_problem 0 (sd_guardians d))
                    (repeated shared_party_text (heir_contacts d @ guardian_contacts d))
             else None)))"

definition validate_step :: "strength_result option \<Rightarrow> setup_draft \<Rightarrow> nat \<Rightarrow> jstr option" where
  "validate_step strength d s =
     (if s = 0 then heir_step_error d
      else if s = 1
      then password_step_error \<lparr>psi_owner_email = sd_owner_email d, psi_password = sd_password d,
             psi_confirm = sd_password_confirm d, psi_saved = sd_saved_password d, psi_strength = strength\<rparr>
      else None)"

text \<open>\<open>next\<close> and \<open>back\<close>: the step and the shown error; \<open>created\<close> forbids going back.\<close>

definition next_step :: "strength_result option \<Rightarrow> setup_draft \<Rightarrow> nat \<Rightarrow> nat \<times> jstr option" where
  "next_step strength d s =
     (case validate_step strength d s of
        Some err \<Rightarrow> (s, Some err)
      | None \<Rightarrow> (min 2 (s + 1), None))"

definition back_step :: "bool \<Rightarrow> nat \<times> jstr option \<Rightarrow> nat \<times> jstr option" where
  "back_step created st = (if created then st else (fst st - 1, None))"

section \<open>What creation needs\<close>

record created_vault =
  nv_id :: jstr
  nv_label :: "jstr option"
  nv_status :: jstr
  nv_next_deadline_at :: jstr
  nv_owner_token :: jstr
  nv_descriptor_external :: "jstr option"
  nv_descriptor_internal :: "jstr option"

record vault_list_item =
  vl_id :: jstr
  vl_label :: "jstr option"
  vl_status :: jstr
  vl_next_deadline_at :: jstr

record recorded_clip =
  rc_bytes :: "(thrown, bytes) throws"
  rc_mime :: jstr
  rc_duration_ms :: rat

record created_entry =
  ce_vault_id :: jstr
  ce_heir_name :: jstr
  ce_address :: "jstr option"
  ce_envelope :: "heir_envelope option"

text \<open>The draws, by heir (or guardian) where there are several, and the clock at each save.\<close>

record wizard_draws =
  wd_owner_entropy :: bytes
  wd_heir_entropy :: "nat \<Rightarrow> bytes"
  wd_claim_token :: "nat \<Rightarrow> bytes"
  wd_guardian_entropy :: "nat \<Rightarrow> bytes"
  wd_guardian_token :: "nat \<Rightarrow> bytes"
  wd_guardian_nonce :: "nat \<Rightarrow> bytes"
  wd_group :: jstr
  wd_seal :: "nat \<Rightarrow> seal_draws"
  wd_reseal_nonce :: "nat \<Rightarrow> bytes"
  wd_video_nonce :: "nat \<Rightarrow> bytes"
  wd_now :: "nat \<Rightarrow> jstr"

text \<open>The server's answers at each heir, and the envelope builder (\<open>None\<close>: its random source ended).\<close>

record wizard_world =
  ww_create :: "nat \<Rightarrow> call \<Rightarrow> (thrown, created_vault) throws"
  ww_seal_token :: "nat \<Rightarrow> call \<Rightarrow> thrown option"
  ww_upload :: "nat \<Rightarrow> call \<Rightarrow> thrown option"
  ww_address :: "nat \<Rightarrow> call \<Rightarrow> (thrown, jstr) throws"
  ww_envelope :: "nat \<Rightarrow> heir_envelope_params \<Rightarrow> (jstr, heir_envelope) throws option"

text \<open>What all vaults of one run share.\<close>

record shared_setup =
  su_draft :: setup_draft
  su_network :: jstr
  su_owner :: generated_party
  su_terms :: setup_terms
  su_email_hash :: jstr
  su_group :: jstr
  su_clip :: "recorded_clip option"

text \<open>The progress of a run: the key of the last sealing pass, the device, the requests so far, the
  entries of the last page, the vaults the parent was told of, and whether a clip was lost.\<close>

record wizard_run =
  wr_kek :: "bytes option"
  wr_dev :: device
  wr_calls :: "call list"
  wr_entries :: "created_entry list"
  wr_notified :: "vault_list_item list"
  wr_video_failed :: bool

section \<open>Creating one vault\<close>

definition seal_input :: "shared_setup \<Rightarrow> generated_party \<Rightarrow> bytes \<Rightarrow> seal_all_input" where
  "seal_input su heir_party claim_token =
     \<lparr>sai_password = sd_password (su_draft su), sai_owner_xprv = kp_xprv (su_owner su),
      sai_heir_xprv = kp_xprv heir_party, sai_owner_token = placeholder_owner_token,
      sai_claim_token = claim_token, sai_keep_owner_kek = True\<rparr>"

text \<open>The sealed part of the request; an heir who holds their own key has no sealed key and no token.\<close>

definition sealed_body :: "sealed_vault_secrets \<Rightarrow> jstr \<Rightarrow> bool \<Rightarrow> bytes \<Rightarrow> sealed_setup" where
  "sealed_body s email_hash door_b claim_token =
     \<lparr>ss_password_salt_b64 = svs_password_salt s, ss_password_kdf_mem_kib = int (svs_mem_kib s),
      ss_password_kdf_iters = int (svs_iters s), ss_owner_xprv_ct_b64 = sb_ct (svs_owner_xprv s),
      ss_owner_xprv_nonce_b64 = sb_nonce (svs_owner_xprv s), ss_owner_token_ct_b64 = sb_ct (svs_owner_token s),
      ss_owner_token_nonce_b64 = sb_nonce (svs_owner_token s),
      ss_heir_xprv_ct_b64 = (if door_b then field.Absent else Given (sb_ct (svs_heir_xprv s))),
      ss_heir_xprv_nonce_b64 = (if door_b then field.Absent else Given (sb_nonce (svs_heir_xprv s))),
      ss_owner_email_hash = email_hash,
      ss_claim_token_b64 = (if door_b then field.Absent else Given (b64encode claim_token))\<rparr>"

definition door_b :: "heir_draft \<Rightarrow> bool" where
  "door_b h = (hd_own_key h = Some True \<and> is_valid_heir_xpub (hd_heir_xpub h))"

text \<open>\<open>x.trim() || null\<close>\<close>

definition text_or_null :: "jstr option \<Rightarrow> jstr field" where
  "text_or_null x = (if truthy (map_option js_trim x) then Given (js_trim (the x)) else Null)"

definition heir_contact_payload :: "heir_draft \<Rightarrow> jstr" where
  "heir_contact_payload h = json_stringify (JObj [(''name'', JStr (js_trim (hd_name h))),
     (''contact'', JStr (js_trim (hd_contact h))), (''channel'', JStr (channel_name (hd_channel h)))])"

definition party_of :: "generated_party \<Rightarrow> party_xpub" where
  "party_of p = \<lparr>px_xpub = kp_xpub p, px_fingerprint = Given (kp_fingerprint p)\<rparr>"

definition own_key_party :: "jstr \<Rightarrow> party_xpub" where
  "own_key_party xpub = \<lparr>px_xpub = js_trim xpub,
     px_fingerprint = (case extract_fingerprint xpub of Some f \<Rightarrow> Given f | None \<Rightarrow> field.Absent)\<rparr>"

definition vault_label :: "nat \<Rightarrow> heir_draft \<Rightarrow> jstr" where
  "vault_label n h = js_trim (hd_name h) @ [CHR 0x27] @ (if n = 1 then ''s inheritance'' else ''s share'')"

definition create_request :: "shared_setup \<Rightarrow> heir_draft \<Rightarrow> generated_party \<Rightarrow> bytes \<Rightarrow> sealed_vault_secrets
    \<Rightarrow> create_vault_from_xpub_request" where
  "create_request su h heir_party claim_token s =
     (let d = su_draft su; trusted = js_trim (sd_trusted_contact d)
      in \<lparr>cx_label = Some (vault_label (length (sd_heirs d)) h), cx_network = su_network su,
          cx_owner = party_of (su_owner su),
          cx_heir = (if door_b h then own_key_party (the (hd_heir_xpub h)) else party_of heir_party),
          cx_timelock_blocks = int (st_blocks (su_terms su)),
          cx_checkin_period_secs = int (st_checkin (su_terms su)),
          cx_grace_period_secs = int (st_grace (su_terms su)),
          cx_owner_contact = Given (js_trim (sd_owner_email d)), cx_owner_contact_channel = Given ''email'',
          cx_heir_contact = Given (heir_contact_payload h),
          cx_heir_contact_channel = Given (channel_name (hd_channel h)),
          cx_sealed = Given (sealed_body s (su_email_hash su) (door_b h) claim_token),
          cx_heir_derivation = Null,
          cx_trusted_contact = (if trusted = [] then Null else Given trusted),
          cx_trusted_contact_channel = (if trusted = [] then Null else Given (channel_name (sd_trusted_channel d))),
          cx_from_name = text_or_null (Some (sd_owner_name d)), cx_heir_note = text_or_null (hd_note h)\<rparr>)"

text \<open>The real owner token is known only from the answer; it is sealed under the same key and sent
  back. A failure is not fatal, and then no lock is kept.\<close>

definition reseal_real_token :: "('a crypto_scheme) \<Rightarrow> bytes \<Rightarrow> (call \<Rightarrow> thrown option) \<Rightarrow> bytes option
    \<Rightarrow> created_vault \<Rightarrow> call list \<times> sealed_blob option" where
  "reseal_real_token C nonce send kek resp =
     (case kek of
        None \<Rightarrow> ([], None)
      | Some k \<Rightarrow>
          (case seal_with_key C nonce k (utf8 (nv_owner_token resp)) of
             Inl _ \<Rightarrow> ([], None)
           | Inr b \<Rightarrow>
               (let c = SealOwnerToken (nv_id resp) (nv_owner_token resp) (sb_ct b) (sb_nonce b)
                in ([c], if send c = None then Some b else None))))"

definition round_half_up :: "rat \<Rightarrow> int" where
  "round_half_up x = \<lfloor>x + 1 / 2\<rfloor>"

text \<open>The owner's clip, under the claim token; the flag says that it was lost.\<close>

definition upload_clip :: "('a crypto_scheme) \<Rightarrow> 'n hdkey \<Rightarrow> bytes \<Rightarrow> (call \<Rightarrow> thrown option) \<Rightarrow> jstr \<Rightarrow> bytes
    \<Rightarrow> created_vault \<Rightarrow> recorded_clip option \<Rightarrow> call list \<times> bool" where
  "upload_clip C H nonce send owner_xprv claim_token resp clip =
     (case clip of
        None \<Rightarrow> ([], False)
      | Some c \<Rightarrow>
          (case and_then (rc_bytes c) (\<lambda>bytes. map_sum Js_Error (\<lambda>x. x) (prepare_video C H nonce owner_xprv claim_token bytes)) of
             Inl _ \<Rightarrow> ([], True)
           | Inr p \<Rightarrow>
               (let u = UploadVideo (nv_id resp) (nv_owner_token resp)
                      \<lparr>uv_ct = pv_ct_b64 p, uv_nonce = pv_nonce_b64 p, uv_mime = rc_mime c,
                       uv_duration_ms = Some (round_half_up (rc_duration_ms c)), uv_owner_sig = pv_sig_b64 p,
                       uv_signed_sha256 = pv_sha256_hex p\<rparr>
                in ([u], send u \<noteq> None))))"

definition wizard_lock :: "sealed_vault_secrets \<Rightarrow> jstr \<Rightarrow> sealed_blob \<Rightarrow> locked_owner_token" where
  "wizard_lock s email_hash b =
     \<lparr>lk_salt = svs_password_salt s, lk_mem_kib = int (svs_mem_kib s), lk_iters = int (svs_iters s),
      lk_blob = b, lk_email_hash = email_hash, lk_validated = Some True\<rparr>"

definition wizard_meta :: "shared_setup \<Rightarrow> heir_draft \<Rightarrow> jstr \<Rightarrow> jstr \<Rightarrow> created_vault \<Rightarrow> locked_owner_token option
    \<Rightarrow> vault_meta" where
  "wizard_meta su h label now resp lock =
     \<lparr>vm_id = nv_id resp, vm_label = label, vm_owner = \<lparr>oi_address = js_trim (sd_owner_email (su_draft su))\<rparr>,
      vm_heir = \<lparr>hi_name = js_trim (hd_name h),
                 hi_email = (if hd_channel h = Email then js_trim (hd_contact h) else []), hi_address = []\<rparr>,
      vm_created_at = now, vm_owner_token = Some (nv_owner_token resp), vm_lock = lock,
      vm_group_id = Some (su_group su)\<rparr>"

definition wizard_envelope :: "(heir_envelope_params \<Rightarrow> (jstr, heir_envelope) throws option) \<Rightarrow> shared_setup \<Rightarrow> heir_draft
    \<Rightarrow> jstr \<Rightarrow> generated_party \<Rightarrow> created_vault \<Rightarrow> heir_envelope option" where
  "wizard_envelope build su h label heir_party resp =
     (if truthy (nv_descriptor_external resp) \<and> truthy (nv_descriptor_internal resp) \<and> kp_xprv heir_party \<noteq> []
      then (case build \<lparr>he_vault_id = nv_id resp, he_label = Some (the_default label (nv_label resp)),
                        he_network = su_network su, he_timelock_blocks = int (st_blocks (su_terms su)),
                        he_descriptor_external = the (nv_descriptor_external resp),
                        he_descriptor_internal = the (nv_descriptor_internal resp),
                        he_heir_name = js_trim (hd_name h), he_heir_xprv = kp_xprv heir_party\<rparr> of
              Some (Inr env) \<Rightarrow> Some env
            | _ \<Rightarrow> None)
      else None)"

definition list_item :: "created_vault \<Rightarrow> vault_list_item" where
  "list_item r = \<lparr>vl_id = nv_id r, vl_label = nv_label r, vl_status = nv_status r,
     vl_next_deadline_at = nv_next_deadline_at r\<rparr>"

text \<open>What follows a creation request that was answered: the same for both kinds of vault, but a clip
  and an envelope are made only when the heir's key was minted here.\<close>

definition after_created :: "('a crypto_scheme) \<Rightarrow> 'n hdkey \<Rightarrow> wizard_draws \<Rightarrow> wizard_world \<Rightarrow> shared_setup \<Rightarrow> nat
    \<Rightarrow> heir_draft \<Rightarrow> jstr \<Rightarrow> generated_party \<Rightarrow> bytes \<Rightarrow> bool \<Rightarrow> sealed_vault_secrets \<Rightarrow> bytes option \<Rightarrow> call
    \<Rightarrow> created_vault \<Rightarrow> wizard_run \<Rightarrow> wizard_run" where
  "after_created C H D W su i h label heir_party claim_token minted s kek creation resp r =
     (case reseal_real_token C (wd_reseal_nonce D i) (ww_seal_token W i) kek resp of (seal_calls, blob) \<Rightarrow>
      case (if minted then upload_clip C H (wd_video_nonce D i) (ww_upload W i) (kp_xprv (su_owner su)) claim_token
                             resp (su_clip su) else ([], False)) of (clip_calls, lost) \<Rightarrow>
        (let meta = wizard_meta su h label (wd_now D i) resp
                      (map_option (wizard_lock s (hash_email_for_lookup C (sd_owner_email (su_draft su)))) blob);
             addr = GetVaultAddress (nv_id resp);
             address = (case ww_address W i addr of Inr a \<Rightarrow> Some a | Inl _ \<Rightarrow> None);
             envelope = (if minted then wizard_envelope (ww_envelope W i) su h label heir_party resp else None)
         in \<lparr>wr_kek = kek, wr_dev = save_vault_meta meta (wr_dev r),
             wr_calls = wr_calls r @ [creation] @ seal_calls @ clip_calls @ [addr],
             wr_entries = wr_entries r @ [\<lparr>ce_vault_id = nv_id resp, ce_heir_name = js_trim (hd_name h),
                                           ce_address = address, ce_envelope = envelope\<rparr>],
             wr_notified = wr_notified r @ [list_item resp],
             wr_video_failed = (wr_video_failed r \<or> lost)\<rparr>))"

text \<open>One pass of the loop over the heirs.\<close>

definition setup_one :: "('a crypto_scheme) \<Rightarrow> 'n hdkey \<Rightarrow> wizard_draws \<Rightarrow> wizard_world \<Rightarrow> shared_setup \<Rightarrow> nat
    \<Rightarrow> heir_draft \<Rightarrow> generated_party \<Rightarrow> bytes \<Rightarrow> wizard_run \<Rightarrow> wizard_run \<times> thrown option" where
  "setup_one C H D W su i h heir_party claim_token r =
     (case seal_vault_secrets C (wd_seal D i) (seal_input su heir_party claim_token) of
        Inl e \<Rightarrow> (r, Some (Js_Error e))
      | Inr s \<Rightarrow>
          (let kek = nullish (svs_owner_kek s) (wr_kek r);
               c = CreateVaultFromXpub (create_request su h heir_party claim_token s)
           in case ww_create W i c of
                Inl e \<Rightarrow> (r\<lparr>wr_kek := kek, wr_calls := wr_calls r @ [c]\<rparr>, Some e)
              | Inr resp \<Rightarrow>
                  (after_created C H D W su i h (vault_label (length (sd_heirs (su_draft su))) h) heir_party claim_token
                     (\<not> door_b h) s kek c resp r, None)))"

fun setup_loop :: "('a crypto_scheme) \<Rightarrow> 'n hdkey \<Rightarrow> wizard_draws \<Rightarrow> wizard_world \<Rightarrow> shared_setup \<Rightarrow> nat
    \<Rightarrow> (heir_draft \<times> generated_party \<times> bytes) list \<Rightarrow> wizard_run \<Rightarrow> wizard_run \<times> thrown option" where
  "setup_loop C H D W su i [] r = (r, None)"
| "setup_loop C H D W su i ((h, party, token) # hs) r =
     (case setup_one C H D W su i h party token r of
        (r', Some e) \<Rightarrow> (r', Some e)
      | (r', None) \<Rightarrow> setup_loop C H D W su (i + 1) hs r')"

text \<open>The heir keys, minted before the loop.\<close>

fun mint_parties :: "bip \<Rightarrow> (nat \<Rightarrow> bytes) \<Rightarrow> jstr \<Rightarrow> nat \<Rightarrow> nat \<Rightarrow> (jstr, generated_party list) throws" where
  "mint_parties B entropy network i 0 = Inr []"
| "mint_parties B entropy network i (Suc n) =
     and_then (generate_party B (entropy i) network) (\<lambda>p.
     and_then (mint_parties B entropy network (i + 1) n) (\<lambda>ps. Inr (p # ps)))"

section \<open>Guardian vaults\<close>

definition seal_guardian :: "('a crypto_scheme) \<Rightarrow> bytes \<Rightarrow> bytes \<Rightarrow> generated_party \<Rightarrow> guardian_draft
    \<Rightarrow> (jstr, guardian_party) throws" where
  "seal_guardian C nonce token party g =
     and_then (seal_with_key C nonce (derive_claim_kek C token) (utf8 (kp_xprv party))) (\<lambda>b.
     Inr \<lparr>gp_xpub = kp_xpub party, gp_fingerprint = Given (kp_fingerprint party), gp_xprv_ct_b64 = sb_ct b,
          gp_xprv_nonce_b64 = sb_nonce b, gp_claim_token_b64 = b64encode token,
          gp_contact = Given (js_trim (gd_contact g)),
          gp_contact_channel = Given (channel_name (gd_channel g))\<rparr>)"

fun seal_guardians :: "('a crypto_scheme) \<Rightarrow> bip \<Rightarrow> wizard_draws \<Rightarrow> jstr \<Rightarrow> nat \<Rightarrow> guardian_draft list
    \<Rightarrow> (jstr, guardian_party list) throws" where
  "seal_guardians C B D network i [] = Inr []"
| "seal_guardians C B D network i (g # gs) =
     and_then (generate_party B (wd_guardian_entropy D i) network) (\<lambda>party.
     and_then (seal_guardian C (wd_guardian_nonce D i) (wd_guardian_token D i) party g) (\<lambda>p.
     and_then (seal_guardians C B D network (i + 1) gs) (\<lambda>ps. Inr (p # ps))))"

text \<open>\<open>JSON.stringify\<close> writes a height that is not a number as null.\<close>

definition height_field :: "js_number option \<Rightarrow> int field" where
  "height_field h = (case h of Some (Num r) \<Rightarrow> Given \<lfloor>r\<rfloor> | _ \<Rightarrow> Null)"

definition guardian_request_of :: "bool \<Rightarrow> shared_setup \<Rightarrow> heir_draft \<Rightarrow> generated_party \<Rightarrow> bytes \<Rightarrow> sealed_vault_secrets
    \<Rightarrow> guardian_party list \<Rightarrow> create_vault_guardian_request" where
  "guardian_request_of demo su h heir_party htoken s gs =
     (let d = su_draft su
      in \<lparr>cg_label = Some (vault_label 1 h), cg_network = su_network su, cg_owner = party_of (su_owner su),
          cg_heir = party_of heir_party, cg_guardian1 = gs ! 0, cg_guardian2 = gs ! 1,
          cg_timelock_blocks = int (st_blocks (su_terms su)),
          cg_checkin_period_secs = int (st_checkin (su_terms su)),
          cg_grace_period_secs = int (st_grace (su_terms su)),
          cg_owner_contact = Given (js_trim (sd_owner_email d)), cg_owner_contact_channel = Given ''email'',
          cg_heir_contact = Given (heir_contact_payload h),
          cg_heir_contact_channel = Given (channel_name (hd_channel h)),
          cg_sealed = sealed_body s (su_email_hash su) False htoken,
          cg_from_name = text_or_null (Some (sd_owner_name d)), cg_heir_note = text_or_null (hd_note h),
          cg_unlock_height = (if demo then Null else height_field (unlock_year_to_height (sd_unlock_year d)))\<rparr>)"

definition setup_guardian_vault :: "('a crypto_scheme) \<Rightarrow> bip \<Rightarrow> 'n hdkey \<Rightarrow> wizard_draws \<Rightarrow> wizard_world \<Rightarrow> bool
    \<Rightarrow> shared_setup \<Rightarrow> generated_party \<Rightarrow> wizard_run \<Rightarrow> wizard_run \<times> thrown option" where
  "setup_guardian_vault C B H D W demo su heir_party r =
     (let h = hd (sd_heirs (su_draft su)); htoken = wd_claim_token D 0
      in case and_then (seal_vault_secrets C (wd_seal D 0) (seal_input su heir_party htoken)) (\<lambda>s.
              and_then (seal_guardians C B D (su_network su) 0 (sd_guardians (su_draft su))) (\<lambda>gs. Inr (s, gs))) of
           Inl e \<Rightarrow> (r, Some (Js_Error e))
         | Inr (s, gs) \<Rightarrow>
             (let c = CreateVaultGuardian (guardian_request_of demo su h heir_party htoken s gs)
              in case ww_create W 0 c of
                   Inl e \<Rightarrow> (r\<lparr>wr_calls := wr_calls r @ [c]\<rparr>, Some e)
                 | Inr resp \<Rightarrow>
                     (after_created C H D W su 0 h (vault_label 1 h) heir_party htoken True s (svs_owner_kek s) c
                        resp r, None)))"

section \<open>Creating the vaults\<close>

definition bad_heir_text :: "heir_draft \<Rightarrow> jstr" where
  "bad_heir_text h = or_str (js_trim (hd_name h)) ''Your heir'' @ '' is set to hold their own key, but the xpub is missing or isn''
     @ [CHR 0x27] @ ''t origin-tagged. Paste one that starts with [fingerprint/...].''"

definition email_taken_text :: jstr where
  "email_taken_text = ''You already have a vault for this email. Sign in and use Add Heir to add another.''"

text \<open>The result: the requests, the device, the shown error and whether the e-mail is taken, the created
  group (with which the wizard moves to its last page), the vaults the parent was told of, and whether a
  clip was lost.\<close>

record activation =
  ac_calls :: "call list"
  ac_dev :: device
  ac_error :: "jstr option"
  ac_email_taken :: bool
  ac_created :: "(jstr \<times> created_entry list) option"
  ac_notified :: "vault_list_item list"
  ac_video_failed :: bool

definition refused_activation :: "device \<Rightarrow> jstr \<Rightarrow> activation" where
  "refused_activation d err = \<lparr>ac_calls = [], ac_dev = d, ac_error = Some err, ac_email_taken = False,
     ac_created = None, ac_notified = [], ac_video_failed = False\<rparr>"

definition finish_activation :: "jstr \<Rightarrow> wizard_run \<times> thrown option \<Rightarrow> activation" where
  "finish_activation group_id res =
     (case res of (r, e) \<Rightarrow>
        \<lparr>ac_calls = wr_calls r, ac_dev = wr_dev r,
         ac_error = map_option (\<lambda>e. if thrown_status e = Some 409 then email_taken_text else raw_error_message e) e,
         ac_email_taken = (case e of Some x \<Rightarrow> thrown_status x = Some 409 | None \<Rightarrow> False),
         ac_created = (if e = None then Some (group_id, wr_entries r) else None),
         ac_notified = wr_notified r, ac_video_failed = wr_video_failed r\<rparr>)"

definition start_run :: "device \<Rightarrow> wizard_run" where
  "start_run d = \<lparr>wr_kek = None, wr_dev = d, wr_calls = [], wr_entries = [], wr_notified = [], wr_video_failed = False\<rparr>"

definition shared_of :: "('a crypto_scheme) \<Rightarrow> wizard_draws \<Rightarrow> setup_draft \<Rightarrow> bool \<Rightarrow> jstr \<Rightarrow> recorded_clip option
    \<Rightarrow> generated_party \<Rightarrow> shared_setup" where
  "shared_of C D d demo network clip owner =
     \<lparr>su_draft = d, su_network = network, su_owner = owner,
      su_terms = setup_terms_of demo (sd_cadence_id d) (sd_grace_id d) (sd_demo_waiting_id d) (sd_waiting_months d),
      su_email_hash = hash_email_for_lookup C (sd_owner_email d), su_group = wd_group D, su_clip = clip\<rparr>"

text \<open>The keys are minted, then the vaults created.\<close>

definition create_vaults :: "('a crypto_scheme) \<Rightarrow> bip \<Rightarrow> 'n hdkey \<Rightarrow> wizard_draws \<Rightarrow> wizard_world \<Rightarrow> bool \<Rightarrow> jstr
    \<Rightarrow> recorded_clip option \<Rightarrow> setup_draft \<Rightarrow> device \<Rightarrow> wizard_run \<times> thrown option" where
  "create_vaults C B H D W demo network clip d dev =
     (let n = (if sd_kind d = Guardian_Vault then 1 else length (sd_heirs d))
      in case and_then (generate_party B (wd_owner_entropy D) network) (\<lambda>owner.
              and_then (mint_parties B (wd_heir_entropy D) network 0 n) (\<lambda>ps. Inr (owner, ps))) of
           Inl e \<Rightarrow> (start_run dev, Some (Js_Error e))
         | Inr (owner, ps) \<Rightarrow>
             (let su = shared_of C D d demo network clip owner
              in if sd_kind d = Guardian_Vault
                 then setup_guardian_vault C B H D W demo su (hd ps) (start_run dev)
                 else setup_loop C H D W su 0 (zip (sd_heirs d) (zip ps (map (wd_claim_token D) [0..<n]))) (start_run dev)))"

definition find_bad_heir :: "setup_draft \<Rightarrow> heir_draft option" where
  "find_bad_heir d = find (\<lambda>h. hd_own_key h = Some True \<and> \<not> is_valid_heir_xpub (hd_heir_xpub h)) (sd_heirs d)"

definition activate :: "('a crypto_scheme) \<Rightarrow> bip \<Rightarrow> 'n hdkey \<Rightarrow> wizard_draws \<Rightarrow> wizard_world \<Rightarrow> bool \<Rightarrow> jstr
    \<Rightarrow> strength_result option \<Rightarrow> recorded_clip option \<Rightarrow> setup_draft \<Rightarrow> device \<Rightarrow> activation" where
  "activate C B H D W demo network strength clip d dev =
     (case nullish (validate_step strength d 0) (validate_step strength d 1) of
        Some err \<Rightarrow> refused_activation dev err
      | None \<Rightarrow>
          (case find_bad_heir d of
             Some h \<Rightarrow> refused_activation dev (bad_heir_text h)
           | None \<Rightarrow> finish_activation (wd_group D) (create_vaults C B H D W demo network clip d dev)))"

section \<open>Locks that open\<close>

lemma seal_gives_kek:
  assumes "seal_vault_secrets C d i = Inr s" "sai_keep_owner_kek i"
  obtains k where "svs_owner_kek s = Some k" "derive_owner_kek C (sai_password i) (d_salt d) None None = Inr k"
    "svs_password_salt s = b64encode (d_salt d)" "svs_mem_kib s = argon_mem_kib" "svs_iters s = argon_iters"
  using assms by (auto simp: seal_vault_secrets_def Let_def and_then_Inr_iff)

lemma lock_opens:
  assumes "aead_correct C" "text_faithful C token" "length nonce = 24"
    and "seal_vault_secrets C d i = Inr s" "sai_keep_owner_kek i" "svs_owner_kek s = Some k"
    and "seal_with_key C nonce k (utf8 token) = Inr b"
  shows "unseal_owner_token C (sai_password i) (svs_password_salt s) (svs_mem_kib s) (svs_iters s) b = Inr token"
proof -
  obtain k' where k': "svs_owner_kek s = Some k'" "derive_owner_kek C (sai_password i) (d_salt d) None None = Inr k'"
    "svs_password_salt s = b64encode (d_salt d)" "svs_mem_kib s = argon_mem_kib" "svs_iters s = argon_iters"
    by (rule seal_gives_kek [OF assms(4,5)])
  then have "k' = k" using assms(6) by simp
  with k' open_seal [OF assms(1,3,7)] assms(2) show ?thesis
    by (simp add: unseal_owner_token_def derive_defaults text_faithful_def)
qed

lemma reseal_blob:
  assumes "reseal_real_token C nonce send kek resp = (calls, Some b)"
  obtains k where "kek = Some k" "seal_with_key C nonce k (utf8 (nv_owner_token resp)) = Inr b"
    "send (SealOwnerToken (nv_id resp) (nv_owner_token resp) (sb_ct b) (sb_nonce b)) = None"
  using assms by (auto simp: reseal_real_token_def Let_def split: option.splits sum.splits if_splits)

section \<open>Sample primitives\<close>

definition wizard_bip :: bip where
  "wizard_bip = \<lparr>entropy_to_mnemonic = (\<lambda>e. ''abandon''), mnemonic_to_seed = utf8,
     hd_fingerprint = (\<lambda>s v. FpNumber 0xABC),
     hd_derive = (\<lambda>s v p. Inr \<lparr>ak_private = Some ''xprv'', ak_public = ''xpub''\<rparr>)\<rparr>"

definition wizard_hdkey :: "nat hdkey" where
  "wizard_hdkey = \<lparr>hd_from_extended = (\<lambda>s. Inr 0), hd_has_private = (\<lambda>n. True), hd_sign = (\<lambda>n m. m),
     hd_verify = (\<lambda>n m s. Inr (m = s))\<rparr>"

definition sample_created :: created_vault where
  "sample_created = \<lparr>nv_id = ''v1'', nv_label = None, nv_status = ''unfunded'', nv_next_deadline_at = [],
     nv_owner_token = ''tok'', nv_descriptor_external = None, nv_descriptor_internal = None\<rparr>"

definition wizard_party :: generated_party where
  "wizard_party = \<lparr>kp_xprv = ''xprv'', kp_xpub = ''xpub'', kp_fingerprint = take 8 (fingerprint_hex (FpNumber 0xABC)),
     kp_path = account_path ''regtest''\<rparr>"

lemma wizard_generates: "generate_party wizard_bip x ''regtest'' = Inr wizard_party"
  by (simp add: generate_party_def wizard_bip_def wizard_party_def Let_def)

lemma sample_seals_all:
  obtains s where "seal_vault_secrets sample_crypto sample_draws i = Inr s"
proof -
  obtain kek where kek: "derive_owner_kek sample_crypto (sai_password i) (replicate 16 7) None None = Inr kek"
    by (simp add: derive_owner_kek_def sample_crypto_def Let_def)
  then have "length kek = 32" using derive_owner_kek_len sample_crypto_laws(3) by blast
  then show thesis
    using kek derive_claim_kek_len [OF sample_crypto_laws(3)] that
    by (simp add: seal_vault_secrets_def sample_draws_def seal_with_key_def kek_len_def Let_def)
qed

end
