(* ===== verification/Wizard_Correct.thy ===== *)
theory Wizard_Correct
  imports Setup_Wizard
begin

text \<open>
  What the setup wizard guarantees: the draft stays in the shape the page offers, nothing is sent unless
  the draft is valid, every creation request can be claimed by the people it names and nobody else's key
  is stored, and every vault that was created is on the device with a lock the password opens.
\<close>

section \<open>What is left on the device\<close>

text \<open>The entry the wizard leaves on the device for a created vault: it belongs to the group; without a
  lock it holds the token the server issued; with one, the lock is validated, is filed under the
  owner's e-mail, opens with the password to that token, and the token itself is not on disk.\<close>

definition wizard_saved :: "('a crypto_scheme) \<Rightarrow> shared_setup \<Rightarrow> created_vault \<Rightarrow> vault_meta \<Rightarrow> bool" where
  "wizard_saved C su resp m =
     (vm_id m = nv_id resp \<and> vm_group_id m = Some (su_group su)
      \<and> owner_address m = js_trim (sd_owner_email (su_draft su))
      \<and> (case vm_lock m of
           None \<Rightarrow> vm_owner_token m = Some (nv_owner_token resp)
         | Some lk \<Rightarrow> lk_validated lk = Some True \<and> \<not> truthy (vm_owner_token m)
             \<and> lk_email_hash lk = hash_email_for_lookup C (sd_owner_email (su_draft su))
             \<and> unseal_owner_token C (sd_password (su_draft su)) (lk_salt lk) (nat (lk_mem_kib lk)) (nat (lk_iters lk))
                 (lk_blob lk) = Inr (nv_owner_token resp)))"

text \<open>What the laws of the primitives and the sizes of the draws have to be.\<close>

definition wizard_sound :: "('a crypto_scheme) \<Rightarrow> wizard_draws \<Rightarrow> wizard_world \<Rightarrow> bool" where
  "wizard_sound C D W \<longleftrightarrow> aead_correct C \<and> hkdf_sized C
     \<and> (\<forall>i. length (wd_reseal_nonce D i) = 24 \<and> length (d_nonce3 (wd_seal D i)) = 24 \<and> length (wd_guardian_nonce D i) = 24)
     \<and> (\<forall>i c resp. ww_create W i c = Inr resp \<longrightarrow> text_faithful C (nv_owner_token resp) \<and> nv_owner_token resp \<noteq> [])"

lemma after_created_dev:
  "\<exists>blob. (\<exists>calls. reseal_real_token C (wd_reseal_nonce D i) (ww_seal_token W i) kek resp = (calls, blob))
     \<and> wr_dev (after_created C H D W su i h label party token minted s kek c resp r)
       = save_vault_meta (wizard_meta su h label (wd_now D i) resp
           (map_option (wizard_lock s (hash_email_for_lookup C (sd_owner_email (su_draft su)))) blob)) (wr_dev r)"
  by (auto simp: after_created_def Let_def split: prod.split)

lemma after_created_fields [simp]:
  "wr_notified (after_created C H D W su i h label party token minted s kek c resp r) = wr_notified r @ [list_item resp]"
  "map ce_vault_id (wr_entries (after_created C H D W su i h label party token minted s kek c resp r))
     = map ce_vault_id (wr_entries r) @ [nv_id resp]"
  "map ce_heir_name (wr_entries (after_created C H D W su i h label party token minted s kek c resp r))
     = map ce_heir_name (wr_entries r) @ [js_trim (hd_name h)]"
  by (simp_all add: after_created_def Let_def split: prod.split)

lemma after_created_saved:
  fixes C :: "'a crypto_scheme" and H :: "'n hdkey" and i :: nat and h :: heir_draft and label :: jstr and minted :: bool
    and su :: shared_setup and r :: wizard_run and resp :: created_vault and kek :: "bytes option" and c :: call
  assumes "wizard_sound C D W" "store_good (wr_dev r)" "ww_create W j0 c0 = Inr resp"
    and "seal_vault_secrets C (wd_seal D j) (seal_input su party token) = Inr s" "kek = svs_owner_kek s"
  defines "d' \<equiv> wr_dev (after_created C H D W su i h label party token minted s kek c resp r)"
  shows "store_good d'"
    and "\<exists>m. get_vault_meta (nv_id resp) d' = Some m \<and> wizard_saved C su resp m"
    and "l \<noteq> nv_id resp \<Longrightarrow> get_vault_meta l d' = get_vault_meta l (wr_dev r)"
proof -
  obtain blob calls where b: "reseal_real_token C (wd_reseal_nonce D i) (ww_seal_token W i) kek resp = (calls, blob)"
    and d': "d' = save_vault_meta (wizard_meta su h label (wd_now D i) resp
           (map_option (wizard_lock s (hash_email_for_lookup C (sd_owner_email (su_draft su)))) blob)) (wr_dev r)"
    unfolding d'_def using after_created_dev by blast
  let ?m = "wizard_meta su h label (wd_now D i) resp
           (map_option (wizard_lock s (hash_email_for_lookup C (sd_owner_email (su_draft su)))) blob)"
  note e = save_effect [OF assms(2), where meta = ?m]
  have id: "vm_id ?m = nv_id resp" by (simp add: wizard_meta_def)
  show "store_good d'" unfolding d' by (rule e(1))
  show "l \<noteq> nv_id resp \<Longrightarrow> get_vault_meta l d' = get_vault_meta l (wr_dev r)" unfolding d' using e(4) id by simp
  have t: "text_faithful C (nv_owner_token resp)" "nv_owner_token resp \<noteq> []"
    using assms(1,3) by (auto simp: wizard_sound_def)
  have n: "aead_correct C" "length (wd_reseal_nonce D i) = 24" using assms(1) by (auto simp: wizard_sound_def)
  show "\<exists>m. get_vault_meta (nv_id resp) d' = Some m \<and> wizard_saved C su resp m"
  proof (cases blob)
    case None
    then show ?thesis using e(2) id t(2) unfolding d'
      by (auto simp: wizard_saved_def wizard_meta_def owner_address_def)
  next
    case (Some bl)
    then obtain k where k: "kek = Some k" "seal_with_key C (wd_reseal_nonce D i) k (utf8 (nv_owner_token resp)) = Inr bl"
      using b reseal_blob by blast
    have keep: "sai_keep_owner_kek (seal_input su party token)" by (simp add: seal_input_def)
    from lock_opens [OF n(1) t(1) n(2) assms(4) keep _ k(2)] k(1) assms(5)
    have o: "unseal_owner_token C (sd_password (su_draft su)) (svs_password_salt s) (svs_mem_kib s) (svs_iters s) bl
        = Inr (nv_owner_token resp)" by (simp add: seal_input_def)
    have "get_vault_meta (nv_id resp) d' = Some (?m\<lparr>vm_owner_token := None\<rparr>)"
      using e(2) id t(2) Some unfolding d' by (simp add: wizard_meta_def wizard_lock_def)
    with o Some show ?thesis by (simp add: wizard_saved_def wizard_meta_def wizard_lock_def owner_address_def)
  qed
qed

section \<open>Runs\<close>

text \<open>From one state of a run to a later one, \<open>resps\<close> being the vaults created in between.\<close>

definition saved_run :: "('a crypto_scheme) \<Rightarrow> wizard_world \<Rightarrow> shared_setup \<Rightarrow> wizard_run \<Rightarrow> wizard_run
    \<Rightarrow> created_vault list \<Rightarrow> bool" where
  "saved_run C W su r r' resps \<longleftrightarrow> store_good (wr_dev r')
     \<and> wr_notified r' = wr_notified r @ map list_item resps
     \<and> map ce_vault_id (wr_entries r') = map ce_vault_id (wr_entries r) @ map nv_id resps
     \<and> (\<forall>l. l \<notin> nv_id ` set resps \<longrightarrow> get_vault_meta l (wr_dev r') = get_vault_meta l (wr_dev r))
     \<and> (\<forall>l\<in>nv_id ` set resps. \<exists>m. \<exists>resp\<in>set resps. nv_id resp = l
          \<and> get_vault_meta l (wr_dev r') = Some m \<and> wizard_saved C su resp m)
     \<and> (\<forall>resp\<in>set resps. \<exists>j c. ww_create W j c = Inr resp)"

lemma saved_run_refl:
  "store_good (wr_dev r) \<Longrightarrow> wr_dev r' = wr_dev r \<Longrightarrow> wr_notified r' = wr_notified r \<Longrightarrow> wr_entries r' = wr_entries r
     \<Longrightarrow> saved_run C W su r r' []"
  by (simp add: saved_run_def)

lemma saved_run_trans:
  assumes "saved_run C W su r r1 a" "saved_run C W su r1 r2 b"
  shows "saved_run C W su r r2 (a @ b)"
proof -
  have "\<exists>m. \<exists>resp\<in>set (a @ b). nv_id resp = l \<and> get_vault_meta l (wr_dev r2) = Some m \<and> wizard_saved C su resp m"
    if "l \<in> nv_id ` set (a @ b)" for l
  proof (cases "l \<in> nv_id ` set b")
    case True
    then obtain m resp where "resp \<in> set b" "nv_id resp = l" "get_vault_meta l (wr_dev r2) = Some m" "wizard_saved C su resp m"
      using assms(2) unfolding saved_run_def by blast
    then show ?thesis by auto
  next
    case False
    then have "l \<in> nv_id ` set a" "get_vault_meta l (wr_dev r2) = get_vault_meta l (wr_dev r1)"
      using that assms(2) unfolding saved_run_def by auto
    moreover obtain m resp where "resp \<in> set a" "nv_id resp = l" "get_vault_meta l (wr_dev r1) = Some m" "wizard_saved C su resp m"
      using calculation(1) assms(1) unfolding saved_run_def by blast
    ultimately show ?thesis by auto
  qed
  with assms show ?thesis unfolding saved_run_def by (auto simp: image_Un)
qed

lemma saved_one:
  fixes C :: "'a crypto_scheme" and H :: "'n hdkey" and r :: wizard_run and su :: shared_setup and resp :: created_vault
    and kek :: "bytes option"
  assumes "wizard_sound C D W" "store_good (wr_dev r)" "ww_create W j0 c0 = Inr resp"
    and "seal_vault_secrets C (wd_seal D j) (seal_input su party token) = Inr s" "kek = svs_owner_kek s"
  shows "saved_run C W su r (after_created C H D W su i h label party token minted s kek c resp r) [resp]"
proof -
  note e = after_created_saved [OF assms, where H = H and i = i and h = h and label = label and minted = minted and c = c]
  show ?thesis unfolding saved_run_def using e assms(3) by auto
qed

lemma seal_keeps_kek:
  "seal_vault_secrets C d (seal_input su party token) = Inr s \<Longrightarrow> nullish (svs_owner_kek s) k = svs_owner_kek s"
  by (erule seal_gives_kek) (simp_all add: seal_input_def)

lemma setup_one_ok:
  assumes "setup_one C H D W su i h party token r = (r', None)"
  obtains s resp c where "seal_vault_secrets C (wd_seal D i) (seal_input su party token) = Inr s"
    "c = CreateVaultFromXpub (create_request su h party token s)" "ww_create W i c = Inr resp"
    "r' = after_created C H D W su i h (vault_label (length (sd_heirs (su_draft su))) h) party token (\<not> door_b h) s
            (svs_owner_kek s) c resp r"
  using assms by (auto simp: setup_one_def Let_def seal_keeps_kek split: sum.splits)

lemma setup_one_error:
  "setup_one C H D W su i h party token r = (r', Some e) \<Longrightarrow>
     wr_dev r' = wr_dev r \<and> wr_notified r' = wr_notified r \<and> wr_entries r' = wr_entries r"
  by (auto simp: setup_one_def Let_def split: sum.splits)

lemma setup_loop_saved:
  fixes C :: "'a crypto_scheme" and H :: "'n hdkey"
  assumes "wizard_sound C D W" "store_good (wr_dev r)" "setup_loop C H D W su i xs r = (r', e)"
  shows "\<exists>resps. saved_run C W su r r' resps
     \<and> map ce_heir_name (wr_entries r') = map ce_heir_name (wr_entries r)
         @ map (\<lambda>x. js_trim (hd_name (fst x))) (take (length resps) xs)
     \<and> length resps \<le> length xs \<and> (e = None \<longleftrightarrow> length resps = length xs)"
  using assms(2,3)
proof (induction xs arbitrary: i r)
  case Nil
  then show ?case by (intro exI [of _ "[]"]) (auto intro: saved_run_refl)
next
  case (Cons x hs)
  obtain h party token where x: "x = (h, party, token)" by (cases x)
  obtain r1 e1 where one: "setup_one C H D W su i h party token r = (r1, e1)" by fastforce
  show ?case
  proof (cases e1)
    case (Some y)
    with setup_one_error [OF one [unfolded Some]] one x Cons.prems show ?thesis
      by (intro exI [of _ "[]"]) (auto intro: saved_run_refl)
  next
    case None
    with one obtain s resp c where s: "seal_vault_secrets C (wd_seal D i) (seal_input su party token) = Inr s"
      "ww_create W i c = Inr resp"
      "r1 = after_created C H D W su i h (vault_label (length (sd_heirs (su_draft su))) h) party token (\<not> door_b h) s
            (svs_owner_kek s) c resp r"
      using setup_one_ok by metis
    have sr: "saved_run C W su r r1 [resp]" unfolding s(3)
      by (rule saved_one [OF assms(1) Cons.prems(1) s(2) s(1) refl])
    then have g: "store_good (wr_dev r1)" by (simp add: saved_run_def)
    have "setup_loop C H D W su (i + 1) hs r1 = (r', e)" using Cons.prems(2) x one None by simp
    from Cons.IH [OF g this] obtain resps where ih: "saved_run C W su r1 r' resps"
      "map ce_heir_name (wr_entries r') = map ce_heir_name (wr_entries r1)
         @ map (\<lambda>x. js_trim (hd_name (fst x))) (take (length resps) hs)"
      "length resps \<le> length hs" "(e = None) = (length resps = length hs)" by blast
    show ?thesis
      using saved_run_trans [OF sr ih(1)] ih(2-4) x s(3)
      by (intro exI [of _ "resp # resps"]) simp
  qed
qed

section \<open>The whole creation\<close>

lemma mint_parties_length: "mint_parties B entropy net i n = Inr ps \<Longrightarrow> length ps = n"
  by (induction n arbitrary: i ps) (auto simp: and_then_Inr_iff)

text \<open>The heirs whose vaults a run creates: one for a guardian vault, all of them otherwise.\<close>

definition setup_heirs :: "setup_draft \<Rightarrow> heir_draft list" where
  "setup_heirs d = (if sd_kind d = Guardian_Vault then [hd (sd_heirs d)] else sd_heirs d)"

lemma setup_guardian_saved:
  fixes C :: "'a crypto_scheme" and H :: "'n hdkey"
  assumes "wizard_sound C D W" "store_good (wr_dev r)"
    and "setup_guardian_vault C B H D W demo su party r = (r', e)"
  shows "\<exists>resps. saved_run C W su r r' resps
     \<and> map ce_heir_name (wr_entries r') = map ce_heir_name (wr_entries r)
         @ map (\<lambda>h. js_trim (hd_name h)) (take (length resps) [hd (sd_heirs (su_draft su))])
     \<and> length resps \<le> 1 \<and> (e = None \<longleftrightarrow> length resps = 1)"
proof -
  consider (stop) x where "e = Some x" "wr_dev r' = wr_dev r" "wr_notified r' = wr_notified r" "wr_entries r' = wr_entries r"
    | (made) s resp c where "e = None" "seal_vault_secrets C (wd_seal D 0) (seal_input su party (wd_claim_token D 0)) = Inr s"
        "ww_create W 0 c = Inr resp"
        "r' = after_created C H D W su 0 (hd (sd_heirs (su_draft su))) (vault_label 1 (hd (sd_heirs (su_draft su)))) party
                (wd_claim_token D 0) True s (svs_owner_kek s) c resp r"
    using assms(3) by (auto simp: setup_guardian_vault_def Let_def and_then_Inr_iff split: sum.splits prod.splits)
  then show ?thesis
  proof cases
    case stop
    then show ?thesis using assms(2) by (intro exI [of _ "[]"]) (auto intro: saved_run_refl)
  next
    case made
    have "saved_run C W su r r' [resp]" unfolding made(4)
      by (rule saved_one [OF assms(1,2) made(3,2) refl])
    then show ?thesis using made by (intro exI [of _ "[resp]"]) simp
  qed
qed

lemma zip3_map: "length ps = length hs \<Longrightarrow> length ts = length hs \<Longrightarrow>
    map (\<lambda>x. f (fst x)) (take k (zip hs (zip ps ts))) = map f (take k hs)"
  by (rule nth_equalityI) simp_all

lemma create_vaults_saved:
  fixes C :: "'a crypto_scheme" and H :: "'n hdkey"
  assumes "wizard_sound C D W" "store_good dev" "create_vaults C B H D W demo net clip d dev = (r', e)" "sd_heirs d \<noteq> []"
  shows "\<exists>su resps. su_draft su = d \<and> su_group su = wd_group D \<and> saved_run C W su (start_run dev) r' resps
     \<and> map ce_heir_name (wr_entries r') = map (\<lambda>h. js_trim (hd_name h)) (take (length resps) (setup_heirs d))
     \<and> length resps \<le> length (setup_heirs d) \<and> (e = None \<longleftrightarrow> length resps = length (setup_heirs d))"
proof -
  let ?n = "if sd_kind d = Guardian_Vault then 1 else length (sd_heirs d)"
  let ?k = "and_then (generate_party B (wd_owner_entropy D) net) (\<lambda>owner.
              and_then (mint_parties B (wd_heir_entropy D) net 0 ?n) (\<lambda>ps. Inr (owner, ps)))"
  let ?su = "shared_of C D d demo net clip"
  have g: "store_good (wr_dev (start_run dev))" using assms(2) by (simp add: start_run_def)
  have su: "su_draft (?su owner) = d" "su_group (?su owner) = wd_group D" for owner by (simp_all add: shared_of_def)
  have n0: "wr_entries (start_run dev) = []" by (simp add: start_run_def)
  show ?thesis
  proof (cases ?k)
    case (Inl x)
    then have "r' = start_run dev" "e \<noteq> None" using assms(3) by (auto simp: create_vaults_def)
    moreover have "setup_heirs d \<noteq> []" using assms(4) by (simp add: setup_heirs_def)
    ultimately show ?thesis using su n0 saved_run_refl [OF g, of "start_run dev"]
      by (intro exI [of _ "?su undefined"] exI [of _ "[]"]) simp
  next
    case (Inr a)
    obtain owner ps where a: "a = (owner, ps)" by (cases a)
    with Inr have len: "length ps = ?n" using mint_parties_length by (auto simp: and_then_Inr_iff)
    show ?thesis
    proof (cases "sd_kind d = Guardian_Vault")
      case True
      with assms(3) Inr a have "setup_guardian_vault C B H D W demo (?su owner) (hd ps) (start_run dev) = (r', e)"
        by (simp add: create_vaults_def Let_def)
      from setup_guardian_saved [OF assms(1) g this] show ?thesis
        using True su n0 by (intro exI [of _ "?su owner"]) (auto simp: setup_heirs_def)
    next
      case False
      let ?xs = "zip (sd_heirs d) (zip ps (map (wd_claim_token D) [0..<?n]))"
      from False assms(3) Inr a have "setup_loop C H D W (?su owner) 0 ?xs (start_run dev) = (r', e)"
        by (simp add: create_vaults_def Let_def)
      from setup_loop_saved [OF assms(1) g this] obtain resps where
        "saved_run C W (?su owner) (start_run dev) r' resps"
        "map ce_heir_name (wr_entries r') = map ce_heir_name (wr_entries (start_run dev))
           @ map (\<lambda>x. js_trim (hd_name (fst x))) (take (length resps) ?xs)"
        "length resps \<le> length ?xs" "(e = None) = (length resps = length ?xs)" by blast
      then show ?thesis
        using False su n0 len
        by (intro exI [of _ "?su owner"] exI [of _ resps]) (simp add: setup_heirs_def zip3_map [where f = "\<lambda>h. js_trim (hd_name h)"])
    qed
  qed
qed

definition setup_allowed :: "strength_result option \<Rightarrow> setup_draft \<Rightarrow> bool" where
  "setup_allowed strength d = (validate_step strength d 0 = None \<and> validate_step strength d 1 = None \<and> find_bad_heir d = None)"

lemma activate_cases:
  "activate C B H D W demo net strength clip d dev =
     (if setup_allowed strength d
      then finish_activation (wd_group D) (create_vaults C B H D W demo net clip d dev)
      else refused_activation dev (case nullish (validate_step strength d 0) (validate_step strength d 1) of
             Some err \<Rightarrow> err | None \<Rightarrow> bad_heir_text (the (find_bad_heir d))))"
  by (cases "validate_step strength d 0") (simp_all add: activate_def setup_allowed_def split: option.split)

lemma setup_allowed_heirs: "setup_allowed strength d \<Longrightarrow> sd_heirs d \<noteq> []"
  by (auto simp: setup_allowed_def validate_step_def heir_step_error_def)

text \<open>C3: Whatever the server and the network do, every vault the wizard reports as created is on the device,
  in the new group, under the owner's e-mail: with a validated lock that the chosen password opens to
  exactly the token the server issued for it, and no token on disk, or, when sealing that token back
  failed, with the token itself. Every other entry is untouched; the vaults are created in the order of
  the heirs, and the page of addresses is shown only when none is missing.\<close>

theorem wizard_vaults_saved:
  assumes "wizard_sound C D W" "store_good dev"
    and "r = activate C B H D W demo net strength clip d dev"
  shows "\<exists>su resps. su_draft su = d \<and> su_group su = wd_group D
     \<and> store_good (ac_dev r) \<and> ac_notified r = map list_item resps
     \<and> (\<forall>l. l \<notin> nv_id ` set resps \<longrightarrow> get_vault_meta l (ac_dev r) = get_vault_meta l dev)
     \<and> (\<forall>l\<in>nv_id ` set resps. \<exists>m. \<exists>resp\<in>set resps. nv_id resp = l
          \<and> get_vault_meta l (ac_dev r) = Some m \<and> wizard_saved C su resp m)
     \<and> length resps \<le> length (setup_heirs d)
     \<and> (ac_error r = None \<longleftrightarrow> length resps = length (setup_heirs d) \<and> sd_heirs d \<noteq> [])
     \<and> (ac_created r \<noteq> None \<longleftrightarrow> ac_error r = None)
     \<and> (\<forall>g entries. ac_created r = Some (g, entries) \<longrightarrow> g = wd_group D
          \<and> map ce_vault_id entries = map nv_id resps
          \<and> map ce_heir_name entries = map (\<lambda>h. js_trim (hd_name h)) (setup_heirs d))"
proof (cases "setup_allowed strength d")
  case False
  then have r: "r = refused_activation dev (case nullish (validate_step strength d 0) (validate_step strength d 1) of
             Some err \<Rightarrow> err | None \<Rightarrow> bad_heir_text (the (find_bad_heir d)))"
    by (simp add: assms(3) activate_cases)
  have "sd_heirs d \<noteq> [] \<Longrightarrow> setup_heirs d \<noteq> []" by (simp add: setup_heirs_def)
  then show ?thesis using assms(2)
    by (intro exI [of _ "shared_of C D d demo net clip undefined"] exI [of _ "[]"])
      (auto simp: r refused_activation_def shared_of_def)
next
  case True
  obtain r' e where c: "create_vaults C B H D W demo net clip d dev = (r', e)" by fastforce
  then have r: "r = finish_activation (wd_group D) (r', e)" using True by (simp add: assms(3) activate_cases)
  note h = setup_allowed_heirs [OF True]
  obtain su resps where s: "su_draft su = d" "su_group su = wd_group D" "saved_run C W su (start_run dev) r' resps"
    "map ce_heir_name (wr_entries r') = map (\<lambda>h. js_trim (hd_name h)) (take (length resps) (setup_heirs d))"
    "length resps \<le> length (setup_heirs d)" "(e = None) = (length resps = length (setup_heirs d))"
    using create_vaults_saved [OF assms(1,2) c h] by blast
  from s h show ?thesis
    by (intro exI [of _ su] exI [of _ resps]) (simp add: r finish_activation_def saved_run_def start_run_def)
qed

section \<open>The creation requests\<close>

fun creates :: "call \<Rightarrow> bool" where
  "creates (CreateVaultFromXpub q) = True"
| "creates (CreateVaultGuardian q) = True"
| "creates _ = False"

lemma reseal_creates: "reseal_real_token C nonce send kek resp = (calls, b) \<Longrightarrow> filter creates calls = []"
  by (auto simp: reseal_real_token_def Let_def split: option.splits sum.splits)

lemma upload_creates: "upload_clip C H nonce send x token resp clip = (calls, b) \<Longrightarrow> filter creates calls = []"
  by (auto simp: upload_clip_def Let_def split: option.splits sum.splits)

lemma after_created_creates:
  "creates c \<Longrightarrow> filter creates (wr_calls (after_created C H D W su i h label party token minted s kek c resp r))
     = filter creates (wr_calls r) @ [c]"
  by (auto simp: after_created_def Let_def reseal_creates upload_creates split: prod.splits if_splits)

text \<open>The creation requests of a run.\<close>

definition creations :: "wizard_run \<Rightarrow> call set" where
  "creations r = set (filter creates (wr_calls r))"

lemma creations_after:
  "creates c \<Longrightarrow> creations (after_created C H D W su i h label party token minted s kek c resp r) = insert c (creations r)"
  by (simp add: creations_def after_created_creates del: set_filter)

lemma setup_one_creates:
  assumes "setup_one C H D W su i h party token r = (r', e)" "c \<in> creations r'"
  shows "c \<in> creations r
    \<or> (\<exists>s. seal_vault_secrets C (wd_seal D i) (seal_input su party token) = Inr s
         \<and> c = CreateVaultFromXpub (create_request su h party token s))"
  using assms by (auto simp: setup_one_def Let_def creations_after split: sum.splits) (auto simp: creations_def)

lemma setup_loop_creates:
  assumes "setup_loop C H D W su i xs r = (r', e)" "c \<in> creations r'"
  shows "c \<in> creations r
    \<or> (\<exists>h party token s j. (h, party, token) \<in> set xs
         \<and> seal_vault_secrets C (wd_seal D j) (seal_input su party token) = Inr s
         \<and> c = CreateVaultFromXpub (create_request su h party token s))"
  using assms
proof (induction xs arbitrary: i r)
  case (Cons x hs)
  obtain h party token where x: "x = (h, party, token)" by (cases x)
  obtain r1 e1 where one: "setup_one C H D W su i h party token r = (r1, e1)" by fastforce
  note f = setup_one_creates [OF one]
  show ?case
  proof (cases e1)
    case (Some y)
    then have "r' = r1" using Cons.prems(1) x one by simp
    with f [of c] Cons.prems(2) x show ?thesis by (metis list.set_intros(1))
  next
    case None
    then have "setup_loop C H D W su (i + 1) hs r1 = (r', e)" using Cons.prems(1) x one by simp
    from Cons.IH [OF this Cons.prems(2)] show ?thesis
    proof
      assume "c \<in> creations r1"
      from f [OF this] x show ?thesis by (metis list.set_intros(1))
    qed (use list.set_intros(2) in metis)
  qed
qed simp

lemma mint_parties_each:
  "mint_parties B entropy net i n = Inr ps \<Longrightarrow> p \<in> set ps \<Longrightarrow> \<exists>x. generate_party B x net = Inr p"
  by (induction n arbitrary: i ps) (auto simp: and_then_Inr_iff)

lemma create_vaults_creates:
  assumes "create_vaults C B H D W demo net clip d dev = (r, e)" "c \<in> creations r"
  obtains (standard) owner h p x token s j where "sd_kind d = Standard_Vault" "h \<in> set (sd_heirs d)"
      "generate_party B x net = Inr p"
      "seal_vault_secrets C (wd_seal D j) (seal_input (shared_of C D d demo net clip owner) p token) = Inr s"
      "c = CreateVaultFromXpub (create_request (shared_of C D d demo net clip owner) h p token s)"
    | (guardian) owner p x s gs where "sd_kind d = Guardian_Vault" "generate_party B x net = Inr p"
      "seal_vault_secrets C (wd_seal D 0) (seal_input (shared_of C D d demo net clip owner) p (wd_claim_token D 0)) = Inr s"
      "seal_guardians C B D net 0 (sd_guardians d) = Inr gs"
      "c = CreateVaultGuardian (guardian_request_of demo (shared_of C D d demo net clip owner) (hd (sd_heirs d)) p
             (wd_claim_token D 0) s gs)"
proof -
  let ?n = "if sd_kind d = Guardian_Vault then 1 else length (sd_heirs d)"
  let ?k = "and_then (generate_party B (wd_owner_entropy D) net) (\<lambda>owner.
              and_then (mint_parties B (wd_heir_entropy D) net 0 ?n) (\<lambda>ps. Inr (owner, ps)))"
  have n0: "c \<notin> creations (start_run dev)" by (simp add: creations_def start_run_def)
  obtain owner ps where k: "?k = Inr (owner, ps)"
    using assms n0 by (cases ?k) (auto simp: create_vaults_def)
  let ?su = "shared_of C D d demo net clip owner"
  from k have mint: "mint_parties B (wd_heir_entropy D) net 0 ?n = Inr ps" by (auto simp: and_then_Inr_iff)
  note each = mint_parties_each [OF mint]
  show thesis
  proof (cases "sd_kind d")
    case Guardian_Vault
    with assms(1) k have g: "setup_guardian_vault C B H D W demo ?su (hd ps) (start_run dev) = (r, e)"
      by (simp add: create_vaults_def Let_def)
    have "hd ps \<in> set ps" using mint_parties_length [OF mint] Guardian_Vault by (cases ps) auto
    then obtain x where x: "generate_party B x net = Inr (hd ps)" using each by blast
    have su: "su_network ?su = net" "su_draft ?su = d" by (simp_all add: shared_of_def)
    from g assms(2) n0 obtain s gs where
      "seal_vault_secrets C (wd_seal D 0) (seal_input ?su (hd ps) (wd_claim_token D 0)) = Inr s"
      "seal_guardians C B D net 0 (sd_guardians d) = Inr gs"
      "c = CreateVaultGuardian (guardian_request_of demo ?su (hd (sd_heirs d)) (hd ps) (wd_claim_token D 0) s gs)"
      by (auto simp: setup_guardian_vault_def Let_def su and_then_Inr_iff creations_after start_run_def
          split: sum.splits prod.splits) (auto simp: creations_def split: if_splits)
    with guardian Guardian_Vault x show thesis by blast
  next
    case Standard_Vault
    let ?xs = "zip (sd_heirs d) (zip ps (map (wd_claim_token D) [0..<?n]))"
    from Standard_Vault assms(1) k have l: "setup_loop C H D W ?su 0 ?xs (start_run dev) = (r, e)"
      by (simp add: create_vaults_def Let_def)
    from setup_loop_creates [OF this assms(2)] n0 obtain h p token s j where
      h: "(h, p, token) \<in> set ?xs" "seal_vault_secrets C (wd_seal D j) (seal_input ?su p token) = Inr s"
      "c = CreateVaultFromXpub (create_request ?su h p token s)" by blast
    from set_zip_leftD [OF h(1)] set_zip_leftD [OF set_zip_rightD [OF h(1)]]
    have "h \<in> set (sd_heirs d)" "p \<in> set ps" by simp_all
    with each obtain x where "generate_party B x net = Inr p" "h \<in> set (sd_heirs d)" by blast
    with standard Standard_Vault h show thesis by blast
  qed
qed

text \<open>A sealed key with its token: the claim page opens it, and the request carries the public key that
  belongs to it.\<close>

definition minted_key :: "('a crypto_scheme) \<Rightarrow> bip \<Rightarrow> jstr \<Rightarrow> party_xpub \<Rightarrow> jstr field \<Rightarrow> jstr field \<Rightarrow> jstr field \<Rightarrow> bool" where
  "minted_key C B net party token ct nonce \<longleftrightarrow>
     (\<exists>x p t c n. generate_party B x net = Inr p \<and> party = party_of p
        \<and> token = Given t \<and> ct = Given c \<and> nonce = Given n \<and> unwrap_key C t c n = Inr (kp_xprv p))"

text \<open>An heir who holds their own key: the pasted key, and no secret at all.\<close>

definition pasted_key :: "heir_draft \<Rightarrow> party_xpub \<Rightarrow> jstr field \<Rightarrow> jstr field \<Rightarrow> jstr field \<Rightarrow> bool" where
  "pasted_key h party token ct nonce \<longleftrightarrow> is_valid_heir_xpub (hd_heir_xpub h)
     \<and> party = own_key_party (the (hd_heir_xpub h))
     \<and> token = field.Absent \<and> ct = field.Absent \<and> nonce = field.Absent"

definition keys_faithful :: "('a crypto_scheme) \<Rightarrow> bip \<Rightarrow> jstr \<Rightarrow> bool" where
  "keys_faithful C B net \<longleftrightarrow> (\<forall>x p. generate_party B x net = Inr p \<longrightarrow> text_faithful C (kp_xprv p))"

lemma sealed_heir_minted:
  assumes "wizard_sound C D W" "keys_faithful C B net" "generate_party B x net = Inr p"
    and "seal_vault_secrets C (wd_seal D j) (seal_input su p token) = Inr s"
  shows "minted_key C B net (party_of p) (Given (b64encode token)) (Given (sb_ct (svs_heir_xprv s)))
     (Given (sb_nonce (svs_heir_xprv s)))"
proof -
  have "unwrap_key C (b64encode (sai_claim_token (seal_input su p token))) (sb_ct (svs_heir_xprv s)) (sb_nonce (svs_heir_xprv s))
      = Inr (sai_heir_xprv (seal_input su p token))"
    by (rule unwrap_sealed_heir [OF _ _ _ _ assms(4)])
      (use assms(1-3) in \<open>auto simp: wizard_sound_def keys_faithful_def seal_input_def\<close>)
  then show ?thesis using assms(3) unfolding minted_key_def by (auto simp: seal_input_def)
qed

text \<open>C4: Every request that creates a standard vault is for an heir of the draft, with their contact. For an
  heir who holds their own key it carries the pasted key and no key material and no claim token, so
  nothing the server stores can spend; for any other heir it carries the public key of a fresh key,
  that very key sealed, and the token whose link opens it on the claim page. Nothing is created unless
  the draft passed both steps and every own-key heir has a usable key.\<close>

theorem wizard_requests_claimable:
  assumes "wizard_sound C D W" "keys_faithful C B net"
    and "CreateVaultFromXpub q \<in> set (ac_calls (activate C B H D W demo net strength clip d dev))"
  shows "setup_allowed strength d \<and> sd_kind d = Standard_Vault
    \<and> (\<exists>h\<in>set (sd_heirs d). \<exists>ss. cx_sealed q = Given ss \<and> cx_heir_contact q = Given (heir_contact_payload h)
         \<and> (if hd_own_key h = Some True
            then pasted_key h (cx_heir q) (ss_claim_token_b64 ss) (ss_heir_xprv_ct_b64 ss) (ss_heir_xprv_nonce_b64 ss)
            else minted_key C B net (cx_heir q) (ss_claim_token_b64 ss) (ss_heir_xprv_ct_b64 ss) (ss_heir_xprv_nonce_b64 ss)))"
proof -
  have a: "setup_allowed strength d" using assms(3) by (auto simp: activate_cases refused_activation_def split: if_splits)
  obtain r e where c: "create_vaults C B H D W demo net clip d dev = (r, e)" by fastforce
  let ?c = "CreateVaultFromXpub q"
  have m: "?c \<in> creations r" using assms(3) a c by (simp add: activate_cases finish_activation_def creations_def)
  show ?thesis
  proof (rule create_vaults_creates [OF c m])
    fix owner h p x token s j
    let ?su = "shared_of C D d demo net clip owner"
    assume st: "sd_kind d = Standard_Vault" "h \<in> set (sd_heirs d)" "generate_party B x net = Inr p"
      "seal_vault_secrets C (wd_seal D j) (seal_input ?su p token) = Inr s"
      "?c = CreateVaultFromXpub (create_request ?su h p token s)"
    have "find_bad_heir d = None" using a by (simp add: setup_allowed_def)
    then have b: "hd_own_key h = Some True \<Longrightarrow> is_valid_heir_xpub (hd_heir_xpub h)"
      using st(2) by (auto simp: find_bad_heir_def find_None_iff)
    have q: "q = create_request ?su h p token s" using st(5) by simp
    note mk = sealed_heir_minted [OF assms(1,2) st(3,4)]
    show ?thesis
      using a st(1,2) b mk
      by (intro conjI bexI [of _ h]) (auto simp: q create_request_def Let_def sealed_body_def door_b_def pasted_key_def)
  qed simp
qed

lemma seal_guardians_each:
  "seal_guardians C B D net i gs = Inr ps \<Longrightarrow> length ps = length gs
     \<and> (\<forall>k<length gs. \<exists>p. generate_party B (wd_guardian_entropy D (i + k)) net = Inr p
          \<and> seal_guardian C (wd_guardian_nonce D (i + k)) (wd_guardian_token D (i + k)) p (gs ! k) = Inr (ps ! k))"
proof (induction gs arbitrary: i ps)
  case (Cons g gs)
  then obtain p gp ps' where g: "generate_party B (wd_guardian_entropy D i) net = Inr p"
    "seal_guardian C (wd_guardian_nonce D i) (wd_guardian_token D i) p g = Inr gp"
    "seal_guardians C B D net (i + 1) gs = Inr ps'" "ps = gp # ps'"
    by (auto simp: and_then_Inr_iff)
  note ih = Cons.IH [OF g(3)]
  show ?case
  proof (intro conjI allI impI)
    show "length ps = length (g # gs)" using ih g(4) by simp
    fix k assume k: "k < length (g # gs)"
    show "\<exists>p. generate_party B (wd_guardian_entropy D (i + k)) net = Inr p
        \<and> seal_guardian C (wd_guardian_nonce D (i + k)) (wd_guardian_token D (i + k)) p ((g # gs) ! k) = Inr (ps ! k)"
    proof (cases k)
      case 0
      then show ?thesis using g by auto
    next
      case (Suc j)
      then show ?thesis using ih g(4) k by (auto dest: spec [of _ j])
    qed
  qed
qed simp

definition guardian_key :: "guardian_party \<Rightarrow> party_xpub" where
  "guardian_key g = \<lparr>px_xpub = guardian_party.gp_xpub g, px_fingerprint = guardian_party.gp_fingerprint g\<rparr>"

lemma sealed_guardian_minted:
  assumes "wizard_sound C D W" "keys_faithful C B net" "generate_party B x net = Inr p"
    and "seal_guardian C (wd_guardian_nonce D k) token p g = Inr gp"
  shows "minted_key C B net (guardian_key gp) (Given (gp_claim_token_b64 gp)) (Given (gp_xprv_ct_b64 gp)) (Given (gp_xprv_nonce_b64 gp))
     \<and> gp_contact gp = Given (js_trim (gd_contact g)) \<and> gp_contact_channel gp = Given (channel_name (gd_channel g))"
proof -
  obtain b where b: "seal_with_key C (wd_guardian_nonce D k) (derive_claim_kek C token) (utf8 (kp_xprv p)) = Inr b"
    "gp = \<lparr>gp_xpub = kp_xpub p, gp_fingerprint = Given (kp_fingerprint p), gp_xprv_ct_b64 = sb_ct b,
          gp_xprv_nonce_b64 = sb_nonce b, gp_claim_token_b64 = b64encode token,
          gp_contact = Given (js_trim (gd_contact g)), gp_contact_channel = Given (channel_name (gd_channel g))\<rparr>"
    using assms(4) by (auto simp: seal_guardian_def and_then_Inr_iff)
  have "mk_blob (sb_ct b) (sb_nonce b) = b" using b(1) by (auto simp: seal_ok mk_blob_def)
  moreover have "open_with_key C (derive_claim_kek C token) b = Inr (utf8 (kp_xprv p))"
    by (rule open_seal [OF _ _ b(1)]) (use assms(1) in \<open>auto simp: wizard_sound_def\<close>)
  ultimately have "unwrap_key C (b64encode token) (sb_ct b) (sb_nonce b) = Inr (kp_xprv p)"
    using assms(2,3) by (simp add: unwrap_key_def unseal_heir_xprv_def keys_faithful_def text_faithful_def)
  with b(2) assms(3) show ?thesis by (auto simp: minted_key_def guardian_key_def party_of_def)
qed


definition with_trusted :: "jstr \<Rightarrow> channel \<Rightarrow> setup_draft \<Rightarrow> setup_draft" where
  "with_trusted x ch d = d\<lparr>sd_trusted_contact := x, sd_trusted_channel := ch\<rparr>"

lemma with_trusted_fields [simp]:
  "sd_kind (with_trusted x ch d) = sd_kind d" "sd_heirs (with_trusted x ch d) = sd_heirs d"
  "sd_guardians (with_trusted x ch d) = sd_guardians d" "sd_owner_email (with_trusted x ch d) = sd_owner_email d"
  "sd_password (with_trusted x ch d) = sd_password d" "sd_owner_name (with_trusted x ch d) = sd_owner_name d"
  "sd_unlock_year (with_trusted x ch d) = sd_unlock_year d"
  "sd_password_confirm (with_trusted x ch d) = sd_password_confirm d"
  "sd_saved_password (with_trusted x ch d) = sd_saved_password d"
  "sd_cadence_id (with_trusted x ch d) = sd_cadence_id d" "sd_grace_id (with_trusted x ch d) = sd_grace_id d"
  "sd_demo_waiting_id (with_trusted x ch d) = sd_demo_waiting_id d"
  "sd_waiting_months (with_trusted x ch d) = sd_waiting_months d"
  by (simp_all add: with_trusted_def)

lemma trusted_setup:
  "setup_guardian_vault C B H D W demo (su\<lparr>su_draft := with_trusted x ch (su_draft su)\<rparr>) = setup_guardian_vault C B H D W demo su"
proof -
  let ?su = "su\<lparr>su_draft := with_trusted x ch (su_draft su)\<rparr>"
  have "seal_input ?su = seal_input su" by (intro ext) (simp add: seal_input_def)
  moreover have "guardian_request_of demo ?su = guardian_request_of demo su"
    by (intro ext) (simp add: guardian_request_of_def Let_def)
  moreover have "wizard_meta ?su = wizard_meta su" by (intro ext) (simp add: wizard_meta_def)
  moreover have "wizard_envelope b ?su = wizard_envelope b su" for b by (intro ext) (simp add: wizard_envelope_def)
  ultimately have "after_created C H D W ?su = after_created C H D W su" "seal_input ?su = seal_input su"
    "guardian_request_of demo ?su = guardian_request_of demo su"
    by (auto simp: after_created_def intro!: ext)
  then show ?thesis by (intro ext) (simp add: setup_guardian_vault_def Let_def split: sum.split prod.split)
qed

lemma trusted_shared:
  "shared_of C D (with_trusted x ch d) demo net clip owner
     = (shared_of C D d demo net clip owner)\<lparr>su_draft := with_trusted x ch (su_draft (shared_of C D d demo net clip owner))\<rparr>"
  by (simp add: shared_of_def)

lemma trusted_create:
  "sd_kind d = Guardian_Vault \<Longrightarrow>
     create_vaults C B H D W demo net clip (with_trusted x ch d) dev = create_vaults C B H D W demo net clip d dev"
  by (simp add: create_vaults_def Let_def trusted_shared trusted_setup split: sum.split prod.split)

lemma trusted_checks:
  "setup_allowed strength (with_trusted x ch d) = setup_allowed strength d"
  "validate_step strength (with_trusted x ch d) = validate_step strength d"
  "find_bad_heir (with_trusted x ch d) = find_bad_heir d"
proof -
  show v: "validate_step strength (with_trusted x ch d) = validate_step strength d"
    by (intro ext) (simp add: validate_step_def heir_step_error_def heir_contacts_def guardian_contacts_def)
  show b: "find_bad_heir (with_trusted x ch d) = find_bad_heir d" by (simp add: find_bad_heir_def)
  show "setup_allowed strength (with_trusted x ch d) = setup_allowed strength d" by (simp add: setup_allowed_def v b)
qed

text \<open>A guardian vault is created as if no trusted contact had been entered, although the page asks for
  one: the person named for the panic stop is never sent to the server.\<close>

theorem guardian_vault_drops_trusted_contact:
  assumes "sd_kind d = Guardian_Vault"
  shows "activate C B H D W demo net strength clip (d\<lparr>sd_trusted_contact := x, sd_trusted_channel := ch\<rparr>) dev
    = activate C B H D W demo net strength clip d dev"
  unfolding with_trusted_def [symmetric] activate_cases trusted_checks trusted_create [OF assms] ..

section \<open>The draft\<close>

text \<open>The shape of a draft the creation relies on: one to five heirs, exactly two guardians, and for a
  guardian vault a single heir whose key is minted here.\<close>

definition draft_ok :: "setup_draft \<Rightarrow> bool" where
  "draft_ok d \<longleftrightarrow> 1 \<le> length (sd_heirs d) \<and> length (sd_heirs d) \<le> max_heirs \<and> length (sd_guardians d) = 2
     \<and> (sd_kind d = Guardian_Vault \<longrightarrow> length (sd_heirs d) = 1 \<and> (\<forall>h\<in>set (sd_heirs d). hd_own_key h \<noteq> Some True))"

lemma length_remove: "length (filter (\<lambda>(i, h). i \<noteq> index) (enumerate n xs)) \<le> length xs"
  using length_filter_le [of "\<lambda>(i, h). i \<noteq> index" "enumerate n xs"] by simp

lemma remove_index_length:
  "length xs - 1 \<le> length (filter (\<lambda>(i, h). i \<noteq> index) (enumerate n xs))"
proof (induction xs arbitrary: n)
  case (Cons x xs)
  show ?case
  proof (cases "n = index")
    case True
    then have "filter (\<lambda>(i, h). i \<noteq> index) (enumerate (Suc n) xs) = enumerate (Suc n) xs"
      by (auto simp: filter_id_conv in_set_enumerate_eq)
    with True show ?thesis by simp
  qed (use Cons.IH [of "Suc n"] in simp)
qed simp

lemma edited_own_key:
  "offered (Heir_Edited i e) d \<Longrightarrow> sd_kind d = Guardian_Vault \<Longrightarrow> hd_own_key (edit_heir e h) = hd_own_key h"
  by (cases e) auto

lemma update_heir_own_key:
  "h \<in> set (sd_heirs (update_heir i p d)) \<Longrightarrow> \<exists>h'\<in>set (sd_heirs d). h = h' \<or> h = p h'"
  by (auto simp: update_heir_def in_set_enumerate_eq split: if_splits) (metis nth_mem)+

lemma page_step_ok: "draft_ok d \<Longrightarrow> draft_ok (page_step e d)"
proof (cases "offered e d")
  case True
  assume ok: "draft_ok d"
  then show ?thesis
  proof (cases e)
    case (Heir_Edited i x)
    then have k: "hd_own_key (edit_heir x h) = hd_own_key h" if "sd_kind d = Guardian_Vault" for h
      using True that edited_own_key by blast
    have f: "sd_kind (update_heir i (edit_heir x) d) = sd_kind d" "sd_guardians (update_heir i (edit_heir x) d) = sd_guardians d"
      "length (sd_heirs (update_heir i (edit_heir x) d)) = length (sd_heirs d)"
      by (simp_all add: update_heir_def)
    have "hd_own_key h \<noteq> Some True" if "sd_kind d = Guardian_Vault" "h \<in> set (sd_heirs (update_heir i (edit_heir x) d))" for h
      using update_heir_own_key [OF that(2)] k [OF that(1)] ok that(1) by (auto simp: draft_ok_def)
    with ok f Heir_Edited True show ?thesis by (simp add: page_step_def draft_ok_def)
  next
    case (Heir_Removed i)
    with ok True show ?thesis
      using length_remove [of i 0 "sd_heirs d"] remove_index_length [of "sd_heirs d" i 0]
      by (auto simp: page_step_def draft_ok_def remove_heir_def)
  qed (use ok in \<open>auto simp: page_step_def draft_ok_def add_heir_def update_guardian_def set_vault_kind_def
        on_health_draft_def max_heirs_def split: vault_kind.split list.split\<close>)
qed (simp add: page_step_def)

text \<open>C35: Whatever is clicked and typed, in any order, the draft keeps the shape the creation relies on: from
  one to five heirs, two guardians, and a guardian vault has one heir whose own-key choice, hidden by
  the page, is off, so it cannot block or change the creation.\<close>

theorem draft_shape:
  "draft_ok (fold page_step es empty_draft)"
proof -
  have "draft_ok d \<Longrightarrow> draft_ok (fold page_step es d)" for d
    by (induction es arbitrary: d) (simp_all add: page_step_ok)
  moreover have "draft_ok empty_draft" by (simp add: draft_ok_def empty_draft_def max_heirs_def)
  ultimately show ?thesis by blast
qed

section \<open>Sample runs\<close>

definition sample_wizard_draws :: wizard_draws where
  "sample_wizard_draws =
     \<lparr>wd_owner_entropy = [1], wd_heir_entropy = (\<lambda>i. [2]), wd_claim_token = (\<lambda>i. replicate 32 9),
      wd_guardian_entropy = (\<lambda>i. [3]), wd_guardian_token = (\<lambda>i. replicate 32 (word_of_nat i)),
      wd_guardian_nonce = (\<lambda>i. replicate 24 4), wd_group = ''g'', wd_seal = (\<lambda>i. sample_draws),
      wd_reseal_nonce = (\<lambda>i. replicate 24 5), wd_video_nonce = (\<lambda>i. replicate 24 6), wd_now = (\<lambda>i. ''now'')\<rparr>"

definition sample_world :: wizard_world where
  "sample_world = \<lparr>ww_create = (\<lambda>i c. Inr sample_created), ww_seal_token = (\<lambda>i c. None), ww_upload = (\<lambda>i c. None),
     ww_address = (\<lambda>i c. Inl (Js_Error [])), ww_envelope = (\<lambda>i p. None)\<rparr>"

definition sample_strength :: strength_result where
  "sample_strength = \<lparr>sr_score = 4, sr_acceptable = True, sr_label = [], sr_tone = ToneGood, sr_advice = None\<rparr>"

definition sample_draft :: "vault_kind \<Rightarrow> setup_draft" where
  "sample_draft k = empty_draft\<lparr>sd_kind := k,
     sd_heirs := [empty_heir\<lparr>hd_name := ''Ada'', hd_contact := ''h@b.c''\<rparr>],
     sd_guardians := [empty_guardian\<lparr>gd_name := ''G'', gd_contact := ''g@b.c''\<rparr>,
                      empty_guardian\<lparr>gd_name := ''K'', gd_contact := ''k@b.c''\<rparr>],
     sd_owner_email := ''a@b.c'', sd_password := ''correct horse'', sd_password_confirm := ''correct horse'',
     sd_saved_password := True\<rparr>"

lemma sample_draft_allowed: "setup_allowed (Some sample_strength) (sample_draft Standard_Vault)"
    "setup_allowed (Some sample_strength) (sample_draft Guardian_Vault)"
  by code_simp+

lemma sample_wizard_sound: "wizard_sound sample_crypto sample_wizard_draws sample_world"
  using sample_crypto_laws
  by (simp add: wizard_sound_def sample_wizard_draws_def sample_draws_def sample_world_def sample_created_def sample_text)

lemma wizard_keys_faithful: "keys_faithful sample_crypto wizard_bip net"
  by (auto simp: keys_faithful_def generate_party_def wizard_bip_def Let_def sample_text)

definition sample_shared :: "vault_kind \<Rightarrow> shared_setup" where
  "sample_shared k = shared_of sample_crypto sample_wizard_draws (sample_draft k) False ''regtest'' None wizard_party"

lemma sample_create_standard:
  assumes "seal_vault_secrets sample_crypto sample_draws (seal_input (sample_shared Standard_Vault) wizard_party (replicate 32 9)) = Inr s"
  shows "create_vaults sample_crypto wizard_bip wizard_hdkey sample_wizard_draws sample_world False ''regtest'' None
      (sample_draft Standard_Vault) dev
    = (let su = sample_shared Standard_Vault; h = hd (sd_heirs (sample_draft Standard_Vault));
           c = CreateVaultFromXpub (create_request su h wizard_party (replicate 32 9) s)
       in (after_created sample_crypto wizard_hdkey sample_wizard_draws sample_world su 0 h (vault_label 1 h) wizard_party
             (replicate 32 9) (\<not> door_b h) s (svs_owner_kek s) c sample_created (start_run dev), None))"
  using assms seal_keeps_kek [OF assms]
  by (simp add: create_vaults_def sample_draft_def wizard_generates sample_wizard_draws_def sample_world_def setup_one_def
      sample_shared_def Let_def shared_of_def)

lemma sample_create_guardian:
  assumes "seal_vault_secrets sample_crypto sample_draws (seal_input (sample_shared Guardian_Vault) wizard_party (replicate 32 9)) = Inr s"
    and "seal_guardians sample_crypto wizard_bip sample_wizard_draws ''regtest'' 0 (sd_guardians (sample_draft Guardian_Vault)) = Inr gs"
  shows "create_vaults sample_crypto wizard_bip wizard_hdkey sample_wizard_draws sample_world False ''regtest'' None
      (sample_draft Guardian_Vault) dev
    = (let su = sample_shared Guardian_Vault; h = hd (sd_heirs (sample_draft Guardian_Vault));
           c = CreateVaultGuardian (guardian_request_of False su h wizard_party (replicate 32 9) s gs)
       in (after_created sample_crypto wizard_hdkey sample_wizard_draws sample_world su 0 h (vault_label 1 h) wizard_party
             (replicate 32 9) True s (svs_owner_kek s) c sample_created (start_run dev), None))"
  using assms
  by (simp add: create_vaults_def sample_draft_def wizard_generates sample_wizard_draws_def sample_world_def
      setup_guardian_vault_def sample_shared_def Let_def shared_of_def)

lemma sample_guardians_seal:
  obtains gs where "seal_guardians sample_crypto wizard_bip sample_wizard_draws ''regtest'' 0
      (sd_guardians (sample_draft Guardian_Vault)) = Inr gs"
  using derive_claim_kek_len [OF sample_crypto_laws(3)] that
  by (simp add: sample_draft_def wizard_generates seal_guardian_def seal_with_key_def kek_len_def)

definition sample_run :: "vault_kind \<Rightarrow> activation" where
  "sample_run k = activate sample_crypto wizard_bip wizard_hdkey sample_wizard_draws sample_world False ''regtest''
     (Some sample_strength) None (sample_draft k) (sample_device [] [])"

lemma sample_run_create:
  "sample_run Standard_Vault = finish_activation ''g'' (create_vaults sample_crypto wizard_bip wizard_hdkey
     sample_wizard_draws sample_world False ''regtest'' None (sample_draft Standard_Vault) (sample_device [] []))"
  "sample_run Guardian_Vault = finish_activation ''g'' (create_vaults sample_crypto wizard_bip wizard_hdkey
     sample_wizard_draws sample_world False ''regtest'' None (sample_draft Guardian_Vault) (sample_device [] []))"
  using sample_draft_allowed by (simp_all add: sample_run_def activate_cases) (simp_all add: sample_wizard_draws_def)

lemma empty_device_good: "store_good (sample_device [] [])"
  by (simp add: store_good_def)

lemma sample_standard_ok: "ac_error (sample_run Standard_Vault) = None"
  "ac_notified (sample_run Standard_Vault) = [list_item sample_created]"
  "\<exists>q. CreateVaultFromXpub q \<in> set (ac_calls (sample_run Standard_Vault))"
proof -
  obtain s where s: "seal_vault_secrets sample_crypto sample_draws
      (seal_input (sample_shared Standard_Vault) wizard_party (replicate 32 9)) = Inr s" by (rule sample_seals_all)
  note r = sample_run_create(1) [unfolded sample_create_standard [OF s]]
  show "ac_error (sample_run Standard_Vault) = None" by (simp add: r finish_activation_def Let_def)
  show "ac_notified (sample_run Standard_Vault) = [list_item sample_created]"
    by (simp add: r finish_activation_def Let_def) (simp add: start_run_def)
  show "\<exists>q. CreateVaultFromXpub q \<in> set (ac_calls (sample_run Standard_Vault))"
    unfolding r by (simp add: finish_activation_def Let_def after_created_def split: prod.split) blast
qed

lemma sample_guardian_ok: "\<exists>q. CreateVaultGuardian q \<in> set (ac_calls (sample_run Guardian_Vault))"
proof -
  obtain s where s: "seal_vault_secrets sample_crypto sample_draws
      (seal_input (sample_shared Guardian_Vault) wizard_party (replicate 32 9)) = Inr s" by (rule sample_seals_all)
  obtain gs where gs: "seal_guardians sample_crypto wizard_bip sample_wizard_draws ''regtest'' 0
      (sd_guardians (sample_draft Guardian_Vault)) = Inr gs" by (rule sample_guardians_seal)
  show ?thesis unfolding sample_run_create(2) sample_create_guardian [OF s gs]
    by (simp add: finish_activation_def Let_def after_created_def split: prod.split) blast
qed

theorem wizard_vaults_saved_witness:
  "\<exists>m. ac_error (sample_run Standard_Vault) = None \<and> get_vault_meta ''v1'' (ac_dev (sample_run Standard_Vault)) = Some m
     \<and> vm_group_id m = Some ''g''"
proof -
  obtain su resps where r: "su_group su = wd_group sample_wizard_draws"
    "ac_notified (sample_run Standard_Vault) = map list_item resps"
    "\<forall>l\<in>nv_id ` set resps. \<exists>m. \<exists>resp\<in>set resps. nv_id resp = l
       \<and> get_vault_meta l (ac_dev (sample_run Standard_Vault)) = Some m \<and> wizard_saved sample_crypto su resp m"
    using wizard_vaults_saved [OF sample_wizard_sound empty_device_good sample_run_def [of Standard_Vault]] by blast
  from r(2) obtain resp where p: "resps = [resp]" "list_item resp = list_item sample_created"
    using sample_standard_ok(2) by (cases resps) auto
  then have "nv_id resp = ''v1''" by (simp add: list_item_def sample_created_def)
  with r(1,3) p sample_standard_ok(1) show ?thesis by (auto simp: wizard_saved_def sample_wizard_draws_def)
qed

theorem wizard_requests_claimable_witness:
  "\<exists>q ss. CreateVaultFromXpub q \<in> set (ac_calls (sample_run Standard_Vault)) \<and> cx_sealed q = Given ss
     \<and> minted_key sample_crypto wizard_bip ''regtest'' (cx_heir q) (ss_claim_token_b64 ss) (ss_heir_xprv_ct_b64 ss)
          (ss_heir_xprv_nonce_b64 ss)"
proof -
  obtain q where q: "CreateVaultFromXpub q \<in> set (ac_calls (sample_run Standard_Vault))"
    using sample_standard_ok(3) by blast
  from wizard_requests_claimable [OF sample_wizard_sound wizard_keys_faithful q [unfolded sample_run_def]] q
  show ?thesis by (auto simp: sample_draft_def empty_heir_def)
qed


theorem guardian_vault_drops_trusted_contact_witness:
  "activate sample_crypto wizard_bip wizard_hdkey sample_wizard_draws sample_world False ''regtest''
     (Some sample_strength) None ((sample_draft Guardian_Vault)\<lparr>sd_trusted_contact := ''t@b.c'', sd_trusted_channel := Email\<rparr>)
     (sample_device [] [])
   = sample_run Guardian_Vault"
proof -
  have "sd_kind (sample_draft Guardian_Vault) = Guardian_Vault" by (simp add: sample_draft_def)
  from guardian_vault_drops_trusted_contact [OF this] show ?thesis unfolding sample_run_def .
qed

end
