(* ===== verification/Owner_Views.thy ===== *)
theory Owner_Views
  imports Api Vault_Store Clock Money
begin

text \<open>
  What the owner's pages show: the server's view of a vault (api.ts), the rules of a share's life
  cycle and the short texts of the dashboard (Dashboard.tsx), the titles of events (ui.tsx) and the
  activity page (ActivityPage.tsx). Texts with typographic quotes or dashes are transcribed to ASCII.
\<close>

section \<open>The server's view\<close>

text \<open>A field that is missing or null is \<open>None\<close>; a status is the text of the union \<open>VaultStatus\<close>.\<close>

record vault_view =
  vv_id :: jstr
  vv_label :: "jstr option"
  vv_network :: jstr
  vv_timelock_blocks :: int
  vv_checkin_period_secs :: int
  vv_grace_period_secs :: int
  vv_status :: jstr
  vv_created_at :: jstr
  vv_last_checkin_at :: "jstr option"
  vv_next_deadline_at :: jstr
  vv_claim_eligible_at :: "jstr option"
  vv_panic_frozen_until :: "jstr option"
  vv_lnurl_checkin :: "jstr option"
  vv_lnurl_panic :: "jstr option"
  vv_owner_contact_verified :: "bool option"
  vv_activation_held :: "bool option"
  vv_heir_reachability :: "jstr option"
  vv_has_trusted_contact :: "bool option"
  vv_descriptor_external :: "jstr option"
  vv_descriptor_internal :: "jstr option"
  vv_unlock_eta :: "jstr option"
  vv_drill_started_at :: "jstr option"
  vv_drill_opened_at :: "jstr option"
  vv_drill_completed_at :: "jstr option"

record vault_event =
  ve_id :: int
  ve_vault_id :: jstr
  ve_kind :: jstr
  ve_detail :: json
  ve_created_at :: jstr

text \<open>\<open>ActivityEvent\<close>: an event with the name of its heir.\<close>

record activity_event = vault_event +
  ae_heir_name :: "jstr option"

definition with_heir :: "jstr \<Rightarrow> vault_event \<Rightarrow> activity_event" where
  "with_heir name e = vault_event.extend e (activity_event.fields (Some name))"

section \<open>A share's life cycle\<close>

definition claim_in_flight :: "jstr option \<Rightarrow> bool" where
  "claim_in_flight status = (status = Some ''claiming'' \<or> status = Some ''timelock_started'')"

definition share_removable :: "jstr option \<Rightarrow> bool" where
  "share_removable status = (status \<noteq> Some ''claimed'' \<and> \<not> claim_in_flight status)"

record close_state =
  cl_all_claimed :: bool
  cl_can_close :: bool

definition vault_close_state :: "jstr list \<Rightarrow> jstr obj \<Rightarrow> close_state" where
  "vault_close_state shares status_by_id =
     (let all_claimed = (shares \<noteq> [] \<and> list_all (\<lambda>i. obj_get status_by_id i = Some ''claimed'') shares);
          in_flight = list_ex (\<lambda>i. claim_in_flight (obj_get status_by_id i)) shares
      in \<lparr>cl_all_claimed = all_claimed,
          cl_can_close = (\<not> in_flight \<and> (all_claimed \<or> length shares = 1))\<rparr>)"

datatype reach_notice = Heir_Unreachable | Heir_Unconfirmed

definition heir_reach_notice :: "vault_view option \<Rightarrow> reach_notice option" where
  "heir_reach_notice vault =
     (case vault of
        None \<Rightarrow> None
      | Some v \<Rightarrow>
          if vv_status v \<in> {''claimed'', ''claiming'', ''timelock_started''} then None
          else if vv_heir_reachability v = Some ''unreachable'' then Some Heir_Unreachable
          else if vv_heir_reachability v = Some ''unconfirmed'' \<and> \<not> truthy (vv_drill_started_at v)
          then Some Heir_Unconfirmed
          else None)"

section \<open>Short texts\<close>

definition plural :: "int \<Rightarrow> jstr \<Rightarrow> jstr" where
  "plural n unit = show_int n @ '' '' @ unit @ (if n = 1 then [] else ''s'')"

text \<open>\<open>Math.round(a / b)\<close> for integers: half is rounded up.\<close>

definition round_div :: "int \<Rightarrow> int \<Rightarrow> int" where
  "round_div a b = (2 * a + b) div (2 * b)"

definition pretty_blocks :: "int \<Rightarrow> jstr" where
  "pretty_blocks blocks =
     (let days = round_div (blocks * 10) 1440
      in if days \<ge> 30 then plural (round_div days 30) ''month'' else plural days ''day'')"

definition pretty_seconds :: "int \<Rightarrow> jstr" where
  "pretty_seconds secs =
     (if secs < 60 then plural secs ''second''
      else if secs < 3600 then plural (round_div secs 60) ''minute''
      else plural (round_div secs 3600) ''hour'')"

definition human_ago :: "int \<Rightarrow> int \<Rightarrow> jstr" where
  "human_ago then_ms now =
     (let ms = now - then_ms
      in if ms < 0 then ''moments ago''
         else if ms < 60000 then ''moments ago''
         else if ms < 3600000 then plural (ms div 60000) ''minute'' @ '' ago''
         else if ms < 86400000 then plural (ms div 3600000) ''hour'' @ '' ago''
         else plural (ms div 86400000) ''day'' @ '' ago'')"

text \<open>\<open>Math.max(0, Math.ceil(left / day))\<close>, the days of the alarm and the frozen banner.\<close>

definition days_left :: "int \<Rightarrow> int \<Rightarrow> int" where
  "days_left due now = max 0 (- ((now - due) div (24 * 3600 * 1000)))"

definition short_addr :: "jstr \<Rightarrow> jstr" where
  "short_addr s = (if s = [] then [] else if length s \<le> 12 then s
     else take 4 s @ ''...'' @ drop (length s - 4) s)"

section \<open>Titles of events (ui.tsx)\<close>

definition event_titles :: "(jstr \<times> jstr) list" where
  "event_titles =
     [(''registered'', ''Share activated''), (''checkin'', ''Checked in''),
      (''warning'', ''Reminder due soon''), (''pre_deadline_reminder'', ''Reminder sent''),
      (''alarm'', ''Missed check-in''), (''resolved'', ''Back on track''),
      (''lightning_invoice_issued'', ''Check-in invoice created''), (''owner_send'', ''You sent Bitcoin''),
      (''vault_empty'', ''Share is empty''), (''received'', ''You received Bitcoin''),
      (''funds_spent'', ''Bitcoin left this share''), (''owner_contact_verified'', ''Email confirmed''),
      (''timelock_started'', ''Waiting period started''), (''claim_issued'', ''Claim link sent to your heir''),
      (''claim_opened'', ''Your heir opened the claim link''),
      (''claim_psbt_built'', ''Your heir prepared the transaction''),
      (''claim_broadcast'', ''Your heir broadcast the claim''), (''claim_ready'', ''Your heir can now claim''),
      (''claim_resolved'', ''Your heir opened the claim page''), (''panic_activated'', ''Emergency freeze on''),
      (''panic_expired'', ''Emergency freeze ended''),
      (''activation_held'', ''Waiting for your email confirmation''), (''drill_started'', ''Practice claim sent''),
      (''drill_opened'', ''Your heir opened the practice link''),
      (''drill_completed'', ''Your heir completed the practice claim'')]"

text \<open>\<open>replace(/^\w/, upper)\<close>: only letters of the ASCII range change.\<close>

definition upper_first :: "jstr \<Rightarrow> jstr" where
  "upper_first s = (case s of [] \<Rightarrow> []
     | c # cs \<Rightarrow> (if CHR ''a'' \<le> c \<and> c \<le> CHR ''z'' then char_of (of_char c - 32 :: nat) else c) # cs)"

definition friendly_event_kind :: "jstr \<Rightarrow> jstr" where
  "friendly_event_kind kind =
     (case map_of event_titles kind of
        Some t \<Rightarrow> t
      | None \<Rightarrow> upper_first (map (\<lambda>c. if c = CHR ''_'' then CHR '' '' else c) kind))"

section \<open>The activity page (ActivityPage.tsx)\<close>

definition explorer_links :: "jstr \<Rightarrow> jstr \<Rightarrow> (jstr \<times> jstr) list" where
  "explorer_links network txid =
     (let n = js_lower network
      in if n = ''bitcoin'' \<or> n = ''mainnet''
         then [(''mempool.space'', ''https://mempool.space/tx/'' @ txid),
               (''Blockstream'', ''https://blockstream.info/tx/'' @ txid)]
         else if n = ''testnet''
         then [(''mempool.space'', ''https://mempool.space/testnet/tx/'' @ txid),
               (''Blockstream'', ''https://blockstream.info/testnet/tx/'' @ txid)]
         else if n = ''signet'' then [(''mempool.space'', ''https://mempool.space/signet/tx/'' @ txid)]
         else [])"

text \<open>\<open>JSON.parse\<close> keeps the last of two fields of one name.\<close>

definition detail_of :: "vault_event \<Rightarrow> (jstr \<times> json) list" where
  "detail_of e = (case ve_detail e of JObj kvs \<Rightarrow> rev kvs | _ \<Rightarrow> [])"

definition num_field :: "(jstr \<times> json) list \<Rightarrow> jstr \<Rightarrow> int option" where
  "num_field d k = (case map_of d k of Some (JInt n) \<Rightarrow> Some n | _ \<Rightarrow> None)"

definition str_field :: "(jstr \<times> json) list \<Rightarrow> jstr \<Rightarrow> jstr option" where
  "str_field d k = (case map_of d k of Some (JStr s) \<Rightarrow> if s = [] then None else Some s | _ \<Rightarrow> None)"

definition detail_line :: "vault_event \<Rightarrow> jstr option" where
  "detail_line e =
     (let d = detail_of e; kind = ve_kind e
      in if kind = ''received'' then map_option (\<lambda>a. format_btc a @ '' in'') (num_field d ''amount_sat'')
         else if kind = ''funds_spent'' then map_option (\<lambda>a. format_btc a @ '' out'') (num_field d ''amount_sat'')
         else if kind = ''owner_send''
         then (case num_field d ''sent_sat'' of
                 None \<Rightarrow> None
               | Some sent \<Rightarrow>
                   (case num_field d ''remaining_sat'' of
                      Some left \<Rightarrow> Some (''Sent '' @ format_btc sent @ [CHR '' '', CHR 0xB7, CHR '' ''] @ format_btc left @ '' left'')
                    | None \<Rightarrow> Some (''Sent '' @ format_btc sent)))
         else if kind \<in> {''checkin'', ''panic_activated''}
         then (if str_field d ''source'' = Some ''lightning'' then Some ''via Lightning'' else None)
         else if kind \<in> {''claim_broadcast'', ''claim_psbt_built''}
         then map_option (\<lambda>t. format_btc t @ '' claimed'') (num_field d ''total_input_sats'')
         else None)"

definition txid_of :: "vault_event \<Rightarrow> jstr option" where
  "txid_of e = str_field (detail_of e) ''txid''"

datatype dot = Dot_Ok | Dot_Alarm | Dot_Warning

definition dot_class :: "jstr \<Rightarrow> dot" where
  "dot_class kind =
     (if kind \<in> {''checkin'', ''resolved'', ''received'', ''drill_completed''} then Dot_Ok
      else if kind = ''alarm'' then Dot_Alarm else Dot_Warning)"

text \<open>\<open>formatWhen\<close>; rendering a readable instant is the browser's.\<close>

definition format_when :: "(jstr \<Rightarrow> int option) \<Rightarrow> (int \<Rightarrow> jstr) \<Rightarrow> jstr \<Rightarrow> jstr" where
  "format_when date_time render w = (case date_time w of None \<Rightarrow> w | Some t \<Rightarrow> render t)"

text \<open>The group of a vault, as every page memoises it.\<close>

definition group_vaults :: "jstr comparator \<Rightarrow> vault_meta option \<Rightarrow> device \<Rightarrow> vault_meta list" where
  "group_vaults lc meta d =
     (case meta of
        None \<Rightarrow> []
      | Some m \<Rightarrow> if \<not> truthy (vm_group_id m) then [m] else get_vaults_by_group lc (vm_group_id m) d)"

text \<open>The requests of the owner's pages, as the server answers them.\<close>

record home_net =
  hn_vault :: "jstr \<Rightarrow> jstr option \<Rightarrow> (thrown, vault_view) throws"
  hn_events :: "jstr \<Rightarrow> jstr option \<Rightarrow> (thrown, vault_event list) throws"

text \<open>One heir's events: none when the request fails.\<close>

definition heir_events :: "home_net \<Rightarrow> device \<Rightarrow> vault_meta \<Rightarrow> activity_event list" where
  "heir_events N d g =
     (case hn_events N (vm_id g) (get_vault_owner_token (vm_id g) d) of
        Inr evs \<Rightarrow> map (with_heir (hi_name (vm_heir g))) evs
      | Inl _ \<Rightarrow> [])"

text \<open>The page's load: the network for the explorer links, and all events, newest first.\<close>

definition activity_load :: "home_net \<Rightarrow> jstr comparator \<Rightarrow> device \<Rightarrow> jstr \<times> activity_event list" where
  "activity_load N lc d =
     (let active = get_active_vault_id d
      in if \<not> truthy active then ([], [])
         else (let i = the active; group = group_vaults lc (get_vault_meta i d) d
               in (case hn_vault N i (get_vault_owner_token i d) of Inr v \<Rightarrow> vv_network v | Inl _ \<Rightarrow> [],
                   js_sort (key ve_created_at (reversed lc)) (concat (map (heir_events N d) group)))))"

section \<open>What the texts say\<close>

lemma with_heir_fields [simp]:
  "ve_id (with_heir n e) = ve_id e" "ve_vault_id (with_heir n e) = ve_vault_id e"
  "ve_kind (with_heir n e) = ve_kind e" "ve_detail (with_heir n e) = ve_detail e"
  "ve_created_at (with_heir n e) = ve_created_at e" "ae_heir_name (with_heir n e) = Some n"
  by (simp_all add: with_heir_def vault_event.defs activity_event.defs)

text \<open>No title shows a database code: an event the table does not name loses its underscores.\<close>

lemma event_titles_plain: "list_all (\<lambda>(k, t). CHR ''_'' \<notin> set t) event_titles"
  by (simp add: event_titles_def)

lemma upper_first_plain: "CHR ''_'' \<notin> set s \<Longrightarrow> CHR ''_'' \<notin> set (upper_first s)"
proof (cases s)
  case (Cons c cs)
  assume "CHR ''_'' \<notin> set s"
  moreover have "char_of (of_char c - 32 :: nat) \<noteq> CHR ''_''" if "CHR ''a'' \<le> c" "c \<le> CHR ''z''"
  proof
    assume "char_of (of_char c - 32 :: nat) = CHR ''_''"
    then have "of_char (char_of (of_char c - 32 :: nat)) = (of_char (CHR ''_'') :: nat)" by simp
    moreover have "(of_char c :: nat) \<le> 122" using that(2) by (simp add: less_eq_char_def)
    ultimately show False by simp
  qed
  ultimately show ?thesis using Cons by (auto simp: upper_first_def)
qed (simp add: upper_first_def)

theorem no_code_shown: "CHR ''_'' \<notin> set (friendly_event_kind kind)"
proof (cases "map_of event_titles kind")
  case None
  then show ?thesis by (auto simp: friendly_event_kind_def intro!: upper_first_plain)
next
  case (Some t)
  then have "(kind, t) \<in> set event_titles" by (rule map_of_SomeD)
  then show ?thesis using event_titles_plain Some by (auto simp: friendly_event_kind_def list_all_iff)
qed

text \<open>The days of the banners are rounded up: from one millisecond on they claim a whole day more
  than is sure, and they are 0 exactly when the instant has passed.\<close>

theorem days_left_exact:
  "days_left due now = (if due \<le> now then 0 else (due - now + 86399999) div 86400000)"
  "due - now \<le> days_left due now * 86400000"
  by (auto simp: days_left_def max_def; presburger)+

text \<open>The ages of \<open>humanAgo\<close> are whole units, never more than the age.\<close>

theorem human_ago_exact:
  "\<exists>n unit w. (unit, w) \<in> set [(''minute'', 60000), (''hour'', 3600000), (''day'', 86400000 :: int)]
     \<and> n * w \<le> now - t \<and> now - t < (n + 1) * w \<and> 1 \<le> n \<and> human_ago t now = plural n unit @ '' ago''"
  if "60000 \<le> now - t"
proof -
  define ms where "ms = now - t"
  define unit where "unit = (if ms < 3600000 then ''minute'' else if ms < 86400000 then ''hour'' else ''day'')"
  define w where "w = (if ms < 3600000 then 60000 else if ms < 86400000 then 3600000 else 86400000 :: int)"
  have "w > 0" "w \<le> ms" using that by (simp_all add: w_def ms_def)
  moreover have "ms = ms div w * w + ms mod w" by simp
  ultimately have "ms div w * w \<le> ms" "ms < (ms div w + 1) * w" "1 \<le> ms div w"
    using pos_mod_bound [of w ms] pos_mod_sign [of w ms] pos_imp_zdiv_pos_iff [of w ms]
    unfolding distrib_right by linarith+
  moreover have "human_ago t now = plural (ms div w) unit @ '' ago''"
    using that by (simp add: human_ago_def Let_def unit_def w_def ms_def)
  moreover have "(unit, w) \<in> set [(''minute'', 60000), (''hour'', 3600000), (''day'', 86400000)]"
    by (simp add: unit_def w_def)
  ultimately show ?thesis unfolding ms_def by blast
qed

end
