(* ===== verification/Owner_Home.thy ===== *)
theory Owner_Home
  imports Owner_Views App_Shell
begin

text \<open>
  The dashboard of an owner (ghostkey-web/src/Dashboard.tsx): what it reads when it is mounted, its
  refresh, the check-in of a whole group, the removal of one heir, the closing of the vault, and what
  it shows and offers in each state. A handler runs from its call to its end without another in
  between; a page reload is a new mount. The server's answers are arguments.
\<close>

section \<open>State\<close>

datatype empty_reason = Removed | Gone | Closed

text \<open>The first four fields are memoised when the page is mounted.\<close>

record dashboard =
  db_active :: "jstr option"
  db_meta :: "vault_meta option"
  db_token :: "jstr option"
  db_group :: "vault_meta list"
  db_vault :: "vault_view option"
  db_events :: "activity_event list"
  db_busy :: bool
  db_error :: "jstr option"
  db_just_checked :: bool
  db_lightning_enabled :: bool
  db_demo :: bool
  db_lightning_open :: bool
  db_add_heir_open :: bool
  db_close_open :: bool
  db_share_status :: "jstr obj"
  db_emptied :: "empty_reason option"
  db_push_key :: "jstr option"

definition mount_dashboard :: "jstr comparator \<Rightarrow> device \<Rightarrow> dashboard" where
  "mount_dashboard lc d =
     (let active = get_active_vault_id d;
          meta = (if truthy active then get_vault_meta (the active) d else None)
      in \<lparr>db_active = active, db_meta = meta,
          db_token = (if truthy active then get_vault_owner_token (the active) d else None),
          db_group = group_vaults lc meta d, db_vault = None, db_events = [], db_busy = False,
          db_error = None, db_just_checked = False, db_lightning_enabled = False, db_demo = False,
          db_lightning_open = False, db_add_heir_open = False, db_close_open = False,
          db_share_status = [], db_emptied = None, db_push_key = None\<rparr>)"

text \<open>The probe of \<open>/health\<close>: what the page keeps of the reply.\<close>

record health_view =
  hv_lightning_enabled :: "bool option"
  hv_demo_mode :: "bool option"
  hv_push_public_key :: "jstr option"

definition on_health :: "(thrown, health_view) throws \<Rightarrow> dashboard \<Rightarrow> dashboard" where
  "on_health reply s =
     (case reply of
        Inr h \<Rightarrow> s\<lparr>db_lightning_enabled := hv_lightning_enabled h = Some True,
                   db_demo := hv_demo_mode h = Some True, db_push_key := hv_push_public_key h\<rparr>
      | Inl _ \<Rightarrow> s\<lparr>db_lightning_enabled := False, db_demo := False, db_push_key := None\<rparr>)"

section \<open>Refresh\<close>

definition heir_status :: "home_net \<Rightarrow> jstr \<Rightarrow> vault_view \<Rightarrow> device \<Rightarrow> vault_meta \<Rightarrow> jstr option" where
  "heir_status N active v d g =
     (if vm_id g = active then Some (vv_status v)
      else (case hn_vault N (vm_id g) (get_vault_owner_token (vm_id g) d) of
              Inr sv \<Rightarrow> Some (vv_status sv)
            | Inl _ \<Rightarrow> None))"

definition record_status :: "jstr \<times> jstr option \<Rightarrow> jstr obj \<Rightarrow> jstr obj" where
  "record_status p m = (if truthy (snd p) then obj_set (fst p) (the (snd p)) m else m)"

definition sign_in_text :: jstr where
  "sign_in_text = ''Sign in with your email and password to open this vault.''"

definition refresh :: "home_net \<Rightarrow> jstr comparator \<Rightarrow> dashboard \<Rightarrow> device \<Rightarrow> dashboard \<times> device" where
  "refresh N lc s d =
     (if \<not> truthy (db_active s) then (s, d)
      else (let i = the (db_active s)
            in case hn_vault N i (db_token s) of
                 Inr v \<Rightarrow>
                   (s\<lparr>db_vault := Some v,
                      db_events := js_sort (key ve_created_at lc) (concat (map (heir_events N d) (db_group s))),
                      db_share_status :=
                        fold record_status (map (\<lambda>g. (vm_id g, heir_status N i v d g)) (db_group s)) []\<rparr>, d)
               | Inl e \<Rightarrow>
                   if thrown_status e = Some 401 then (s\<lparr>db_error := Some sign_in_text\<rparr>, d)
                   else if thrown_status e = Some 404
                   then (s\<lparr>db_emptied := Some Gone\<rparr>, fst (remove_vault_meta i d))
                   else (s, d)))"

section \<open>Checking in\<close>

definition already_checked_text :: jstr where
  "already_checked_text =
     ''Already checked in this period. Your next check-in opens when the current cycle ends.''"

text \<open>One attempt: the request is recorded, and every failure becomes a value.\<close>

definition checkin_outcome :: "thrown option \<Rightarrow> checkin_attempt" where
  "checkin_outcome r =
     (case r of None \<Rightarrow> CheckedIn
      | Some e \<Rightarrow> if thrown_status e = Some 409 then Skipped else AttemptError (string_of_error e))"

definition home_attempt :: "(call \<Rightarrow> thrown option) \<Rightarrow> device \<Rightarrow> (call list, thrown) attempt" where
  "home_attempt send d i w =
     (let c = Checkin i (get_vault_owner_token i d) in (Inr (checkin_outcome (send c)), w @ [c]))"

definition after_checkin :: "fan_out_tally \<Rightarrow> dashboard \<Rightarrow> dashboard" where
  "after_checkin t s =
     (if t_checked_in t > 0 then s\<lparr>db_just_checked := True\<rparr>
      else if truthy (t_hard_error t) then s\<lparr>db_error := t_hard_error t\<rparr>
      else if t_skipped t > 0 then s\<lparr>db_error := Some already_checked_text\<rparr>
      else s)"

definition on_checkin :: "home_net \<Rightarrow> (call \<Rightarrow> thrown option) \<Rightarrow> jstr comparator \<Rightarrow> dashboard \<Rightarrow> device
    \<Rightarrow> (dashboard \<times> device) \<times> call list" where
  "on_checkin N send lc s d =
     (if db_vault s = None then ((s, d), [])
      else (case fan_out_checkin (map vm_id (db_group s)) (home_attempt send d) [] of
              (Inl e, w) \<Rightarrow> ((s\<lparr>db_error := Some (string_of_error e), db_busy := False\<rparr>, d), w)
            | (Inr t, w) \<Rightarrow>
                (case refresh N lc (s\<lparr>db_busy := True, db_error := None\<rparr>) d of
                   (s1, d1) \<Rightarrow> (((after_checkin t s1)\<lparr>db_busy := False\<rparr>, d1), w))))"

text \<open>Four seconds after a check-in the page's thanks end.\<close>

definition thanks_over :: "dashboard \<Rightarrow> dashboard" where
  "thanks_over s = s\<lparr>db_just_checked := False\<rparr>"

section \<open>Removing one heir\<close>

definition no_credential_text :: jstr where
  "no_credential_text =
     ''This browser doesn'' @ [CHR 0x27] @ ''t have the owner credential for that heir. Sign in first.''"

text \<open>Where a handler leaves the page: its state, the device, the requests, and whether it reloads.\<close>

record home_result =
  hr_page :: dashboard
  hr_dev :: device
  hr_calls :: "call list"
  hr_reload :: bool

definition stay :: "dashboard \<Rightarrow> device \<Rightarrow> call list \<Rightarrow> home_result" where
  "stay s d w = \<lparr>hr_page = s, hr_dev = d, hr_calls = w, hr_reload = False\<rparr>"

definition reload_on :: "jstr \<Rightarrow> dashboard \<Rightarrow> device \<Rightarrow> call list \<Rightarrow> home_result" where
  "reload_on i s d w =
     \<lparr>hr_page = s, hr_dev = set_active_vault_id (Some i) d, hr_calls = w, hr_reload = has_window d\<rparr>"

text \<open>A 404 counts as deleted.\<close>

definition delete_refused :: "thrown option \<Rightarrow> bool" where
  "delete_refused r = (case r of None \<Rightarrow> False | Some e \<Rightarrow> thrown_status e \<noteq> Some 404)"

text \<open>What a page does when its group is gone: another vault of the device, or the empty page.\<close>

definition leave_for :: "jstr comparator \<Rightarrow> empty_reason \<Rightarrow> dashboard \<Rightarrow> device \<Rightarrow> call list \<Rightarrow> home_result" where
  "leave_for lc reason s d w =
     (case get_all_vault_metas lc d of
        [] \<Rightarrow> stay (s\<lparr>db_emptied := Some reason\<rparr>) d w
      | m # _ \<Rightarrow> reload_on (vm_id m) s d w)"

definition on_remove_heir :: "(call \<Rightarrow> thrown option) \<Rightarrow> jstr comparator \<Rightarrow> bool \<Rightarrow> jstr \<Rightarrow> dashboard \<Rightarrow> device
    \<Rightarrow> home_result" where
  "on_remove_heir send lc confirmed i s d =
     (let token = get_vault_owner_token i d
      in if \<not> truthy token then stay (s\<lparr>db_error := Some no_credential_text\<rparr>) d []
         else if \<not> confirmed then stay s d []
         else
           (let c = DeleteVault i (the token)
            in if delete_refused (send c)
               then stay (s\<lparr>db_error := Some (string_of_error (the (send c)))\<rparr>) d [c]
               else
                 (let d' = fst (remove_vault_meta i d)
                  in case filter (\<lambda>v. vm_id v \<noteq> i) (db_group s) of
                       [] \<Rightarrow> leave_for lc Removed s d' [c]
                     | v # _ \<Rightarrow> reload_on (vm_id v) s d' [c])))"

section \<open>Closing the vault\<close>

definition group_tokens :: "vault_meta list \<Rightarrow> device \<Rightarrow> (vault_meta \<times> jstr) list" where
  "group_tokens gs d =
     concat (map (\<lambda>g. let t = get_vault_owner_token (vm_id g) d in if truthy t then [(g, the t)] else []) gs)"

definition group_missing :: "vault_meta list \<Rightarrow> device \<Rightarrow> jstr list" where
  "group_missing gs d =
     map (\<lambda>g. or_str (hi_name (vm_heir g)) ''an heir'')
       (filter (\<lambda>g. \<not> truthy (get_vault_owner_token (vm_id g) d)) gs)"

definition missing_text :: "jstr list \<Rightarrow> jstr" where
  "missing_text names =
     ''This browser doesn'' @ [CHR 0x27] @ ''t have the owner credential for '' @ join '', '' names
       @ ''. Sign in first, then close the vault.''"

definition stopped_text :: "nat \<Rightarrow> nat \<Rightarrow> vault_meta \<Rightarrow> thrown \<Rightarrow> jstr" where
  "stopped_text k n g e =
     ''Closed '' @ show_nat k @ '' of '' @ show_nat n @ '' shares, then couldn'' @ [CHR 0x27] @ ''t close ''
       @ or_str (hi_name (vm_heir g)) ''one of them'' @ '': '' @ string_of_error e @ ''. Try again to finish.''"

text \<open>The loop over the shares: the device, the count and the requests, and where it stopped.\<close>

fun close_loop :: "(call \<Rightarrow> thrown option) \<Rightarrow> (vault_meta \<times> jstr) list \<Rightarrow> nat \<Rightarrow> device \<Rightarrow> call list
    \<Rightarrow> (device \<times> nat \<times> call list) \<times> (vault_meta \<times> thrown) option" where
  "close_loop send [] n d w = ((d, n, w), None)"
| "close_loop send ((g, token) # ps) n d w =
     (let c = DeleteVault (vm_id g) token
      in if delete_refused (send c) then ((d, n, w @ [c]), Some (g, the (send c)))
         else close_loop send ps (n + 1) (fst (remove_vault_meta (vm_id g) d)) (w @ [c]))"

definition on_close_vault :: "(call \<Rightarrow> thrown option) \<Rightarrow> jstr comparator \<Rightarrow> dashboard \<Rightarrow> device \<Rightarrow> home_result" where
  "on_close_vault send lc s d =
     (let s0 = s\<lparr>db_error := None\<rparr>; pairs = group_tokens (db_group s) d; missing = group_missing (db_group s) d
      in if missing \<noteq> [] then stay (s0\<lparr>db_close_open := False, db_error := Some (missing_text missing)\<rparr>) d []
         else
           (case close_loop send pairs 0 d [] of
              ((d', n, w), Some (g, e)) \<Rightarrow>
                stay (s0\<lparr>db_busy := False, db_close_open := False,
                         db_error := Some (stopped_text n (length pairs) g e)\<rparr>) d' w
            | ((d', n, w), None) \<Rightarrow>
                leave_for lc Closed (s0\<lparr>db_busy := False, db_close_open := False\<rparr>) d' w))"

section \<open>Credentials\<close>

text \<open>The requests of a refresh.\<close>

definition refresh_calls :: "home_net \<Rightarrow> dashboard \<Rightarrow> device \<Rightarrow> call list" where
  "refresh_calls N s d =
     (if \<not> truthy (db_active s) then []
      else (let i = the (db_active s)
            in GetVault i (db_token s) #
               (case hn_vault N i (db_token s) of
                  Inl _ \<Rightarrow> []
                | Inr _ \<Rightarrow>
                    concat (map (\<lambda>g. let t = get_vault_owner_token (vm_id g) d
                                     in ListEvents (vm_id g) t #
                                        (if vm_id g = i then [] else [GetVault (vm_id g) t])) (db_group s)))))"

text \<open>The vault a request of this page is about.\<close>

fun call_vault :: "call \<Rightarrow> jstr" where
  "call_vault (GetVault i _) = i"
| "call_vault (ListEvents i _) = i"
| "call_vault (Checkin i _) = i"
| "call_vault (DeleteVault i _) = i"
| "call_vault _ = []"

text \<open>The page from its mount on, until it reloads: its state, the device and the requests so far.\<close>

inductive home_reach :: "jstr comparator \<Rightarrow> device \<Rightarrow> dashboard \<times> device \<times> call list \<Rightarrow> bool" for lc d0 where
  at_mount: "home_reach lc d0 (mount_dashboard lc d0, d0, [])"
| at_health: "home_reach lc d0 (s, d, w) \<Longrightarrow> home_reach lc d0 (on_health reply s, d, w)"
| at_refresh: "home_reach lc d0 (s, d, w) \<Longrightarrow> refresh N lc s d = (s', d') \<Longrightarrow>
    home_reach lc d0 (s', d', w @ refresh_calls N s d)"
| at_checkin: "home_reach lc d0 (s, d, w) \<Longrightarrow> on_checkin N send lc s d = ((s', d'), calls) \<Longrightarrow>
    home_reach lc d0 (s', d', w @ calls @ refresh_calls N s d)"
| at_thanks: "home_reach lc d0 (s, d, w) \<Longrightarrow> home_reach lc d0 (thanks_over s, d, w)"
| at_remove: "home_reach lc d0 (s, d, w) \<Longrightarrow> r = on_remove_heir send lc confirmed i s d \<Longrightarrow> \<not> hr_reload r \<Longrightarrow>
    home_reach lc d0 (hr_page r, hr_dev r, w @ hr_calls r)"
| at_close: "home_reach lc d0 (s, d, w) \<Longrightarrow> r = on_close_vault send lc s d \<Longrightarrow> \<not> hr_reload r \<Longrightarrow>
    home_reach lc d0 (hr_page r, hr_dev r, w @ hr_calls r)"
| at_dialog: "home_reach lc d0 (s, d, w) \<Longrightarrow>
    home_reach lc d0 (s\<lparr>db_lightning_open := a, db_add_heir_open := b, db_close_open := c\<rparr>, d, w)"

text \<open>Removing a vault from a sound store forgets its token and no other.\<close>

lemma remove_token:
  assumes "store_inv d"
  shows "get_vault_owner_token j (fst (remove_vault_meta i d)) =
     (if j = i then None else get_vault_owner_token j d)"
    and "get_vault_meta j (fst (remove_vault_meta i d)) = (if j = i then None else get_vault_meta j d)"
proof -
  have "obj_get (read_live_tokens d) i = None" if "get_vault_meta i d = None"
    using assms that by (auto simp: store_inv_def)
  then show "get_vault_owner_token j (fst (remove_vault_meta i d)) =
     (if j = i then None else get_vault_owner_token j d)"
    using remove_effect(3) [OF store_inv_good [OF assms], of i j]
    by (cases "get_vault_meta i d")
       (auto simp: remove_vault_meta_def Let_def obj_has_iff get_vault_meta_def get_vault_owner_token_def)
  show "get_vault_meta j (fst (remove_vault_meta i d)) = (if j = i then None else get_vault_meta j d)"
    using remove_effect(2) [OF store_inv_good [OF assms], of i j]
    by (cases "get_vault_meta i d") (auto simp: remove_vault_meta_def Let_def obj_has_iff get_vault_meta_def)
qed

definition forget :: "vault_meta list \<Rightarrow> device \<Rightarrow> device" where
  "forget gs d = fold (\<lambda>g d. fst (remove_vault_meta (vm_id g) d)) gs d"

lemma forget_effect:
  assumes "store_inv d"
  shows "store_inv (forget gs d)"
    and "get_vault_owner_token j (forget gs d) = (if j \<in> vm_id ` set gs then None else get_vault_owner_token j d)"
    and "get_vault_meta j (forget gs d) = (if j \<in> vm_id ` set gs then None else get_vault_meta j d)"
  using assms by (induction gs arbitrary: d) (auto simp: forget_def remove_inv remove_token)

text \<open>The loop of the closing, without its recursion.\<close>

definition accepted :: "(call \<Rightarrow> thrown option) \<Rightarrow> (vault_meta \<times> jstr) \<Rightarrow> bool" where
  "accepted send p = (\<not> delete_refused (send (DeleteVault (vm_id (fst p)) (snd p))))"

abbreviation delete_call :: "vault_meta \<times> jstr \<Rightarrow> call" where
  "delete_call p \<equiv> DeleteVault (vm_id (fst p)) (snd p)"

lemma close_loop_exact:
  "close_loop send ps n d w =
     (let k = length (takeWhile (accepted send) ps)
      in ((forget (map fst (take k ps)) d, n + k, w @ map delete_call (take (Suc k) ps)),
          if k < length ps then Some (fst (ps ! k), the (send (delete_call (ps ! k)))) else None))"
proof (induction ps arbitrary: n d w)
  case (Cons p ps)
  obtain g t where "p = (g, t)" by (cases p)
  then show ?case by (simp add: Cons.IH accepted_def Let_def forget_def)
qed (simp add: forget_def)

lemma group_tokens_all:
  "group_missing gs d = [] \<Longrightarrow>
     group_tokens gs d = map (\<lambda>g. (g, the (get_vault_owner_token (vm_id g) d))) gs"
  by (induction gs) (auto simp: group_tokens_def group_missing_def Let_def split: if_splits)

lemma group_missing_Nil:
  "group_missing gs d = [] \<longleftrightarrow> (\<forall>g \<in> set gs. truthy (get_vault_owner_token (vm_id g) d))"
  by (auto simp: group_missing_def filter_empty_conv)

subsection \<open>The check-in\<close>

definition checkin_calls :: "dashboard \<Rightarrow> device \<Rightarrow> call list" where
  "checkin_calls s d = map (\<lambda>g. Checkin (vm_id g) (get_vault_owner_token (vm_id g) d)) (db_group s)"

lemma home_attempts:
  "run_attempts (home_attempt send d) vs w =
     (map (\<lambda>i. checkin_outcome (send (Checkin i (get_vault_owner_token i d)))) vs,
      w @ map (\<lambda>i. Checkin i (get_vault_owner_token i d)) vs)"
  by (induction vs arbitrary: w) (simp_all add: home_attempt_def Let_def)

lemma home_fan_out:
  "fan_out_checkin (map vm_id gs) (home_attempt send d) [] =
     (Inr (fold tally_step (map (\<lambda>g. checkin_outcome (send (Checkin (vm_id g)
             (get_vault_owner_token (vm_id g) d)))) gs) empty_tally),
      map (\<lambda>g. Checkin (vm_id g) (get_vault_owner_token (vm_id g) d)) gs)"
proof -
  have "\<exists>out w'. home_attempt send d i w = (Inr out, w')" for i w
    by (simp add: home_attempt_def Let_def)
  from fan_out_loop_total [OF this] show ?thesis
    by (simp add: fan_out_checkin_def home_attempts o_def)
qed

lemma tally_hard_error:
  "truthy (t_hard_error (fold tally_step outs t)) =
     (truthy (t_hard_error t) \<or> filter (\<lambda>e. e \<noteq> []) (attempt_errors outs) \<noteq> [])
   \<and> (\<not> truthy (t_hard_error t) \<longrightarrow> filter (\<lambda>e. e \<noteq> []) (attempt_errors outs) \<noteq> [] \<longrightarrow>
        t_hard_error (fold tally_step outs t) = Some (hd (filter (\<lambda>e. e \<noteq> []) (attempt_errors outs))))"
proof (induction outs arbitrary: t)
  case (Cons out outs)
  show ?case
  proof (cases out)
    case (AttemptError e)
    show ?thesis
    proof (cases "truthy (t_hard_error t) \<or> e = []")
      case True
      then show ?thesis using Cons.IH [of "tally_step (AttemptError e) t"] AttemptError
        by (cases "truthy (t_hard_error t)") auto
    next
      case False
      then have "truthy (t_hard_error (tally_step (AttemptError e) t))" by simp
      from tally_keeps_error [OF this, of outs] False show ?thesis
        using Cons.IH [of "tally_step (AttemptError e) t"] AttemptError by simp
    qed
  qed (use Cons.IH [of "tally_step out t"] in simp_all)
qed (simp add: attempt_errors_def)

text \<open>What the owner is told after a tap: thanks when at least one share was checked in, else the first
  error that has a text, else that the period is covered, else nothing.\<close>

definition told_after :: "checkin_attempt list \<Rightarrow> dashboard \<Rightarrow> dashboard" where
  "told_after outs s =
     (if CheckedIn \<in> set outs then s\<lparr>db_just_checked := True\<rparr>
      else (case filter (\<lambda>e. e \<noteq> []) (attempt_errors outs) of
              e # _ \<Rightarrow> s\<lparr>db_error := Some e\<rparr>
            | [] \<Rightarrow> if Skipped \<in> set outs then s\<lparr>db_error := Some already_checked_text\<rparr> else s))"

lemma after_checkin_told: "after_checkin (fold tally_step outs empty_tally) s = told_after outs s"
proof -
  let ?t = "fold tally_step outs empty_tally"
  have c: "t_checked_in ?t > 0 \<longleftrightarrow> CheckedIn \<in> set outs" "t_skipped ?t > 0 \<longleftrightarrow> Skipped \<in> set outs"
    by (auto simp: tally_counts filter_empty_conv)
  show ?thesis using tally_hard_error [of outs empty_tally]
    by (auto simp: after_checkin_def told_after_def c split: list.split)
qed

lemma on_checkin_exact:
  assumes "db_vault s = Some v"
  shows "on_checkin N send lc s d =
     (let (s1, d1) = refresh N lc (s\<lparr>db_busy := True, db_error := None\<rparr>) d
      in (((told_after (map (checkin_outcome \<circ> send) (checkin_calls s d)) s1)\<lparr>db_busy := False\<rparr>, d1),
          checkin_calls s d))"
proof -
  obtain s1 d1 where r: "refresh N lc (s\<lparr>db_busy := True, db_error := None\<rparr>) d = (s1, d1)"
    by (cases "refresh N lc (s\<lparr>db_busy := True, db_error := None\<rparr>) d")
  show ?thesis
    by (simp add: on_checkin_def assms home_fan_out r checkin_calls_def after_checkin_told o_def)
qed

text \<open>C23: One tap reaches every share of the group: each gets exactly one request, in the order of the
  group and with its own token, whatever the others answer; then the page is refreshed, and the owner
  is told of a success if one share accepted.\<close>

theorem check_in_covers_group:
  assumes "db_vault s = Some v"
  shows "on_checkin N send lc s d =
     (let (s1, d1) = refresh N lc (s\<lparr>db_busy := True, db_error := None\<rparr>) d
      in (((told_after (map (checkin_outcome \<circ> send) (checkin_calls s d)) s1)\<lparr>db_busy := False\<rparr>, d1),
          checkin_calls s d))"
  using assms by (rule on_checkin_exact)

subsection \<open>Closing\<close>

lemma close_exact:
  fixes send :: "call \<Rightarrow> thrown option" and lc :: "jstr comparator" and s :: dashboard and d :: device
  assumes "store_inv d" "group_missing (db_group s) d = []"
  defines "pairs \<equiv> group_tokens (db_group s) d"
  defines "k \<equiv> length (takeWhile (accepted send) pairs)"
    and "r \<equiv> on_close_vault send lc s d"
  shows "map fst pairs = db_group s
     \<and> hr_calls r = map delete_call (take (Suc k) pairs)
     \<and> (\<forall>j. get_vault_owner_token j (hr_dev r) =
            (if j \<in> vm_id ` set (take k (db_group s)) then None else get_vault_owner_token j d))
     \<and> (\<forall>j. get_vault_meta j (hr_dev r) =
            (if j \<in> vm_id ` set (take k (db_group s)) then None else get_vault_meta j d))
     \<and> (k < length pairs \<longrightarrow> \<not> hr_reload r \<and> db_error (hr_page r) =
          Some (stopped_text k (length pairs) (db_group s ! k) (the (send (delete_call (pairs ! k))))))
     \<and> (k = length pairs \<longrightarrow> db_error (hr_page r) = None
          \<and> (hr_reload r \<or> db_emptied (hr_page r) = Some Closed))"
proof -
  have fst: "map fst pairs = db_group s"
    using group_tokens_all [OF assms(2)] by (simp add: pairs_def o_def)
  have kl: "k \<le> length pairs" by (simp add: k_def length_takeWhile_le)
  let ?d = "forget (take k (db_group s)) d"
  have tk: "map fst (take k pairs) = take k (db_group s)" by (simp add: take_map flip: fst)
  have nth: "k < length pairs \<Longrightarrow> fst (pairs ! k) = db_group s ! k" by (simp flip: fst)
  have inv: "store_inv ?d" by (rule forget_effect(1) [OF assms(1)])
  then have win: "has_window ?d" by (simp add: store_inv_def store_good_def storage_works_def)
  have act: "get_vault_owner_token j (set_active_vault_id a x) = get_vault_owner_token j x"
    "get_vault_meta j (set_active_vault_id a x) = get_vault_meta j x" for j a x
    by (simp_all add: get_vault_owner_token_def get_vault_meta_def store_frame)
  have loop: "close_loop send pairs 0 d [] = ((?d, k, map delete_call (take (Suc k) pairs)),
      if k < length pairs then Some (db_group s ! k, the (send (delete_call (pairs ! k)))) else None)"
    using nth by (simp add: close_loop_exact Let_def tk flip: k_def)
  have r: "r = (if k < length pairs
      then stay (s\<lparr>db_error := None, db_busy := False, db_close_open := False,
                   db_error := Some (stopped_text k (length pairs) (db_group s ! k) (the (send (delete_call (pairs ! k)))))\<rparr>)
             ?d (map delete_call (take (Suc k) pairs))
      else leave_for lc Closed (s\<lparr>db_error := None, db_busy := False, db_close_open := False\<rparr>) ?d
             (map delete_call (take (Suc k) pairs)))"
    unfolding r_def on_close_vault_def Let_def pairs_def [symmetric] loop by (simp add: assms(2))
  show ?thesis
  proof (cases "k < length pairs")
    case True
    then show ?thesis using fst forget_effect(2,3) [OF assms(1)] by (simp add: r stay_def)
  next
    case False
    then show ?thesis using fst kl forget_effect(2,3) [OF assms(1)] win
      by (auto simp: r leave_for_def stay_def reload_on_def act split: list.split)
  qed
qed

text \<open>C11: Closing the vault asks for the shares in order and stops at the first refusal. What it removed
  from the device is exactly what the server gave up; the message counts them, and every other share
  keeps its entry and its credential.\<close>

theorem close_accounting:
  fixes send :: "call \<Rightarrow> thrown option" and lc :: "jstr comparator" and s :: dashboard and d :: device
  assumes "store_inv d" "group_missing (db_group s) d = []"
  defines "pairs \<equiv> group_tokens (db_group s) d"
  defines "k \<equiv> length (takeWhile (accepted send) pairs)"
    and "r \<equiv> on_close_vault send lc s d"
  shows "map fst pairs = db_group s
     \<and> hr_calls r = map delete_call (take (Suc k) pairs)
     \<and> (\<forall>j. get_vault_owner_token j (hr_dev r) =
            (if j \<in> vm_id ` set (take k (db_group s)) then None else get_vault_owner_token j d))
     \<and> (\<forall>j. get_vault_meta j (hr_dev r) =
            (if j \<in> vm_id ` set (take k (db_group s)) then None else get_vault_meta j d))
     \<and> (k < length pairs \<longrightarrow> \<not> hr_reload r \<and> db_error (hr_page r) =
          Some (stopped_text k (length pairs) (db_group s ! k) (the (send (delete_call (pairs ! k))))))
     \<and> (k = length pairs \<longrightarrow> db_error (hr_page r) = None
          \<and> (hr_reload r \<or> db_emptied (hr_page r) = Some Closed))"
  using close_exact [OF assms(1,2), of send lc] unfolding pairs_def k_def r_def .

text \<open>After a partial closing the message says to try again, but the group of the page still lists the
  shares already closed, whose credentials are gone with them: the retry sends nothing and stops at
  those names.\<close>

theorem close_retry_blocked:
  assumes "store_inv d" "group_missing (db_group s) d = []" "db_group s = g # gs"
    and "accepted send (g, the (get_vault_owner_token (vm_id g) d))"
    and "db_error (hr_page (on_close_vault send lc s d)) \<noteq> None"
  defines "r \<equiv> on_close_vault send lc s d"
  shows "hr_page (on_close_vault send' lc (hr_page r) (hr_dev r)) =
       (hr_page r)\<lparr>db_close_open := False, db_error := Some (missing_text (group_missing (g # gs) (hr_dev r)))\<rparr>
     \<and> hr_calls (on_close_vault send' lc (hr_page r) (hr_dev r)) = []
     \<and> hr_dev (on_close_vault send' lc (hr_page r) (hr_dev r)) = hr_dev r
     \<and> or_str (hi_name (vm_heir g)) ''an heir'' \<in> set (group_missing (g # gs) (hr_dev r))"
proof -
  define k where "k = length (takeWhile (accepted send) (group_tokens (db_group s) d))"
  have pairs: "group_tokens (db_group s) d = (g, the (get_vault_owner_token (vm_id g) d)) # tl (group_tokens (db_group s) d)"
    using group_tokens_all [OF assms(2)] assms(3) by simp
  then have k: "0 < k" using assms(4) by (metis k_def takeWhile.simps(2) length_greater_0_conv list.discI)
  have "g \<in> set (take k (db_group s))" using k by (cases k) (simp_all add: assms(3))
  then have "get_vault_owner_token (vm_id g) (hr_dev r) = None"
    using close_loop_exact forget_effect(2) [OF assms(1)] k unfolding r_def k_def
    by (auto simp: on_close_vault_def Let_def assms(2) close_loop_exact leave_for_def stay_def reload_on_def
        take_map [symmetric] group_tokens_all [OF assms(2)] o_def get_vault_owner_token_def store_frame
        split: list.split)
  then have m: "or_str (hi_name (vm_heir g)) ''an heir'' \<in> set (group_missing (g # gs) (hr_dev r))"
    by (simp add: group_missing_def)
  moreover have "db_group (hr_page r) = g # gs"
    using assms(3) by (simp add: r_def on_close_vault_def Let_def stay_def leave_for_def reload_on_def
        split: list.split prod.split option.split)
  ultimately show ?thesis by (auto simp: on_close_vault_def Let_def stay_def)
qed

subsection \<open>One share's credential is never sent for another\<close>

definition home_inv :: "device \<Rightarrow> dashboard \<times> device \<times> call list \<Rightarrow> bool" where
  "home_inv d0 = (\<lambda>(s, d, w). store_inv d
     \<and> (\<forall>i t. get_vault_owner_token i d = Some t \<longrightarrow> get_vault_owner_token i d0 = Some t)
     \<and> (\<forall>t. db_token s = Some t \<longrightarrow> get_vault_owner_token (the (db_active s)) d0 = Some t)
     \<and> (\<forall>c \<in> set w. \<forall>t. call_token c = Some t \<longrightarrow> get_vault_owner_token (call_vault c) d0 = Some t))"

lemma home_inv_forget:
  "home_inv d0 (s, d, w) \<Longrightarrow> home_inv d0 (s, fst (remove_vault_meta i d), w)"
  by (auto simp: home_inv_def remove_inv remove_token split: if_splits)

lemma home_inv_page:
  "home_inv d0 (s, d, w) \<Longrightarrow> db_token s' = db_token s \<Longrightarrow> db_active s' = db_active s \<Longrightarrow> home_inv d0 (s', d, w)"
  by (simp add: home_inv_def)

lemma home_inv_calls:
  "home_inv d0 (s, d, w) \<Longrightarrow>
     (\<And>c t. c \<in> set cs \<Longrightarrow> call_token c = Some t \<Longrightarrow> get_vault_owner_token (call_vault c) d0 = Some t) \<Longrightarrow>
     home_inv d0 (s, d, w @ cs)"
  by (auto simp: home_inv_def)

lemma home_inv_activate: "home_inv d0 (s, d, w) \<Longrightarrow> home_inv d0 (s, set_active_vault_id a d, w)"
  by (auto simp: home_inv_def store_inv_def store_unfold get_vault_owner_token_def)

lemma home_inv_refresh:
  assumes "home_inv d0 (s, d, w)" "refresh N lc s d = (s', d')"
  shows "home_inv d0 (s', d', w)"
proof (cases "\<not> truthy (db_active s)")
  case False
  then show ?thesis
    using assms home_inv_forget [OF assms(1), of "the (db_active s)"]
    by (auto simp: refresh_def Let_def split: sum.splits if_splits
        intro!: home_inv_page [where s = s])
qed (use assms in \<open>simp add: refresh_def\<close>)

lemma refresh_calls_own:
  assumes "home_inv d0 (s, d, w)" "c \<in> set (refresh_calls N s d)" "call_token c = Some t"
  shows "get_vault_owner_token (call_vault c) d0 = Some t"
  using assms by (auto simp: refresh_calls_def home_inv_def Let_def split: if_splits sum.splits)

lemma home_inv_leave:
  "home_inv d0 (s, d, w) \<Longrightarrow>
     home_inv d0 (hr_page (leave_for lc reason s d cs), hr_dev (leave_for lc reason s d cs), w)"
  by (auto simp: leave_for_def stay_def reload_on_def split: list.split
      intro: home_inv_page home_inv_activate)

lemma home_inv_loop:
  "home_inv d0 (s, d, w) \<Longrightarrow> home_inv d0 (s, forget gs d, w)"
  by (induction gs arbitrary: d) (auto simp: forget_def intro: home_inv_forget)

lemma home_inv_reach: "home_reach lc d0 st \<Longrightarrow> store_inv d0 \<Longrightarrow> home_inv d0 st"
proof (induction rule: home_reach.induct)
  case at_mount
  then show ?case by (auto simp: home_inv_def mount_dashboard_def Let_def split: if_splits)
next
  case (at_health s d w reply)
  then show ?case by (auto simp: on_health_def split: sum.split intro: home_inv_page)
next
  case (at_refresh s d w N s' d')
  then have i: "home_inv d0 (s, d, w)" by simp
  from home_inv_refresh [OF i at_refresh(2)] refresh_calls_own [OF i] show ?case
    by (rule home_inv_calls)
next
  case (at_checkin s d w N send s' d' calls)
  then have i: "home_inv d0 (s, d, w)" by simp
  show ?case
  proof (cases "db_vault s")
    case None
    then have "s' = s" "d' = d" "calls = []" using at_checkin(2) by (simp_all add: on_checkin_def)
    then show ?thesis using home_inv_calls [OF i refresh_calls_own [OF i]] by simp
  next
    case (Some v)
    obtain s1 where r: "refresh N lc (s\<lparr>db_busy := True, db_error := None\<rparr>) d = (s1, d')"
      and s': "db_token s' = db_token s1" "db_active s' = db_active s1" and calls: "calls = checkin_calls s d"
      using at_checkin(2) on_checkin_exact [OF Some, of N send lc d]
      by (auto simp: told_after_def split: prod.splits list.splits if_splits)
    have "home_inv d0 (s1, d', w)"
      by (rule home_inv_refresh [OF _ r]) (rule home_inv_page [OF i]; simp)
    then have "home_inv d0 (s', d', w)" using s' by (rule home_inv_page)
    moreover have "get_vault_owner_token (call_vault c) d0 = Some t"
      if "c \<in> set calls" "call_token c = Some t" for c t
      using that i by (auto simp: calls checkin_calls_def home_inv_def)
    ultimately have "home_inv d0 (s', d', w @ calls)" by (rule home_inv_calls)
    from home_inv_calls [OF this refresh_calls_own [OF i]] show ?thesis by simp
  qed
next
  case (at_thanks s d w)
  then show ?case by (auto simp: thanks_over_def intro: home_inv_page)
next
  case (at_remove s d w r send confirmed i)
  then have i: "home_inv d0 (s, d, w)" by simp
  have own: "get_vault_owner_token (call_vault c) d0 = Some t"
    if "c \<in> set (hr_calls r)" "call_token c = Some t" for c t
    using that i at_remove(2) by (auto simp: on_remove_heir_def Let_def stay_def reload_on_def leave_for_def
        truthy_iff home_inv_def split: if_splits list.splits)
  have "home_inv d0 (hr_page r, hr_dev r, w)"
    using i home_inv_forget [OF i, of i] home_inv_leave [OF home_inv_forget [OF i, of i]]
    by (auto simp: at_remove(2) on_remove_heir_def Let_def stay_def reload_on_def
        intro: home_inv_page home_inv_activate split: list.split)
  then show ?case using own by (rule home_inv_calls)
next
  case (at_close s d w r send)
  then have i: "home_inv d0 (s, d, w)" by simp
  show ?case
  proof (cases "group_missing (db_group s) d = []")
    case False
    then show ?thesis using i at_close(2)
      by (auto simp: on_close_vault_def Let_def stay_def intro: home_inv_page)
  next
    case True
    let ?k = "length (takeWhile (accepted send) (group_tokens (db_group s) d))"
    have calls: "hr_calls r = map delete_call (take (Suc ?k) (group_tokens (db_group s) d))"
      using close_exact [of d s send lc] True i by (simp add: at_close(2) home_inv_def)
    have tok: "get_vault_owner_token (vm_id (fst p)) d0 = Some (snd p)"
      if "p \<in> set (group_tokens (db_group s) d)" for p
      using that i True by (auto simp: group_tokens_all group_missing_Nil truthy_iff home_inv_def)
    have own: "get_vault_owner_token (call_vault c) d0 = Some t"
      if "c \<in> set (hr_calls r)" "call_token c = Some t" for c t
      using that tok by (auto simp: calls dest: in_set_takeD)
    have "home_inv d0 (s\<lparr>db_error := None, db_busy := False, db_close_open := False\<rparr>,
        forget (map fst (take ?k (group_tokens (db_group s) d))) d, w)"
      by (rule home_inv_page [OF home_inv_loop [OF i]]) simp_all
    from home_inv_leave [OF this] home_inv_page [OF this] have "home_inv d0 (hr_page r, hr_dev r, w)"
      by (auto simp: at_close(2) on_close_vault_def Let_def True close_loop_exact stay_def)
    then show ?thesis using own by (rule home_inv_calls)
  qed
next
  case (at_dialog s d w a b c)
  then show ?case by (auto intro: home_inv_page)
qed


section \<open>A group of two\<close>

definition home_device :: device where
  "home_device = sample_device [(''a'', sample_meta ''a'' ''g''), (''b'', sample_meta ''b'' ''g'')]
     [(''a'', ''ta''), (''b'', ''tb'')]"

definition home_page :: dashboard where
  "home_page = (mount_dashboard default home_device)\<lparr>db_group := [sample_meta ''a'' ''g'', sample_meta ''b'' ''g'']\<rparr>"

text \<open>A server that answers every request but the second deletion.\<close>

definition second_refused :: "call \<Rightarrow> thrown option" where
  "second_refused c = (case c of DeleteVault i t \<Rightarrow> if i = ''b'' then Some (Js_Error ''offline'') else None | _ \<Rightarrow> None)"

definition net_down :: home_net where
  "net_down = \<lparr>hn_vault = (\<lambda>i t. Inl (Js_Error ''offline'')), hn_events = (\<lambda>i t. Inl (Js_Error ''offline''))\<rparr>"

definition sample_vault_view :: vault_view where
  "sample_vault_view = \<lparr>vv_id = ''a'', vv_label = None, vv_network = ''bitcoin'', vv_timelock_blocks = 4320,
     vv_checkin_period_secs = 2592000, vv_grace_period_secs = 604800, vv_status = ''ok'',
     vv_created_at = ''2026'', vv_last_checkin_at = None, vv_next_deadline_at = ''2026'',
     vv_claim_eligible_at = None, vv_panic_frozen_until = None, vv_lnurl_checkin = None, vv_lnurl_panic = None,
     vv_owner_contact_verified = None, vv_activation_held = None, vv_heir_reachability = None,
     vv_has_trusted_contact = None, vv_descriptor_external = None, vv_descriptor_internal = None,
     vv_unlock_eta = None, vv_drill_started_at = None, vv_drill_opened_at = None, vv_drill_completed_at = None\<rparr>"

lemma home_tokens [simp]:
  "get_vault_owner_token ''a'' home_device = Some ''ta''"
  "get_vault_owner_token ''b'' home_device = Some ''tb''"
  by (simp_all add: home_device_def get_vault_owner_token_def obj_get_def)

lemma home_device_inv: "store_inv home_device"
  by (auto simp: store_inv_def store_good_def home_device_def obj_ok_def get_vault_meta_def obj_get_def
      sample_meta_def split: if_splits)

lemma home_page_group [simp]: "db_group home_page = [sample_meta ''a'' ''g'', sample_meta ''b'' ''g'']"
  by (simp add: home_page_def)

lemma sample_meta_id [simp]: "vm_id (sample_meta i g) = i"
  by (simp add: sample_meta_def)

lemma home_group [simp]:
  "group_missing [sample_meta ''a'' ''g'', sample_meta ''b'' ''g''] home_device = []"
  "group_tokens [sample_meta ''a'' ''g'', sample_meta ''b'' ''g''] home_device =
     [(sample_meta ''a'' ''g'', ''ta''), (sample_meta ''b'' ''g'', ''tb'')]"
  by (simp_all add: group_missing_def group_tokens_def)

lemma home_complete: "group_missing (db_group home_page) home_device = []"
  by simp

theorem check_in_covers_group_witness:
  "snd (on_checkin net_down second_refused default (home_page\<lparr>db_vault := Some sample_vault_view\<rparr>) home_device) =
     [Checkin ''a'' (Some ''ta''), Checkin ''b'' (Some ''tb'')]"
proof -
  have "checkin_calls (home_page\<lparr>db_vault := Some sample_vault_view\<rparr>) home_device =
      [Checkin ''a'' (Some ''ta''), Checkin ''b'' (Some ''tb'')]"
    by (simp add: checkin_calls_def)
  with check_in_covers_group [of "home_page\<lparr>db_vault := Some sample_vault_view\<rparr>" sample_vault_view net_down
      second_refused default home_device] show ?thesis
    by (simp split: prod.splits)
qed

theorem close_accounting_witness:
  "hr_calls (on_close_vault second_refused default home_page home_device) =
     [DeleteVault ''a'' ''ta'', DeleteVault ''b'' ''tb'']
   \<and> get_vault_owner_token ''a'' (hr_dev (on_close_vault second_refused default home_page home_device)) = None
   \<and> get_vault_owner_token ''b'' (hr_dev (on_close_vault second_refused default home_page home_device)) = Some ''tb''"
  using close_accounting [OF home_device_inv home_complete, of second_refused default]
  by (simp add: accepted_def second_refused_def delete_refused_def)

theorem close_retry_blocked_witness:
  "hr_calls (on_close_vault (\<lambda>_. None) default
     (hr_page (on_close_vault second_refused default home_page home_device))
     (hr_dev (on_close_vault second_refused default home_page home_device))) = []"
proof -
  have "accepted second_refused (sample_meta ''a'' ''g'', the (get_vault_owner_token (vm_id (sample_meta ''a'' ''g'')) home_device))"
    by (simp add: accepted_def second_refused_def delete_refused_def)
  moreover have "db_error (hr_page (on_close_vault second_refused default home_page home_device)) \<noteq> None"
    by (simp add: on_close_vault_def Let_def second_refused_def delete_refused_def stay_def)
  ultimately show ?thesis
    using close_retry_blocked [OF home_device_inv home_complete home_page_group] by blast
qed


end
