(* ===== verification/Server_Auth.thy ===== *)
theory Server_Auth
  imports Owner_Home
begin

text \<open>
  The server's check of an owner's token (crates/ghostkey-server/src/auth.rs, crypto.rs) beside what the dashboard
  (ghostkey-web/src/Dashboard.tsx) expects of it: the header the client writes is the one the server reads, and a share
  the server does not have is refused like a wrong token, not reported as missing. The hash of a token is an argument.
\<close>

section \<open>The server's side\<close>

datatype auth_error = Missing_Header | Unauthorized

text \<open>A header value is text when its characters are visible ASCII, blanks or tabs.\<close>

definition header_char :: "char \<Rightarrow> bool" where
  "header_char c = (c = CHR 0x09 \<or> 32 \<le> (of_char c :: nat) \<and> (of_char c :: nat) < 127)"

definition blank :: "char \<Rightarrow> bool" where
  "blank c = (c = CHR 0x09 \<or> c = CHR 0x20)"

definition trim_blank :: "jstr \<Rightarrow> jstr" where
  "trim_blank s = rev (dropWhile blank (rev (dropWhile blank s)))"

definition bearer_token :: "jstr option \<Rightarrow> (auth_error, jstr) throws" where
  "bearer_token header =
     (case header of
        None \<Rightarrow> Inl Missing_Header
      | Some raw \<Rightarrow>
          if \<not> list_all header_char raw \<or> \<not> prefix ''Bearer '' raw then Inl Missing_Header
          else (let token = trim_blank (drop 7 raw) in if token = [] then Inl Missing_Header else Inr token))"

text \<open>\<open>rows\<close> is the column of token hashes: no row, a row without a hash, a row with one.\<close>

definition owner_auth :: "bool \<Rightarrow> (jstr \<Rightarrow> jstr option option) \<Rightarrow> (jstr \<Rightarrow> jstr) \<Rightarrow> jstr \<Rightarrow> jstr option
    \<Rightarrow> (auth_error, jstr) throws" where
  "owner_auth auth_disabled rows hash_token vault_id header =
     (if auth_disabled then Inr vault_id
      else and_then (bearer_token header) (\<lambda>token.
        case rows vault_id of
          None \<Rightarrow> Inl Unauthorized
        | Some None \<Rightarrow> Inl Unauthorized
        | Some (Some stored_hash) \<Rightarrow> if hash_token token = stored_hash then Inr vault_id else Inl Unauthorized))"

definition auth_reply :: "auth_error \<Rightarrow> api_reply" where
  "auth_reply e =
     \<lparr>ar_status = 401, ar_status_text = ''Unauthorized'',
      ar_text = json_stringify (JObj [(''error'', JStr (case e of
        Missing_Header \<Rightarrow> ''missing or malformed Authorization header'' | Unauthorized \<Rightarrow> ''unauthorized''))])\<rparr>"

section \<open>What the client makes of it\<close>

text \<open>The outcome of the check for a request of the client.\<close>

definition call_checked :: "(jstr \<Rightarrow> jstr option option) \<Rightarrow> (jstr \<Rightarrow> jstr) \<Rightarrow> jstr \<Rightarrow> call \<Rightarrow> (auth_error, jstr) throws" where
  "call_checked rows hash_token base c =
     owner_auth False rows hash_token (call_vault c) (obj_get (hm_headers (request_message base c)) ''authorization'')"

definition refusal :: "auth_error \<Rightarrow> thrown" where
  "refusal e = (case read_reply (auth_reply e) of Inl t \<Rightarrow> t | Inr _ \<Rightarrow> Js_Error [])"

text \<open>The client's view of a server that checks tokens: what it answers to a request it accepts is the argument.\<close>

definition checked_net :: "(jstr \<Rightarrow> jstr option option) \<Rightarrow> (jstr \<Rightarrow> jstr) \<Rightarrow> jstr \<Rightarrow> home_net \<Rightarrow> home_net" where
  "checked_net rows hash_token base R =
     \<lparr>hn_vault = (\<lambda>i t. case call_checked rows hash_token base (GetVault i t) of
        Inl e \<Rightarrow> Inl (refusal e) | Inr _ \<Rightarrow> hn_vault R i t),
      hn_events = (\<lambda>i t. case call_checked rows hash_token base (ListEvents i t) of
        Inl e \<Rightarrow> Inl (refusal e) | Inr _ \<Rightarrow> hn_events R i t)\<rparr>"

definition checked_send :: "(jstr \<Rightarrow> jstr option option) \<Rightarrow> (jstr \<Rightarrow> jstr) \<Rightarrow> jstr \<Rightarrow> (call \<Rightarrow> thrown option)
    \<Rightarrow> call \<Rightarrow> thrown option" where
  "checked_send rows hash_token base send c =
     (case call_checked rows hash_token base c of Inl e \<Rightarrow> Some (refusal e) | Inr _ \<Rightarrow> send c)"

lemma auth_reply_body:
  "parse_body (ar_text (auth_reply e)) = JObj [(''error'', JStr (case e of
      Missing_Header \<Rightarrow> ''missing or malformed Authorization header'' | Unauthorized \<Rightarrow> ''unauthorized''))]"
proof -
  have "json_stringify (JObj kvs) \<noteq> []" "json_parse (json_stringify (JObj kvs)) = Some (JObj kvs)" for kvs
    unfolding json_stringify_def by (simp, rule parse_written [OF good_json_escape])
  then show ?thesis by (simp add: parse_body_def auth_reply_def)
qed

lemma refusal_simps [simp]:
  "thrown_status (refusal e) = Some 401"
  "string_of_error (refusal e) =
     (case e of Missing_Header \<Rightarrow> ''missing or malformed Authorization header'' | Unauthorized \<Rightarrow> ''unauthorized'')"
proof -
  have "ar_status (auth_reply e) = 401" by (simp add: auth_reply_def)
  then show "thrown_status (refusal e) = Some 401" "string_of_error (refusal e) =
     (case e of Missing_Header \<Rightarrow> ''missing or malformed Authorization header'' | Unauthorized \<Rightarrow> ''unauthorized'')"
    by (simp_all add: refusal_def read_reply_def auth_reply_body error_field_def Let_def split: auth_error.split)
qed

section \<open>The header is read back\<close>

text \<open>A token as the server mints them: visible characters only.\<close>

definition token_text :: "jstr \<Rightarrow> bool" where
  "token_text t = (t \<noteq> [] \<and> list_all (\<lambda>c. header_char c \<and> \<not> blank c) t)"

lemma trim_visible: "list_all (\<lambda>c. header_char c \<and> \<not> blank c) t \<Longrightarrow> trim_blank t = t"
proof -
  assume "list_all (\<lambda>c. header_char c \<and> \<not> blank c) t"
  then have "\<forall>c \<in> set t. \<not> blank c" by (auto simp: list_all_iff)
  then have "dropWhile blank t = t" "dropWhile blank (rev t) = rev t"
    by (cases t; simp) (cases "rev t"; use \<open>\<forall>c \<in> set t. \<not> blank c\<close> set_rev [of t] in auto)
  then show ?thesis by (simp add: trim_blank_def)
qed

lemma sent_header:
  "obj_get (hm_headers (request_message base c)) ''authorization'' =
     (if truthy (call_token c) then Some (''Bearer '' @ the (call_token c)) else None)"
  by (simp add: headers_of auth_headers_def obj_get_def)

lemma bearer_read_back: "token_text t \<Longrightarrow> bearer_token (Some (''Bearer '' @ t)) = Inr t"
  by (auto simp: bearer_token_def token_text_def trim_visible list_all_iff header_char_def Let_def)

text \<open>The client and the server agree on whose request it is: a request with a minted token passes the check exactly
  when the server has the vault with the hash of that token, and one without a token never does.\<close>

theorem token_check_agrees:
  assumes "call_vault c \<noteq> []" "case call_token c of Some t \<Rightarrow> t = [] \<or> token_text t | None \<Rightarrow> True"
  shows "call_checked rows hash_token base c = Inr (call_vault c) \<longleftrightarrow>
     (\<exists>t h. call_token c = Some t \<and> t \<noteq> [] \<and> rows (call_vault c) = Some (Some h) \<and> hash_token t = h)"
proof (cases "truthy (call_token c)")
  case True
  then obtain t where t: "call_token c = Some t" "t \<noteq> []" by (auto simp: truthy_iff)
  then have "bearer_token (Some (''Bearer '' @ t)) = Inr t" using assms(2) bearer_read_back by simp
  then have "call_checked rows hash_token base c = (case rows (call_vault c) of
      None \<Rightarrow> Inl Unauthorized | Some None \<Rightarrow> Inl Unauthorized
    | Some (Some h) \<Rightarrow> if hash_token t = h then Inr (call_vault c) else Inl Unauthorized)"
    by (simp add: call_checked_def owner_auth_def sent_header t del: append.simps)
  then show ?thesis using t by (auto split: option.splits)
next
  case False
  then have "call_checked rows hash_token base c = Inl Missing_Header"
    by (simp add: call_checked_def owner_auth_def sent_header bearer_token_def)
  then show ?thesis using False by auto
qed

section \<open>A share the server does not have\<close>

lemma absent_refused: "rows (call_vault c) = None \<Longrightarrow> \<exists>e. call_checked rows hash_token base c = Inl e"
  by (auto simp: call_checked_def owner_auth_def and_then_def split: sum.split)

lemma absent_delete_refused:
  "rows i = None \<Longrightarrow> delete_refused (checked_send rows hash_token base send (DeleteVault i t))"
  using absent_refused [of rows "DeleteVault i t" hash_token base]
  by (auto simp: checked_send_def delete_refused_def)

text \<open>C12: The dashboard waits for a 404 to learn that a share is gone; the server, which hides whether a share exists,
  answers 401. So a share that was removed from another device is never cleared away: a refresh asks the owner to sign in and
  keeps the entry, Remove fails and keeps it, and Close stops at it having removed only the shares before it.\<close>

theorem gone_share_stays:
  fixes R :: home_net and hash_token :: "jstr \<Rightarrow> jstr" and base :: jstr and send :: "call \<Rightarrow> thrown option"
  assumes "rows i = None"
  defines "N \<equiv> checked_net rows hash_token base R" and "S \<equiv> checked_send rows hash_token base send"
  shows "(db_active s = Some i \<and> i \<noteq> [] \<longrightarrow> refresh N lc s d = (s\<lparr>db_error := Some sign_in_text\<rparr>, d))
    \<and> hr_dev (on_remove_heir S lc confirmed i s d) = d \<and> \<not> hr_reload (on_remove_heir S lc confirmed i s d)
    \<and> (\<forall>n w g t ps. vm_id g = i \<longrightarrow>
        close_loop S ((g, t) # ps) n d w
          = ((d, n, w @ [DeleteVault i t]), Some (g, the (S (DeleteVault i t)))))"
proof (intro conjI impI allI)
  assume a: "db_active s = Some i \<and> i \<noteq> []"
  obtain e where "call_checked rows hash_token base (GetVault i (db_token s)) = Inl e"
    using absent_refused [of rows "GetVault i (db_token s)" hash_token base] assms(1) by auto
  then show "refresh N lc s d = (s\<lparr>db_error := Some sign_in_text\<rparr>, d)"
    using a by (simp add: refresh_def N_def checked_net_def)
next
  have r: "delete_refused (S (DeleteVault i t))" for t
    unfolding S_def by (rule absent_delete_refused [of rows i hash_token base send t, OF assms(1)])
  show "hr_dev (on_remove_heir S lc confirmed i s d) = d" "\<not> hr_reload (on_remove_heir S lc confirmed i s d)"
    using r by (simp_all add: on_remove_heir_def stay_def Let_def)
  fix n w t ps and g :: vault_meta assume "vm_id g = i"
  then show "close_loop S ((g, t) # ps) n d w = ((d, n, w @ [DeleteVault i t]), Some (g, the (S (DeleteVault i t))))"
    using r by (simp add: Let_def)
qed

section \<open>Concrete requests\<close>

lemma sample_token_text: "token_text ''tok''"
  by code_simp

theorem token_check_agrees_witness:
  "call_checked (\<lambda>i. if i = ''a'' then Some (Some ''kot'') else None) rev ''/api'' (Checkin ''a'' (Some ''tok'')) = Inr ''a''"
  using token_check_agrees [of "Checkin ''a'' (Some ''tok'')" "\<lambda>i. if i = ''a'' then Some (Some ''kot'') else None" rev "''/api''"]
  by (simp add: sample_token_text)

theorem gone_share_stays_witness:
  "hr_dev (on_remove_heir (checked_send (\<lambda>i. None) rev ''/api'' (\<lambda>c. None)) default True ''a''
     (mount_dashboard default unlocked_device) unlocked_device) = unlocked_device"
  using gone_share_stays [where rows = "\<lambda>i. None" and i = "''a''"] by simp

end
