(* ===== verification/Owner_Page.thy ===== *)
theory Owner_Page
  imports Owner_Home
begin

text \<open>
  What the dashboard shows and offers in each state (ghostkey-web/src/Dashboard.tsx): the flags of a
  vault past its line, the greeting, the card in the main slot, the heartbeat with its lock, the rows
  of the heir list, the banners, the links to the tools, and the card that asks for a confirmed
  e-mail. Rendering a date is the browser's and an argument.
\<close>

section \<open>Flags\<close>

record page_flags =
  pf_claiming :: bool
  pf_closed :: bool
  pf_unfunded :: bool
  pf_past :: bool

abbreviation status_is :: "vault_view option \<Rightarrow> jstr \<Rightarrow> bool" where
  "status_is vault st \<equiv> map_option vv_status vault = Some st"

text \<open>An unreadable deadline throws while the page renders.\<close>

definition page_flags_of :: "(jstr \<Rightarrow> int option) \<Rightarrow> vault_view option \<Rightarrow> int \<Rightarrow> (jstr, page_flags) throws" where
  "page_flags_of date_time vault now =
     (let claiming = status_is vault ''timelock_started'' \<or> status_is vault ''claiming'';
          closed = status_is vault ''claimed''; unfunded = status_is vault ''unfunded'';
          flags = (\<lambda>past. \<lparr>pf_claiming = claiming, pf_closed = closed, pf_unfunded = unfunded, pf_past = past\<rparr>)
      in case vault of
           None \<Rightarrow> Inr (flags False)
         | Some v \<Rightarrow>
             if unfunded then Inr (flags False)
             else if vv_status v = ''alarmed'' \<or> claiming \<or> closed then Inr (flags True)
             else and_then (parse_rfc date_time (vv_next_deadline_at v)) (\<lambda>t. Inr (flags (t < now))))"

section \<open>The greeting\<close>

definition quote_s :: jstr where "quote_s = [CHR 0x27] @ ''s''"

definition parse_opt :: "(jstr \<Rightarrow> int option) \<Rightarrow> jstr option \<Rightarrow> (jstr, int option) throws" where
  "parse_opt date_time ts =
     (if truthy ts then and_then (parse_rfc date_time (the ts)) (\<lambda>t. Inr (Some t)) else Inr None)"

definition waiting_text :: "jstr \<Rightarrow> jstr option \<Rightarrow> jstr" where
  "waiting_text heir eta =
     (case eta of
        Some d \<Rightarrow> heir @ '' has the claim link. The funds unlock on the Bitcoin network around '' @ d @ ''.''
      | None \<Rightarrow> heir @ '' has the claim link. Bitcoin holds the funds for a set time before they can be collected.'')"

definition greeting :: "(jstr \<Rightarrow> int option) \<Rightarrow> (int \<Rightarrow> jstr) \<Rightarrow> vault_meta \<Rightarrow> vault_view option \<Rightarrow> int \<Rightarrow> page_flags
    \<Rightarrow> bool \<Rightarrow> (jstr, jstr \<times> jstr) throws" where
  "greeting date_time long_date meta vault now f multi =
     and_then (parse_opt date_time (Option.bind vault vv_last_checkin_at)) (\<lambda>last.
     and_then (parse_opt date_time (map_option vv_next_deadline_at vault)) (\<lambda>deadline.
     (let name = hi_name (vm_heir meta); heir = or_str name ''Your heir''
      in if pf_unfunded f
         then Inr (''Fund '' @ or_str name ''your heir'' @ quote_s @ '' share to start'',
                   ''Add Bitcoin to this share to start it. Check-ins begin once the funds arrive, not before.'')
         else if pf_closed f
         then Inr (heir @ quote_s @ '' share is claimed'',
                   if multi then heir @ '' claimed their share. Your other shares are unaffected.''
                   else heir @ '' claimed their share. You can add another heir any time.'')
         else if pf_claiming f
         then (if status_is vault ''claiming''
               then Inr (''Your heir is claiming'',
                         heir @ '' is finalising the claim. The check-in loop is over for this share.'')
               else and_then (parse_opt date_time (Option.bind vault vv_unlock_eta)) (\<lambda>eta.
                    Inr (''Your heir is waiting to claim'', waiting_text heir (map_option long_date eta))))
         else if pf_past f
         then Inr (''Check-in overdue'',
                   (case deadline of
                      Some t \<Rightarrow> ''Your check-in was due '' @ human_ago t now
                        @ ''. Check in to reset the clock, or your heir will be contacted.''
                    | None \<Rightarrow> ''Check in to reset the clock before your heir is contacted.''))
         else Inr (''You'' @ [CHR 0x27] @ ''re still here'',
                   (case last of
                      Some t \<Rightarrow> ''Last checked in '' @ human_ago t now @ ''.''
                    | None \<Rightarrow> name @ quote_s @ '' share is active.'')
                   @ (case deadline of
                        Some t \<Rightarrow> '' Next reminder '' @ cd_friendly (countdown_to t now) @ ''.''
                      | None \<Rightarrow> [])))))"

section \<open>The main slot\<close>

datatype main_card = Card_Loading | Card_Closed | Card_Claiming | Card_Awaiting_Funding bool | Card_Heartbeat

definition main_card_of :: "dashboard \<Rightarrow> page_flags \<Rightarrow> main_card" where
  "main_card_of s f =
     (if db_vault s = None \<and> \<not> truthy (db_error s) then Card_Loading
      else if pf_closed f then Card_Closed
      else if pf_claiming f then Card_Claiming
      else if pf_unfunded f
      then Card_Awaiting_Funding (Option.bind (db_vault s) vv_activation_held = Some True)
      else Card_Heartbeat)"

text \<open>\<open>ClaimInProgressCard\<close> and the two cards of a share without a running clock.\<close>

definition claim_card_texts :: "vault_meta \<Rightarrow> jstr \<Rightarrow> jstr option \<Rightarrow> jstr \<times> jstr" where
  "claim_card_texts meta status eta =
     (let heir = or_str (hi_name (vm_heir meta)) ''Your heir''
      in if status = ''claiming''
         then (''Heir is broadcasting'', heir @ '' is finalising the claim transaction.'')
         else (''Heir is waiting to claim'', waiting_text heir eta))"

definition funding_heading :: "vault_meta \<Rightarrow> bool \<Rightarrow> jstr" where
  "funding_heading meta held =
     (if held then ''Your Bitcoin arrived. Confirm your email to start.''
      else ''Fund '' @ or_str (hi_name (vm_heir meta)) ''your heir'' @ quote_s @ '' share to start'')"

section \<open>The heartbeat\<close>

datatype tap = Tap_Lightning | Tap_Checkin

record heartbeat =
  hb_locked :: bool
  hb_tap :: "tap option"
  hb_button :: tap
  hb_button_disabled :: bool
  hb_heading :: jstr
  hb_sub :: jstr
  hb_badge :: bool
  hb_due :: "jstr option"

text \<open>The next tap the server would accept: one period after the last check-in, except when alarmed.\<close>

definition next_open :: "(jstr \<Rightarrow> int option) \<Rightarrow> vault_view option \<Rightarrow> (jstr, int option) throws" where
  "next_open date_time vault =
     (case vault of
        Some v \<Rightarrow>
          if truthy (vv_last_checkin_at v) \<and> vv_status v \<noteq> ''alarmed''
          then and_then (parse_rfc date_time (the (vv_last_checkin_at v)))
                 (\<lambda>t. Inr (Some (t + vv_checkin_period_secs v * 1000)))
          else Inr None
      | None \<Rightarrow> Inr None)"

definition heartbeat_card :: "(jstr \<Rightarrow> int option) \<Rightarrow> vault_meta \<Rightarrow> dashboard \<Rightarrow> int \<Rightarrow> (jstr, heartbeat) throws" where
  "heartbeat_card date_time meta s now =
     and_then (case db_vault s of
                 Some v \<Rightarrow> and_then (parse_rfc date_time (vv_next_deadline_at v))
                             (\<lambda>t. Inr (Some (cd_friendly (countdown_to t now))))
               | None \<Rightarrow> Inr None) (\<lambda>due.
     and_then (next_open date_time (db_vault s)) (\<lambda>opens.
     (let locked = (case opens of Some t \<Rightarrow> t > now | None \<Rightarrow> False);
          button = (if db_lightning_enabled s then Tap_Lightning else Tap_Checkin);
          name = hi_name (vm_heir meta)
      in Inr \<lparr>hb_locked = locked, hb_tap = (if db_busy s \<or> locked then None else Some button),
              hb_button = button,
              hb_button_disabled = (db_just_checked s \<or> locked \<or> (button = Tap_Checkin \<and> db_busy s)),
              hb_heading = (if db_just_checked s then ''Thanks, you'' @ [CHR 0x27] @ ''re safe''
                            else if locked then ''You'' @ [CHR 0x27] @ ''re all set''
                            else ''Time to check in''),
              hb_sub = (if db_just_checked s then name @ quote_s @ '' countdown starts again.''
                        else if locked
                        then ''You'' @ [CHR 0x27] @ ''re covered for this period. Your next check-in opens ''
                             @ (case opens of Some t \<Rightarrow> cd_friendly (countdown_to t now) | None \<Rightarrow> ''shortly'') @ ''.''
                        else ''Let '' @ name @ '' know the clock is reset.''),
              hb_badge = (\<not> locked \<and> db_lightning_enabled s), hb_due = due\<rparr>)))"

section \<open>Lightning status badge\<close>

record lightning_health =
  lh_enabled :: bool
  lh_ready :: bool
  lh_error :: "jstr option"

datatype ln_badge = Badge_Hidden | Badge_Error jstr | Badge_Ready | Badge_Warming

definition badge_of :: "(thrown, lightning_health) throws \<Rightarrow> ln_badge" where
  "badge_of reply =
     (case reply of
        Inl _ \<Rightarrow> Badge_Hidden
      | Inr r \<Rightarrow>
          if \<not> lh_enabled r then Badge_Hidden
          else if truthy (lh_error r) then Badge_Error (the (lh_error r))
          else if lh_ready r then Badge_Ready else Badge_Warming)"

section \<open>Heirs\<close>

datatype pill = Pill_Neutral jstr | Pill_Alarm jstr | Pill_Warning jstr

definition heir_pill :: "vault_view option \<Rightarrow> pill" where
  "heir_pill vault =
     (let status = (case vault of Some v \<Rightarrow> vv_status v | None \<Rightarrow> ''ok'')
      in if status = ''claimed'' then Pill_Neutral ''Claimed''
         else if status = ''claiming'' then Pill_Alarm ''Claiming''
         else if status = ''timelock_started'' then Pill_Warning ''Waiting to claim''
         else Pill_Neutral ''Standing by'')"

record heir_row =
  row_id :: jstr
  row_name :: jstr
  row_active :: bool
  row_tag :: jstr
  row_removable :: bool

definition heir_rows :: "vault_meta list \<Rightarrow> jstr option \<Rightarrow> jstr obj \<Rightarrow> heir_row list" where
  "heir_rows gs active status_by_id =
     map (\<lambda>m. let status = obj_get status_by_id (vm_id m); is_active = (active = Some (vm_id m))
              in \<lparr>row_id = vm_id m, row_name = or_str (hi_name (vm_heir m)) ''(unnamed)'', row_active = is_active,
                  row_tag = (if status = Some ''claimed'' then ''Claimed'' else if is_active then ''Viewing''
                             else ''Tap to view''),
                  row_removable = share_removable status\<rparr>) gs"

text \<open>Choosing another heir writes the pointer and reloads; a store that refuses the write throws, and
  the page stays.\<close>

definition on_select_heir :: "jstr \<Rightarrow> device \<Rightarrow> device \<times> bool" where
  "on_select_heir i d =
     (if has_window d \<and> sets_ok (local_mode d) then (d\<lparr>dv_active := Some i\<rparr>, True) else (d, False))"

text \<open>The removals and the closing that the page offers.\<close>

definition removals_offered :: "dashboard \<Rightarrow> jstr list" where
  "removals_offered s =
     (if length (db_group s) > 1
      then map row_id (filter row_removable (heir_rows (db_group s) (db_active s) (db_share_status s)))
      else [])"

definition close_offered :: "dashboard \<Rightarrow> bool" where
  "close_offered s =
     (db_vault s \<noteq> None \<and> cl_can_close (vault_close_state (map vm_id (db_group s)) (db_share_status s)))"

section \<open>Banners and links\<close>

definition alarm_text :: "(jstr \<Rightarrow> int option) \<Rightarrow> vault_view \<Rightarrow> int \<Rightarrow> (jstr, jstr) throws" where
  "alarm_text date_time v now =
     and_then (parse_opt date_time (vv_claim_eligible_at v)) (\<lambda>due.
     Inr (case due of
            Some t \<Rightarrow> plural (days_left t now) ''day'' @ '' left before your heir is notified. Check in to reset the clock.''
          | None \<Rightarrow> ''Check in to reset the clock.''))"

definition frozen_text :: "(jstr \<Rightarrow> int option) \<Rightarrow> vault_view \<Rightarrow> int \<Rightarrow> (jstr, jstr) throws" where
  "frozen_text date_time v now =
     and_then (parse_opt date_time (vv_panic_frozen_until v)) (\<lambda>until_ms.
     Inr ((case until_ms of
             Some t \<Rightarrow> ''Auto-unfreezes in '' @ plural (days_left t now) ''day'' @ ''.''
           | None \<Rightarrow> ''Auto-unfreezes after the 90-day window.'')
          @ (if vv_has_trusted_contact v = Some True then '' Your trusted contact has been alerted.'' else [])))"

definition waiting_period :: "dashboard \<Rightarrow> vault_view \<Rightarrow> jstr" where
  "waiting_period s v =
     (if db_demo s then pretty_seconds (vv_grace_period_secs v) else pretty_blocks (vv_timelock_blocks v))"

text \<open>The links of the More list: which tools apply, in order. \<open>has_video\<close> and \<open>reminders_on\<close> are
  \<open>None\<close> when unknown.\<close>

definition more_links :: "dashboard \<Rightarrow> page_flags \<Rightarrow> bool option \<Rightarrow> bool option \<Rightarrow> route list" where
  "more_links s f has_video reminders_on =
     (let shown = (db_vault s \<noteq> None);
          text_of = (\<lambda>get. Option.bind (db_vault s) get)
      in (if shown \<and> \<not> pf_closed f \<and> has_video \<noteq> Some True then [R_Heir_Message] else [])
         @ (if shown \<and> \<not> pf_closed f \<and> \<not> pf_claiming f \<and> \<not> truthy (text_of vv_drill_started_at)
            then [R_Practice] else [])
         @ (if shown \<and> \<not> pf_closed f \<and> \<not> pf_claiming f \<and> \<not> pf_unfunded f \<and> truthy (db_push_key s)
               \<and> truthy (db_token s) \<and> reminders_on \<noteq> Some True
            then [R_Reminders] else [])
         @ (if truthy (text_of vv_lnurl_panic) \<and> \<not> status_is (db_vault s) ''frozen'' \<and> \<not> pf_closed f
               \<and> \<not> pf_claiming f
            then [R_Emergency] else []))"

section \<open>The panic stop\<close>

record panic_card =
  pc_expanded :: bool
  pc_confirm :: bool

datatype panic_view = Panic_Intro | Panic_Sure | Panic_Invoice

definition open_panic :: panic_card where
  "open_panic = \<lparr>pc_expanded = False, pc_confirm = False\<rparr>"

definition panic_view_of :: "panic_card \<Rightarrow> panic_view" where
  "panic_view_of s = (if \<not> pc_expanded s then Panic_Intro else if \<not> pc_confirm s then Panic_Sure else Panic_Invoice)"

definition panic_show :: "panic_card \<Rightarrow> panic_card" where
  "panic_show s = s\<lparr>pc_expanded := True\<rparr>"

definition panic_confirm :: "panic_card \<Rightarrow> panic_card" where
  "panic_confirm s = s\<lparr>pc_confirm := True\<rparr>"

text \<open>Both \<open>Cancel\<close> and \<open>Hide\<close>.\<close>

definition panic_hide :: "panic_card \<Rightarrow> panic_card" where
  "panic_hide s = s\<lparr>pc_expanded := False\<rparr>"

section \<open>Confirming the e-mail\<close>

datatype resend_state = Resend_Idle | Resend_Sending | Resend_Sent | Resend_Error jstr

definition on_resend :: "(call \<Rightarrow> thrown option) \<Rightarrow> jstr \<Rightarrow> jstr option \<Rightarrow> call list \<times> resend_state" where
  "on_resend send vault token =
     (let c = ResendVerification vault token
      in ([c], (case send c of
                  None \<Rightarrow> Resend_Sent
                | Some (Api_Error st body m) \<Rightarrow> if st = 409 then Resend_Sent else Resend_Error m
                | Some _ \<Rightarrow> Resend_Error (''That didn'' @ [CHR 0x27] @ ''t work. Try again in a moment.''))))"

section \<open>The empty page\<close>

definition empty_title :: "empty_reason option \<Rightarrow> jstr" where
  "empty_title reason =
     (case reason of
        None \<Rightarrow> ''No vault on this device yet''
      | Some Removed \<Rightarrow> ''That was your last heir''
      | Some Gone \<Rightarrow> ''This share is no longer on the server''
      | Some Closed \<Rightarrow> ''Your vault is closed'')"

definition empty_offers_sign_in :: "empty_reason option \<Rightarrow> bool" where
  "empty_offers_sign_in reason = (reason = None \<or> reason = Some Gone)"

section \<open>What is never offered\<close>

lemma record_status_get:
  "distinct (map fst rows) \<Longrightarrow> obj_get (fold record_status rows m) i =
     (case map_of rows i of Some st \<Rightarrow> if truthy st then st else obj_get m i | None \<Rightarrow> obj_get m i)"
proof (induction rows arbitrary: m)
  case (Cons p rows)
  obtain j st where p: "p = (j, st)" by (cases p)
  have "map_of rows j = None" using Cons.prems by (auto simp: p map_of_eq_None_iff)
  then show ?case using Cons
    by (auto simp: p record_status_def obj_laws truthy_iff split: option.split)
qed simp

text \<open>The status of a share in the answers of one refresh.\<close>

lemma refreshed_status:
  assumes "truthy (db_active s)" "hn_vault N (the (db_active s)) (db_token s) = Inr v"
    and "distinct (map vm_id (db_group s))" "g \<in> set (db_group s)"
    and "heir_status N (the (db_active s)) v d g = Some st" "st \<noteq> []"
  shows "obj_get (db_share_status (fst (refresh N lc s d))) (vm_id g) = Some st"
proof -
  let ?rows = "map (\<lambda>g. (vm_id g, heir_status N (the (db_active s)) v d g)) (db_group s)"
  have d: "distinct (map fst ?rows)" using assms(3) by (simp add: o_def)
  have "(vm_id g, Some st) \<in> set ?rows" using assms(4,5) by force
  then have "map_of ?rows (vm_id g) = Some (Some st)" using d by (simp add: map_of_eq_Some_iff)
  then show ?thesis using assms(1,2,6) record_status_get [OF d, of "[]" "vm_id g"]
    by (simp add: refresh_def Let_def)
qed


text \<open>The lock of the heartbeat is the server's own rule: one check-in per period, none while alarmed.\<close>

theorem heartbeat_gate:
  assumes "heartbeat_card date_time meta s now = Inr h"
  shows "(hb_locked h \<longleftrightarrow> (\<exists>v ts t. db_vault s = Some v \<and> vv_status v \<noteq> ''alarmed'' \<and> vv_last_checkin_at v = Some ts
            \<and> ts \<noteq> [] \<and> date_time ts = Some t \<and> now < t + vv_checkin_period_secs v * 1000))
     \<and> (hb_tap h = None \<longleftrightarrow> db_busy s \<or> hb_locked h)
     \<and> (\<forall>b. hb_tap h = Some b \<longrightarrow> (b = Tap_Lightning \<longleftrightarrow> db_lightning_enabled s))"
  using assms by (cases "db_vault s")
    (auto simp: heartbeat_card_def next_open_def parse_rfc_def and_then_Inr_iff Let_def truthy_iff
      split: option.splits if_splits)

text \<open>The question before the panic invoice is asked once: after hiding the card, showing it again
  leads straight to the invoice.\<close>

lemma panic_question_skipped:
  "panic_view_of (panic_show open_panic) = Panic_Sure"
  "panic_view_of (panic_show (panic_hide (panic_confirm (panic_show open_panic)))) = Panic_Invoice"
  by (simp_all add: panic_view_of_def panic_show_def open_panic_def panic_hide_def panic_confirm_def)

lemma show_one: "show_nat (Suc 0) = ''1''"
  by code_simp

text \<open>The banner of an alarm claims a whole day when a minute is left.\<close>

lemma alarm_overstates:
  "alarm_text (\<lambda>ts. Some 60000) (sample_vault_view\<lparr>vv_claim_eligible_at := Some ''t''\<rparr>) 0 =
     Inr ''1 day left before your heir is notified. Check in to reset the clock.''"
  using show_one by (simp add: alarm_text_def parse_opt_def parse_rfc_def days_left_def plural_def show_int_def sample_vault_view_def)

definition net_claiming :: home_net where
  "net_claiming = \<lparr>hn_vault = (\<lambda>i t. Inr (sample_vault_view\<lparr>vv_id := i,
      vv_status := (if i = ''b'' then ''claiming'' else ''ok'')\<rparr>)), hn_events = (\<lambda>i t. Inr [])\<rparr>"


end
