(* ===== verification/Owner_Spend.thy ===== *)
theory Owner_Spend
  imports Owner_Views Claim_Flow
begin

text \<open>
  The money side of the dashboard (Dashboard.tsx): the send card, which reviews, unlocks and sends,
  the balance card with its two deadlines, and the heir's details. Number formatting is the browser's
  and an argument; the figures of the unlocking progress are left out.
\<close>

section \<open>Amounts\<close>

text \<open>\<open>Number.parseInt(s, 10)\<close>: white space and a sign, then the leading digits; \<open>None\<close> is NaN. The
  rounding of integers above \<open>2^53\<close> is left out.\<close>

definition parse_int10 :: "jstr \<Rightarrow> int option" where
  "parse_int10 s =
     (let t = js_trim_start s;
          neg = starts_with t ''-'';
          u = (if neg \<or> starts_with t ''+'' then tl t else t);
          ds = takeWhile js_digit u
      in if ds = [] then None else Some (if neg then - int (nat_of_digits ds) else int (nat_of_digits ds)))"

text \<open>\<open>toLocaleString\<close> of a whole number of satoshis, and of an amount of bitcoin.\<close>

definition format_sats :: "(int \<Rightarrow> jstr) \<Rightarrow> (rat \<Rightarrow> jstr) \<Rightarrow> int \<Rightarrow> jstr" where
  "format_sats fmt_int fmt_btc sats =
     (if sats = 0 then ''0 sat''
      else if sats \<ge> 100000000 then fmt_btc (of_int sats / 100000000) @ '' BTC''
      else fmt_int sats @ '' sat'')"

section \<open>The send card\<close>

datatype send_phase = Send_Idle | Send_Unlocking | Send_Sending

record owner_send_response =
  or_txid :: jstr
  or_explorer_url :: jstr
  or_sent_sat :: int
  or_fee_sat :: int
  or_remaining_sat :: int

record send_card =
  sc_destination :: jstr
  sc_amount_str :: jstr
  sc_send_all :: bool
  sc_password :: jstr
  sc_confirming :: bool
  sc_phase :: send_phase
  sc_error :: "jstr option"
  sc_result :: "owner_send_response option"

definition open_send_card :: send_card where
  "open_send_card = \<lparr>sc_destination = [], sc_amount_str = [], sc_send_all = False, sc_password = [],
     sc_confirming = False, sc_phase = Send_Idle, sc_error = None, sc_result = None\<rparr>"

definition send_busy :: "send_card \<Rightarrow> bool" where
  "send_busy s = (sc_phase s \<noteq> Send_Idle)"

definition amount_sat :: "send_card \<Rightarrow> int option" where
  "amount_sat s = (if sc_send_all s then None else parse_int10 (sc_amount_str s))"

definition amount_ok :: "send_card \<Rightarrow> bool" where
  "amount_ok s = (sc_send_all s \<or> (case amount_sat s of Some n \<Rightarrow> n > 0 | None \<Rightarrow> False))"

definition addr_ok :: "jstr \<Rightarrow> send_card \<Rightarrow> bool" where
  "addr_ok network s =
     (looks_like_bitcoin_address (sc_destination s) \<and> address_matches_network (sc_destination s) network)"

definition can_submit :: "jstr \<Rightarrow> send_card \<Rightarrow> bool" where
  "can_submit network s =
     (\<not> send_busy s \<and> addr_ok network s \<and> length (sc_password s) > 0 \<and> amount_ok s)"

text \<open>The form's submission: the review opens.\<close>

definition on_review :: "jstr \<Rightarrow> send_card \<Rightarrow> send_card" where
  "on_review network s = (if can_submit network s then s\<lparr>sc_confirming := True\<rparr> else s)"

definition on_back :: "send_card \<Rightarrow> send_card" where
  "on_back s = s\<lparr>sc_confirming := False\<rparr>"

definition send_again :: "send_card \<Rightarrow> send_card" where
  "send_again s = s\<lparr>sc_result := None, sc_destination := [], sc_amount_str := [], sc_send_all := False,
     sc_confirming := False\<rparr>"

text \<open>What the review plays back: the destination and the amount.\<close>

definition review_labels :: "(int \<Rightarrow> jstr) \<Rightarrow> (rat \<Rightarrow> jstr) \<Rightarrow> jstr option \<Rightarrow> jstr \<Rightarrow> send_card
    \<Rightarrow> jstr \<times> jstr \<times> jstr" where
  "review_labels fmt_int fmt_btc amount_usd network s =
     (js_trim (sc_destination s),
      (if sc_send_all s then ''Everything in this share''
       else format_sats fmt_int fmt_btc (the_default 0 (amount_sat s))
            @ (if truthy amount_usd then '' (~ '' @ the amount_usd @ '')'' else [])),
      (if network = ''bitcoin'' then ''Bitcoin'' else network @ '' network''))"

definition send_body :: "send_card \<Rightarrow> jstr \<Rightarrow> owner_send_body" where
  "send_body s xprv =
     \<lparr>os_destination = js_trim (sc_destination s),
      os_amount_sat = (if sc_send_all s then field.Absent
                       else case amount_sat s of Some n \<Rightarrow> Given n | None \<Rightarrow> Null),
      os_fee_rate = field.Absent, os_owner_xprv = xprv\<rparr>"

text \<open>\<open>onSend\<close>: the password unlocks the owner key, which goes out in the one request.\<close>

definition on_send :: "('a crypto_scheme) \<Rightarrow> fetch_blobs \<Rightarrow> (call \<Rightarrow> (thrown, owner_send_response) throws) \<Rightarrow> jstr
    \<Rightarrow> jstr \<Rightarrow> send_card \<Rightarrow> call list \<times> send_card" where
  "on_send C get_sealed_blobs send vault token s =
     (let fetch = GetSealedBlobs vault token
      in case (case get_sealed_blobs vault token of
                 Inl e \<Rightarrow> Inl e
               | Inr b \<Rightarrow> map_sum Js_Error fst (unseal_blobs C (sc_password s) b)) of
           Inl e \<Rightarrow> ([fetch], s\<lparr>sc_error := Some (unlock_error_message e), sc_phase := Send_Idle\<rparr>)
         | Inr xprv \<Rightarrow>
             (let c = OwnerSend vault token (send_body s xprv)
              in ([fetch, c],
                  (case send c of
                     Inr res \<Rightarrow> s\<lparr>sc_error := None, sc_result := Some res, sc_password := [], sc_phase := Send_Idle\<rparr>
                   | Inl e \<Rightarrow> s\<lparr>sc_error := Some (raw_error_message e), sc_phase := Send_Idle\<rparr>))))"

text \<open>What the page offers: the fields only while nothing is reviewed or under way, the buttons of the
  review only there, and after a success only the way back to an empty form.\<close>

datatype send_event =
    Edit_Destination jstr
  | Edit_Amount jstr
  | Toggle_All bool
  | Edit_Password jstr
  | Press_Review
  | Press_Back
  | Press_Send
  | Press_Again

fun send_offered :: "jstr \<Rightarrow> send_event \<Rightarrow> send_card \<Rightarrow> bool" where
  "send_offered network (Edit_Amount _) s =
     (sc_result s = None \<and> \<not> send_busy s \<and> \<not> sc_confirming s \<and> \<not> sc_send_all s)"
| "send_offered network Press_Review s = (sc_result s = None \<and> \<not> sc_confirming s \<and> can_submit network s)"
| "send_offered network Press_Back s = (sc_result s = None \<and> sc_confirming s \<and> \<not> send_busy s)"
| "send_offered network Press_Send s = (sc_result s = None \<and> sc_confirming s \<and> \<not> send_busy s)"
| "send_offered network Press_Again s = (sc_result s \<noteq> None)"
| "send_offered network _ s = (sc_result s = None \<and> \<not> send_busy s \<and> \<not> sc_confirming s)"

text \<open>The result of the send card: what stays in the share.\<close>

definition sent_note :: "(int \<Rightarrow> jstr) \<Rightarrow> (rat \<Rightarrow> jstr) \<Rightarrow> owner_send_response \<Rightarrow> jstr" where
  "sent_note fmt_int fmt_btc r =
     (if or_remaining_sat r > 0
      then ''The remaining '' @ format_sats fmt_int fmt_btc (or_remaining_sat r)
        @ '' stays in this share, still covered by your inheritance plan. Your heir'' @ [CHR 0x27]
        @ ''s waiting clock starts fresh from this move.''
      else ''This share is now empty; add Bitcoin any time to keep the plan going.'')"

section \<open>The tabs of the money card\<close>

datatype money_tab = Tab_Balance | Tab_Heir | Tab_Add | Tab_Send

definition money_tabs :: "bool \<Rightarrow> jstr option \<Rightarrow> money_tab list" where
  "money_tabs can_manage owner_token =
     [Tab_Balance] @ (if truthy owner_token then [Tab_Heir] else [])
     @ (if can_manage then [Tab_Add] else [])
     @ (if can_manage \<and> truthy owner_token then [Tab_Send] else [])"

section \<open>The balance card\<close>

record balance_view =
  bv_vault_id :: jstr
  bv_network :: jstr
  bv_confirmed_sat :: int
  bv_unconfirmed_sat :: int
  bv_total_sat :: int

record balance_card =
  bc_balance :: "balance_view option"
  bc_loading :: bool
  bc_slow :: bool
  bc_error :: "jstr option"
  bc_hidden :: bool

definition begin_load :: "balance_card \<Rightarrow> balance_card" where
  "begin_load s = s\<lparr>bc_loading := True, bc_error := None, bc_slow := False\<rparr>"

text \<open>\<open>Promise.race\<close> of the request, which settles after \<open>elapsed\<close> milliseconds, and a rejection after
  \<open>ms\<close>; the timer was set later, so a request that settles at that very instant wins.\<close>

definition with_timeout :: "int \<Rightarrow> int \<Rightarrow> (thrown, 'v) throws \<Rightarrow> (thrown, 'v) throws" where
  "with_timeout ms elapsed reply = (if elapsed \<le> ms then reply else Inl (Js_Error ''timeout''))"

definition balance_error :: "thrown \<Rightarrow> jstr" where
  "balance_error e =
     (if raw_error_message e = ''timeout''
      then ''Couldn'' @ [CHR 0x27] @ ''t load your balance. The block explorer is slow right now. Tap Refresh to try again.''
      else ''Couldn'' @ [CHR 0x27] @ ''t load your balance right now. Tap Refresh to try again.'')"

definition finish_load :: "int \<Rightarrow> (thrown, balance_view) throws \<Rightarrow> balance_card \<Rightarrow> balance_card" where
  "finish_load elapsed reply s =
     (case with_timeout 20000 elapsed reply of
        Inr b \<Rightarrow> s\<lparr>bc_balance := Some b, bc_slow := False, bc_loading := False\<rparr>
      | Inl e \<Rightarrow> s\<lparr>bc_error := Some (balance_error e), bc_slow := False, bc_loading := False\<rparr>)"

text \<open>\<open>toggleHidden\<close>: the new state, and the text written under \<open>gk:balanceHidden\<close>.\<close>

definition toggle_hidden :: "balance_card \<Rightarrow> balance_card \<times> jstr" where
  "toggle_hidden s = (s\<lparr>bc_hidden := \<not> bc_hidden s\<rparr>, if bc_hidden s then ''0'' else ''1'')"

definition initial_hidden :: "jstr option \<Rightarrow> bool" where
  "initial_hidden stored = (stored = Some ''1'')"

definition balance_figure :: "(int \<Rightarrow> jstr) \<Rightarrow> (rat \<Rightarrow> jstr) \<Rightarrow> balance_card \<Rightarrow> jstr" where
  "balance_figure fmt_int fmt_btc s =
     (case bc_balance s of Some b \<Rightarrow> format_sats fmt_int fmt_btc (bv_total_sat b)
      | None \<Rightarrow> if bc_loading s then ''...'' else ''-'')"

section \<open>The heir's details\<close>

record heir_profile =
  hp_name :: "jstr option"
  hp_contact :: "jstr option"
  hp_channel :: "jstr option"
  hp_note :: "jstr option"
  hp_contact_verified_at :: "jstr option"

datatype heir_details = Details_Loading | Details_Failed | No_Details | Details jstr jstr jstr "jstr option"

definition heir_details_of :: "(thrown, heir_profile) throws option \<Rightarrow> heir_details" where
  "heir_details_of reply =
     (case reply of
        None \<Rightarrow> Details_Loading
      | Some (Inl e) \<Rightarrow> if raw_error_message e = [] then No_Details else Details_Failed
      | Some (Inr h) \<Rightarrow>
          if \<not> truthy (hp_name h) \<and> \<not> truthy (hp_contact h) \<and> \<not> truthy (hp_note h) then No_Details
          else Details (the_default ''-'' (hp_name h))
                 (if hp_channel h = Some ''sms'' then ''SMS''
                  else if hp_channel h = Some ''whatsapp'' then ''WhatsApp''
                  else if hp_channel h = Some ''email'' then ''Email'' else ''-'')
                 (the_default ''-'' (hp_contact h))
                 (if truthy (hp_note h) then hp_note h else None))"

section \<open>Nothing is sent that was not reviewed\<close>

definition apply_send :: "('a crypto_scheme) \<Rightarrow> fetch_blobs \<Rightarrow> (call \<Rightarrow> (thrown, owner_send_response) throws) \<Rightarrow> jstr
    \<Rightarrow> jstr \<Rightarrow> jstr \<Rightarrow> send_event \<Rightarrow> send_card \<Rightarrow> call list \<times> send_card" where
  "apply_send C get_sealed_blobs send network vault token e s =
     (case e of
        Edit_Destination x \<Rightarrow> ([], s\<lparr>sc_destination := x\<rparr>)
      | Edit_Amount x \<Rightarrow> ([], s\<lparr>sc_amount_str := x\<rparr>)
      | Toggle_All b \<Rightarrow> ([], s\<lparr>sc_send_all := b\<rparr>)
      | Edit_Password x \<Rightarrow> ([], s\<lparr>sc_password := x\<rparr>)
      | Press_Review \<Rightarrow> ([], on_review network s)
      | Press_Back \<Rightarrow> ([], on_back s)
      | Press_Send \<Rightarrow> on_send C get_sealed_blobs send vault token s
      | Press_Again \<Rightarrow> ([], send_again s))"

text \<open>A use of the card: the events, each offered when it happens, with the server's answers at each, and
  the record of every review opened and every request made.\<close>

inductive send_reach :: "'a crypto_scheme \<Rightarrow> jstr \<Rightarrow> jstr \<Rightarrow> jstr \<Rightarrow> send_card \<Rightarrow> send_card list \<Rightarrow> call list \<Rightarrow> bool"
  for C network vault token where
  send_open: "send_reach C network vault token open_send_card [] []"
| send_step: "send_reach C network vault token s reviewed calls \<Longrightarrow> send_offered network e s \<Longrightarrow>
    apply_send C blobs send network vault token e s = (cs, s') \<Longrightarrow>
    send_reach C network vault token s' (if e = Press_Review then s' # reviewed else reviewed) (calls @ cs)"

text \<open>The terms of a send: where, and how much (\<open>None\<close> is everything).\<close>

definition terms_ok :: "jstr \<Rightarrow> owner_send_body \<Rightarrow> bool" where
  "terms_ok network b =
     (looks_like_bitcoin_address (os_destination b) \<and> address_matches_network (os_destination b) network
      \<and> (case os_amount_sat b of field.Absent \<Rightarrow> True | Given n \<Rightarrow> n > 0 | Null \<Rightarrow> False))"

definition same_terms :: "send_card \<Rightarrow> send_card \<Rightarrow> bool" where
  "same_terms r s = (sc_destination r = sc_destination s \<and> sc_amount_str r = sc_amount_str s
     \<and> sc_send_all r = sc_send_all s)"

definition send_inv :: "jstr \<Rightarrow> jstr \<Rightarrow> jstr \<Rightarrow> send_card \<Rightarrow> send_card list \<Rightarrow> call list \<Rightarrow> bool" where
  "send_inv network vault token s reviewed calls =
     ((sc_confirming s \<longrightarrow> addr_ok network s \<and> amount_ok s \<and> (\<exists>r \<in> set reviewed. same_terms r s))
      \<and> (\<forall>v t b. OwnerSend v t b \<in> set calls \<longrightarrow> v = vault \<and> t = token \<and> terms_ok network b
           \<and> (\<exists>r \<in> set reviewed. b = send_body r (os_owner_xprv b))))"

lemma address_checks_trim [simp]:
  "looks_like_bitcoin_address (js_trim x) = looks_like_bitcoin_address x"
  "address_matches_network (js_trim x) network = address_matches_network x network"
  by (simp_all only: looks_like_bitcoin_address_def address_matches_network_def js_trim_idem)

lemma send_body_terms: "addr_ok network s \<Longrightarrow> amount_ok s \<Longrightarrow> terms_ok network (send_body s xprv)"
  by (auto simp: terms_ok_def send_body_def addr_ok_def amount_ok_def split: option.splits)

lemma send_body_same: "same_terms r s \<Longrightarrow> send_body s xprv = send_body r xprv"
  by (simp add: same_terms_def send_body_def amount_sat_def)

lemma same_terms_frame [simp]:
  "same_terms r (s\<lparr>sc_error := a\<rparr>) = same_terms r s" "same_terms r (s\<lparr>sc_phase := b\<rparr>) = same_terms r s"
  "same_terms r (s\<lparr>sc_result := c\<rparr>) = same_terms r s" "same_terms r (s\<lparr>sc_password := d\<rparr>) = same_terms r s"
  "same_terms s (s\<lparr>sc_confirming := e\<rparr>)" "same_terms (s\<lparr>sc_confirming := e\<rparr>) (s\<lparr>sc_confirming := e\<rparr>)"
  by (simp_all add: same_terms_def)

lemma terms_frame [simp]:
  "addr_ok n (s\<lparr>sc_error := a\<rparr>) = addr_ok n s" "amount_ok (s\<lparr>sc_error := a\<rparr>) = amount_ok s"
  "addr_ok n (s\<lparr>sc_phase := b\<rparr>) = addr_ok n s" "amount_ok (s\<lparr>sc_phase := b\<rparr>) = amount_ok s"
  "addr_ok n (s\<lparr>sc_result := c\<rparr>) = addr_ok n s" "amount_ok (s\<lparr>sc_result := c\<rparr>) = amount_ok s"
  "addr_ok n (s\<lparr>sc_password := d\<rparr>) = addr_ok n s" "amount_ok (s\<lparr>sc_password := d\<rparr>) = amount_ok s"
  "addr_ok n (s\<lparr>sc_confirming := e\<rparr>) = addr_ok n s" "amount_ok (s\<lparr>sc_confirming := e\<rparr>) = amount_ok s"
  by (simp_all add: addr_ok_def amount_ok_def amount_sat_def)

lemma on_send_inv:
  assumes "send_inv network vault token s reviewed calls" "sc_confirming s"
    and "on_send C blobs send vault token s = (cs, s')"
  shows "send_inv network vault token s' reviewed (calls @ cs)"
proof -
  obtain r where r: "r \<in> set reviewed" "same_terms r s" and ok: "addr_ok network s" "amount_ok s"
    using assms(1,2) by (auto simp: send_inv_def)
  have body: "terms_ok network (send_body s x) \<and> (\<exists>r \<in> set reviewed. send_body s x = send_body r x)" for x
    using send_body_terms [OF ok, of x] send_body_same [OF r(2), of x] r(1) by blast
  have key: "os_owner_xprv (send_body s x) = x" for x by (simp add: send_body_def)
  show ?thesis using assms body unfolding send_inv_def on_send_def Let_def
    by (auto simp: key split: sum.splits)
qed

lemma send_inv_reach:
  "send_reach C network vault token s reviewed calls \<Longrightarrow> send_inv network vault token s reviewed calls"
proof (induction rule: send_reach.induct)
  case send_open
  then show ?case by (simp add: send_inv_def open_send_card_def)
next
  case (send_step s reviewed calls e blobs send cs s')
  show ?case
  proof (cases e)
    case Press_Send
    then show ?thesis using send_step on_send_inv [of network vault token s reviewed calls C blobs send cs s']
      by (simp add: apply_send_def)
  next
    case Press_Review
    then have "s' = s\<lparr>sc_confirming := True\<rparr>" "cs = []" "addr_ok network s" "amount_ok s"
      using send_step by (auto simp: apply_send_def on_review_def can_submit_def)
    then show ?thesis using send_step.IH Press_Review by (auto simp: send_inv_def)
  qed (use send_step in \<open>auto simp: send_inv_def apply_send_def on_back_def send_again_def\<close>)
qed

text \<open>C15: However the send card is used, a payment leaves it only for this vault, to an address of its
  network, for everything or for a positive amount, and with exactly the destination and the amount
  of a review that was opened before.\<close>

theorem send_only_reviewed:
  assumes "send_reach C network vault token s reviewed calls" "OwnerSend v t b \<in> set calls"
  shows "v = vault \<and> t = token \<and> terms_ok network b
     \<and> (\<exists>r \<in> set reviewed. b = send_body r (os_owner_xprv b)
          \<and> os_destination b = fst (review_labels fmt_int fmt_btc amount_usd network r))"
proof -
  have l: "os_destination (send_body r x) = fst (review_labels fmt_int fmt_btc amount_usd network r)" for r x
    by (simp add: send_body_def review_labels_def)
  from send_inv_reach [OF assms(1)] assms(2) show ?thesis
    unfolding send_inv_def by (metis l)
qed

text \<open>A number field accepts an exponent, which the parser of the amount does not read.\<close>

lemma amount_drops_exponent: "parse_int10 ''1e5'' = Some 1"
  by (simp add: parse_int10_def js_trim_start_def js_ws_def js_digit_def nat_of_digits_def digit_val_def)

text \<open>A payment of 5000 satoshis, reviewed and sent.\<close>

definition sample_blobs_view :: sealed_blobs_view where
  "sample_blobs_view = \<lparr>sbv_vault_id = ''a'', sbv_password_salt_b64 = [], sbv_password_kdf_mem_kib = 8,
     sbv_password_kdf_iters = 1, sbv_owner_xprv_ct_b64 = [], sbv_owner_xprv_nonce_b64 = [],
     sbv_owner_token_ct_b64 = [], sbv_owner_token_nonce_b64 = [], sbv_network = ''regtest'',
     sbv_timelock_blocks = 4320, sbv_owner_xpub_fragment = None\<rparr>"

definition sample_send_card :: send_card where
  "sample_send_card = open_send_card\<lparr>sc_destination := sample_destination, sc_amount_str := ''5000'', sc_password := ''pw''\<rparr>"

lemma sample_blobs_open: "unseal_blobs open_crypto ''pw'' sample_blobs_view = Inr ([], [])"
proof -
  have d: "b64decode [] = Inr []" by code_simp
  have "length (hkdf_sha256 open_crypto ikm salt info n) = n" for ikm salt info n
    by (simp add: open_crypto_def sample_crypto_def)
  then have "open_with_key open_crypto (hkdf_sha256 open_crypto ikm salt info kek_len) (mk_blob [] []) = Inr []"
    for ikm salt info
    by (simp add: open_with_key_def mk_blob_def d open_crypto_def)
  moreover have "\<exists>raw. argon2id open_crypto pw salt t m p l = Inr raw" for pw salt t m p l
    by (simp add: open_crypto_def sample_crypto_def)
  then obtain raw where "argon2id open_crypto (utf8 (nfkc open_crypto ''pw'')) [] 1 8 argon_parallelism kek_len = Inr raw"
    by blast
  moreover have "text_decode open_crypto [] = []" by (simp add: open_crypto_def sample_crypto_def)
  ultimately show ?thesis
    by (simp add: unseal_blobs_def unseal_owner_def derive_owner_kek_def sample_blobs_view_def d Let_def)
qed

lemma sample_can_submit: "can_submit ''regtest'' sample_send_card"
  by code_simp

lemma sample_send_reach:
  "send_reach open_crypto ''regtest'' ''a'' ''ta'' sample_send_card [] []"
proof -
  let ?R = "send_reach open_crypto ''regtest'' ''a'' ''ta''"
  have step: "?R (snd (apply_send open_crypto (\<lambda>_ _. Inl (Js_Error [])) (\<lambda>_. Inl (Js_Error [])) ''regtest'' ''a'' ''ta'' e s))
      [] (fst (apply_send open_crypto (\<lambda>_ _. Inl (Js_Error [])) (\<lambda>_. Inl (Js_Error [])) ''regtest'' ''a'' ''ta'' e s))"
    if "?R s [] []" "send_offered ''regtest'' e s" "e \<noteq> Press_Review" for e s
    using send_step [OF that(1,2) surjective_pairing] that(3) by simp
  have "?R (open_send_card\<lparr>sc_destination := sample_destination\<rparr>) [] []"
    using step [OF send_open, of "Edit_Destination sample_destination"]
    by (simp add: apply_send_def open_send_card_def send_busy_def)
  from step [OF this, of "Edit_Amount ''5000''"]
  have "?R (open_send_card\<lparr>sc_destination := sample_destination, sc_amount_str := ''5000''\<rparr>) [] []"
    by (simp add: apply_send_def open_send_card_def send_busy_def)
  from step [OF this, of "Edit_Password ''pw''"] show ?thesis
    by (simp add: apply_send_def open_send_card_def send_busy_def sample_send_card_def)
qed

theorem send_only_reviewed_witness:
  "\<exists>b. OwnerSend ''a'' ''ta'' b \<in> set (fst (on_send open_crypto (\<lambda>_ _. Inr sample_blobs_view) (\<lambda>_. Inl (Js_Error []))
        ''a'' ''ta'' (on_review ''regtest'' sample_send_card)))
     \<and> terms_ok ''regtest'' b \<and> os_amount_sat b = Given 5000"
proof -
  let ?s = "on_review ''regtest'' sample_send_card"
  let ?send = "on_send open_crypto (\<lambda>_ _. Inr sample_blobs_view) (\<lambda>_. Inl (Js_Error [])) ''a'' ''ta'' ?s"
  have s: "?s = sample_send_card\<lparr>sc_confirming := True\<rparr>" using sample_can_submit by (simp add: on_review_def)
  have "sc_result sample_send_card = None" "\<not> sc_confirming sample_send_card" "sc_phase sample_send_card = Send_Idle"
    "sc_password sample_send_card = ''pw''" by (simp_all add: sample_send_card_def open_send_card_def)
  note plain = this
  have o: "send_offered ''regtest'' Press_Review sample_send_card" using plain sample_can_submit by simp
  have "send_reach open_crypto ''regtest'' ''a'' ''ta'' ?s [?s] []"
    using send_step [OF sample_send_reach o, where s' = ?s and cs = "[]"] by (simp add: apply_send_def)
  moreover have "send_offered ''regtest'' Press_Send ?s" using plain by (simp add: s send_busy_def)
  ultimately have r: "send_reach open_crypto ''regtest'' ''a'' ''ta'' (snd ?send) [?s] (fst ?send)"
    using send_step [where e = Press_Send and s = ?s and s' = "snd ?send" and cs = "fst ?send" and calls = "[]"]
    by (force simp: apply_send_def)
  have b: "OwnerSend ''a'' ''ta'' (send_body ?s []) \<in> set (fst ?send)"
    using sample_blobs_open plain(4) by (simp add: on_send_def s Let_def)
  have "os_amount_sat (send_body ?s []) = Given 5000" unfolding s by code_simp
  with send_only_reviewed [OF r b] b show ?thesis by blast
qed

end
