(* ===== verification/Push.thy ===== *)
theory Push
  imports Owner_Views Base64
begin

text \<open>
  Web push in the browser (ghostkey-web/src/push.ts), the dashboard's offer to turn reminders on
  (\<open>PushOptInCard\<close> of Dashboard.tsx), and what the tool pages know of an active vault
  (useActiveVault.ts, toolStatus.ts). The browser is an argument: its features, the permission and
  the answers of its push manager.
\<close>

section \<open>The browser\<close>

text \<open>\<open>toJSON\<close> of a subscription.\<close>

record raw_subscription =
  rs_endpoint :: "jstr option"
  rs_p256dh :: "jstr option"
  rs_auth :: "jstr option"

text \<open>\<open>br_prompt\<close> is the answer of the permission prompt, \<open>br_registration\<close> whether a service worker is
  registered, and \<open>br_current\<close> the endpoint of the present subscription.\<close>

record push_browser =
  br_service_worker :: bool
  br_push_manager :: bool
  br_notification :: bool
  br_permission :: jstr
  br_prompt :: "(thrown, jstr) throws"
  br_registration :: "(thrown, bool) throws"
  br_current :: "(thrown, jstr option) throws"
  br_subscribe :: "bytes \<Rightarrow> (thrown, raw_subscription) throws"

definition is_push_supported :: "push_browser \<Rightarrow> bool" where
  "is_push_supported b = (br_service_worker b \<and> br_push_manager b \<and> br_notification b)"

text \<open>The user agent, the number of touch points and whether the page runs as an installed app.\<close>

definition ios_needs_install :: "jstr \<Rightarrow> int \<Rightarrow> bool \<Rightarrow> bool" where
  "ios_needs_install ua touch_points standalone =
     (let is_ios = (js_includes ua ''iPad'' \<or> js_includes ua ''iPhone'' \<or> js_includes ua ''iPod''
                    \<or> js_includes ua ''Macintosh'' \<and> touch_points > 1)
      in if \<not> is_ios then False else \<not> standalone)"

definition get_push_subscription :: "push_browser \<Rightarrow> (thrown, jstr option) throws" where
  "get_push_subscription b =
     (if \<not> is_push_supported b then Inr None
      else and_then (br_registration b) (\<lambda>reg. if \<not> reg then Inr None else br_current b))"

section \<open>Subscribing\<close>

text \<open>The result: the request, if one was made, whether the new subscription was torn down, and how it
  ended.\<close>

record subscribe_result =
  su_calls :: "call list"
  su_torn_down :: bool
  su_end :: "(thrown, unit) throws"

definition subscribe_failed :: "thrown \<Rightarrow> subscribe_result" where
  "subscribe_failed e = \<lparr>su_calls = [], su_torn_down = False, su_end = Inl e\<rparr>"

definition subscribe_to_push :: "push_browser \<Rightarrow> (call \<Rightarrow> thrown option) \<Rightarrow> jstr \<Rightarrow> jstr \<Rightarrow> jstr \<Rightarrow> subscribe_result" where
  "subscribe_to_push b send vault token vapid =
     (case br_prompt b of
        Inl e \<Rightarrow> subscribe_failed e
      | Inr permission \<Rightarrow>
          if permission \<noteq> ''granted'' then subscribe_failed (Js_Error ''notifications were not allowed'')
          else
            (case and_then (map_sum Js_Error (\<lambda>x. x) (url_base64_to_bytes vapid)) (br_subscribe b) of
               Inl e \<Rightarrow> subscribe_failed e
             | Inr sub \<Rightarrow>
                 if \<not> truthy (rs_endpoint sub) \<or> \<not> truthy (rs_p256dh sub) \<or> \<not> truthy (rs_auth sub)
                 then \<lparr>su_calls = [], su_torn_down = True,
                       su_end = Inl (Js_Error ''browser returned an incomplete subscription'')\<rparr>
                 else
                   (let c = PushSubscribe vault \<lparr>pb_endpoint = the (rs_endpoint sub),
                              pb_p256dh = the (rs_p256dh sub), pb_auth = the (rs_auth sub)\<rparr> token
                    in \<lparr>su_calls = [c], su_torn_down = False,
                        su_end = (case send c of None \<Rightarrow> Inr () | Some e \<Rightarrow> Inl e)\<rparr>)))"

text \<open>The server's row goes first, then the browser's subscription; the flag says that it was torn down.\<close>

definition unsubscribe_from_push :: "push_browser \<Rightarrow> (call \<Rightarrow> thrown option) \<Rightarrow> jstr \<Rightarrow> jstr
    \<Rightarrow> call list \<times> bool \<times> thrown option" where
  "unsubscribe_from_push b send vault token =
     (case get_push_subscription b of
        Inl e \<Rightarrow> ([], False, Some e)
      | Inr None \<Rightarrow> ([], False, None)
      | Inr (Some endpoint) \<Rightarrow>
          (let c = PushUnsubscribe vault endpoint token
           in ([c], send c = None, send c)))"

section \<open>The offer on the dashboard\<close>

datatype push_card =
    Push_Checking
  | Push_Hidden
  | Push_Offer
  | Push_Install_Hint
  | Push_Busy
  | Push_Done
  | Push_Error jstr

definition push_dismiss_key :: "jstr \<Rightarrow> jstr" where
  "push_dismiss_key vault = ''gk:pushDismissed:'' @ vault"

text \<open>What the card becomes when it is mounted: \<open>stored\<close> is the entry under the key, \<open>ios\<close> the answer of
  the install test.\<close>

definition push_card_mount :: "push_browser \<Rightarrow> jstr option \<Rightarrow> bool \<Rightarrow> push_card" where
  "push_card_mount b stored ios =
     (if stored = Some ''1'' then Push_Hidden
      else if \<not> is_push_supported b then (if ios then Push_Install_Hint else Push_Hidden)
      else if br_permission b = ''denied'' then Push_Hidden
      else (case get_push_subscription b of
              Inr None \<Rightarrow> Push_Offer
            | _ \<Rightarrow> Push_Hidden))"

text \<open>\<open>onTurnOn\<close>; \<open>permission_after\<close> is the permission when the flow has ended.\<close>

definition on_turn_on :: "push_browser \<Rightarrow> (call \<Rightarrow> thrown option) \<Rightarrow> jstr \<Rightarrow> jstr \<Rightarrow> jstr \<Rightarrow> jstr
    \<Rightarrow> call list \<times> push_card" where
  "on_turn_on b send permission_after vault token vapid =
     (let r = subscribe_to_push b send vault token vapid
      in (su_calls r,
          (case su_end r of
             Inr _ \<Rightarrow> Push_Done
           | Inl e \<Rightarrow>
               if permission_after = ''denied'' then Push_Hidden
               else Push_Error (case e of Api_Error st body m \<Rightarrow> m
                      | _ \<Rightarrow> ''That didn'' @ [CHR 0x27] @ ''t work. You can try again any time.''))))"

definition on_not_now :: "jstr \<Rightarrow> (jstr \<times> jstr) \<times> push_card" where
  "on_not_now vault = ((push_dismiss_key vault, ''1''), Push_Hidden)"

section \<open>The active vault of the tool pages\<close>

record active_vault =
  av_active_id :: "jstr option"
  av_meta :: "vault_meta option"
  av_owner_token :: "jstr option"
  av_vault :: "vault_view option"
  av_push_key :: "jstr option"
  av_loading :: bool

definition use_active_vault :: "device \<Rightarrow> active_vault" where
  "use_active_vault d =
     (let active = get_active_vault_id d
      in \<lparr>av_active_id = active, av_meta = (if truthy active then get_vault_meta (the active) d else None),
          av_owner_token = (if truthy active then get_vault_owner_token (the active) d else None),
          av_vault = None, av_push_key = None, av_loading = truthy active\<rparr>)"

text \<open>Both requests have settled; a failed one leaves nothing.\<close>

definition active_vault_loaded :: "(thrown, vault_view) throws \<Rightarrow> (thrown, jstr option) throws \<Rightarrow> active_vault
    \<Rightarrow> active_vault" where
  "active_vault_loaded view pk s =
     s\<lparr>av_vault := (case view of Inr v \<Rightarrow> Some v | Inl _ \<Rightarrow> None),
       av_push_key := (case pk of Inr k \<Rightarrow> k | Inl _ \<Rightarrow> None), av_loading := False\<rparr>"

text \<open>\<open>useToolDoneState\<close>: \<open>None\<close> is unknown.\<close>

record tool_done =
  td_has_video :: "bool option"
  td_reminders_on :: "bool option"

definition tool_done_state :: "jstr option \<Rightarrow> jstr option \<Rightarrow> (thrown, bool) throws \<Rightarrow> push_browser \<Rightarrow> tool_done" where
  "tool_done_state vault token has_video b =
     \<lparr>td_has_video = (if \<not> truthy vault \<or> \<not> truthy token then None
                      else (case has_video of Inr v \<Rightarrow> Some v | Inl _ \<Rightarrow> None)),
      td_reminders_on = (case get_push_subscription b of Inr s \<Rightarrow> Some (s \<noteq> None) | Inl _ \<Rightarrow> None)\<rparr>"

section \<open>What is registered\<close>

lemma subscribe_calls:
  "c \<in> set (su_calls (subscribe_to_push b send vault token vapid)) \<longleftrightarrow>
     (\<exists>pk sub. br_prompt b = Inr ''granted'' \<and> url_base64_to_bytes vapid = Inr pk \<and> br_subscribe b pk = Inr sub
        \<and> truthy (rs_endpoint sub) \<and> truthy (rs_p256dh sub) \<and> truthy (rs_auth sub)
        \<and> c = PushSubscribe vault \<lparr>pb_endpoint = the (rs_endpoint sub), pb_p256dh = the (rs_p256dh sub),
                                   pb_auth = the (rs_auth sub)\<rparr> token)"
proof (cases "br_prompt b")
  case (Inr p)
  then show ?thesis
  proof (cases "url_base64_to_bytes vapid")
    case (Inr pk)
    then show ?thesis using \<open>br_prompt b = Inr p\<close>
      by (cases "br_subscribe b pk") (auto simp: subscribe_to_push_def subscribe_failed_def Let_def)
  qed (simp add: subscribe_to_push_def subscribe_failed_def)
qed (simp add: subscribe_to_push_def subscribe_failed_def)

text \<open>A subscription reaches the server only when the owner granted the permission, the key of the
  server decodes, and the browser answered for that key with an endpoint and both secrets, which are
  the ones sent; a decoded key is the very bytes that were encoded; and the card is put away for good
  exactly by a refusal or by \<open>Not now\<close>.\<close>

theorem push_registers_granted:
  "(c \<in> set (fst (on_turn_on b send after vault token vapid)) \<longleftrightarrow>
     (\<exists>pk sub. br_prompt b = Inr ''granted'' \<and> url_base64_to_bytes vapid = Inr pk \<and> br_subscribe b pk = Inr sub
        \<and> truthy (rs_endpoint sub) \<and> truthy (rs_p256dh sub) \<and> truthy (rs_auth sub)
        \<and> c = PushSubscribe vault \<lparr>pb_endpoint = the (rs_endpoint sub), pb_p256dh = the (rs_p256dh sub),
                                   pb_auth = the (rs_auth sub)\<rparr> token))
   \<and> (snd (on_turn_on b send after vault token vapid) = Push_Done \<longleftrightarrow>
        (\<exists>c. fst (on_turn_on b send after vault token vapid) = [c] \<and> send c = None))
   \<and> push_card_mount b (Some (snd (fst (on_not_now vault)))) ios = Push_Hidden"
proof -
  have "su_end (subscribe_to_push b send vault token vapid) = Inr () \<longleftrightarrow>
      (\<exists>c. su_calls (subscribe_to_push b send vault token vapid) = [c] \<and> send c = None)"
    by (auto simp: subscribe_to_push_def subscribe_failed_def Let_def split: sum.split option.split)
  then show ?thesis
    by (auto simp: on_turn_on_def Let_def subscribe_calls on_not_now_def push_card_mount_def
        split: sum.splits if_splits)
qed

end
