(* ===== verification/Lightning.thy ===== *)
theory Lightning
  imports Owner_Views
begin

text \<open>
  The Lightning check-in (ghostkey-web/src/LightningCheckin.tsx) with its polling timer, and the two
  pages behind the links of e-mails, OneTapCheckinPage.tsx and VerifyEmailPage.tsx. Instants are
  milliseconds. The polling interval is the instant at which it fires next; an answer arrives in the
  pass that asked for it. A render of the parent hands the modal a new \<open>onPaid\<close> when the parent
  writes it as an inline function, and the polling effect depends on it.
\<close>

section \<open>The modal\<close>

record invoice_view =
  iv_bolt11 :: jstr
  iv_payment_hash :: jstr
  iv_amount_sat :: int
  iv_expires_at :: jstr
  iv_status :: jstr

record invoice_status_view =
  is_payment_hash :: jstr
  is_status :: jstr
  is_paid_at :: "jstr option"
  is_expires_at :: jstr

datatype ln_state =
    Minting
  | Awaiting invoice_view
  | Paid invoice_view
  | Expired invoice_view
  | Ln_Error jstr

definition poll_timeout_ms :: int where "poll_timeout_ms = 90000"

definition poll_interval_ms :: int where "poll_interval_ms = 3000"

text \<open>\<open>ln_timer\<close> is the next instant of the interval, \<open>ln_paid_call\<close> the instant at which the parent is
  told of the payment.\<close>

record ln_modal =
  ln_vault :: jstr
  ln_owner_token :: "jstr option"
  ln_link_token :: "jstr option"
  ln_state :: ln_state
  ln_started :: int
  ln_timer :: "int option"
  ln_calls :: "call list"
  ln_paid_call :: "int option"

definition mint_call :: "ln_modal \<Rightarrow> call" where
  "mint_call m = (if truthy (ln_link_token m) then LightningCreateInvoiceFromLink (ln_vault m) (the (ln_link_token m))
     else LightningCreateInvoice (ln_vault m) (ln_owner_token m))"

definition poll_call :: "ln_modal \<Rightarrow> jstr \<Rightarrow> call" where
  "poll_call m h = (if truthy (ln_link_token m) then LightningInvoiceStatusFromLink (ln_vault m) (the (ln_link_token m)) h
     else LightningInvoiceStatus (ln_vault m) h (ln_owner_token m))"

definition open_modal :: "jstr \<Rightarrow> jstr option \<Rightarrow> jstr option \<Rightarrow> int \<Rightarrow> ln_modal" where
  "open_modal vault owner_token link_token now =
     \<lparr>ln_vault = vault, ln_owner_token = owner_token, ln_link_token = link_token, ln_state = Minting,
      ln_started = now, ln_timer = None, ln_calls = [], ln_paid_call = None\<rparr>"

text \<open>The polling effect, run anew: its cleanup clears the interval, and its body sets one only while
  an invoice waits.\<close>

definition run_poll_effect :: "int \<Rightarrow> ln_modal \<Rightarrow> ln_modal" where
  "run_poll_effect now m =
     m\<lparr>ln_timer := (case ln_state m of Awaiting _ \<Rightarrow> Some (now + poll_interval_ms) | _ \<Rightarrow> None)\<rparr>"

definition on_minted :: "int \<Rightarrow> (thrown, invoice_view) throws \<Rightarrow> ln_modal \<Rightarrow> ln_modal" where
  "on_minted now reply m =
     run_poll_effect now
       (m\<lparr>ln_calls := ln_calls m @ [mint_call m],
          ln_state := (case reply of Inr bill \<Rightarrow> Awaiting bill | Inl e \<Rightarrow> Ln_Error (raw_error_message e))\<rparr>)"

text \<open>One callback of the interval. A change of the state runs the effect again.\<close>

definition on_poll :: "int \<Rightarrow> (thrown, invoice_status_view) throws \<Rightarrow> ln_modal \<Rightarrow> ln_modal" where
  "on_poll now reply m =
     (case ln_state m of
        Awaiting bill \<Rightarrow>
          if now - ln_started m > poll_timeout_ms then m\<lparr>ln_timer := None\<rparr>
          else
            (let m1 = m\<lparr>ln_calls := ln_calls m @ [poll_call m (iv_payment_hash bill)],
                        ln_timer := Some (now + poll_interval_ms)\<rparr>
             in case reply of
                  Inl _ \<Rightarrow> m1
                | Inr st \<Rightarrow>
                    if is_status st = ''paid''
                    then run_poll_effect now (m1\<lparr>ln_state := Paid bill, ln_paid_call := Some (now + 800)\<rparr>)
                    else if is_status st = ''expired''
                    then run_poll_effect now (m1\<lparr>ln_state := Expired bill\<rparr>)
                    else m1)
      | _ \<Rightarrow> m)"

section \<open>Running it\<close>

text \<open>What can happen to an open modal: the parent renders it with a new callback, or the interval
  fires, which it does no sooner than due, with the server's answer.\<close>

datatype ln_event = Rendered | Fired "(thrown, invoice_status_view) throws"

fun ln_enabled :: "int \<Rightarrow> ln_event \<Rightarrow> ln_modal \<Rightarrow> bool" where
  "ln_enabled t Rendered m = True"
| "ln_enabled t (Fired _) m = (case ln_timer m of Some due \<Rightarrow> due \<le> t | None \<Rightarrow> False)"

fun ln_apply :: "int \<Rightarrow> ln_event \<Rightarrow> ln_modal \<Rightarrow> ln_modal" where
  "ln_apply t Rendered m = run_poll_effect t m"
| "ln_apply t (Fired reply) m = on_poll t reply m"

fun ln_run :: "int \<Rightarrow> (int \<times> ln_event) list \<Rightarrow> ln_modal \<Rightarrow> ln_modal option" where
  "ln_run t [] m = Some m"
| "ln_run t ((t', e) # es) m =
     (if t \<le> t' \<and> ln_enabled t' e m then ln_run t' es (ln_apply t' e m) else None)"

text \<open>What the modal offers below the invoice, and in an error.\<close>

datatype ln_button = Done_Button | Close_Button | Cancel_Button | Free_Checkin_Button

definition ln_buttons :: "bool \<Rightarrow> ln_state \<Rightarrow> ln_button list" where
  "ln_buttons free_offered st =
     (case st of
        Paid _ \<Rightarrow> [Done_Button]
      | Expired _ \<Rightarrow> [Close_Button]
      | Ln_Error _ \<Rightarrow> (if free_offered then [Free_Checkin_Button] else []) @ [Cancel_Button]
      | _ \<Rightarrow> [Cancel_Button])"

section \<open>The link of a reminder (OneTapCheckinPage.tsx)\<close>

record checkin_response =
  cr_vault_id :: jstr
  cr_last_checkin_at :: jstr
  cr_next_deadline_at :: jstr
  cr_status :: jstr

datatype one_tap = Paying ln_modal | Tapped "checkin_response option" | Tap_Failed jstr

definition open_one_tap :: "jstr \<Rightarrow> jstr \<Rightarrow> int \<Rightarrow> one_tap" where
  "open_one_tap vault token now = Paying (open_modal vault None (Some token) now)"

definition one_tap_paid :: one_tap where
  "one_tap_paid = Tapped None"

definition free_checkin :: "jstr \<Rightarrow> jstr \<Rightarrow> (call \<Rightarrow> (thrown, checkin_response) throws) \<Rightarrow> one_tap" where
  "free_checkin vault token send =
     (case send (CheckinFromLink vault token) of
        Inr resp \<Rightarrow> Tapped (Some resp)
      | Inl e \<Rightarrow> Tap_Failed (raw_error_message e))"

text \<open>The date shown after a free check-in; after a payment there is none.\<close>

definition one_tap_date :: "(jstr \<Rightarrow> int option) \<Rightarrow> (int \<Rightarrow> jstr) \<Rightarrow> checkin_response option
    \<Rightarrow> (jstr, jstr option) throws" where
  "one_tap_date date_time render resp =
     (case resp of
        None \<Rightarrow> Inr None
      | Some r \<Rightarrow> and_then (parse_rfc date_time (cr_next_deadline_at r)) (\<lambda>t. Inr (Some (render t))))"

section \<open>The link of a confirmation (VerifyEmailPage.tsx)\<close>

datatype verify_state = Confirming | Verify_Ok | Verify_Stale

record verify_page =
  vp_state :: verify_state
  vp_fired :: bool
  vp_calls :: "call list"

definition open_verify :: verify_page where
  "open_verify = \<lparr>vp_state = Confirming, vp_fired = False, vp_calls = []\<rparr>"

text \<open>One run of the effect, with the answer to its request: StrictMode runs it twice.\<close>

definition verify_effect :: "jstr \<Rightarrow> jstr \<Rightarrow> (call \<Rightarrow> thrown option) \<Rightarrow> verify_page \<Rightarrow> verify_page" where
  "verify_effect vault token send p =
     (if vp_fired p then p
      else (let c = VerifyContact vault token
            in \<lparr>vp_state = (if send c = None then Verify_Ok else Verify_Stale), vp_fired = True,
                vp_calls = vp_calls p @ [c]\<rparr>))"

section \<open>What polling promises\<close>

definition not_settled :: "(thrown, invoice_status_view) throws \<Rightarrow> bool" where
  "not_settled reply = (case reply of Inl _ \<Rightarrow> True | Inr st \<Rightarrow> is_status st \<notin> {''paid'', ''expired''})"

lemma poll_ms [simp]: "poll_interval_ms = 3000" "poll_timeout_ms = 90000"
  by (simp_all add: poll_interval_ms_def poll_timeout_ms_def)

lemma run_poll_effect_simps [simp]:
  "ln_state (run_poll_effect t m) = ln_state m" "ln_calls (run_poll_effect t m) = ln_calls m"
  "ln_started (run_poll_effect t m) = ln_started m" "ln_paid_call (run_poll_effect t m) = ln_paid_call m"
  "ln_timer (run_poll_effect t m) = (case ln_state m of Awaiting _ \<Rightarrow> Some (t + 3000) | _ \<Rightarrow> None)"
  by (simp_all add: run_poll_effect_def cong: ln_state.case_cong)

text \<open>The clock of the polling: each request came three seconds after the one before, or after the
  invoice.\<close>

definition poll_inv :: "int \<Rightarrow> ln_modal \<Rightarrow> bool" where
  "poll_inv t m = (ln_calls m \<noteq> [] \<and> length (ln_calls m) \<le> 31
     \<and> ln_started m + 3000 * (int (length (ln_calls m)) - 1) \<le> t
     \<and> (case ln_timer m of None \<Rightarrow> True | Some due \<Rightarrow> ln_started m + 3000 * int (length (ln_calls m)) \<le> due))"

lemma poll_inv_step:
  assumes "poll_inv t m" "t \<le> t'" "ln_enabled t' e m"
  shows "poll_inv t' (ln_apply t' e m)"
proof (cases e)
  case Rendered
  then show ?thesis using assms by (auto simp: poll_inv_def split: ln_state.splits)
next
  case (Fired reply)
  then obtain due where due: "ln_timer m = Some due" "due \<le> t'"
    using assms(3) by (auto split: option.splits)
  show ?thesis
  proof (cases "ln_state m")
    case (Awaiting bill)
    with assms(1,2) due show ?thesis unfolding Fired
      by (cases "t' - ln_started m > 90000"; cases reply)
        (auto simp: poll_inv_def on_poll_def Let_def)
  qed (use assms Fired in \<open>auto simp: on_poll_def poll_inv_def split: option.splits\<close>)
qed

lemma poll_inv_run: "ln_run t es m = Some m' \<Longrightarrow> poll_inv t m \<Longrightarrow> \<exists>t'. poll_inv t' m'"
proof (induction t es m rule: ln_run.induct)
  case (2 t t' e es m)
  then show ?case by (auto split: if_splits intro: poll_inv_step)
qed auto


text \<open>The answers of an interval that nothing restarts.\<close>

fun fired_every :: "int \<Rightarrow> (thrown, invoice_status_view) throws list \<Rightarrow> (int \<times> ln_event) list" where
  "fired_every t [] = []"
| "fired_every t (r # rs) = (t + 3000, Fired r) # fired_every (t + 3000) rs"

lemma fired_every_run:
  assumes "ln_state m = Awaiting bill" "ln_timer m = Some (t + 3000)"
    and "list_all not_settled rs" "t + 3000 * int (length rs) - ln_started m \<le> 90000"
  shows "\<exists>m'. ln_run t (fired_every t rs @ es) m = ln_run (t + 3000 * int (length rs)) es m'
     \<and> ln_state m' = Awaiting bill \<and> ln_timer m' = Some (t + 3000 * int (length rs) + 3000)
     \<and> ln_started m' = ln_started m \<and> length (ln_calls m') = length (ln_calls m) + length rs"
  using assms
proof (induction rs arbitrary: t m)
  case (Cons r rs)
  define m1 where "m1 = on_poll (t + 3000) r m"
  have s: "t + 3000 - ln_started m \<le> 90000" using Cons.prems(4) by simp
  have m1: "ln_state m1 = Awaiting bill" "ln_timer m1 = Some (t + 3000 + 3000)" "ln_started m1 = ln_started m"
    "length (ln_calls m1) = Suc (length (ln_calls m))"
    using Cons.prems(1,3) s by (cases r; auto simp: m1_def on_poll_def not_settled_def Let_def)+
  have "\<exists>m'. ln_run (t + 3000) (fired_every (t + 3000) rs @ es) m1
        = ln_run (t + 3000 + 3000 * int (length rs)) es m'
     \<and> ln_state m' = Awaiting bill \<and> ln_timer m' = Some (t + 3000 + 3000 * int (length rs) + 3000)
     \<and> ln_started m' = ln_started m1 \<and> length (ln_calls m') = length (ln_calls m1) + length rs"
    by (rule Cons.IH [OF m1(1,2)]) (use Cons.prems(3,4) m1(3) in simp_all)
  moreover have "ln_run t (fired_every t (r # rs) @ es) m = ln_run (t + 3000) (fired_every (t + 3000) rs @ es) m1"
    using Cons.prems(2) by (simp add: m1_def)
  ultimately show ?case using m1 by (simp add: algebra_simps)
next
  case Nil
  then show ?case by (intro exI [of _ m]) simp
qed

text \<open>In a parent that leaves the modal alone, a payment is seen at the next callback of the interval,
  and the parent is told 0.8 seconds later.\<close>

theorem stable_parent_sees_payment:
  fixes t opened :: int and rs :: "(thrown, invoice_status_view) throws list" and bill :: invoice_view
    and vault :: jstr and owner link :: "jstr option"
  assumes "list_all not_settled rs" and "is_status st = ''paid''"
    and "t + 3000 * (int (length rs) + 1) - opened \<le> 90000"
  defines "m0 \<equiv> on_minted t (Inr bill) (open_modal vault owner link opened)"
    and "paid_at \<equiv> t + 3000 * (int (length rs) + 1)"
  shows "\<exists>m. ln_run t (fired_every t (rs @ [Inr st])) m0 = Some m \<and> ln_state m = Paid bill
     \<and> ln_paid_call m = Some (paid_at + 800) \<and> length (ln_calls m) = length rs + 2"
proof -
  have m0: "ln_state m0 = Awaiting bill" "ln_timer m0 = Some (t + 3000)" "ln_started m0 = opened"
    "length (ln_calls m0) = 1"
    by (simp_all add: m0_def on_minted_def open_modal_def)
  have split: "fired_every t (rs @ [Inr st]) = fired_every t rs @ [(paid_at, Fired (Inr st))]"
    unfolding paid_at_def by (induction rs arbitrary: t) (simp_all add: algebra_simps)
  obtain m1 where m1: "ln_run t (fired_every t rs @ [(paid_at, Fired (Inr st))]) m0
        = ln_run (t + 3000 * int (length rs)) [(paid_at, Fired (Inr st))] m1"
     "ln_state m1 = Awaiting bill" "ln_timer m1 = Some (t + 3000 * int (length rs) + 3000)"
     "ln_started m1 = opened" "length (ln_calls m1) = length rs + 1"
    using fired_every_run [OF m0(1,2) assms(1), of "[(paid_at, Fired (Inr st))]"] m0(3,4) assms(3) by auto
  then show ?thesis using assms(2,3) unfolding split
    by (simp add: paid_at_def on_poll_def algebra_simps)
qed

text \<open>A parent that renders within every interval, as a page with a clock of one second does: no event
  comes three seconds or more after the last render.\<close>

fun rendered_often :: "int \<Rightarrow> (int \<times> ln_event) list \<Rightarrow> bool" where
  "rendered_often r [] = True"
| "rendered_often r ((t, e) # es) =
     (t < r + 3000 \<and> rendered_often (case e of Rendered \<Rightarrow> t | Fired _ \<Rightarrow> r) es)"

lemma rendered_often_run:
  "ln_state m = Awaiting bill \<Longrightarrow> ln_timer m = Some (r + 3000) \<Longrightarrow> rendered_often r es \<Longrightarrow> ln_run t es m = Some m'
   \<Longrightarrow> ln_state m' = Awaiting bill \<and> ln_calls m' = ln_calls m \<and> ln_paid_call m' = ln_paid_call m"
proof (induction es arbitrary: r t m)
  case (Cons e es)
  obtain t' ev where e: "e = (t', ev)" by (cases e)
  show ?case
  proof (cases ev)
    case Rendered
    then have "ln_run t' es (run_poll_effect t' m) = Some m'" "rendered_often t' es"
      using Cons.prems e by (auto split: if_splits)
    then show ?thesis using Cons.IH [of "run_poll_effect t' m" t' t'] Cons.prems(1) by simp
  qed (use Cons.prems e in \<open>auto split: if_splits\<close>)
qed auto

text \<open>Under such a parent the invoice is never asked about: the modal waits for ever, paid or not.\<close>

theorem ticking_parent_never_polls:
  assumes "rendered_often t es"
    and "ln_run t es (on_minted t (Inr bill) (open_modal vault owner link opened)) = Some m"
  shows "ln_state m = Awaiting bill \<and> length (ln_calls m) = 1 \<and> ln_paid_call m = None"
  using rendered_often_run [OF _ _ assms, of bill]
  by (simp add: on_minted_def open_modal_def)

text \<open>One invoice, paid at the first look, and the renders of a page with a clock.\<close>

definition sample_bill :: invoice_view where
  "sample_bill = \<lparr>iv_bolt11 = ''lnbc1'', iv_payment_hash = ''h'', iv_amount_sat = 21, iv_expires_at = ''2026'',
     iv_status = ''pending''\<rparr>"

definition paid_view :: invoice_status_view where
  "paid_view = \<lparr>is_payment_hash = ''h'', is_status = ''paid'', is_paid_at = Some ''2026'', is_expires_at = ''2026''\<rparr>"

abbreviation sample_modal :: ln_modal where
  "sample_modal \<equiv> on_minted 0 (Inr sample_bill) (open_modal ''a'' (Some ''ta'') None 0)"

definition second_ticks :: "(int \<times> ln_event) list" where
  "second_ticks = [(1000, Rendered), (2000, Rendered), (3000, Rendered), (4000, Rendered)]"

lemma sample_modal_state: "ln_state sample_modal = Awaiting sample_bill" "ln_timer sample_modal = Some 3000"
  "ln_started sample_modal = 0"
  by (simp_all add: on_minted_def open_modal_def)


theorem stable_parent_sees_payment_witness:
  "\<exists>m. ln_run 0 [(3000, Fired (Inr paid_view))] sample_modal = Some m \<and> ln_state m = Paid sample_bill
     \<and> ln_paid_call m = Some 3800"
  using stable_parent_sees_payment [of "[]" paid_view 0 0 sample_bill "''a''" "Some ''ta''" None]
  by (auto simp: paid_view_def sample_modal_state)

theorem ticking_parent_never_polls_witness:
  "\<exists>m. ln_run 0 second_ticks sample_modal = Some m \<and> ln_state m = Awaiting sample_bill \<and> length (ln_calls m) = 1"
proof -
  obtain m where m: "ln_run 0 second_ticks sample_modal = Some m" by (simp add: second_ticks_def)
  have "rendered_often 0 second_ticks" by (simp add: second_ticks_def)
  from ticking_parent_never_polls [OF this m] m show ?thesis by blast
qed

end
