(* ===== verification/Add_Heir.thy ===== *)
theory Add_Heir
  imports Setup_Wizard Owner_Views
begin

text \<open>
  Adding an heir to a vault that exists (ghostkey-web/src/AddHeirPortal.tsx): the owner's key is
  unsealed from the share on screen, a new share is created under the same owner key, its real token is
  sealed back, and the device files it in the group, which is made now if there was none. The draws,
  the clock and the server's answers are arguments; the figures of the progress are left out.
\<close>

section \<open>The form\<close>

record heir_form =
  hf_name :: jstr
  hf_contact :: jstr
  hf_channel :: channel
  hf_password :: jstr
  hf_clip :: "recorded_clip option"

definition validate_heir :: "heir_form \<Rightarrow> jstr option" where
  "validate_heir f =
     (if js_trim (hf_name f) = [] then Some ''Give this heir a name.''
      else if js_trim (hf_contact f) = [] then Some ''Enter how to reach this heir.''
      else if hf_channel f = Email \<and> \<not> email_shaped (js_trim (hf_contact f))
      then Some ''That email looks off. Double-check it.''
      else if hf_password f = [] then Some ''Enter your password to authorise this.''
      else None)"

text \<open>\<open>fragment.replace(/\/\d+\/\*$/, "")\<close>\<close>

definition strip_chain :: "jstr \<Rightarrow> jstr" where
  "strip_chain s =
     (let r = rev s; ds = takeWhile js_digit (drop 2 r); rest = drop (2 + length ds) r
      in if starts_with r ''*/'' \<and> ds \<noteq> [] \<and> starts_with rest ''/'' then rev (tl rest) else s)"

section \<open>What the portal is given\<close>

record add_heir_props =
  ap_sibling :: jstr
  ap_vault :: vault_view
  ap_group :: "jstr option"
  ap_owner_email :: jstr

datatype add_phase = Add_Form | Add_Creating | Add_Done jstr "jstr option"

record add_heir_draws =
  ad_heir_entropy :: bytes
  ad_claim_token :: bytes
  ad_seal :: seal_draws
  ad_reseal_nonce :: bytes
  ad_video_nonce :: bytes
  ad_uuid :: jstr
  ad_now :: jstr

record add_heir_net =
  an_blobs :: fetch_blobs
  an_create :: "call \<Rightarrow> (thrown, created_vault) throws"
  an_send :: "call \<Rightarrow> thrown option"
  an_address :: "call \<Rightarrow> (thrown, jstr) throws"

record add_heir_result =
  ah_phase :: add_phase
  ah_error :: "jstr option"
  ah_dev :: device
  ah_calls :: "call list"

section \<open>Unlocking\<close>

definition device_locked_text :: jstr where
  "device_locked_text = ''This device is locked. Sign in with your password, then add the heir.''"

definition predates_text :: jstr where
  "predates_text = ''This vault predates the add-a-heir feature. Add this heir from the device where you originally set it up.''"

definition add_unlock_error :: "thrown \<Rightarrow> jstr" where
  "add_unlock_error e =
     (case e of
        Api_Error st body m \<Rightarrow> m
      | _ \<Rightarrow> if is_unseal_failure e then wrong_password_text
             else ''Could not add this heir: '' @ raw_error_message e)"

text \<open>The owner's key and the tagged public key, or the text of the error; with the requests made.\<close>

definition add_unlock :: "('a crypto_scheme) \<Rightarrow> fetch_blobs \<Rightarrow> jstr \<Rightarrow> jstr \<Rightarrow> device
    \<Rightarrow> call list \<times> (jstr, jstr \<times> jstr) throws" where
  "add_unlock C get_sealed_blobs sibling password d =
     (case get_vault_owner_token sibling d of
        None \<Rightarrow> ([], Inl device_locked_text)
      | Some token \<Rightarrow>
          if token = [] then ([], Inl device_locked_text)
          else ([GetSealedBlobs sibling token],
                (case get_sealed_blobs sibling token of
                   Inl e \<Rightarrow> Inl (add_unlock_error e)
                 | Inr b \<Rightarrow>
                     if \<not> truthy (sbv_owner_xpub_fragment b) then Inl predates_text
                     else (case unseal_blobs C password b of
                             Inl m \<Rightarrow> Inl (add_unlock_error (Js_Error m))
                           | Inr (xprv, _) \<Rightarrow> Inr (xprv, strip_chain (the (sbv_owner_xpub_fragment b)))))))"

section \<open>Creating the share\<close>

definition share_label :: "heir_form \<Rightarrow> jstr" where
  "share_label f = js_trim (hf_name f) @ [CHR 0x27] @ ''s share''"

definition form_contact :: "heir_form \<Rightarrow> jstr" where
  "form_contact f = json_stringify (JObj [(''name'', JStr (js_trim (hf_name f))),
     (''contact'', JStr (js_trim (hf_contact f))), (''channel'', JStr (channel_name (hf_channel f)))])"

definition share_seal_input :: "heir_form \<Rightarrow> jstr \<Rightarrow> generated_party \<Rightarrow> bytes \<Rightarrow> seal_all_input" where
  "share_seal_input f xprv party token =
     \<lparr>sai_password = hf_password f, sai_owner_xprv = xprv, sai_heir_xprv = kp_xprv party,
      sai_owner_token = placeholder_owner_token, sai_claim_token = token, sai_keep_owner_kek = True\<rparr>"

definition share_request :: "('a crypto_scheme) \<Rightarrow> add_heir_props \<Rightarrow> heir_form \<Rightarrow> jstr \<Rightarrow> generated_party \<Rightarrow> bytes
    \<Rightarrow> sealed_vault_secrets \<Rightarrow> create_vault_from_xpub_request" where
  "share_request C P f tagged party token s =
     (let v = ap_vault P
      in \<lparr>cx_label = Some (share_label f), cx_network = vv_network v,
          cx_owner = \<lparr>px_xpub = tagged, px_fingerprint = field.Absent\<rparr>, cx_heir = party_of party,
          cx_timelock_blocks = vv_timelock_blocks v, cx_checkin_period_secs = vv_checkin_period_secs v,
          cx_grace_period_secs = vv_grace_period_secs v, cx_owner_contact = Given (js_trim (ap_owner_email P)),
          cx_owner_contact_channel = Given ''email'', cx_heir_contact = Given (form_contact f),
          cx_heir_contact_channel = Given (channel_name (hf_channel f)),
          cx_sealed = Given (sealed_body s (hash_email_for_lookup C (ap_owner_email P)) False token),
          cx_heir_derivation = Null, cx_trusted_contact = field.Absent, cx_trusted_contact_channel = field.Absent,
          cx_from_name = field.Absent, cx_heir_note = field.Absent\<rparr>)"

definition share_meta :: "('a crypto_scheme) \<Rightarrow> add_heir_props \<Rightarrow> heir_form \<Rightarrow> jstr \<Rightarrow> jstr \<Rightarrow> created_vault
    \<Rightarrow> sealed_vault_secrets \<Rightarrow> sealed_blob option \<Rightarrow> vault_meta" where
  "share_meta C P f gid now resp s blob =
     \<lparr>vm_id = nv_id resp, vm_label = share_label f, vm_owner = \<lparr>oi_address = js_trim (ap_owner_email P)\<rparr>,
      vm_heir = \<lparr>hi_name = js_trim (hf_name f),
                 hi_email = (if hf_channel f = Email then js_trim (hf_contact f) else []), hi_address = []\<rparr>,
      vm_created_at = now, vm_owner_token = Some (nv_owner_token resp),
      vm_lock = map_option (wizard_lock s (hash_email_for_lookup C (ap_owner_email P))) blob, vm_group_id = Some gid\<rparr>"

text \<open>The group: the one given, or a new one that the sibling joins as well.\<close>

definition join_group :: "add_heir_props \<Rightarrow> jstr \<Rightarrow> device \<Rightarrow> jstr \<times> device" where
  "join_group P uuid d =
     (let gid = (case ap_group P of Some g \<Rightarrow> g | None \<Rightarrow> uuid)
      in (gid, if truthy (ap_group P) then d
               else (case get_vault_meta (ap_sibling P) d of
                       Some sib \<Rightarrow> save_vault_meta (sib\<lparr>vm_group_id := Some gid\<rparr>) d
                     | None \<Rightarrow> d)))"

text \<open>Everything after the answer to the creation.\<close>

definition share_created :: "('a crypto_scheme) \<Rightarrow> 'n hdkey \<Rightarrow> add_heir_draws \<Rightarrow> add_heir_net \<Rightarrow> add_heir_props
    \<Rightarrow> heir_form \<Rightarrow> jstr \<Rightarrow> sealed_vault_secrets \<Rightarrow> created_vault \<Rightarrow> device \<Rightarrow> device \<times> call list \<times> jstr option" where
  "share_created C H D N P f xprv s resp d =
     (case reseal_real_token C (ad_reseal_nonce D) (an_send N) (svs_owner_kek s) resp of (seal_calls, blob) \<Rightarrow>
      case upload_clip C H (ad_video_nonce D) (an_send N) xprv (ad_claim_token D) resp (hf_clip f) of (clip_calls, _) \<Rightarrow>
      case join_group P (ad_uuid D) d of (gid, d1) \<Rightarrow>
        (let addr = GetVaultAddress (nv_id resp)
         in (set_active_vault_id (Some (nv_id resp)) (save_vault_meta (share_meta C P f gid (ad_now D) resp s blob) d1),
             seal_calls @ clip_calls @ [addr],
             (case an_address N addr of Inr a \<Rightarrow> Some a | Inl _ \<Rightarrow> None))))"

section \<open>Submitting\<close>

text \<open>The key of the new heir is minted outside the handler's \<open>try\<close>: if that throws, the form stays
  in its creating phase.\<close>

definition add_heir_submit :: "('a crypto_scheme) \<Rightarrow> bip \<Rightarrow> 'n hdkey \<Rightarrow> add_heir_draws \<Rightarrow> add_heir_net
    \<Rightarrow> add_heir_props \<Rightarrow> heir_form \<Rightarrow> device \<Rightarrow> add_heir_result" where
  "add_heir_submit C B H D N P f d =
     (case validate_heir f of
        Some err \<Rightarrow> \<lparr>ah_phase = Add_Form, ah_error = Some err, ah_dev = d, ah_calls = []\<rparr>
      | None \<Rightarrow>
          (case add_unlock C (an_blobs N) (ap_sibling P) (hf_password f) d of
             (cs, Inl err) \<Rightarrow> \<lparr>ah_phase = Add_Form, ah_error = Some err, ah_dev = d, ah_calls = cs\<rparr>
           | (cs, Inr (xprv, tagged)) \<Rightarrow>
               (case generate_party B (ad_heir_entropy D) (vv_network (ap_vault P)) of
                  Inl e \<Rightarrow> \<lparr>ah_phase = Add_Creating, ah_error = None, ah_dev = d, ah_calls = cs\<rparr>
                | Inr party \<Rightarrow>
                    (case seal_vault_secrets C (ad_seal D) (share_seal_input f xprv party (ad_claim_token D)) of
                       Inl m \<Rightarrow> \<lparr>ah_phase = Add_Form, ah_error = Some (string_of_error (Js_Error m)), ah_dev = d,
                                 ah_calls = cs\<rparr>
                     | Inr s \<Rightarrow>
                         (let c = CreateVaultFromXpub (share_request C P f tagged party (ad_claim_token D) s)
                          in case an_create N c of
                               Inl e \<Rightarrow> \<lparr>ah_phase = Add_Form, ah_error = Some (string_of_error e), ah_dev = d,
                                         ah_calls = cs @ [c]\<rparr>
                             | Inr resp \<Rightarrow>
                                 (case share_created C H D N P f xprv s resp d of
                                    (d', later, address) \<Rightarrow>
                                      \<lparr>ah_phase = Add_Done (js_trim (hf_name f)) address, ah_error = None,
                                       ah_dev = d', ah_calls = cs @ [c] @ later\<rparr>))))))"

section \<open>The new share on the device\<close>

text \<open>The path of a descriptor fragment is cut off, and only there.\<close>

lemma strip_chain_path:
  assumes "digits n" "n \<noteq> []"
  shows "strip_chain (x @ ''/'' @ n @ ''/*'') = x"
proof -
  have n: "list_all js_digit (rev n)" using assms(1) by (simp add: digits_def)
  have slash: "\<not> js_digit CHR ''/''" by (simp add: js_digit_def)
  have r: "rev (x @ ''/'' @ n @ ''/*'') = ''*/'' @ rev n @ ''/'' @ rev x" by simp
  have tw: "takeWhile js_digit (rev n @ ''/'' @ rev x) = rev n"
    by (subst takeWhile_append2) (use n slash in \<open>auto simp: list_all_iff\<close>)
  show ?thesis unfolding strip_chain_def Let_def r using assms(2) by (simp add: tw [simplified])
qed

definition add_heir_sound :: "('a crypto_scheme) \<Rightarrow> add_heir_draws \<Rightarrow> add_heir_net \<Rightarrow> add_heir_props \<Rightarrow> bool" where
  "add_heir_sound C D N P \<longleftrightarrow> aead_correct C \<and> length (ad_reseal_nonce D) = 24 \<and> ad_uuid D \<noteq> []
     \<and> (\<forall>c resp. an_create N c = Inr resp \<longrightarrow> nv_id resp \<noteq> [] \<and> nv_id resp \<noteq> ap_sibling P
          \<and> nv_owner_token resp \<noteq> [] \<and> text_faithful C (nv_owner_token resp))"

text \<open>What the device keeps of the new share: without a lock, the token; with one, the password opens it.\<close>

definition share_kept :: "('a crypto_scheme) \<Rightarrow> jstr \<Rightarrow> created_vault \<Rightarrow> vault_meta \<Rightarrow> device \<Rightarrow> bool" where
  "share_kept C password resp m d =
     (case vm_lock m of
        None \<Rightarrow> vm_owner_token m = Some (nv_owner_token resp)
      | Some lk \<Rightarrow> vm_owner_token m = None \<and> get_vault_owner_token (nv_id resp) d = Some (nv_owner_token resp)
          \<and> unseal_owner_token C password (lk_salt lk) (nat (lk_mem_kib lk)) (nat (lk_iters lk)) (lk_blob lk)
              = Inr (nv_owner_token resp))"

lemma save_plain_token:
  fixes m sib :: vault_meta
  assumes "store_inv d" "get_vault_meta (vm_id m) d = Some sib" "vm_owner_token m = vm_owner_token sib"
    and "\<not> (truthy (vm_owner_token m) \<and> (\<exists>lk. vm_lock m = Some lk \<and> lock_validated lk))"
  shows "get_vault_owner_token (vm_id m) (save_vault_meta m d) = get_vault_owner_token (vm_id m) d"
proof -
  have "storage_works d" using assms(1) by (simp add: store_inv_def store_good_def)
  moreover have "save_vault_meta m d = set_active_vault_id (Some (vm_id m)) (write_all (obj_set (vm_id m) m (read_all d)) d)"
    using assms(4) by (auto simp: save_vault_meta_def Let_def split: option.split)
  ultimately show ?thesis using assms(2,3)
    by (simp add: get_vault_owner_token_def get_vault_meta_def store_frame store_reads obj_laws)
qed

lemma join_group_effect:
  assumes "store_inv d" "get_vault_meta (ap_sibling P) d = Some sib" "ap_group P \<noteq> Some []"
    and "truthy (ap_group P) \<longrightarrow> vm_group_id sib = ap_group P" "ad_uuid D \<noteq> []"
    and "join_group P (ad_uuid D) d = (gid, d1)"
  shows "gid \<noteq> [] \<and> store_good d1 \<and> get_vault_meta (ap_sibling P) d1 = Some (sib\<lparr>vm_group_id := Some gid\<rparr>)
    \<and> get_vault_owner_token (ap_sibling P) d1 = get_vault_owner_token (ap_sibling P) d"
proof -
  note id = store_inv_meta [OF assms(1,2)]
  note e = save_effect [OF store_inv_good [OF assms(1)], where meta = "sib\<lparr>vm_group_id := Some gid\<rparr>"]
  have plain: "\<not> (truthy (vm_owner_token sib) \<and> (\<exists>lk. vm_lock sib = Some lk \<and> lock_validated lk))"
    using assms(1,2) by (auto simp: store_inv_def)
  have tok: "get_vault_owner_token (ap_sibling P) (save_vault_meta (sib\<lparr>vm_group_id := Some gid\<rparr>) d)
      = get_vault_owner_token (ap_sibling P) d"
    using save_plain_token [OF assms(1), of "sib\<lparr>vm_group_id := Some gid\<rparr>" sib] plain id assms(2) by simp
  show ?thesis
  proof (cases "ap_group P")
    case None
    then have d1: "gid = ad_uuid D" "d1 = save_vault_meta (sib\<lparr>vm_group_id := Some gid\<rparr>) d"
      using assms(2,6) by (auto simp: join_group_def Let_def)
    then show ?thesis using e(1,2) tok plain id assms(5) by auto
  next
    case (Some g)
    then have "g \<noteq> []" "gid = g" "d1 = d" "vm_group_id sib = Some g"
      using assms(3,4,6) by (auto simp: join_group_def Let_def)
    moreover have "sib\<lparr>vm_group_id := Some g\<rparr> = sib" if "vm_group_id sib = Some g" using that by simp
    ultimately show ?thesis using assms(1,2) by (simp add: store_inv_good)
  qed
qed

lemma share_created_effect:
  fixes f :: heir_form
  assumes "add_heir_sound C D N P" "store_inv d" "get_vault_meta (ap_sibling P) d = Some sib"
    and "ap_group P \<noteq> Some []" "truthy (ap_group P) \<longrightarrow> vm_group_id sib = ap_group P"
    and "seal_vault_secrets C (ad_seal D) (share_seal_input f xprv party token) = Inr s"
    and "an_create N c = Inr resp" "share_created C H D N P f xprv s resp d = (d', later, address)"
  shows "\<exists>gid m. gid \<noteq> [] \<and> get_vault_meta (nv_id resp) d' = Some m \<and> vm_group_id m = Some gid
     \<and> get_vault_meta (ap_sibling P) d' = Some (sib\<lparr>vm_group_id := Some gid\<rparr>)
     \<and> get_active_vault_id d' = Some (nv_id resp)
     \<and> get_vault_owner_token (ap_sibling P) d' = get_vault_owner_token (ap_sibling P) d
     \<and> share_kept C (hf_password f) resp m d'"
proof -
  obtain calls blob where b: "reseal_real_token C (ad_reseal_nonce D) (an_send N) (svs_owner_kek s) resp = (calls, blob)"
    by (cases "reseal_real_token C (ad_reseal_nonce D) (an_send N) (svs_owner_kek s) resp")
  obtain gid d1 where j: "join_group P (ad_uuid D) d = (gid, d1)" by (cases "join_group P (ad_uuid D) d")
  have r: "nv_id resp \<noteq> []" "nv_id resp \<noteq> ap_sibling P" "nv_owner_token resp \<noteq> []" "text_faithful C (nv_owner_token resp)"
    and n: "aead_correct C" "length (ad_reseal_nonce D) = 24" "ad_uuid D \<noteq> []"
    using assms(1,7) by (auto simp: add_heir_sound_def)
  note g = join_group_effect [OF assms(2-5) n(3) j, THEN conjunct1]
    join_group_effect [OF assms(2-5) n(3) j, THEN conjunct2, THEN conjunct1]
    join_group_effect [OF assms(2-5) n(3) j, THEN conjunct2, THEN conjunct2, THEN conjunct1]
    join_group_effect [OF assms(2-5) n(3) j, THEN conjunct2, THEN conjunct2, THEN conjunct2]
  let ?m = "share_meta C P f gid (ad_now D) resp s blob"
  have id: "vm_id ?m = nv_id resp" by (simp add: share_meta_def)
  note e = save_effect [OF g(2), where meta = ?m, unfolded id]
  have d': "d' = set_active_vault_id (Some (nv_id resp)) (save_vault_meta ?m d1)"
    using assms(8) b j by (auto simp: share_created_def Let_def split: prod.splits)
  have act: "get_vault_meta i d' = get_vault_meta i (save_vault_meta ?m d1)"
    "get_vault_owner_token i d' = get_vault_owner_token i (save_vault_meta ?m d1)" for i
    by (simp_all add: d' get_vault_meta_def get_vault_owner_token_def store_frame)
  have kept: "\<exists>m. get_vault_meta (nv_id resp) d' = Some m \<and> vm_group_id m = Some gid
      \<and> share_kept C (hf_password f) resp m d'"
  proof (cases blob)
    case None
    then show ?thesis using e(2) r(3) unfolding act by (simp add: share_kept_def share_meta_def)
  next
    case (Some bl)
    obtain k where k: "svs_owner_kek s = Some k" "seal_with_key C (ad_reseal_nonce D) k (utf8 (nv_owner_token resp)) = Inr bl"
      using b Some reseal_blob by blast
    have keep: "sai_keep_owner_kek (share_seal_input f xprv party token)" by (simp add: share_seal_input_def)
    have o: "unseal_owner_token C (hf_password f) (svs_password_salt s) (svs_mem_kib s) (svs_iters s) bl
        = Inr (nv_owner_token resp)"
      using lock_opens [OF n(1) r(4) n(2) assms(6) keep k] by (simp add: share_seal_input_def)
    have lk: "vm_lock ?m = Some (wizard_lock s (hash_email_for_lookup C (ap_owner_email P)) bl)"
      "vm_owner_token ?m = Some (nv_owner_token resp)"
      by (simp_all add: Some share_meta_def)
    have "lock_validated (wizard_lock s (hash_email_for_lookup C (ap_owner_email P)) bl)" by (simp add: wizard_lock_def)
    with e(2) e(3) [OF _ lk(1)] lk r(3) o show ?thesis
      by (simp add: share_kept_def act) (simp add: share_meta_def wizard_lock_def)
  qed
  have "storage_works (save_vault_meta ?m d1)" using e(1) by (simp add: store_good_def)
  then have "get_active_vault_id d' = Some (nv_id resp)" using r(1) by (simp add: d' active_set_active)
  moreover have "get_vault_meta (ap_sibling P) d' = Some (sib\<lparr>vm_group_id := Some gid\<rparr>)"
    "get_vault_owner_token (ap_sibling P) d' = get_vault_owner_token (ap_sibling P) d"
    using e(4,5) [of "ap_sibling P"] r(2) g(3,4) unfolding act by simp_all
  ultimately show ?thesis using kept g(1) by blast
qed

lemma add_heir_done:
  assumes "ah_phase (add_heir_submit C B H D N P f d) = Add_Done name address"
  obtains xprv tagged party s resp cs later where
    "validate_heir f = None" "add_unlock C (an_blobs N) (ap_sibling P) (hf_password f) d = (cs, Inr (xprv, tagged))"
    "seal_vault_secrets C (ad_seal D) (share_seal_input f xprv party (ad_claim_token D)) = Inr s"
    "an_create N (CreateVaultFromXpub (share_request C P f tagged party (ad_claim_token D) s)) = Inr resp"
    "share_created C H D N P f xprv s resp d = (ah_dev (add_heir_submit C B H D N P f d), later, address)"
    "CreateVaultFromXpub (share_request C P f tagged party (ad_claim_token D) s)
       \<in> set (ah_calls (add_heir_submit C B H D N P f d))"
    "generate_party B (ad_heir_entropy D) (vv_network (ap_vault P)) = Inr party"
  using assms unfolding add_heir_submit_def
  by (auto simp: Let_def split: option.splits prod.splits sum.splits)

text \<open>C16: When the portal says it is done, the new share and the one it was added from are in one group
  of the device, which is made if there was none; the device points at the new share and holds its
  credential, under a lock that the typed password opens if there is a lock; and the credential of the
  old share is the one it had.\<close>

theorem add_heir_joins_group:
  assumes "add_heir_sound C D N P" "store_inv d" "get_vault_meta (ap_sibling P) d = Some sib"
    and "ap_group P \<noteq> Some []" "truthy (ap_group P) \<longrightarrow> vm_group_id sib = ap_group P"
    and "ah_phase (add_heir_submit C B H D N P f d) = Add_Done name address"
  defines "d' \<equiv> ah_dev (add_heir_submit C B H D N P f d)"
  shows "\<exists>gid m c resp. c \<in> set (ah_calls (add_heir_submit C B H D N P f d)) \<and> an_create N c = Inr resp
     \<and> get_vault_meta (nv_id resp) d' = Some m \<and> share_kept C (hf_password f) resp m d'
     \<and> {m, sib\<lparr>vm_group_id := Some gid\<rparr>} \<subseteq> set (get_vaults_by_group lc (Some gid) d')
     \<and> get_active_vault_id d' = Some (nv_id resp)
     \<and> get_vault_owner_token (ap_sibling P) d' = get_vault_owner_token (ap_sibling P) d"
proof -
  obtain xprv tagged party s resp later where
    *: "seal_vault_secrets C (ad_seal D) (share_seal_input f xprv party (ad_claim_token D)) = Inr s"
      "an_create N (CreateVaultFromXpub (share_request C P f tagged party (ad_claim_token D) s)) = Inr resp"
      "share_created C H D N P f xprv s resp d = (d', later, address)"
      "CreateVaultFromXpub (share_request C P f tagged party (ad_claim_token D) s)
         \<in> set (ah_calls (add_heir_submit C B H D N P f d))"
    unfolding d'_def using add_heir_done [OF assms(6)] by metis
  obtain gid m where e: "gid \<noteq> []" "get_vault_meta (nv_id resp) d' = Some m" "vm_group_id m = Some gid"
     "get_vault_meta (ap_sibling P) d' = Some (sib\<lparr>vm_group_id := Some gid\<rparr>)"
     "get_active_vault_id d' = Some (nv_id resp)"
     "get_vault_owner_token (ap_sibling P) d' = get_vault_owner_token (ap_sibling P) d"
     "share_kept C (hf_password f) resp m d'"
    using share_created_effect [OF assms(1-5) *(1,2,3)] by blast
  have "{m, sib\<lparr>vm_group_id := Some gid\<rparr>} \<subseteq> set (get_vaults_by_group lc (Some gid) d')"
    using e(1-4) by (auto simp: get_vaults_by_group_def get_vault_meta_def dest: obj_get_value)
  with *(2,4) e show ?thesis by blast
qed

section \<open>A second share\<close>

definition share_vault :: vault_view where
  "share_vault = \<lparr>vv_id = ''a'', vv_label = None, vv_network = ''regtest'', vv_timelock_blocks = 4320,
     vv_checkin_period_secs = 2592000, vv_grace_period_secs = 604800, vv_status = ''ok'',
     vv_created_at = ''2026'', vv_last_checkin_at = None, vv_next_deadline_at = ''2026'',
     vv_claim_eligible_at = None, vv_panic_frozen_until = None, vv_lnurl_checkin = None, vv_lnurl_panic = None,
     vv_owner_contact_verified = None, vv_activation_held = None, vv_heir_reachability = None,
     vv_has_trusted_contact = None, vv_descriptor_external = None, vv_descriptor_internal = None,
     vv_unlock_eta = None, vv_drill_started_at = None, vv_drill_opened_at = None, vv_drill_completed_at = None\<rparr>"

definition share_props :: add_heir_props where
  "share_props = \<lparr>ap_sibling = ''a'', ap_vault = share_vault, ap_group = None, ap_owner_email = ''a@b.c''\<rparr>"

definition share_form :: heir_form where
  "share_form = \<lparr>hf_name = ''Ada'', hf_contact = ''h@b.c'', hf_channel = Email, hf_password = ''correct horse'',
     hf_clip = None\<rparr>"

definition share_draws :: add_heir_draws where
  "share_draws = \<lparr>ad_heir_entropy = [2], ad_claim_token = replicate 32 9, ad_seal = sample_draws,
     ad_reseal_nonce = replicate 24 5, ad_video_nonce = replicate 24 6, ad_uuid = ''g'', ad_now = ''now''\<rparr>"

definition share_net :: "sealed_vault_secrets \<Rightarrow> add_heir_net" where
  "share_net s = \<lparr>an_blobs = (\<lambda>i t. Inr (sealed_view i ''regtest'' 4320 (Some ''xpub/0/*'') s)),
     an_create = (\<lambda>c. Inr sample_created), an_send = (\<lambda>c. None), an_address = (\<lambda>c. Inr ''addr'')\<rparr>"

definition lone_meta :: vault_meta where
  "lone_meta = (sample_meta ''a'' [])\<lparr>vm_group_id := None\<rparr>"

definition lone_device :: device where
  "lone_device = sample_device [(''a'', lone_meta)] [(''a'', ''ta'')]"

lemma lone_device_facts:
  "store_inv lone_device" "get_vault_meta ''a'' lone_device = Some lone_meta"
  "get_vault_owner_token ''a'' lone_device = Some ''ta''"
  by (auto simp: store_inv_def store_good_def lone_device_def obj_ok_def get_vault_meta_def obj_get_def lone_meta_def
      get_vault_owner_token_def sample_meta_def split: if_splits)

lemma share_sound: "add_heir_sound sample_crypto share_draws (share_net s) share_props"
  using sample_crypto_laws
  by (simp add: add_heir_sound_def share_draws_def share_net_def share_props_def sample_created_def sample_text)

lemma share_unlock:
  assumes "seal_vault_secrets sample_crypto sample_draws sample_input = Inr s"
  shows "add_unlock sample_crypto (an_blobs (share_net s)) ''a'' ''correct horse'' lone_device
     = ([GetSealedBlobs ''a'' ''ta''], Inr (''xprvA'', ''xpub''))"
proof -
  have "digits ''0''" by (simp add: digits_def js_digit_def)
  then have "strip_chain (''xpub'' @ ''/'' @ ''0'' @ ''/*'') = ''xpub''" by (rule strip_chain_path) simp
  then have st: "strip_chain ''xpub/0/*'' = ''xpub''" by simp
  have t: "text_faithful sample_crypto (sai_owner_xprv sample_input)" "text_faithful sample_crypto (sai_owner_token sample_input)"
    by (simp_all add: sample_input_def sample_text)
  have n: "length (d_nonce1 sample_draws) = 24" "length (d_nonce2 sample_draws) = 24"
    by (simp_all add: sample_draws_def)
  have "unseal_blobs sample_crypto ''correct horse'' (sealed_view ''a'' ''regtest'' 4320 (Some ''xpub/0/*'') s)
      = Inr (''xprvA'', ''tok'')"
    using unseal_sealed [OF sample_crypto_laws(1,3) t n assms, of "''correct horse''"] by (simp add: sample_input_def)
  moreover have "sbv_owner_xpub_fragment (sealed_view ''a'' ''regtest'' 4320 (Some ''xpub/0/*'') s) = Some ''xpub/0/*''"
    by (simp add: sealed_view_def)
  ultimately show ?thesis by (simp add: add_unlock_def lone_device_facts(3) share_net_def st)
qed

lemma share_form_valid: "validate_heir share_form = None"
  by code_simp

lemma share_done:
  assumes "seal_vault_secrets sample_crypto sample_draws sample_input = Inr s"
  shows "ah_phase (add_heir_submit sample_crypto wizard_bip wizard_hdkey share_draws (share_net s) share_props share_form
      lone_device) = Add_Done ''Ada'' (Some ''addr'')"
proof -
  obtain s' where s': "seal_vault_secrets sample_crypto sample_draws
      (share_seal_input share_form ''xprvA'' wizard_party (replicate 32 9)) = Inr s'" by (rule sample_seals_all)
  have n: "js_trim ''Ada'' = ''Ada''" by code_simp
  have d: "ad_seal share_draws = sample_draws" "ad_claim_token share_draws = replicate 32 9"
    by (simp_all add: share_draws_def)
  have p: "ap_sibling share_props = ''a''" "hf_password share_form = ''correct horse''" "hf_name share_form = ''Ada''"
    "vv_network (ap_vault share_props) = ''regtest''" "an_create (share_net s) = (\<lambda>c. Inr sample_created)"
    "an_address (share_net s) = (\<lambda>c. Inr ''addr'')"
    by (simp_all add: share_props_def share_form_def share_vault_def share_net_def)
  show ?thesis
    by (simp add: add_heir_submit_def share_form_valid p share_unlock [OF assms] wizard_generates d s' n share_created_def
        Let_def split: prod.split)
qed

theorem add_heir_joins_group_witness:
  "\<exists>s m. get_vault_meta ''v1'' (ah_dev (add_heir_submit sample_crypto wizard_bip wizard_hdkey share_draws (share_net s)
       share_props share_form lone_device)) = Some m
     \<and> share_kept sample_crypto ''correct horse'' sample_created m (ah_dev (add_heir_submit sample_crypto wizard_bip
         wizard_hdkey share_draws (share_net s) share_props share_form lone_device))"
proof -
  obtain s where s: "seal_vault_secrets sample_crypto sample_draws sample_input = Inr s" by (rule sample_sealed)
  have p: "ap_sibling share_props = ''a''" "ap_group share_props = None" "hf_password share_form = ''correct horse''"
    "an_create (share_net s) = (\<lambda>c. Inr sample_created)" "nv_id sample_created = ''v1''"
    by (simp_all add: share_props_def share_form_def share_net_def sample_created_def)
  have m: "get_vault_meta (ap_sibling share_props) lone_device = Some lone_meta"
    using lone_device_facts(2) by (simp add: p)
  from add_heir_joins_group [OF share_sound lone_device_facts(1) m _ _ share_done [OF s], of default] show ?thesis
    by (auto simp: p)
qed

end
