(* ===== verification/Checkin_Portal.thy ===== *)
theory Checkin_Portal
  imports Owner_Page
begin

text \<open>
  The check-in page of the older vaults (ghostkey-web/src/CheckinPortal.tsx): a vault is looked up by its id
  with the token this device stores, then refreshed and checked in. Here the requests and their answers are
  separate steps, so that answers may arrive in any order; \<open>cp_pending\<close> holds what is still awaited.
\<close>

section \<open>State\<close>

datatype portal_state =
    Portal_Empty
  | Looking
  | Portal_Loaded vault_view "vault_event list"
  | Portal_Not_Found jstr
  | No_Credentials jstr
  | Portal_Error jstr

text \<open>An awaited answer. \<open>Last_Refresh\<close> is the refresh inside a check-in.\<close>

datatype awaited = Await_Lookup jstr | Await_Refresh jstr | Await_Checkin jstr | Last_Refresh jstr

type_synonym vault_reply = "(thrown, vault_view \<times> vault_event list) throws"

record portal =
  cp_input :: jstr
  cp_state :: portal_state
  cp_busy :: bool
  cp_action_error :: "jstr option"
  cp_just_checked :: bool
  cp_lightning :: bool
  cp_modal :: bool
  cp_pending :: "awaited list"
  cp_calls :: "call list"
  cp_accepted :: nat

definition open_portal :: "jstr option \<Rightarrow> portal" where
  "open_portal initial = \<lparr>cp_input = the_default [] initial, cp_state = Portal_Empty, cp_busy = False,
     cp_action_error = None, cp_just_checked = False, cp_lightning = False, cp_modal = False,
     cp_pending = [], cp_calls = [], cp_accepted = 0\<rparr>"

definition portal_health :: "(thrown, bool) throws \<Rightarrow> portal \<Rightarrow> portal" where
  "portal_health reply p = (case reply of Inr b \<Rightarrow> p\<lparr>cp_lightning := b\<rparr> | Inl _ \<Rightarrow> p)"

definition token_for :: "device \<Rightarrow> jstr \<Rightarrow> jstr option" where
  "token_for d i = get_vault_owner_token (js_trim i) d"

text \<open>The two requests of a look: \<open>Promise.all\<close> sends both.\<close>

definition ask_vault :: "awaited \<Rightarrow> jstr \<Rightarrow> jstr option \<Rightarrow> portal \<Rightarrow> portal" where
  "ask_vault a i tok p = p\<lparr>cp_calls := cp_calls p @ [GetVault i tok, ListEvents i tok],
     cp_pending := cp_pending p @ [a]\<rparr>"

section \<open>Looking up\<close>

definition portal_lookup :: "device \<Rightarrow> jstr \<Rightarrow> portal \<Rightarrow> portal" where
  "portal_lookup d i p =
     (let trimmed = js_trim i; p1 = p\<lparr>cp_state := Looking, cp_action_error := None\<rparr>; tok = token_for d trimmed
      in if trimmed = [] then p
         else if \<not> truthy tok then p1\<lparr>cp_state := No_Credentials trimmed\<rparr>
         else ask_vault (Await_Lookup trimmed) trimmed tok p1)"

definition lookup_answer :: "jstr \<Rightarrow> vault_reply \<Rightarrow> portal \<Rightarrow> portal" where
  "lookup_answer i reply p =
     (case reply of
        Inr (v, evs) \<Rightarrow> p\<lparr>cp_state := Portal_Loaded v evs\<rparr>
      | Inl e \<Rightarrow> p\<lparr>cp_state :=
          (if thrown_status e = Some 401 then No_Credentials i
           else if thrown_status e = Some 404 then Portal_Not_Found i
           else Portal_Error (raw_error_message e))\<rparr>)"

section \<open>Refreshing\<close>

definition portal_refresh :: "device \<Rightarrow> portal \<Rightarrow> portal" where
  "portal_refresh d p =
     (case cp_state p of
        Portal_Loaded v evs \<Rightarrow>
          (let tok = token_for d (vv_id v)
           in if truthy tok then ask_vault (Await_Refresh (vv_id v)) (vv_id v) tok p else p)
      | _ \<Rightarrow> p)"

definition refresh_answer :: "vault_reply \<Rightarrow> portal \<Rightarrow> portal" where
  "refresh_answer reply p = (case reply of Inr (v, evs) \<Rightarrow> p\<lparr>cp_state := Portal_Loaded v evs\<rparr> | Inl _ \<Rightarrow> p)"

section \<open>Checking in\<close>

definition portal_checkin :: "device \<Rightarrow> portal \<Rightarrow> portal" where
  "portal_checkin d p =
     (case cp_state p of
        Portal_Loaded v evs \<Rightarrow>
          p\<lparr>cp_busy := True, cp_action_error := None,
            cp_calls := cp_calls p @ [Checkin (vv_id v) (token_for d (vv_id v))],
            cp_pending := cp_pending p @ [Await_Checkin (vv_id v)]\<rparr>
      | _ \<Rightarrow> p)"

text \<open>The answer of the check-in of vault \<open>i\<close>: the refresh it awaits is that of the page it was tapped on,
  and the thanks come only after it, whether it succeeds or not.\<close>

definition checkin_thanks :: "portal \<Rightarrow> portal" where
  "checkin_thanks p = p\<lparr>cp_just_checked := True, cp_busy := False\<rparr>"

definition checkin_answer :: "device \<Rightarrow> jstr \<Rightarrow> thrown option \<Rightarrow> portal \<Rightarrow> portal" where
  "checkin_answer d i reply p =
     (case reply of
        Some e \<Rightarrow> p\<lparr>cp_action_error := Some (string_of_error e), cp_busy := False\<rparr>
      | None \<Rightarrow>
          (let p1 = p\<lparr>cp_accepted := cp_accepted p + 1\<rparr>; tok = token_for d i
           in if truthy tok then ask_vault (Last_Refresh i) i tok p1 else checkin_thanks p1))"

definition last_refresh_answer :: "vault_reply \<Rightarrow> portal \<Rightarrow> portal" where
  "last_refresh_answer reply p = checkin_thanks (refresh_answer reply p)"

definition portal_thanks_over :: "portal \<Rightarrow> portal" where
  "portal_thanks_over p = p\<lparr>cp_just_checked := False\<rparr>"

text \<open>A paid invoice counts as a check-in the server took.\<close>

definition portal_paid :: "device \<Rightarrow> portal \<Rightarrow> portal" where
  "portal_paid d p =
     portal_refresh d (p\<lparr>cp_modal := False, cp_just_checked := True, cp_accepted := cp_accepted p + 1\<rparr>)"

definition free_instead :: "device \<Rightarrow> portal \<Rightarrow> portal" where
  "free_instead d p = portal_checkin d (p\<lparr>cp_modal := False\<rparr>)"

section \<open>What the page shows\<close>

record result_card =
  rc_title :: jstr
  rc_tap :: "tap option"
  rc_tap_disabled :: bool
  rc_reminder :: "jstr option"
  rc_button :: "(tap \<times> jstr) option"
  rc_events :: "(dot \<times> jstr \<times> jstr) list"

definition activity_dot :: "jstr \<Rightarrow> dot" where
  "activity_dot kind = (if kind = ''checkin'' \<or> kind = ''resolved'' then Dot_Ok
     else if kind = ''alarm'' then Dot_Alarm else Dot_Warning)"

definition activity_row :: "vault_event \<Rightarrow> dot \<times> jstr \<times> jstr" where
  "activity_row e = (activity_dot (ve_kind e), friendly_event_kind (ve_kind e),
     (let minutes = take 16 (ve_created_at e)
      in case index_of ''T'' minutes of None \<Rightarrow> minutes | Some n \<Rightarrow> minutes[n := CHR '' '']))"

definition result_card_of :: "(jstr \<Rightarrow> int option) \<Rightarrow> portal \<Rightarrow> vault_view \<Rightarrow> vault_event list \<Rightarrow> int
    \<Rightarrow> (jstr, result_card) throws" where
  "result_card_of date_time p v evs now =
     and_then (parse_rfc date_time (vv_next_deadline_at v)) (\<lambda>t.
     (let unfunded = (vv_status v = ''unfunded''); claimed = (vv_status v = ''claimed'');
          tap = (if cp_lightning p then Tap_Lightning else Tap_Checkin)
      in Inr \<lparr>rc_title = the_default ''Vault'' (vv_label v),
              rc_tap = (if cp_busy p \<or> unfunded then None else Some tap),
              rc_tap_disabled = (cp_busy p \<or> unfunded \<or> claimed),
              rc_reminder = (if unfunded then None else Some (cd_friendly (countdown_to t now))),
              rc_button = (if unfunded \<or> claimed then None
                 else Some (tap, if cp_just_checked p then ''Checked in''
                                 else if cp_lightning p then ''Check in with Lightning''
                                 else [CHR ''I'', CHR 0x27] @ ''m still here'')),
              rc_events = map activity_row (take 5 (rev evs))\<rparr>))"

definition lookup_disabled :: "portal \<Rightarrow> bool" where
  "lookup_disabled p = (js_trim (cp_input p) = [] \<or> cp_state p = Looking)"

text \<open>The free check-in inside the Lightning window.\<close>

definition free_offered :: "(jstr \<Rightarrow> int option) \<Rightarrow> int \<Rightarrow> portal \<Rightarrow> bool" where
  "free_offered date_time now p =
     (case cp_state p of
        Portal_Loaded v evs \<Rightarrow> cp_modal p \<and> last_resort_checkin_open date_time (vv_claim_eligible_at v) now
      | _ \<Rightarrow> False)"

section \<open>A use of the page\<close>

datatype portal_event =
    Portal_Health "(thrown, bool) throws"
  | Portal_Type jstr
  | Portal_Submit
  | Lookup_Answer jstr vault_reply
  | Portal_Tick
  | Refresh_Answer jstr vault_reply
  | Portal_Tap
  | Portal_Lightning
  | Checkin_Answer jstr "thrown option"
  | Last_Answer jstr vault_reply
  | Portal_Paid
  | Portal_Close
  | Portal_Free
  | Portal_Thanks_Over

definition one_less :: "awaited \<Rightarrow> portal \<Rightarrow> portal" where
  "one_less a p = p\<lparr>cp_pending := remove1 a (cp_pending p)\<rparr>"

fun portal_apply :: "device \<Rightarrow> portal_event \<Rightarrow> portal \<Rightarrow> portal" where
  "portal_apply d (Portal_Health r) p = portal_health r p"
| "portal_apply d (Portal_Type s) p = p\<lparr>cp_input := s\<rparr>"
| "portal_apply d Portal_Submit p = portal_lookup d (cp_input p) p"
| "portal_apply d (Lookup_Answer i r) p = lookup_answer i r (one_less (Await_Lookup i) p)"
| "portal_apply d Portal_Tick p = portal_refresh d p"
| "portal_apply d (Refresh_Answer i r) p = refresh_answer r (one_less (Await_Refresh i) p)"
| "portal_apply d Portal_Tap p = portal_checkin d p"
| "portal_apply d Portal_Lightning p = p\<lparr>cp_modal := True\<rparr>"
| "portal_apply d (Checkin_Answer i r) p = checkin_answer d i r (one_less (Await_Checkin i) p)"
| "portal_apply d (Last_Answer i r) p = last_refresh_answer r (one_less (Last_Refresh i) p)"
| "portal_apply d Portal_Paid p = portal_paid d p"
| "portal_apply d Portal_Close p = p\<lparr>cp_modal := False\<rparr>"
| "portal_apply d Portal_Free p = free_instead d p"
| "portal_apply d Portal_Thanks_Over p = portal_thanks_over p"

text \<open>What can happen: the buttons the page offers, and the answers it awaits.\<close>

definition free_tap_offered :: "portal \<Rightarrow> bool" where
  "free_tap_offered p =
     (case cp_state p of
        Portal_Loaded v evs \<Rightarrow> \<not> cp_busy p \<and> \<not> cp_lightning p \<and> vv_status v \<notin> {''unfunded'', ''claimed''}
      | _ \<Rightarrow> False)"

fun portal_offered :: "(jstr \<Rightarrow> int option) \<Rightarrow> int \<Rightarrow> portal_event \<Rightarrow> portal \<Rightarrow> bool" where
  "portal_offered dt now Portal_Submit p = (\<not> lookup_disabled p)"
| "portal_offered dt now (Lookup_Answer i r) p = (Await_Lookup i \<in> set (cp_pending p))"
| "portal_offered dt now (Refresh_Answer i r) p = (Await_Refresh i \<in> set (cp_pending p))"
| "portal_offered dt now (Checkin_Answer i r) p = (Await_Checkin i \<in> set (cp_pending p))"
| "portal_offered dt now (Last_Answer i r) p = (Last_Refresh i \<in> set (cp_pending p))"
| "portal_offered dt now Portal_Tap p = free_tap_offered p"
| "portal_offered dt now Portal_Lightning p =
     (cp_lightning p \<and> (\<exists>v evs. cp_state p = Portal_Loaded v evs \<and> vv_status v \<noteq> ''unfunded''))"
| "portal_offered dt now Portal_Paid p = (cp_modal p \<and> (\<exists>v evs. cp_state p = Portal_Loaded v evs))"
| "portal_offered dt now Portal_Free p = free_offered dt now p"
| "portal_offered dt now _ p = True"

inductive portal_reach :: "(jstr \<Rightarrow> int option) \<Rightarrow> portal \<Rightarrow> bool" for dt where
  portal_open: "portal_reach dt (open_portal initial)"
| portal_step: "portal_reach dt p \<Longrightarrow> portal_offered dt now e p \<Longrightarrow> portal_reach dt (portal_apply d e p)"

section \<open>Invariant\<close>

definition checkin_awaited :: "awaited list \<Rightarrow> bool" where
  "checkin_awaited ps = (\<exists>i. Await_Checkin i \<in> set ps \<or> Last_Refresh i \<in> set ps)"

text \<open>The thanks rest on a check-in the server took, and a busy page awaits one.\<close>

definition portal_inv :: "portal \<Rightarrow> bool" where
  "portal_inv p = ((cp_just_checked p \<longrightarrow> 0 < cp_accepted p)
     \<and> (\<forall>i. Last_Refresh i \<in> set (cp_pending p) \<longrightarrow> 0 < cp_accepted p)
     \<and> (cp_busy p \<longrightarrow> checkin_awaited (cp_pending p)))"

lemmas portal_ops = portal_health_def portal_lookup_def lookup_answer_def portal_refresh_def refresh_answer_def
  portal_checkin_def checkin_answer_def last_refresh_answer_def portal_thanks_over_def portal_paid_def
  free_instead_def checkin_thanks_def ask_vault_def one_less_def Let_def

lemma awaited_simps [simp]:
  "checkin_awaited (ps @ [Await_Lookup i]) = checkin_awaited ps"
  "checkin_awaited (ps @ [Await_Refresh i]) = checkin_awaited ps"
  "checkin_awaited (ps @ [Await_Checkin i])" "checkin_awaited (ps @ [Last_Refresh i])"
  "checkin_awaited (remove1 (Await_Lookup i) ps) = checkin_awaited ps"
  "checkin_awaited (remove1 (Await_Refresh i) ps) = checkin_awaited ps"
  by (auto simp: checkin_awaited_def in_set_remove1)

lemma last_remove1 [simp]:
  "Last_Refresh j \<in> set (remove1 (Await_Lookup i) ps) \<longleftrightarrow> Last_Refresh j \<in> set ps"
  "Last_Refresh j \<in> set (remove1 (Await_Refresh i) ps) \<longleftrightarrow> Last_Refresh j \<in> set ps"
  "Last_Refresh j \<in> set (remove1 (Await_Checkin i) ps) \<longleftrightarrow> Last_Refresh j \<in> set ps"
  by (simp_all add: in_set_remove1)

lemma portal_inv_step: "portal_inv p \<Longrightarrow> portal_offered dt now e p \<Longrightarrow> portal_inv (portal_apply d e p)"
  by (cases e) (auto simp: portal_inv_def portal_ops split: sum.splits option.splits portal_state.splits
      dest: notin_set_remove1)

lemma portal_inv_reach: "portal_reach dt p \<Longrightarrow> portal_inv p"
proof (induction rule: portal_reach.induct)
  case portal_open
  then show ?case by (simp add: portal_inv_def open_portal_def)
next
  case portal_step
  then show ?case by (blast intro: portal_inv_step)
qed

text \<open>Every request carries what this device stores for the vault it names, read when it is sent.\<close>

lemma portal_step_requests:
  "\<exists>new. cp_calls (portal_apply d e p) = cp_calls p @ new \<and> list_all (\<lambda>c. call_token c = token_for d (call_vault c)) new"
  by (cases e) (auto simp: portal_ops split: sum.splits option.splits portal_state.splits)

text \<open>C24: However the answers are ordered, the page says thanks only after a check-in the server took, and a
  page that is busy still awaits the answer of a check-in, so its button comes back; and each step's requests
  carry exactly the token this device stores for the vault they name.\<close>

theorem portal_tells_truth:
  assumes "portal_reach dt p"
  shows "(cp_just_checked p \<longrightarrow> 0 < cp_accepted p) \<and> (cp_busy p \<longrightarrow> checkin_awaited (cp_pending p))
    \<and> (\<exists>new. cp_calls (portal_apply d e p) = cp_calls p @ new
         \<and> list_all (\<lambda>c. call_token c = token_for d (call_vault c)) new)"
  using portal_inv_reach [OF assms] portal_step_requests by (simp add: portal_inv_def)

section \<open>A late answer\<close>

text \<open>A run of events, each of them possible when it happens.\<close>

fun portal_run :: "(jstr \<Rightarrow> int option) \<Rightarrow> int \<Rightarrow> device \<Rightarrow> portal_event list \<Rightarrow> portal \<Rightarrow> portal option" where
  "portal_run dt now d [] p = Some p"
| "portal_run dt now d (e # es) p =
     (if portal_offered dt now e p then portal_run dt now d es (portal_apply d e p) else None)"

definition late_refresh :: "jstr \<Rightarrow> jstr \<Rightarrow> vault_reply \<Rightarrow> vault_reply \<Rightarrow> portal_event list" where
  "late_refresh a b reply_a reply_b =
     [Portal_Tick, Portal_Type b, Portal_Submit, Lookup_Answer b reply_b, Refresh_Answer a reply_a]"

text \<open>The page shows vault a and its poll has asked for a; the owner looks up b and sees it; then the late
  answer about a arrives. The page shows a again under the id of b, and the next tap checks in a.\<close>

theorem late_refresh_replaces_lookup:
  assumes page: "cp_state p = Portal_Loaded v evs" and a: "vv_id v = js_trim (vv_id v)"
    and b: "js_trim b = b" "b \<noteq> []"
    and tokens: "truthy (get_vault_owner_token (vv_id v) d)" "truthy (get_vault_owner_token b d)"
    and again: "vv_id v' = vv_id v"
  shows "\<exists>q. portal_run dt now d (late_refresh (vv_id v) b (Inr (v', evs')) (Inr (w, ws))) p = Some q
    \<and> cp_input q = b \<and> cp_state q = Portal_Loaded v' evs'
    \<and> last (cp_calls (portal_checkin d q)) = Checkin (vv_id v) (get_vault_owner_token (vv_id v) d)"
  using assms by (simp add: late_refresh_def portal_ops lookup_disabled_def token_for_def)

lemma sample_trim [simp]: "js_trim ''a'' = ''a''" "js_trim ''b'' = ''b''"
  by code_simp+

theorem late_refresh_replaces_lookup_witness:
  "\<exists>q. portal_run (\<lambda>x. None) 0 home_device (late_refresh ''a'' ''b'' (Inr (sample_vault_view, [])) (Inr
        (sample_vault_view\<lparr>vv_id := ''b''\<rparr>, []))) ((open_portal None)\<lparr>cp_state := Portal_Loaded sample_vault_view []\<rparr>) = Some q
    \<and> cp_input q = ''b'' \<and> cp_state q = Portal_Loaded sample_vault_view []
    \<and> last (cp_calls (portal_checkin home_device q)) = Checkin ''a'' (Some ''ta'')"
  using late_refresh_replaces_lookup [of "(open_portal None)\<lparr>cp_state := Portal_Loaded sample_vault_view []\<rparr>"
      sample_vault_view "[]" "''b''" home_device sample_vault_view]
  by (simp add: sample_vault_view_def)

theorem portal_tells_truth_witness:
  "\<exists>new. cp_calls (portal_apply home_device Portal_Submit ((open_portal None)\<lparr>cp_input := ''a''\<rparr>)) = [] @ new
     \<and> list_all (\<lambda>c. call_token c = token_for home_device (call_vault c)) new"
proof -
  have "portal_reach (\<lambda>x. None) (portal_apply home_device (Portal_Type ''a'') (open_portal None))"
    by (rule portal_step [OF portal_open, where now = 0]) simp
  from portal_tells_truth [OF this, of home_device Portal_Submit] show ?thesis
    by (simp add: open_portal_def)
qed

end
