(* ===== verification/Legacy_Setup.thy ===== *)
theory Legacy_Setup
  imports Setup_Wizard
begin

text \<open>
  The setup wizard for owners who bring their own wallet (ghostkey-web/src/SetupPortal.tsx): four
  steps, each checked when it is left, and one creation request at the end, from two extended public
  keys or from a pasted pair of descriptors. Also which channels a server can deliver on
  (useChannelCapability.ts). The server's answers are arguments.
\<close>

section \<open>Channels a server delivers on (useChannelCapability.ts)\<close>

type_synonym channel_capability = "channel \<Rightarrow> bool"

definition all_on :: channel_capability where
  "all_on c = True"

text \<open>The flags of \<open>/health\<close>; an older server sends none.\<close>

record delivery_flags =
  df_email :: "bool option"
  df_sms :: "bool option"
  df_whatsapp :: "bool option"

definition capability_of :: "delivery_flags \<Rightarrow> channel_capability" where
  "capability_of h c =
     (case c of Email \<Rightarrow> the_default True (df_email h) | Sms \<Rightarrow> the_default True (df_sms h)
      | Whatsapp \<Rightarrow> the_default True (df_whatsapp h))"

text \<open>The hook on mount: what it shows first, and whether it asks.\<close>

definition use_channel_capability :: "channel_capability option \<Rightarrow> channel_capability \<times> bool" where
  "use_channel_capability cached = (the_default all_on cached, cached = None)"

text \<open>The answer: the capability shown from now on, and the cache of the page.\<close>

definition capability_answered ::
    "(thrown, delivery_flags) throws \<Rightarrow> channel_capability \<Rightarrow> channel_capability \<times> channel_capability option" where
  "capability_answered reply shown =
     (case reply of Inr h \<Rightarrow> (capability_of h, Some (capability_of h)) | Inl _ \<Rightarrow> (shown, None))"

section \<open>The draft\<close>

record legacy_draft =
  ld_owner_xpub :: jstr
  ld_owner_fingerprint :: jstr
  ld_owner_wallet :: "jstr option"
  ld_owner_email :: jstr
  ld_heir_name :: jstr
  ld_heir_contact :: jstr
  ld_heir_channel :: channel
  ld_heir_xpub :: jstr
  ld_heir_fingerprint :: jstr
  ld_waiting_months :: nat
  ld_cadence_id :: jstr
  ld_grace_id :: jstr
  ld_descriptor_external :: jstr
  ld_descriptor_internal :: jstr

definition empty_legacy :: legacy_draft where
  "empty_legacy = \<lparr>ld_owner_xpub = [], ld_owner_fingerprint = [], ld_owner_wallet = None, ld_owner_email = [],
     ld_heir_name = [], ld_heir_contact = [], ld_heir_channel = Sms, ld_heir_xpub = [], ld_heir_fingerprint = [],
     ld_waiting_months = 3, ld_cadence_id = default_cadence_id, ld_grace_id = default_grace_id,
     ld_descriptor_external = [], ld_descriptor_internal = []\<rparr>"

text \<open>The key helpers that this file adds to those it shares with the other wizard.\<close>

definition is_origin_tagged :: "jstr \<Rightarrow> bool" where
  "is_origin_tagged s = starts_with (js_trim s) ''[''"

definition is_hex_fingerprint :: "jstr \<Rightarrow> bool" where
  "is_hex_fingerprint s = (length (js_trim s) = 8 \<and> list_all hex_char (js_trim s))"

definition party_from_draft :: "jstr \<Rightarrow> jstr \<Rightarrow> party_xpub" where
  "party_from_draft xpub fingerprint =
     (let t = js_trim xpub
      in if is_origin_tagged t then \<lparr>px_xpub = t, px_fingerprint = field.Absent\<rparr>
         else \<lparr>px_xpub = t, px_fingerprint = Given (js_lower (js_trim fingerprint))\<rparr>)"

definition has_descriptors :: "legacy_draft \<Rightarrow> bool" where
  "has_descriptors d = (js_trim (ld_descriptor_external d) \<noteq> [] \<and> js_trim (ld_descriptor_internal d) \<noteq> [])"

section \<open>The checks of a step\<close>

definition quoted :: "jstr \<Rightarrow> jstr \<Rightarrow> jstr" where
  "quoted a b = a @ [CHR 0x27] @ b"

definition wallet_step_error :: "legacy_draft \<Rightarrow> jstr option" where
  "wallet_step_error d =
     (if has_descriptors d then None
      else if js_trim (ld_owner_xpub d) = [] then Some (quoted ''Paste your wallet'' ''s xpub to continue.'')
      else if \<not> looks_like_xpub (ld_owner_xpub d)
      then Some (quoted ''That doesn'' ''t look like an xpub. It should start with xpub, tpub, or vpub.'')
      else if \<not> is_origin_tagged (ld_owner_xpub d) \<and> \<not> is_hex_fingerprint (ld_owner_fingerprint d)
      then Some (quoted ''Your xpub has no origin tag. Add your wallet'' ''s fingerprint (8 hex characters).'')
      else if length (js_trim (ld_owner_email d)) > 0 \<and> \<not> email_shaped (js_trim (ld_owner_email d))
      then Some ''That email looks off. Double-check it, or leave the field blank to skip reminders.''
      else None)"

definition heir_step_problem :: "legacy_draft \<Rightarrow> jstr option" where
  "heir_step_problem d =
     (if js_trim (ld_heir_name d) = [] then Some ''Tell us who is inheriting.''
      else if js_trim (ld_heir_contact d) = []
      then Some ''Add a phone number or email so we can reach them when the time comes.''
      else if ld_heir_channel d = Email \<and> \<not> email_shaped (js_trim (ld_heir_contact d))
      then Some ''That email looks off. Double-check it.''
      else if has_descriptors d then None
      else if js_trim (ld_heir_xpub d) = []
      then Some (quoted ''Paste the heir'' ''s xpub. They never have to know. You get this from them in advance, or from any wallet you set aside for them.'')
      else if \<not> looks_like_xpub (ld_heir_xpub d)
      then Some (quoted ''That doesn'' ''t look like an xpub. It should start with xpub, tpub, or vpub.'')
      else if \<not> is_origin_tagged (ld_heir_xpub d) \<and> \<not> is_hex_fingerprint (ld_heir_fingerprint d)
      then Some (quoted ''Heir'' ''s xpub has no origin tag. Add the wallet'' @ quoted [] ''s fingerprint (8 hex characters).'')
      else if js_trim (ld_owner_xpub d) \<noteq> [] \<and> js_trim (ld_owner_xpub d) = js_trim (ld_heir_xpub d)
      then Some ''Owner and heir xpubs must be different.''
      else None)"

definition legacy_step_error :: "legacy_draft \<Rightarrow> nat \<Rightarrow> jstr option" where
  "legacy_step_error d s = (if s = 0 then wallet_step_error d else if s = 1 then heir_step_problem d else None)"

section \<open>The request\<close>

definition legacy_label :: "legacy_draft \<Rightarrow> jstr" where
  "legacy_label d = quoted (js_trim (ld_heir_name d)) ''s inheritance''"

definition legacy_contact :: "legacy_draft \<Rightarrow> jstr" where
  "legacy_contact d = json_stringify (JObj [(''name'', JStr (js_trim (ld_heir_name d))),
     (''contact'', JStr (js_trim (ld_heir_contact d))), (''channel'', JStr (channel_name (ld_heir_channel d)))])"

definition given_or_null :: "bool \<Rightarrow> jstr \<Rightarrow> jstr field" where
  "given_or_null b s = (if b then Given s else Null)"

definition legacy_request :: "jstr \<Rightarrow> legacy_draft \<Rightarrow> call" where
  "legacy_request network d =
     (let blocks = int (months_to_blocks (ld_waiting_months d));
          checkin = int (p_seconds (cadence_by_id_anywhere (ld_cadence_id d)));
          grace = int (p_seconds (grace_by_id_anywhere (ld_grace_id d)));
          email = js_trim (ld_owner_email d); told = length email > 0
      in if has_descriptors d
         then CreateVault
           \<lparr>cv_label = Some (legacy_label d), cv_network = network,
            cv_descriptor_external = js_trim (ld_descriptor_external d),
            cv_descriptor_internal = js_trim (ld_descriptor_internal d),
            cv_timelock_blocks = blocks, cv_checkin_period_secs = checkin, cv_grace_period_secs = grace,
            cv_owner_contact = given_or_null told email, cv_owner_contact_channel = given_or_null told ''email'',
            cv_heir_contact = Given (legacy_contact d)\<rparr>
         else CreateVaultFromXpub
           \<lparr>cx_label = Some (legacy_label d), cx_network = network,
            cx_owner = party_from_draft (ld_owner_xpub d) (ld_owner_fingerprint d),
            cx_heir = party_from_draft (ld_heir_xpub d) (ld_heir_fingerprint d),
            cx_timelock_blocks = blocks, cx_checkin_period_secs = checkin, cx_grace_period_secs = grace,
            cx_owner_contact = given_or_null told email, cx_owner_contact_channel = given_or_null told ''email'',
            cx_heir_contact = Given (legacy_contact d),
            cx_heir_contact_channel = Given (channel_name (ld_heir_channel d)),
            cx_sealed = field.Absent, cx_heir_derivation = field.Absent, cx_trusted_contact = field.Absent,
            cx_trusted_contact_channel = field.Absent, cx_from_name = field.Absent, cx_heir_note = field.Absent\<rparr>)"

text \<open>What the device keeps; the owner's address is the key, or the external descriptor.\<close>

definition legacy_meta :: "jstr \<Rightarrow> legacy_draft \<Rightarrow> created_vault \<Rightarrow> vault_meta" where
  "legacy_meta now d resp =
     \<lparr>vm_id = nv_id resp, vm_label = legacy_label d,
      vm_owner = \<lparr>oi_address = or_str (js_trim (ld_owner_xpub d)) (js_trim (ld_descriptor_external d))\<rparr>,
      vm_heir = \<lparr>hi_name = js_trim (ld_heir_name d),
                 hi_email = (if ld_heir_channel d = Email then js_trim (ld_heir_contact d) else []),
                 hi_address = js_trim (ld_heir_xpub d)\<rparr>,
      vm_created_at = now, vm_owner_token = Some (nv_owner_token resp), vm_lock = None, vm_group_id = None\<rparr>"

section \<open>The page\<close>

record legacy_wizard =
  lw_step :: nat
  lw_draft :: legacy_draft
  lw_error :: "jstr option"
  lw_demo :: bool
  lw_network :: jstr
  lw_dev :: device
  lw_calls :: "call list"
  lw_created :: "vault_list_item list"

definition open_legacy :: "device \<Rightarrow> legacy_wizard" where
  "open_legacy d = \<lparr>lw_step = 0, lw_draft = empty_legacy, lw_error = None, lw_demo = False, lw_network = ''testnet'',
     lw_dev = d, lw_calls = [], lw_created = []\<rparr>"

text \<open>The answer of \<open>/health\<close>: its demo flag and default network, or a failure.\<close>

definition legacy_health :: "(bool \<times> jstr option) option \<Rightarrow> legacy_wizard \<Rightarrow> legacy_wizard" where
  "legacy_health reply w =
     (case reply of
        None \<Rightarrow> w\<lparr>lw_demo := False\<rparr>
      | Some (demo, network) \<Rightarrow>
          w\<lparr>lw_demo := demo, lw_network := (if truthy network then the network else lw_network w),
            lw_draft := (let d = lw_draft w
                         in if ld_cadence_id d \<noteq> default_cadence_id \<or> ld_grace_id d \<noteq> default_grace_id then d
                            else d\<lparr>ld_cadence_id := default_cadence_id_for demo,
                                   ld_grace_id := default_grace_id_for demo\<rparr>)\<rparr>)"

datatype legacy_edit =
    Owner_Key jstr
  | Owner_Print jstr
  | Owner_Wallet jstr
  | Owner_Mail jstr
  | External jstr
  | Internal jstr
  | Heir_Name jstr
  | Heir_Channel channel
  | Heir_Contact jstr
  | Heir_Key jstr
  | Heir_Print jstr
  | Months nat
  | Cadence jstr
  | Grace jstr

definition no_spaces :: "jstr \<Rightarrow> jstr" where
  "no_spaces s = filter (\<lambda>c. \<not> js_ws c) s"

fun apply_edit :: "legacy_edit \<Rightarrow> legacy_draft \<Rightarrow> legacy_draft" where
  "apply_edit (Owner_Key x) d = d\<lparr>ld_owner_xpub := x\<rparr>"
| "apply_edit (Owner_Print x) d = d\<lparr>ld_owner_fingerprint := no_spaces x\<rparr>"
| "apply_edit (Owner_Wallet x) d =
     d\<lparr>ld_owner_wallet := (if ld_owner_wallet d = Some x then None else Some x)\<rparr>"
| "apply_edit (Owner_Mail x) d = d\<lparr>ld_owner_email := x\<rparr>"
| "apply_edit (External x) d = d\<lparr>ld_descriptor_external := x\<rparr>"
| "apply_edit (Internal x) d = d\<lparr>ld_descriptor_internal := x\<rparr>"
| "apply_edit (Heir_Name x) d = d\<lparr>ld_heir_name := x\<rparr>"
| "apply_edit (Heir_Channel c) d = d\<lparr>ld_heir_channel := c\<rparr>"
| "apply_edit (Heir_Contact x) d = d\<lparr>ld_heir_contact := x\<rparr>"
| "apply_edit (Heir_Key x) d = d\<lparr>ld_heir_xpub := x\<rparr>"
| "apply_edit (Heir_Print x) d = d\<lparr>ld_heir_fingerprint := no_spaces x\<rparr>"
| "apply_edit (Months n) d = d\<lparr>ld_waiting_months := n\<rparr>"
| "apply_edit (Cadence x) d = d\<lparr>ld_cadence_id := x\<rparr>"
| "apply_edit (Grace x) d = d\<lparr>ld_grace_id := x\<rparr>"

text \<open>The form of each step, and what its inputs can hold.\<close>

fun edit_offered :: "channel_capability \<Rightarrow> legacy_wizard \<Rightarrow> legacy_edit \<Rightarrow> bool" where
  "edit_offered cap w (Heir_Name _) = (lw_step w = 1)"
| "edit_offered cap w (Heir_Channel c) = (lw_step w = 1 \<and> cap c)"
| "edit_offered cap w (Heir_Contact _) = (lw_step w = 1)"
| "edit_offered cap w (Heir_Key _) = (lw_step w = 1)"
| "edit_offered cap w (Heir_Print _) = (lw_step w = 1)"
| "edit_offered cap w (Months n) = (lw_step w = 2 \<and> 1 \<le> n \<and> n \<le> 12)"
| "edit_offered cap w (Cadence i) = (lw_step w = 2 \<and> i \<in> ids (cadence_presets_for (lw_demo w)))"
| "edit_offered cap w (Grace i) = (lw_step w = 2 \<and> i \<in> ids (grace_presets_for (lw_demo w)))"
| "edit_offered cap w _ = (lw_step w = 0)"

definition legacy_next :: "legacy_wizard \<Rightarrow> legacy_wizard" where
  "legacy_next w =
     (case legacy_step_error (lw_draft w) (lw_step w) of
        Some e \<Rightarrow> w\<lparr>lw_error := Some e\<rparr>
      | None \<Rightarrow> w\<lparr>lw_error := None, lw_step := min 3 (lw_step w + 1)\<rparr>)"

definition legacy_back :: "legacy_wizard \<Rightarrow> legacy_wizard" where
  "legacy_back w = w\<lparr>lw_error := None, lw_step := lw_step w - 1\<rparr>"

definition legacy_activate :: "(call \<Rightarrow> (thrown, created_vault) throws) \<Rightarrow> jstr \<Rightarrow> legacy_wizard \<Rightarrow> legacy_wizard" where
  "legacy_activate create now w =
     (let c = legacy_request (lw_network w) (lw_draft w)
      in case create c of
           Inl e \<Rightarrow> w\<lparr>lw_error := Some (string_of_error e), lw_calls := lw_calls w @ [c]\<rparr>
         | Inr resp \<Rightarrow>
             w\<lparr>lw_error := None, lw_calls := lw_calls w @ [c],
               lw_dev := save_vault_meta (legacy_meta now (lw_draft w) resp) (lw_dev w),
               lw_created := lw_created w @ [list_item resp]\<rparr>)"

datatype legacy_event =
    Legacy_Health "(bool \<times> jstr option) option"
  | Legacy_Edit channel_capability legacy_edit
  | Legacy_Next
  | Legacy_Back
  | Legacy_Activate "call \<Rightarrow> (thrown, created_vault) throws" jstr

fun legacy_offered :: "legacy_event \<Rightarrow> legacy_wizard \<Rightarrow> bool" where
  "legacy_offered (Legacy_Edit cap e) w = edit_offered cap w e"
| "legacy_offered Legacy_Next w = (lw_step w < 3)"
| "legacy_offered Legacy_Back w = (lw_step w > 0)"
| "legacy_offered (Legacy_Activate create now) w = (lw_step w = 3)"
| "legacy_offered (Legacy_Health reply) w = True"

fun legacy_apply :: "legacy_event \<Rightarrow> legacy_wizard \<Rightarrow> legacy_wizard" where
  "legacy_apply (Legacy_Edit cap e) w = w\<lparr>lw_draft := apply_edit e (lw_draft w), lw_error := None\<rparr>"
| "legacy_apply Legacy_Next w = legacy_next w"
| "legacy_apply Legacy_Back w = legacy_back w"
| "legacy_apply (Legacy_Activate create now) w = legacy_activate create now w"
| "legacy_apply (Legacy_Health reply) w = legacy_health reply w"

text \<open>The review: what is shown before the activation.\<close>

definition months_label :: "nat \<Rightarrow> jstr" where
  "months_label n = (if n = 12 then ''1 year'' else show_nat n @ '' month'' @ (if n = 1 then [] else ''s''))"

definition short_text :: "jstr \<Rightarrow> jstr" where
  "short_text s = (if s = [] then [] else if length s \<le> 14 then s else take 6 s @ ''...'' @ drop (length s - 4) s)"

definition legacy_review :: "legacy_draft \<Rightarrow> (jstr \<times> jstr) list" where
  "legacy_review d =
     (let key = (\<lambda>x. if has_descriptors d then ''(in descriptor)'' else or_str (short_text x) ''-'')
      in [(''Goes to'', or_str (ld_heir_name d) ''-''),
          (''Reach them by'', (case ld_heir_channel d of Sms \<Rightarrow> ''SMS'' | Whatsapp \<Rightarrow> ''WhatsApp'' | Email \<Rightarrow> ''Email'')),
          (''Their contact'', or_str (short_text (ld_heir_contact d)) ''-''),
          (''Their xpub'', key (ld_heir_xpub d)),
          (''Waiting period'', months_label (ld_waiting_months d)),
          (''Reminder'', p_label (cadence_by_id_anywhere (ld_cadence_id d))),
          (''Grace period'', p_label (grace_by_id_anywhere (ld_grace_id d))),
          (''Your xpub'', key (ld_owner_xpub d))])"

section \<open>What reaches the server\<close>

text \<open>A use of the page against a server in mode \<open>demo\<close>, which its \<open>/health\<close> reports truly.\<close>

definition told_truly :: "bool \<Rightarrow> legacy_event \<Rightarrow> bool" where
  "told_truly demo e = (case e of Legacy_Health (Some (b, network)) \<Rightarrow> b = demo | _ \<Rightarrow> True)"

inductive legacy_reach :: "bool \<Rightarrow> legacy_wizard \<Rightarrow> bool" for demo where
  legacy_open: "legacy_reach demo (open_legacy d)"
| legacy_step: "legacy_reach demo w \<Longrightarrow> legacy_offered e w \<Longrightarrow> told_truly demo e \<Longrightarrow>
    legacy_reach demo (legacy_apply e w)"

definition legacy_key_ok :: "party_xpub \<Rightarrow> bool" where
  "legacy_key_ok p = (looks_like_xpub (px_xpub p)
     \<and> (case px_fingerprint p of field.Absent \<Rightarrow> starts_with (px_xpub p) ''['' | Null \<Rightarrow> False
        | Given f \<Rightarrow> length f = 8 \<and> list_all hex_char f))"

definition legacy_terms_ok :: "bool \<Rightarrow> int \<Rightarrow> int \<Rightarrow> int \<Rightarrow> bool" where
  "legacy_terms_ok demo checkin grace blocks =
     (validate_periods demo checkin grace = Inr () \<and> validate_timelock_blocks demo (word_of_int blocks) = Inr ())"

definition reachable_heir :: "jstr field \<Rightarrow> bool" where
  "reachable_heir c = (\<exists>name contact ch. c = Given (json_stringify (JObj [(''name'', JStr name),
       (''contact'', JStr contact), (''channel'', JStr (channel_name ch))]))
     \<and> name \<noteq> [] \<and> contact \<noteq> [] \<and> (ch = Email \<longrightarrow> email_shaped contact))"

fun legacy_call_ok :: "bool \<Rightarrow> call \<Rightarrow> bool" where
  "legacy_call_ok demo (CreateVault q) =
     (cv_descriptor_external q \<noteq> [] \<and> cv_descriptor_internal q \<noteq> [] \<and> reachable_heir (cv_heir_contact q)
      \<and> legacy_terms_ok demo (cv_checkin_period_secs q) (cv_grace_period_secs q) (cv_timelock_blocks q))"
| "legacy_call_ok demo (CreateVaultFromXpub q) =
     (legacy_key_ok (cx_owner q) \<and> legacy_key_ok (cx_heir q) \<and> px_xpub (cx_owner q) \<noteq> px_xpub (cx_heir q)
      \<and> reachable_heir (cx_heir_contact q)
      \<and> legacy_terms_ok demo (cx_checkin_period_secs q) (cx_grace_period_secs q) (cx_timelock_blocks q))"
| "legacy_call_ok demo _ = False"

definition legacy_draft_ok :: "bool \<Rightarrow> legacy_draft \<Rightarrow> bool" where
  "legacy_draft_ok demo d = (1 \<le> ld_waiting_months d \<and> ld_waiting_months d \<le> 12
     \<and> (\<not> demo \<longrightarrow> ld_cadence_id d \<notin> ids demo_cadence_presets \<and> ld_grace_id d \<notin> ids demo_grace_presets))"

definition legacy_inv :: "bool \<Rightarrow> legacy_wizard \<Rightarrow> bool" where
  "legacy_inv demo w = (lw_step w \<le> 3 \<and> (\<forall>i < lw_step w. legacy_step_error (lw_draft w) i = None)
     \<and> legacy_draft_ok demo (lw_draft w) \<and> (lw_demo w \<longrightarrow> demo) \<and> list_all (legacy_call_ok demo) (lw_calls w))"

lemma is_origin_tagged_trim [simp]: "is_origin_tagged (js_trim s) = is_origin_tagged s"
  by (simp add: is_origin_tagged_def)

lemma looks_like_xpub_trim [simp]: "looks_like_xpub (js_trim s) = looks_like_xpub s"
  by (simp add: looks_like_xpub_def)

lemma hex_lower: "hex_char c \<Longrightarrow> hex_char (js_lower_char c)"
  by (auto simp: hex_char_def js_digit_def in_range_def js_lower_char_def less_eq_char_def)

lemma party_from_draft_ok:
  assumes "looks_like_xpub xpub" "is_origin_tagged xpub \<or> is_hex_fingerprint f"
  shows "legacy_key_ok (party_from_draft xpub f)" "px_xpub (party_from_draft xpub f) = js_trim xpub"
proof -
  have "list_all hex_char (js_lower g)" if "list_all hex_char g" for g
    using that by (auto simp: js_lower_def list_all_iff hex_lower)
  moreover have "starts_with (js_trim xpub) ''['' \<longleftrightarrow> is_origin_tagged xpub"
    by (simp add: is_origin_tagged_def)
  ultimately show "legacy_key_ok (party_from_draft xpub f)"
    using assms by (auto simp: legacy_key_ok_def party_from_draft_def Let_def is_hex_fingerprint_def)
qed (simp add: party_from_draft_def Let_def)

lemma grace_anywhere_bound: "3 \<le> p_seconds (grace_by_id_anywhere i)"
proof (cases "find_preset i demo_grace_presets")
  case None
  have "3 * day \<le> p_seconds (grace_by_id i)" using grace_bounds grace.total by blast
  with None show ?thesis by (simp add: grace_anywhere_cases find_preset_None_iff day_def)
next
  case (Some p)
  then have "i \<in> ids demo_grace_presets" using find_preset_None_iff [of i demo_grace_presets] by auto
  moreover have "\<forall>q\<in>set demo_grace_presets. 3 \<le> p_seconds q" by (simp add: demo_grace_presets_def)
  ultimately show ?thesis using Some find_preset_Some [OF Some] by (simp add: grace_anywhere_cases)
qed

lemma legacy_terms:
  assumes "legacy_draft_ok demo d"
  shows "legacy_terms_ok demo (int (p_seconds (cadence_by_id_anywhere (ld_cadence_id d))))
     (int (p_seconds (grace_by_id_anywhere (ld_grace_id d)))) (int (months_to_blocks (ld_waiting_months d)))"
proof -
  have b: "144 \<le> months_to_blocks (ld_waiting_months d)" "months_to_blocks (ld_waiting_months d) \<le> 65535"
    using assms by (simp_all add: months_to_blocks_def legacy_draft_ok_def)
  then have "validate_timelock_blocks demo (word_of_nat (months_to_blocks (ld_waiting_months d))) = Inr ()"
    by (simp add: validate_blocks_ok)
  moreover have "3600 \<le> p_seconds (cadence_by_id_anywhere (ld_cadence_id d)) \<and>
      60 \<le> p_seconds (grace_by_id_anywhere (ld_grace_id d))" if "\<not> demo"
    using that assms cadence_anywhere_bound(1) [of "ld_cadence_id d"] grace_anywhere_ok [of "ld_grace_id d"]
    by (auto simp: legacy_draft_ok_def day_def ids_def demo_grace_presets_def)
  ultimately show ?thesis
    using cadence_anywhere_bound(2) [of "ld_cadence_id d"] grace_anywhere_bound [of "ld_grace_id d"]
    by (auto simp: legacy_terms_ok_def validate_periods_ok)
qed

lemma legacy_request_ok:
  assumes "legacy_draft_ok demo d" "wallet_step_error d = None" "heir_step_problem d = None"
  shows "legacy_call_ok demo (legacy_request network d)"
proof -
  have r: "reachable_heir (Given (legacy_contact d))"
    using assms(3) unfolding reachable_heir_def legacy_contact_def heir_step_problem_def
    by (intro exI [of _ "js_trim (ld_heir_name d)"] exI [of _ "js_trim (ld_heir_contact d)"]
        exI [of _ "ld_heir_channel d"]) (auto split: if_splits)
  show ?thesis
  proof (cases "has_descriptors d")
    case True
    then show ?thesis using r legacy_terms [OF assms(1)]
      by (simp add: legacy_request_def Let_def has_descriptors_def)
  next
    case False
    with assms(2,3) have k: "looks_like_xpub (ld_owner_xpub d)"
      "is_origin_tagged (ld_owner_xpub d) \<or> is_hex_fingerprint (ld_owner_fingerprint d)"
      "looks_like_xpub (ld_heir_xpub d)"
      "is_origin_tagged (ld_heir_xpub d) \<or> is_hex_fingerprint (ld_heir_fingerprint d)"
      "js_trim (ld_owner_xpub d) \<noteq> js_trim (ld_heir_xpub d)"
      by (auto simp: wallet_step_error_def heir_step_problem_def split: if_splits)
    show ?thesis
      using False r legacy_terms [OF assms(1)] party_from_draft_ok [OF k(1,2)] party_from_draft_ok [OF k(3,4)] k(5)
      by (simp add: legacy_request_def Let_def)
  qed
qed

text \<open>What each step's form can change: nothing that an earlier step has checked.\<close>

lemma edit_keeps_steps:
  assumes "edit_offered cap w e" "i < lw_step w"
  shows "legacy_step_error (apply_edit e (lw_draft w)) i = legacy_step_error (lw_draft w) i"
  using assms
  by (cases e) (auto simp: legacy_step_error_def wallet_step_error_def heir_step_problem_def has_descriptors_def)

lemma edit_keeps_draft_ok:
  assumes "edit_offered cap w e" "legacy_draft_ok demo (lw_draft w)" "lw_demo w \<longrightarrow> demo"
  shows "legacy_draft_ok demo (apply_edit e (lw_draft w))"
  using assms ids_disjoint
  by (cases e) (auto simp: legacy_draft_ok_def cadence_presets_for_def grace_presets_for_def)

lemma preset_change_keeps_steps:
  "legacy_step_error (d\<lparr>ld_cadence_id := a, ld_grace_id := b\<rparr>) i = legacy_step_error d i"
  by (simp add: legacy_step_error_def wallet_step_error_def heir_step_problem_def has_descriptors_def)

lemma legacy_inv_health:
  assumes "legacy_inv demo w" "told_truly demo (Legacy_Health reply)"
  shows "legacy_inv demo (legacy_health reply w)"
proof (cases reply)
  case None
  then show ?thesis using assms by (simp add: legacy_health_def legacy_inv_def)
next
  case (Some p)
  obtain b net where p: "p = (b, net)" by (cases p)
  have "b = demo" using assms(2) Some p by (simp add: told_truly_def)
  then show ?thesis using assms(1) ids_disjoint Some p
    by (auto simp: legacy_health_def legacy_inv_def Let_def legacy_draft_ok_def preset_change_keeps_steps
        default_cadence_id_for_def default_grace_id_for_def)
qed

lemma legacy_inv_step:
  assumes "legacy_inv demo w" "legacy_offered e w" "told_truly demo e"
  shows "legacy_inv demo (legacy_apply e w)"
proof (cases e)
  case (Legacy_Health reply)
  then show ?thesis using legacy_inv_health assms by simp
next
  case (Legacy_Edit cap ed)
  then show ?thesis
    using assms(1,2) edit_keeps_steps [of cap w ed] edit_keeps_draft_ok [of cap w ed demo]
    by (simp add: legacy_inv_def)
next
  case Legacy_Next
  show ?thesis
  proof (cases "legacy_step_error (lw_draft w) (lw_step w)")
    case None
    then show ?thesis using assms(1,2) Legacy_Next by (auto simp: legacy_inv_def legacy_next_def less_Suc_eq)
  qed (use assms(1) Legacy_Next in \<open>simp add: legacy_inv_def legacy_next_def\<close>)
next
  case Legacy_Back
  then show ?thesis using assms(1) by (auto simp: legacy_inv_def legacy_back_def)
next
  case (Legacy_Activate create now)
  have "legacy_step_error (lw_draft w) 0 = None" "legacy_step_error (lw_draft w) 1 = None"
    using assms(1,2) Legacy_Activate by (auto simp: legacy_inv_def)
  then have "legacy_call_ok demo (legacy_request (lw_network w) (lw_draft w))"
    using legacy_request_ok assms(1) by (simp add: legacy_inv_def legacy_step_error_def)
  then show ?thesis using assms(1) Legacy_Activate
    by (simp add: legacy_inv_def legacy_activate_def Let_def split: sum.split)
qed

lemma legacy_inv_reach: "legacy_reach demo w \<Longrightarrow> legacy_inv demo w"
proof (induction rule: legacy_reach.induct)
  case (legacy_open d)
  have "default_cadence_id \<notin> ids demo_cadence_presets" "default_grace_id \<notin> ids demo_grace_presets"
    by (simp_all add: default_cadence_id_def default_grace_id_def ids_def demo_cadence_presets_def demo_grace_presets_def)
  then show ?case by (simp add: legacy_inv_def open_legacy_def empty_legacy_def legacy_draft_ok_def)
qed (rule legacy_inv_step)

text \<open>C17: However its steps are filled, left and re-entered, the page sends only creations that each of
  its steps has accepted: a named heir with a contact, e-mail-shaped where it is one, and either a
  pair of descriptors, or two different well-formed extended keys that each carry an origin tag or an
  eight-digit fingerprint; and periods and a waiting period that the server's own checks pass, in its
  production and in its demo mode.\<close>

theorem legacy_requests_checked:
  assumes "legacy_reach demo w" "c \<in> set (lw_calls w)"
  shows "legacy_call_ok demo c"
  using legacy_inv_reach [OF assms(1)] assms(2) by (simp add: legacy_inv_def list_all_iff)

text \<open>What the device has after a creation that was answered: the new vault with its token and without a
  lock, and every other vault as before.\<close>

lemma legacy_vault_kept:
  fixes now :: jstr and w :: legacy_wizard
  assumes "store_good (lw_dev w)" "create (legacy_request (lw_network w) (lw_draft w)) = Inr resp"
  defines "d' \<equiv> lw_dev (legacy_activate create now w)"
  shows "get_vault_meta (nv_id resp) d' = Some (legacy_meta now (lw_draft w) resp)"
    and "j \<noteq> nv_id resp \<Longrightarrow> get_vault_meta j d' = get_vault_meta j (lw_dev w)"
    and "j \<noteq> nv_id resp \<Longrightarrow> get_vault_owner_token j d' = get_vault_owner_token j (lw_dev w)"
proof -
  have d': "d' = save_vault_meta (legacy_meta now (lw_draft w) resp) (lw_dev w)"
    using assms(2) by (simp add: d'_def legacy_activate_def Let_def)
  have m: "vm_id (legacy_meta now (lw_draft w) resp) = nv_id resp" "vm_lock (legacy_meta now (lw_draft w) resp) = None"
    by (simp_all add: legacy_meta_def)
  note e = save_effect [OF assms(1), where meta = "legacy_meta now (lw_draft w) resp", folded d', unfolded m]
  show "get_vault_meta (nv_id resp) d' = Some (legacy_meta now (lw_draft w) resp)" using e(2) by simp
  show "j \<noteq> nv_id resp \<Longrightarrow> get_vault_meta j d' = get_vault_meta j (lw_dev w)" by (rule e(4))
  show "j \<noteq> nv_id resp \<Longrightarrow> get_vault_owner_token j d' = get_vault_owner_token j (lw_dev w)" by (rule e(5))
qed

text \<open>With a pair of descriptors the owner's e-mail is never looked at, although it is sent.\<close>

lemma descriptors_skip_email:
  "has_descriptors d \<Longrightarrow> wallet_step_error (d\<lparr>ld_owner_email := x\<rparr>) = None"
  by (simp add: wallet_step_error_def has_descriptors_def)

section \<open>A vault from two keys\<close>

definition sample_key :: "char \<Rightarrow> jstr" where
  "sample_key c = ''xpub'' @ replicate 50 c"

definition legacy_visit :: "legacy_event list" where
  "legacy_visit =
     map (Legacy_Edit all_on) [Owner_Key (sample_key CHR ''1''), Owner_Print ''d34db33f''] @ [Legacy_Next]
     @ map (Legacy_Edit all_on) [Heir_Name ''Ada'', Heir_Channel Email, Heir_Contact ''h@b.c'',
         Heir_Key (sample_key CHR ''2''), Heir_Print ''c0ffee01''] @ [Legacy_Next, Legacy_Next,
       Legacy_Activate (\<lambda>c. Inr sample_created) ''now'']"

fun legacy_visits :: "legacy_event list \<Rightarrow> legacy_wizard \<Rightarrow> legacy_wizard option" where
  "legacy_visits [] w = Some w"
| "legacy_visits (e # es) w = (if legacy_offered e w then legacy_visits es (legacy_apply e w) else None)"

lemma legacy_visits_reach:
  "legacy_visits es w = Some w' \<Longrightarrow> list_all (told_truly demo) es \<Longrightarrow> legacy_reach demo w \<Longrightarrow> legacy_reach demo w'"
  by (induction es arbitrary: w) (auto split: if_splits intro: legacy_step)

lemma sample_keys:
  "looks_like_xpub (sample_key CHR ''1'')" "looks_like_xpub (sample_key CHR ''2'')"
  "js_trim (sample_key CHR ''1'') = sample_key CHR ''1''" "js_trim (sample_key CHR ''2'') = sample_key CHR ''2''"
  "\<not> is_origin_tagged (sample_key CHR ''1'')" "\<not> is_origin_tagged (sample_key CHR ''2'')"
  "sample_key CHR ''1'' \<noteq> []" "sample_key CHR ''2'' \<noteq> []" "sample_key CHR ''1'' \<noteq> sample_key CHR ''2''"
  by code_simp+

lemma sample_fields:
  "no_spaces ''d34db33f'' = ''d34db33f''" "no_spaces ''c0ffee01'' = ''c0ffee01''"
  "is_hex_fingerprint ''d34db33f''" "is_hex_fingerprint ''c0ffee01''"
  "js_trim ''Ada'' = ''Ada''" "js_trim ''h@b.c'' = ''h@b.c''" "email_shaped ''h@b.c''" "js_trim [] = []"
  by code_simp+

lemma legacy_visit_calls:
  "\<exists>w q. legacy_visits legacy_visit (open_legacy fresh_device) = Some w \<and> CreateVaultFromXpub q \<in> set (lw_calls w)
     \<and> px_xpub (cx_owner q) = sample_key CHR ''1''"
proof -
  have "\<exists>w. legacy_visits legacy_visit (open_legacy fresh_device) = Some w
      \<and> (\<exists>net d. lw_calls w = [legacy_request net d] \<and> \<not> has_descriptors d \<and> ld_owner_xpub d = sample_key CHR ''1'')"
    by (simp add: legacy_visit_def open_legacy_def empty_legacy_def all_on_def legacy_next_def legacy_step_error_def
        wallet_step_error_def heir_step_problem_def has_descriptors_def sample_keys sample_fields legacy_activate_def)
      (rule exI, rule exI, rule conjI, rule refl, simp add: sample_fields)
  then show ?thesis
    by (auto simp: legacy_request_def Let_def party_from_draft_def sample_keys)
qed

theorem legacy_requests_checked_witness:
  "\<exists>q. px_xpub (cx_owner q) = sample_key CHR ''1'' \<and> legacy_call_ok False (CreateVaultFromXpub q)"
proof -
  obtain w q where w: "legacy_visits legacy_visit (open_legacy fresh_device) = Some w"
    "CreateVaultFromXpub q \<in> set (lw_calls w)" "px_xpub (cx_owner q) = sample_key CHR ''1''"
    using legacy_visit_calls by blast
  have "list_all (told_truly False) legacy_visit" by (simp add: legacy_visit_def told_truly_def)
  from legacy_visits_reach [OF w(1) this legacy_open] have "legacy_reach False w" .
  from legacy_requests_checked [OF this w(2)] w(3) show ?thesis by blast
qed

end
