(* ===== verification/Vault_Tools.thy ===== *)
theory Vault_Tools
  imports Push Owner_Page Owner_Spend Legacy_Setup
begin

text \<open>
  The pages of the vault's tools (ghostkey-web/src/VaultToolPages.tsx): which tool each page shows and the
  list that leads to them; the editor of the heir's contact, with its requests and answers as separate steps;
  and the practice card (PracticeClaimCard.tsx). \<open>active_vault\<close> (useActiveVault.ts) is what a page knows.
\<close>

section \<open>The pages\<close>

datatype fallback = Fallback_Loading | Open_Dashboard_First | Fallback_Text jstr

definition fallback_of :: "active_vault \<Rightarrow> jstr \<Rightarrow> fallback" where
  "fallback_of s text = (if av_loading s then Fallback_Loading
     else if av_meta s = None then Open_Dashboard_First else Fallback_Text text)"

definition vault_claiming :: "active_vault \<Rightarrow> bool" where
  "vault_claiming s = (status_is (av_vault s) ''timelock_started'' \<or> status_is (av_vault s) ''claiming'')"

definition vault_text :: "(vault_view \<Rightarrow> jstr option) \<Rightarrow> active_vault \<Rightarrow> jstr option" where
  "vault_text get s = Option.bind (av_vault s) get"

definition message_ready :: "active_vault \<Rightarrow> bool" where
  "message_ready s = (av_meta s \<noteq> None \<and> av_vault s \<noteq> None \<and> \<not> status_is (av_vault s) ''claimed'')"

definition practice_ready :: "active_vault \<Rightarrow> bool" where
  "practice_ready s = (av_meta s \<noteq> None \<and> av_vault s \<noteq> None \<and> \<not> status_is (av_vault s) ''claimed''
     \<and> \<not> vault_claiming s)"

definition emergency_ready :: "active_vault \<Rightarrow> bool" where
  "emergency_ready s = (truthy (vault_text vv_lnurl_panic s) \<and> \<not> status_is (av_vault s) ''frozen''
     \<and> \<not> status_is (av_vault s) ''claimed'' \<and> \<not> vault_claiming s)"

definition reminders_ready :: "active_vault \<Rightarrow> bool" where
  "reminders_ready s = (av_meta s \<noteq> None \<and> truthy (av_owner_token s) \<and> truthy (av_push_key s)
     \<and> \<not> status_is (av_vault s) ''claimed'')"

definition contact_ready :: "active_vault \<Rightarrow> bool" where
  "contact_ready s = (av_meta s \<noteq> None \<and> truthy (av_owner_token s) \<and> \<not> status_is (av_vault s) ''claimed''
     \<and> \<not> vault_claiming s)"

text \<open>What stands in for a tool that is not shown.\<close>

definition heir_contact_blocked_reason :: "bool \<Rightarrow> jstr option \<Rightarrow> jstr" where
  "heir_contact_blocked_reason has_owner_token status =
     (if \<not> has_owner_token
      then quoted ''This browser isn'' ''t signed in as the owner of this vault, so it can''
           @ quoted [] ''t change how the heir is reached. Sign in on the device you set the vault up on.''
      else if status = Some ''claimed'' then quoted ''This share is claimed, so there'' ''s nobody left to reach.''
      else quoted ''This isn'' ''t available once a claim is underway.'')"

definition heir_contact_title :: "jstr option \<Rightarrow> jstr" where
  "heir_contact_title heir_name =
     (case heir_name of
        Some n \<Rightarrow> if js_trim n = [] then ''How your heir is reached'' else ''How '' @ js_trim n @ '' is reached''
      | None \<Rightarrow> ''How your heir is reached'')"

text \<open>The page of each tool: the tool itself (\<open>None\<close>), or its fallback.\<close>

definition tool_page :: "route \<Rightarrow> active_vault \<Rightarrow> fallback option" where
  "tool_page r s =
     (let shown = (\<lambda>ready text. if ready then None else Some (fallback_of s text))
      in if r = R_Heir_Message
         then shown (message_ready s) (quoted ''A message isn'' ''t available once the share is claimed.'')
         else if r = R_Practice then shown (practice_ready s) ''Practice runs pause once a claim is underway.''
         else if r = R_Emergency
         then shown (emergency_ready s) (quoted ''Emergency freeze isn'' ''t available for this share right now.'')
         else if r = R_Reminders
         then shown (reminders_ready s) (quoted ''Reminders aren'' ''t available on this device or server.'')
         else shown (contact_ready s)
           (heir_contact_blocked_reason (truthy (av_owner_token s)) (map_option vv_status (av_vault s))))"

text \<open>The list of tools: each with its text and its page.\<close>

definition tool_items :: "active_vault \<Rightarrow> tool_done \<Rightarrow> (jstr \<times> jstr \<times> route) list" where
  "tool_items s td =
     (let closed = status_is (av_vault s) ''claimed''; claiming = vault_claiming s; here = (av_vault s \<noteq> None)
      in (if here \<and> \<not> closed
          then [(''Message for your heir'',
                 if td_has_video td = Some True then ''Video saved. Watch, replace, or remove it''
                 else ''Record a short video for your heir'', R_Heir_Message)] else [])
         @ (if here \<and> \<not> closed
            then [(''How your heir is reached'', ''Change their contact or the way we reach them'', R_Heir_Contact)] else [])
         @ (if here \<and> \<not> closed \<and> \<not> claiming
            then [(''Practice a claim'',
                   if truthy (vault_text vv_drill_completed_at s) then ''Completed. Send another any time''
                   else if truthy (vault_text vv_drill_started_at s) then ''Practice sent. See where it stands''
                   else ''Let your heir rehearse safely'', R_Practice)] else [])
         @ (if here \<and> truthy (av_owner_token s) \<and> truthy (av_push_key s) \<and> \<not> closed
            then [(''Reminders'', if td_reminders_on td = Some True then ''On for this device'' else ''Get a nudge to check in'',
                   R_Reminders)] else [])
         @ (if truthy (vault_text vv_lnurl_panic s) \<and> \<not> status_is (av_vault s) ''frozen'' \<and> \<not> closed \<and> \<not> claiming
            then [(''Emergency options'', ''Freeze this share if needed'', R_Emergency)] else []))"

text \<open>The owner's practice page asks for the channel once it has a token; an unknown one stays open.\<close>

definition practice_channel :: "active_vault \<Rightarrow> (thrown, jstr option) throws \<Rightarrow> jstr option" where
  "practice_channel s reply =
     (if av_meta s = None \<or> \<not> truthy (av_owner_token s) then None
      else (case reply of Inr ch \<Rightarrow> ch | Inl _ \<Rightarrow> None))"

section \<open>The editor of the heir's contact\<close>

text \<open>\<open>swapDomain\<close>: the domain of an address, replaced.\<close>

definition swap_domain :: "jstr \<Rightarrow> jstr \<Rightarrow> jstr" where
  "swap_domain address domain =
     (case last_index_of ''@'' (js_trim address) of
        None \<Rightarrow> address
      | Some i \<Rightarrow> if i = 0 then address else take i (js_trim address) @ ''@'' @ domain)"

text \<open>\<open>ec_checks\<close> and \<open>ec_saves\<close> are the requests still awaited, \<open>ec_stored\<close> the last profile the server
  confirmed.\<close>

record contact_card =
  ec_channel :: channel
  ec_contact :: jstr
  ec_suggestion :: "jstr option"
  ec_loaded :: bool
  ec_saving :: bool
  ec_error :: "jstr option"
  ec_saved :: bool
  ec_verified_at :: "jstr option"
  ec_calls :: "call list"
  ec_checks :: nat
  ec_stored :: "heir_profile option"

definition open_contact_card :: "jstr \<Rightarrow> jstr \<Rightarrow> contact_card" where
  "open_contact_card vault token = \<lparr>ec_channel = Email, ec_contact = [], ec_suggestion = None, ec_loaded = False,
     ec_saving = False, ec_error = None, ec_saved = False, ec_verified_at = None,
     ec_calls = [GetVaultHeir vault (Some token)], ec_checks = 0, ec_stored = None\<rparr>"

fun channel_of :: "jstr option \<Rightarrow> channel option" where
  "channel_of (Some s) = (if s = ''sms'' then Some Sms else if s = ''whatsapp'' then Some Whatsapp
     else if s = ''email'' then Some Email else None)"
| "channel_of None = None"

text \<open>The inputs follow a profile where it says something they can show.\<close>

definition show_profile :: "heir_profile \<Rightarrow> contact_card \<Rightarrow> contact_card" where
  "show_profile h s =
     s\<lparr>ec_verified_at := hp_contact_verified_at h, ec_channel := the_default (ec_channel s) (channel_of (hp_channel h)),
       ec_contact := (if truthy (hp_contact h) then the (hp_contact h) else ec_contact s)\<rparr>"

definition prefill_answer :: "(thrown, heir_profile) throws \<Rightarrow> contact_card \<Rightarrow> contact_card" where
  "prefill_answer reply s =
     (case reply of Inr h \<Rightarrow> (show_profile h s)\<lparr>ec_loaded := True\<rparr> | Inl _ \<Rightarrow> s\<lparr>ec_loaded := True\<rparr>)"

definition pick_channel :: "channel \<Rightarrow> contact_card \<Rightarrow> contact_card" where
  "pick_channel ch s = s\<lparr>ec_channel := ch, ec_saved := False, ec_error := None\<rparr>"

definition type_contact :: "jstr \<Rightarrow> contact_card \<Rightarrow> contact_card" where
  "type_contact t s = s\<lparr>ec_contact := t, ec_saved := False, ec_error := None, ec_suggestion := None\<rparr>"

definition contact_blur :: "contact_card \<Rightarrow> contact_card" where
  "contact_blur s =
     (if ec_channel s \<noteq> Email \<or> \<not> js_includes (ec_contact s) ''@'' then s
      else s\<lparr>ec_calls := ec_calls s @ [CheckContact (ec_contact s)], ec_checks := ec_checks s + 1\<rparr>)"

definition check_answer :: "(thrown, jstr option) throws \<Rightarrow> contact_card \<Rightarrow> contact_card" where
  "check_answer reply s =
     s\<lparr>ec_suggestion := (case reply of Inr x \<Rightarrow> x | Inl _ \<Rightarrow> None), ec_checks := ec_checks s - 1\<rparr>"

definition take_suggestion :: "contact_card \<Rightarrow> contact_card" where
  "take_suggestion s =
     (case ec_suggestion s of
        None \<Rightarrow> s
      | Some x \<Rightarrow> s\<lparr>ec_contact := swap_domain (ec_contact s) x, ec_suggestion := None, ec_saved := False\<rparr>)"

text \<open>Saving: refused here, or one request.\<close>

definition contact_save :: "jstr \<Rightarrow> jstr \<Rightarrow> contact_card \<Rightarrow> contact_card" where
  "contact_save vault token s =
     (let trimmed = js_trim (ec_contact s)
      in if trimmed = []
         then s\<lparr>ec_error := Some (if ec_channel s = Email then ''Enter their email.'' else ''Enter their phone number.'')\<rparr>
         else (case contact_shape_error (ec_channel s) trimmed of
                 Some e \<Rightarrow> s\<lparr>ec_error := Some e\<rparr>
               | None \<Rightarrow> s\<lparr>ec_saving := True, ec_error := None, ec_saved := False,
                   ec_calls := ec_calls s @ [UpdateVaultHeir vault (Some token) trimmed (channel_name (ec_channel s))]\<rparr>))"

definition save_failed_text :: "thrown \<Rightarrow> jstr" where
  "save_failed_text e =
     (let fixed = quoted ''Couldn'' ''t save that. Check your connection and try again.''
      in case e of Api_Error status body message \<Rightarrow> or_str message fixed | _ \<Rightarrow> fixed)"

definition save_answer :: "(thrown, heir_profile) throws \<Rightarrow> contact_card \<Rightarrow> contact_card" where
  "save_answer reply s =
     (case reply of
        Inr h \<Rightarrow> (show_profile h s)\<lparr>ec_saved := True, ec_saving := False, ec_stored := Some h\<rparr>
      | Inl e \<Rightarrow> s\<lparr>ec_error := Some (save_failed_text e), ec_saving := False\<rparr>)"

definition undeliverable :: "channel_capability \<Rightarrow> contact_card \<Rightarrow> bool" where
  "undeliverable cap s = (\<not> cap (ec_channel s))"

definition suggestion_shown :: "contact_card \<Rightarrow> jstr option" where
  "suggestion_shown s = (if truthy (ec_suggestion s) then Some (swap_domain (ec_contact s) (the (ec_suggestion s))) else None)"

datatype contact_event =
    Prefill_Answer "(thrown, heir_profile) throws"
  | Pick_Channel channel_capability channel
  | Type_Contact jstr
  | Contact_Blur
  | Check_Answer "(thrown, jstr option) throws"
  | Take_Suggestion
  | Contact_Save
  | Save_Answer "(thrown, heir_profile) throws"

fun contact_offered :: "contact_event \<Rightarrow> contact_card \<Rightarrow> bool" where
  "contact_offered (Prefill_Answer r) s = (\<not> ec_loaded s)"
| "contact_offered (Pick_Channel cap ch) s = (ec_loaded s \<and> cap ch)"
| "contact_offered (Check_Answer r) s = (0 < ec_checks s)"
| "contact_offered Take_Suggestion s = (ec_loaded s \<and> truthy (ec_suggestion s))"
| "contact_offered Contact_Save s = (ec_loaded s \<and> \<not> ec_saving s \<and> \<not> ec_saved s)"
| "contact_offered (Save_Answer r) s = ec_saving s"
| "contact_offered _ s = ec_loaded s"

fun contact_apply :: "jstr \<Rightarrow> jstr \<Rightarrow> contact_event \<Rightarrow> contact_card \<Rightarrow> contact_card" where
  "contact_apply vault token (Prefill_Answer r) s = prefill_answer r s"
| "contact_apply vault token (Pick_Channel cap ch) s = pick_channel ch s"
| "contact_apply vault token (Type_Contact t) s = type_contact t s"
| "contact_apply vault token Contact_Blur s = contact_blur s"
| "contact_apply vault token (Check_Answer r) s = check_answer r s"
| "contact_apply vault token Take_Suggestion s = take_suggestion s"
| "contact_apply vault token Contact_Save s = contact_save vault token s"
| "contact_apply vault token (Save_Answer r) s = save_answer r s"

inductive contact_reach :: "jstr \<Rightarrow> jstr \<Rightarrow> contact_card \<Rightarrow> bool" for vault token where
  contact_open: "contact_reach vault token (open_contact_card vault token)"
| contact_step: "contact_reach vault token s \<Longrightarrow> contact_offered e s \<Longrightarrow>
    contact_reach vault token (contact_apply vault token e s)"

section \<open>What the editor guarantees\<close>

text \<open>Nothing else is sent than the page's questions, and updates the server's own check accepts.\<close>

fun contact_call_ok :: "jstr \<Rightarrow> jstr \<Rightarrow> call \<Rightarrow> bool" where
  "contact_call_ok vault token (GetVaultHeir i t) = (i = vault \<and> t = Some token)"
| "contact_call_ok vault token (CheckContact a) = js_includes a ''@''"
| "contact_call_ok vault token (UpdateVaultHeir i t contact ch) = (i = vault \<and> t = Some token \<and> contact \<noteq> []
     \<and> js_trim contact = contact \<and> validate_contact_shape ch contact = Inr ())"
| "contact_call_ok vault token _ = False"

definition shows_stored :: "heir_profile \<Rightarrow> contact_card \<Rightarrow> bool" where
  "shows_stored h s = (ec_verified_at s = hp_contact_verified_at h
     \<and> (truthy (hp_contact h) \<longrightarrow> ec_contact s = the (hp_contact h))
     \<and> (channel_of (hp_channel h) \<noteq> None \<longrightarrow> Some (ec_channel s) = channel_of (hp_channel h)))"

definition contact_inv :: "jstr \<Rightarrow> jstr \<Rightarrow> contact_card \<Rightarrow> bool" where
  "contact_inv vault token s = (list_all (contact_call_ok vault token) (ec_calls s)
     \<and> (ec_saved s \<longrightarrow> \<not> ec_saving s \<and> (\<exists>h. ec_stored s = Some h \<and> shows_stored h s)) \<and> (ec_saving s \<or> ec_saved s \<longrightarrow> ec_loaded s))"

lemmas contact_ops = prefill_answer_def show_profile_def pick_channel_def type_contact_def contact_blur_def
  check_answer_def take_suggestion_def contact_save_def save_answer_def Let_def

lemma contact_inv_step: "contact_inv vault token s \<Longrightarrow> contact_offered e s \<Longrightarrow> contact_inv vault token (contact_apply vault token e s)"
  by (cases e) (auto simp: contact_inv_def shows_stored_def contact_ops contact_check_stricter_than_server
      split: sum.splits option.splits if_splits)

lemma contact_inv_reach: "contact_reach vault token s \<Longrightarrow> contact_inv vault token s"
proof (induction rule: contact_reach.induct)
  case contact_open
  then show ?case by (simp add: contact_inv_def open_contact_card_def)
next
  case contact_step
  then show ?case by (blast intro: contact_inv_step)
qed

lemma contact_call_tokens:
  "contact_call_ok vault token c \<Longrightarrow> call_token c = None \<or> call_token c = Some token"
  by (cases "(vault, token, c)" rule: contact_call_ok.cases) auto

text \<open>C25: However its answers are ordered, the editor sends updates of this vault only, with a contact that is
  not empty and that the server's own shape check accepts; it says \<open>Saved\<close> only while nothing is being saved
  and while its inputs show the address, channel and proof of delivery of the last profile the server confirmed.\<close>

theorem contact_editor_truthful:
  assumes "contact_reach vault token s"
  shows "(\<forall>i t contact ch. UpdateVaultHeir i t contact ch \<in> set (ec_calls s) \<longrightarrow>
        i = vault \<and> t = Some token \<and> contact \<noteq> [] \<and> validate_contact_shape ch contact = Inr ())
    \<and> (ec_saved s \<longrightarrow> \<not> ec_saving s \<and> (\<exists>h. ec_stored s = Some h \<and> shows_stored h s))"
  using contact_inv_reach [OF assms] by (auto simp: contact_inv_def list_all_iff)

theorem contact_editor_truthful_witness:
  "shows_stored \<lparr>hp_name = None, hp_contact = Some ''a@b.c'', hp_channel = Some ''email'', hp_note = None, hp_contact_verified_at = None\<rparr>
     (contact_apply ''v'' ''t'' (Save_Answer (Inr \<lparr>hp_name = None, hp_contact = Some ''a@b.c'', hp_channel = Some ''email'',
          hp_note = None, hp_contact_verified_at = None\<rparr>)) (contact_apply ''v'' ''t'' Contact_Save
        (contact_apply ''v'' ''t'' (Type_Contact ''a@b.c'') (contact_apply ''v'' ''t'' (Prefill_Answer (Inl (Js_Error [])))
          (open_contact_card ''v'' ''t'')))))"
    (is "shows_stored ?h (contact_apply _ _ ?e4 (contact_apply _ _ ?e3 (contact_apply _ _ ?e2 (contact_apply _ _ ?e1 ?s0))))")
proof -
  have ok: "contact_shape_error Email ''a@b.c'' = None" "js_trim ''a@b.c'' = ''a@b.c''" by code_simp+
  let ?s3 = "contact_apply ''v'' ''t'' ?e3 (contact_apply ''v'' ''t'' ?e2 (contact_apply ''v'' ''t'' ?e1 ?s0))"
  have "contact_reach ''v'' ''t'' (contact_apply ''v'' ''t'' ?e1 ?s0)"
    by (rule contact_step [OF contact_open]) (simp add: open_contact_card_def)
  then have "contact_reach ''v'' ''t'' (contact_apply ''v'' ''t'' ?e2 (contact_apply ''v'' ''t'' ?e1 ?s0))"
    by (rule contact_step) (simp add: contact_ops)
  then have "contact_reach ''v'' ''t'' ?s3"
    by (rule contact_step) (simp add: contact_ops open_contact_card_def)
  then have "contact_reach ''v'' ''t'' (contact_apply ''v'' ''t'' ?e4 ?s3)"
    by (rule contact_step) (simp add: contact_ops ok open_contact_card_def)
  from contact_editor_truthful [OF this] show ?thesis
    by (simp add: contact_ops ok open_contact_card_def)
qed

text \<open>The answer of a check may come after the address has changed: its domain is then offered for the new one.\<close>

lemma late_suggestion:
  assumes "ec_channel s = Email" "js_includes (ec_contact s) ''@''"
  shows "suggestion_shown (check_answer (Inr (Some (d # ds))) (type_contact t (contact_blur s))) = Some (swap_domain t (d # ds))"
  using assms by (simp add: suggestion_shown_def contact_ops truthy_def)

text \<open>A suggestion made for an e-mail address survives the switch to a phone channel.\<close>

lemma suggestion_survives_switch: "suggestion_shown (pick_channel ch s) = suggestion_shown s"
  by (simp add: suggestion_shown_def pick_channel_def)

section \<open>What the lists lead to\<close>

definition tool_routes :: "route list" where
  "tool_routes = [R_Heir_Message, R_Heir_Contact, R_Practice, R_Reminders, R_Emergency]"

definition listed :: "active_vault \<Rightarrow> tool_done \<Rightarrow> route list" where
  "listed s td = map (snd \<circ> snd) (tool_items s td)"

lemmas tool_defs = tool_page_def message_ready_def practice_ready_def emergency_ready_def reminders_ready_def
  contact_ready_def vault_claiming_def vault_text_def

lemma in_optional: "x \<in> set (if b then [a] else []) \<longleftrightarrow> b \<and> x = a"
  by auto

lemma map_optional: "map f (if b then [a] else []) = (if b then [f a] else [])"
  by simp

lemma tool_listed_iff:
  "r \<in> set (listed s td) \<longleftrightarrow>
     (r = R_Heir_Message \<and> av_vault s \<noteq> None \<and> \<not> status_is (av_vault s) ''claimed'')
   \<or> (r = R_Heir_Contact \<and> av_vault s \<noteq> None \<and> \<not> status_is (av_vault s) ''claimed'')
   \<or> (r = R_Practice \<and> av_vault s \<noteq> None \<and> \<not> status_is (av_vault s) ''claimed'' \<and> \<not> vault_claiming s)
   \<or> (r = R_Reminders \<and> av_vault s \<noteq> None \<and> truthy (av_owner_token s) \<and> truthy (av_push_key s)
        \<and> \<not> status_is (av_vault s) ''claimed'')
   \<or> (r = R_Emergency \<and> emergency_ready s)"
  unfolding listed_def tool_items_def Let_def map_append set_append Un_iff map_optional in_optional o_apply snd_conv
    emergency_ready_def
  by blast

lemma more_links_iff:
  "r \<in> set (more_links p f v rem) \<longleftrightarrow>
     (r = R_Heir_Message \<and> db_vault p \<noteq> None \<and> \<not> pf_closed f \<and> v \<noteq> Some True)
   \<or> (r = R_Practice \<and> db_vault p \<noteq> None \<and> \<not> pf_closed f \<and> \<not> pf_claiming f
        \<and> \<not> truthy (Option.bind (db_vault p) vv_drill_started_at))
   \<or> (r = R_Reminders \<and> db_vault p \<noteq> None \<and> \<not> pf_closed f \<and> \<not> pf_claiming f \<and> \<not> pf_unfunded f
        \<and> truthy (db_push_key p) \<and> truthy (db_token p) \<and> rem \<noteq> Some True)
   \<or> (r = R_Emergency \<and> truthy (Option.bind (db_vault p) vv_lnurl_panic) \<and> \<not> status_is (db_vault p) ''frozen''
        \<and> \<not> pf_closed f \<and> \<not> pf_claiming f)"
  unfolding more_links_def Let_def set_append Un_iff in_optional by blast

lemma tool_page_shown:
  "tool_page R_Heir_Message s = None \<longleftrightarrow> message_ready s" "tool_page R_Practice s = None \<longleftrightarrow> practice_ready s"
  "tool_page R_Emergency s = None \<longleftrightarrow> emergency_ready s" "tool_page R_Reminders s = None \<longleftrightarrow> reminders_ready s"
  "tool_page R_Heir_Contact s = None \<longleftrightarrow> contact_ready s"
  by (simp_all add: tool_page_def)

lemma listed_shown:
  assumes "av_meta s \<noteq> None" "r \<in> set (listed s td)"
  shows "tool_page r s = None \<or> (r = R_Heir_Contact \<and> (vault_claiming s \<or> \<not> truthy (av_owner_token s)))"
  using assms unfolding tool_listed_iff
  by (elim disjE conjE; simp add: tool_page_shown message_ready_def practice_ready_def reminders_ready_def contact_ready_def;
      blast?)

lemma shown_listed:
  assumes "av_vault s \<noteq> None" "r \<in> set tool_routes" "tool_page r s = None"
  shows "r \<in> set (listed s td)"
proof -
  have "r = R_Heir_Message \<or> r = R_Heir_Contact \<or> r = R_Practice \<or> r = R_Reminders \<or> r = R_Emergency"
    using assms(2) by (simp add: tool_routes_def)
  then show ?thesis using assms(1,3) unfolding tool_listed_iff
    by (elim disjE) (simp_all add: tool_page_shown message_ready_def practice_ready_def reminders_ready_def contact_ready_def)
qed

lemma page_flags_status:
  assumes "page_flags_of dt vault now = Inr f"
  shows "pf_claiming f = (status_is vault ''timelock_started'' \<or> status_is vault ''claiming'')"
    "pf_closed f = status_is vault ''claimed''"
  using assms by (auto simp: page_flags_of_def Let_def and_then_Inr_iff split: option.splits if_splits)

lemma more_links_shown:
  assumes m: "av_meta s \<noteq> None" and same: "av_vault s = db_vault p" "av_owner_token s = db_token p" "av_push_key s = db_push_key p"
    and f: "page_flags_of dt (db_vault p) now = Inr f" and r: "r \<in> set (more_links p f v rem)"
  shows "tool_page r s = None"
proof -
  have c: "vault_claiming s = pf_claiming f" "status_is (db_vault p) ''claimed'' = pf_closed f"
    unfolding vault_claiming_def same page_flags_status [OF f] by (rule refl)+
  show ?thesis using r m unfolding more_links_iff
    by (elim disjE conjE; simp only: tool_page_shown message_ready_def practice_ready_def emergency_ready_def
        reminders_ready_def c vault_text_def same; blast)
qed

text \<open>Every tool the tools page lists, and every link of the dashboard's list, leads to a page that shows
  the tool and not its fallback, with one exception: the heir's contact is listed while a claim runs and without
  the owner's token. Conversely, once the vault is loaded, every tool whose page shows it is listed.\<close>

theorem tools_lead_to_their_page:
  assumes "av_meta s \<noteq> None" "av_vault s = db_vault p" "av_owner_token s = db_token p" "av_push_key s = db_push_key p"
    and "page_flags_of dt (db_vault p) now = Inr f"
  shows "(\<forall>r \<in> set (listed s td). tool_page r s = None
        \<or> (r = R_Heir_Contact \<and> (vault_claiming s \<or> \<not> truthy (av_owner_token s))))
    \<and> (\<forall>r \<in> set (more_links p f v rem). tool_page r s = None)
    \<and> (av_vault s \<noteq> None \<longrightarrow> (\<forall>r \<in> set tool_routes. tool_page r s = None \<longrightarrow> r \<in> set (listed s td)))"
  using listed_shown [OF assms(1)] shown_listed more_links_shown [OF assms] by blast

definition tools_view :: active_vault where
  "tools_view = \<lparr>av_active_id = Some ''a'', av_meta = Some (sample_meta ''a'' ''g''), av_owner_token = Some ''ta'',
     av_vault = Some (sample_vault_view\<lparr>vv_status := ''claiming''\<rparr>), av_push_key = None, av_loading = False\<rparr>"

theorem tools_lead_to_their_page_witness:
  "listed tools_view \<lparr>td_has_video = None, td_reminders_on = None\<rparr> = [R_Heir_Message, R_Heir_Contact]
   \<and> tool_page R_Heir_Message tools_view = None \<and> tool_page R_Heir_Contact tools_view \<noteq> None"
proof -
  let ?td = "\<lparr>td_has_video = None, td_reminders_on = None\<rparr>"
  let ?p = "home_page\<lparr>db_vault := av_vault tools_view, db_token := Some ''ta'', db_push_key := None\<rparr>"
  have l: "listed tools_view ?td = [R_Heir_Message, R_Heir_Contact]"
    by (simp add: listed_def tool_items_def tools_view_def vault_claiming_def vault_text_def sample_vault_view_def)
  have "page_flags_of (\<lambda>x. None) (db_vault ?p) 0 = Inr \<lparr>pf_claiming = True, pf_closed = False, pf_unfunded = False, pf_past = True\<rparr>"
    by (simp add: page_flags_of_def tools_view_def sample_vault_view_def)
  from tools_lead_to_their_page [OF _ _ _ _ this, of tools_view ?td None None] l
  have "tool_page R_Heir_Message tools_view = None" by (simp add: tools_view_def)
  moreover have "tool_page R_Heir_Contact tools_view \<noteq> None"
    by (simp add: tool_defs tools_view_def sample_vault_view_def)
  ultimately show ?thesis using l by blast
qed

section \<open>The practice card (PracticeClaimCard.tsx)\<close>

text \<open>\<open>PracticeCardVocab\<close>: the texts of a language, as functions of who is told and when.\<close>

record practice_vocab =
  pc_error_real_claim :: jstr
  pc_error_sending :: jstr
  pc_line_completed :: "jstr \<Rightarrow> jstr option \<Rightarrow> jstr"
  pc_line_opened :: "jstr \<Rightarrow> jstr option \<Rightarrow> jstr"
  pc_line_sent :: "jstr \<Rightarrow> jstr option \<Rightarrow> jstr"
  pc_line_idle :: "jstr \<Rightarrow> jstr \<Rightarrow> jstr"
  pc_sent_notified :: "jstr \<Rightarrow> jstr"
  pc_sent_not_notified :: "jstr \<Rightarrow> jstr"
  pc_noun :: "channel option \<Rightarrow> jstr"
  pc_alert :: "channel option \<Rightarrow> jstr \<Rightarrow> jstr"
  pc_button :: "channel option \<Rightarrow> jstr \<Rightarrow> jstr"

text \<open>The vocabulary has one entry per channel and a default: \<open>None\<close> here.\<close>

definition practice_noun :: "jstr option \<Rightarrow> practice_vocab \<Rightarrow> jstr" where
  "practice_noun ch pc = pc_noun pc (channel_of ch)"

definition send_words :: "jstr option \<Rightarrow> jstr \<Rightarrow> practice_vocab \<Rightarrow> jstr \<times> jstr" where
  "send_words ch who pc = (pc_alert pc (channel_of ch) who, pc_button pc (channel_of ch) who)"

definition fmt_day :: "(jstr \<Rightarrow> int option) \<Rightarrow> (int \<Rightarrow> jstr) \<Rightarrow> jstr \<Rightarrow> jstr option" where
  "fmt_day date_time render rfc = map_option render (date_time rfc)"

record drill_progress =
  dp_started :: "jstr option"
  dp_opened :: "jstr option"
  dp_completed :: "jstr option"

definition drill_status_line :: "(jstr \<Rightarrow> jstr option) \<Rightarrow> drill_progress \<Rightarrow> jstr \<Rightarrow> jstr option \<Rightarrow> practice_vocab \<Rightarrow> jstr" where
  "drill_status_line day_of d who ch pc =
     (if truthy (dp_completed d) then pc_line_completed pc who (day_of (the (dp_completed d)))
      else if truthy (dp_opened d) then pc_line_opened pc who (day_of (the (dp_opened d)))
      else if truthy (dp_started d) then pc_line_sent pc who (day_of (the (dp_started d)))
      else pc_line_idle pc who (practice_noun ch pc))"

record drill_start_view =
  dw_vault_id :: jstr
  dw_started_at :: jstr
  dw_heir_notified :: bool
  dw_claim_url :: jstr

datatype practice_stage = Stage_Idle | Stage_Confirming | Stage_Sending | Stage_Sent

record practice_card =
  pr_stage :: practice_stage
  pr_result :: "drill_start_view option"
  pr_error :: "jstr option"
  pr_calls :: "call list"

definition open_practice :: practice_card where
  "open_practice = \<lparr>pr_stage = Stage_Idle, pr_result = None, pr_error = None, pr_calls = []\<rparr>"

definition practice_who :: "jstr option \<Rightarrow> jstr" where
  "practice_who name = (case name of Some n \<Rightarrow> or_str (js_trim n) ''Your heir'' | None \<Rightarrow> ''Your heir'')"

definition practice_line :: "(jstr \<Rightarrow> jstr option) \<Rightarrow> drill_progress \<Rightarrow> jstr option \<Rightarrow> jstr option \<Rightarrow> practice_vocab
    \<Rightarrow> practice_card \<Rightarrow> jstr" where
  "practice_line day_of d name ch pc s =
     drill_status_line day_of
       (case pr_result s of
          Some r \<Rightarrow> if pr_stage s = Stage_Sent then \<lparr>dp_started = Some (dw_started_at r), dp_opened = None, dp_completed = None\<rparr> else d
        | None \<Rightarrow> d) (practice_who name) ch pc"

definition practice_ask :: "practice_card \<Rightarrow> practice_card" where
  "practice_ask s = s\<lparr>pr_stage := Stage_Confirming\<rparr>"

definition practice_cancel :: "practice_card \<Rightarrow> practice_card" where
  "practice_cancel s = s\<lparr>pr_stage := Stage_Idle, pr_error := None\<rparr>"

definition practice_send :: "jstr \<Rightarrow> jstr \<Rightarrow> practice_card \<Rightarrow> practice_card" where
  "practice_send vault token s =
     s\<lparr>pr_stage := Stage_Sending, pr_error := None, pr_calls := pr_calls s @ [StartDrill vault token]\<rparr>"

definition practice_answer :: "practice_vocab \<Rightarrow> (thrown, drill_start_view) throws \<Rightarrow> practice_card \<Rightarrow> practice_card" where
  "practice_answer pc reply s =
     (case reply of
        Inr r \<Rightarrow> s\<lparr>pr_result := Some r, pr_stage := Stage_Sent\<rparr>
      | Inl e \<Rightarrow> s\<lparr>pr_stage := Stage_Confirming,
          pr_error := Some (if thrown_status e = Some 409 then pc_error_real_claim pc else pc_error_sending pc)\<rparr>)"

text \<open>What the card says once a practice is sent: the link itself when nobody could be told.\<close>

definition practice_sent_note :: "practice_vocab \<Rightarrow> jstr option \<Rightarrow> practice_card \<Rightarrow> (jstr \<times> jstr option) option" where
  "practice_sent_note pc name s =
     (case pr_result s of
        Some r \<Rightarrow> if pr_stage s \<noteq> Stage_Sent then None
                  else if dw_heir_notified r then Some (pc_sent_notified pc (practice_who name), None)
                  else Some (pc_sent_not_notified pc (practice_who name), Some (dw_claim_url r))
      | None \<Rightarrow> None)"

datatype practice_event = Practice_Ask | Practice_Cancel | Practice_Send | Practice_Answer "(thrown, drill_start_view) throws"

fun practice_offered :: "practice_event \<Rightarrow> practice_card \<Rightarrow> bool" where
  "practice_offered Practice_Ask s = (pr_stage s = Stage_Idle)"
| "practice_offered Practice_Cancel s = (pr_stage s = Stage_Confirming)"
| "practice_offered Practice_Send s = (pr_stage s = Stage_Confirming)"
| "practice_offered (Practice_Answer r) s = (pr_stage s = Stage_Sending)"

fun practice_apply :: "practice_vocab \<Rightarrow> jstr \<Rightarrow> jstr \<Rightarrow> practice_event \<Rightarrow> practice_card \<Rightarrow> practice_card" where
  "practice_apply pc vault token Practice_Ask s = practice_ask s"
| "practice_apply pc vault token Practice_Cancel s = practice_cancel s"
| "practice_apply pc vault token Practice_Send s = practice_send vault token s"
| "practice_apply pc vault token (Practice_Answer r) s = practice_answer pc r s"

fun practice_run :: "practice_vocab \<Rightarrow> jstr \<Rightarrow> jstr \<Rightarrow> practice_event list \<Rightarrow> practice_card \<Rightarrow> practice_card option" where
  "practice_run pc vault token [] s = Some s"
| "practice_run pc vault token (e # es) s =
     (if practice_offered e s then practice_run pc vault token es (practice_apply pc vault token e s) else None)"

lemmas practice_ops = practice_ask_def practice_cancel_def practice_send_def practice_answer_def

text \<open>Each practice that goes out was confirmed after the last one, and one that the server took is the last:
  nothing on the card is offered any more.\<close>

lemma practice_run_counts:
  "practice_run pc vault token es s = Some s' \<Longrightarrow>
   pr_calls s' = pr_calls s @ replicate (count_list es Practice_Send) (StartDrill vault token)
   \<and> (pr_result s = None \<longrightarrow> (pr_result s' \<noteq> None) = (pr_stage s' = Stage_Sent) \<or> pr_stage s = Stage_Sent)"
proof (induction es arbitrary: s)
  case (Cons e es)
  then have o: "practice_offered e s" and r: "practice_run pc vault token es (practice_apply pc vault token e s) = Some s'"
    by (auto split: if_splits)
  have stop: "practice_run pc vault token es q = Some s' \<Longrightarrow> pr_stage q = Stage_Sent \<Longrightarrow> es = [] \<and> s' = q" for q
    by (cases es) (auto split: if_splits practice_event.splits elim: practice_offered.elims)
  show ?case using Cons.IH [OF r] o stop [OF r]
    by (cases e) (auto simp: practice_ops replicate_app_Cons_same split: sum.splits)
qed auto

lemma practice_sent_is_last: "pr_stage s = Stage_Sent \<Longrightarrow> practice_run pc vault token es s = Some s' \<Longrightarrow> es = []"
  by (cases es) (auto split: if_splits elim: practice_offered.elims)

end
