(* ===== verification/Video_Message.thy ===== *)
theory Video_Message
  imports Owner_Spend Setup_Wizard
begin

text \<open>
  The owner's video message: the recorder (ghostkey-web/src/VideoMessageRecorder.tsx) with the camera's
  streams, the card that saves and removes a clip (VideoMessageCard.tsx), the heir's playback
  (HeirVideoMessage.tsx) and the capture of a first frame (videoPoster.ts). The recorder's permission prompt,
  its timer and the browser's events are steps of their own; a handler of the card is one uninterrupted pass.
\<close>

section \<open>The recorder\<close>

definition clip_types :: "jstr list" where
  "clip_types =
     [''video/mp4;codecs='' @ [CHR 0x22] @ ''avc1.42E01E,mp4a.40.2'' @ [CHR 0x22], ''video/mp4;codecs=avc1'',
      ''video/webm;codecs=vp8,opus'', ''video/webm;codecs=vp9,opus'', ''video/webm'', ''video/mp4'']"

text \<open>\<open>None\<close>: the browser has no MediaRecorder.\<close>

definition pick_mime :: "(jstr \<Rightarrow> bool) option \<Rightarrow> jstr option" where
  "pick_mime supported = (case supported of None \<Rightarrow> None | Some f \<Rightarrow> find f clip_types)"

datatype rec_phase = Rec_Idle | Recording | Rec_Review | Rec_Denied | Rec_Unsupported

text \<open>A stream and the recorder on it have the same number. \<open>vr_live\<close> are the streams whose camera is on,
  \<open>vr_active\<close> the recorders that run and \<open>vr_stopping\<close> those whose \<open>stop\<close> event is still to come; \<open>vr_stream\<close>,
  \<open>vr_rec\<close> and \<open>vr_timer\<close> are the refs, \<open>vr_timers\<close> the timers that run. \<open>vr_clip\<close> is what the parent holds.\<close>

record recorder =
  vr_phase :: rec_phase
  vr_error :: "jstr option"
  vr_preview :: "nat option"
  vr_poster :: "jstr option"
  vr_stream :: "nat option"
  vr_rec :: "nat option"
  vr_timer :: "nat option"
  vr_chunks :: "bytes list"
  vr_started_at :: int
  vr_prompts :: nat
  vr_live :: "nat list"
  vr_active :: "nat list"
  vr_stopping :: "nat list"
  vr_timers :: "nat list"
  vr_next :: nat
  vr_mounted :: bool
  vr_clip :: "recorded_clip option"

definition open_recorder :: "recorded_clip option \<Rightarrow> recorder" where
  "open_recorder clip = \<lparr>vr_phase = Rec_Idle, vr_error = None, vr_preview = None, vr_poster = None, vr_stream = None,
     vr_rec = None, vr_timer = None, vr_chunks = [], vr_started_at = 0, vr_prompts = 0, vr_live = [], vr_active = [],
     vr_stopping = [], vr_timers = [], vr_next = 0, vr_mounted = True, vr_clip = clip\<rparr>"

definition drop_ref :: "nat option \<Rightarrow> nat list \<Rightarrow> nat list" where
  "drop_ref r ks = (case r of None \<Rightarrow> ks | Some k \<Rightarrow> filter (\<lambda>j. j \<noteq> k) ks)"

definition stop_stream :: "recorder \<Rightarrow> recorder" where
  "stop_stream s = s\<lparr>vr_live := drop_ref (vr_stream s) (vr_live s), vr_stream := None,
     vr_timers := drop_ref (vr_timer s) (vr_timers s), vr_timer := None\<rparr>"

text \<open>\<open>start\<close>, up to the browser's permission prompt.\<close>

definition start_recording :: "bool \<Rightarrow> recorder \<Rightarrow> recorder" where
  "start_recording supported s =
     (let s1 = s\<lparr>vr_error := None, vr_poster := None\<rparr>
      in if \<not> supported then s1\<lparr>vr_phase := Rec_Unsupported\<rparr> else s1\<lparr>vr_prompts := vr_prompts s + 1\<rparr>)"

text \<open>What the prompt and the new MediaRecorder answer. \<open>No_Stream\<close>: refused before a stream exists;
  \<open>No_Recorder\<close>: the recorder of the stream cannot be made or started.\<close>

datatype camera_error = Dom_Exception jstr jstr | Camera_Error jstr | Camera_Thrown

datatype camera_answer = No_Stream camera_error | No_Recorder camera_error | Camera_On

definition camera_failed :: "camera_error \<Rightarrow> recorder \<Rightarrow> recorder" where
  "camera_failed e s =
     (let s1 = stop_stream s; fixed = ''Couldn'' @ [CHR 0x27] @ ''t start the camera. Try again.''
      in case e of
           Dom_Exception name message \<Rightarrow>
             if name = ''NotAllowedError'' \<or> name = ''SecurityError'' then s1\<lparr>vr_phase := Rec_Denied\<rparr>
             else s1\<lparr>vr_error := Some message, vr_phase := Rec_Idle\<rparr>
         | Camera_Error message \<Rightarrow> s1\<lparr>vr_error := Some message, vr_phase := Rec_Idle\<rparr>
         | Camera_Thrown \<Rightarrow> s1\<lparr>vr_error := Some fixed, vr_phase := Rec_Idle\<rparr>)"

definition new_stream :: "recorder \<Rightarrow> recorder" where
  "new_stream s = s\<lparr>vr_stream := Some (vr_next s), vr_live := vr_live s @ [vr_next s], vr_next := vr_next s + 1\<rparr>"

definition camera_answered :: "int \<Rightarrow> camera_answer \<Rightarrow> recorder \<Rightarrow> recorder" where
  "camera_answered now a s0 =
     (let s = s0\<lparr>vr_prompts := vr_prompts s0 - 1\<rparr>; k = vr_next s
      in case a of
           No_Stream e \<Rightarrow> camera_failed e s
         | No_Recorder e \<Rightarrow> camera_failed e (new_stream s)
         | Camera_On \<Rightarrow> (new_stream s)\<lparr>vr_chunks := [], vr_rec := Some k, vr_started_at := now, vr_active := vr_active s @ [k],
             vr_phase := Recording, vr_timer := Some k, vr_timers := vr_timers s @ [k]\<rparr>)"

definition on_data :: "bytes \<Rightarrow> recorder \<Rightarrow> recorder" where
  "on_data bs s = (if bs = [] then s else s\<lparr>vr_chunks := vr_chunks s @ [bs]\<rparr>)"

definition stop_recording :: "recorder \<Rightarrow> recorder" where
  "stop_recording s =
     (case vr_rec s of
        Some k \<Rightarrow> if k \<in> set (vr_active s)
                  then s\<lparr>vr_active := filter (\<lambda>j. j \<noteq> k) (vr_active s), vr_stopping := vr_stopping s @ [k]\<rparr> else s
      | None \<Rightarrow> s)"

text \<open>The timer of 30 seconds; a recorder whose tracks have ended stops by itself.\<close>

definition timer_fires :: "nat \<Rightarrow> recorder \<Rightarrow> recorder" where
  "timer_fires k s = stop_recording (s\<lparr>vr_timers := filter (\<lambda>j. j \<noteq> k) (vr_timers s)\<rparr>)"

definition tracks_ended :: "nat \<Rightarrow> recorder \<Rightarrow> recorder" where
  "tracks_ended k s = s\<lparr>vr_active := filter (\<lambda>j. j \<noteq> k) (vr_active s), vr_stopping := vr_stopping s @ [k]\<rparr>"

text \<open>\<open>onstop\<close> of recorder k, with the type it reports; the effect of the new preview runs \<open>stopStream\<close> again.\<close>

definition clip_type :: "jstr \<Rightarrow> jstr option \<Rightarrow> jstr" where
  "clip_type reported picked = or_str reported (case picked of Some m \<Rightarrow> or_str m ''video/webm'' | None \<Rightarrow> ''video/webm'')"

definition recorder_stopped :: "int \<Rightarrow> jstr \<Rightarrow> jstr option \<Rightarrow> nat \<Rightarrow> recorder \<Rightarrow> recorder" where
  "recorder_stopped now reported picked k s =
     (let s1 = stop_stream (s\<lparr>vr_stopping := filter (\<lambda>j. j \<noteq> k) (vr_stopping s)\<rparr>)
      in stop_stream (s1\<lparr>vr_preview := Some k, vr_phase := Rec_Review,
           vr_clip := Some \<lparr>rc_bytes = Inr (concat (vr_chunks s)), rc_mime = clip_type reported picked,
                           rc_duration_ms = of_int (now - vr_started_at s)\<rparr>\<rparr>))"

definition poster_arrives :: "jstr option \<Rightarrow> recorder \<Rightarrow> recorder" where
  "poster_arrives p s = (if truthy p then s\<lparr>vr_poster := p\<rparr> else s)"

definition reset_recorder :: "recorder \<Rightarrow> recorder" where
  "reset_recorder s = stop_stream (s\<lparr>vr_preview := None, vr_poster := None, vr_phase := Rec_Idle, vr_clip := None\<rparr>)"

definition unmount_recorder :: "recorder \<Rightarrow> recorder" where
  "unmount_recorder s = (stop_stream s)\<lparr>vr_mounted := False\<rparr>"

datatype recorder_event =
    Click_Record bool
  | Camera_Answers int camera_answer
  | Data bytes
  | Click_Stop
  | Timer_Fires nat
  | Tracks_Ended nat
  | Recorder_Stopped int jstr "jstr option" nat
  | Poster_Arrives "jstr option"
  | Click_Remove
  | Unmount

fun recorder_offered :: "recorder_event \<Rightarrow> recorder \<Rightarrow> bool" where
  "recorder_offered (Click_Record b) s = (vr_mounted s \<and> vr_phase s \<in> {Rec_Idle, Rec_Denied, Rec_Review})"
| "recorder_offered (Camera_Answers now a) s = (0 < vr_prompts s)"
| "recorder_offered (Data bs) s = (vr_active s \<noteq> [] \<or> vr_stopping s \<noteq> [])"
| "recorder_offered Click_Stop s = (vr_mounted s \<and> vr_phase s = Recording)"
| "recorder_offered (Timer_Fires k) s = (k \<in> set (vr_timers s))"
| "recorder_offered (Tracks_Ended k) s = (k \<in> set (vr_active s) \<and> k \<notin> set (vr_live s))"
| "recorder_offered (Recorder_Stopped now r p k) s = (k \<in> set (vr_stopping s))"
| "recorder_offered (Poster_Arrives p) s = (vr_phase s = Rec_Review)"
| "recorder_offered Click_Remove s = (vr_mounted s \<and> vr_phase s = Rec_Review)"
| "recorder_offered Unmount s = vr_mounted s"

fun recorder_apply :: "recorder_event \<Rightarrow> recorder \<Rightarrow> recorder" where
  "recorder_apply (Click_Record b) s = start_recording b s"
| "recorder_apply (Camera_Answers now a) s = camera_answered now a s"
| "recorder_apply (Data bs) s = on_data bs s"
| "recorder_apply Click_Stop s = stop_recording s"
| "recorder_apply (Timer_Fires k) s = timer_fires k s"
| "recorder_apply (Tracks_Ended k) s = tracks_ended k s"
| "recorder_apply (Recorder_Stopped now r p k) s = recorder_stopped now r p k s"
| "recorder_apply (Poster_Arrives p) s = poster_arrives p s"
| "recorder_apply Click_Remove s = reset_recorder s"
| "recorder_apply Unmount s = unmount_recorder s"

section \<open>The camera\<close>

text \<open>A use of the recorder in which nobody clicks while a permission prompt is open.\<close>

definition patient :: "recorder_event \<Rightarrow> recorder \<Rightarrow> bool" where
  "patient e s = (case e of Click_Record b \<Rightarrow> vr_prompts s = 0 | _ \<Rightarrow> True)"

inductive recorder_reach :: "recorder \<Rightarrow> bool" where
  recorder_open: "recorder_reach (open_recorder clip)"
| recorder_step: "recorder_reach s \<Longrightarrow> recorder_offered e s \<Longrightarrow> patient e s \<Longrightarrow> recorder_reach (recorder_apply e s)"

definition at_rest :: "recorder \<Rightarrow> bool" where
  "at_rest s = (vr_live s = [] \<and> vr_active s = [] \<and> vr_stopping s = [] \<and> vr_stream s = None)"

definition on_air :: "nat \<Rightarrow> recorder \<Rightarrow> bool" where
  "on_air k s = (vr_prompts s = 0 \<and> vr_rec s = Some k \<and> k < vr_next s
     \<and> ((vr_live s = [k] \<and> vr_stream s = Some k) \<or> (vr_live s = [] \<and> vr_stream s = None))
     \<and> ((vr_active s = [k] \<and> vr_stopping s = []) \<or> (vr_active s = [] \<and> vr_stopping s = [k])))"

definition recorder_inv :: "recorder \<Rightarrow> bool" where
  "recorder_inv s = (vr_prompts s \<le> 1 \<and> (if vr_phase s = Recording then \<exists>k. on_air k s else at_rest s))"

lemmas recorder_ops = start_recording_def camera_answered_def camera_failed_def new_stream_def on_data_def
  stop_recording_def timer_fires_def tracks_ended_def recorder_stopped_def poster_arrives_def reset_recorder_def
  unmount_recorder_def stop_stream_def drop_ref_def patient_def Let_def

lemma recorder_inv_step:
  "recorder_inv s \<Longrightarrow> recorder_offered e s \<Longrightarrow> patient e s \<Longrightarrow> recorder_inv (recorder_apply e s)"
  by (cases e) (auto simp: recorder_inv_def on_air_def at_rest_def recorder_ops
      split: camera_answer.splits camera_error.splits option.splits if_splits)

lemma recorder_inv_reach: "recorder_reach s \<Longrightarrow> recorder_inv s"
proof (induction rule: recorder_reach.induct)
  case (recorder_open clip)
  then show ?case by (simp add: recorder_inv_def at_rest_def open_recorder_def)
next
  case recorder_step
  then show ?case by (blast intro: recorder_inv_step)
qed



text \<open>A run of events, each of them possible when it happens, patient or not.\<close>

fun recorder_run :: "recorder_event list \<Rightarrow> recorder \<Rightarrow> recorder option" where
  "recorder_run [] s = Some s"
| "recorder_run (e # es) s = (if recorder_offered e s then recorder_run es (recorder_apply e s) else None)"

text \<open>Two clicks before the permission prompt is answered leave the first camera on for good: after Stop the
  page shows the review, its first stream stays live, and neither Remove nor leaving the page ends it.\<close>

theorem second_click_leaves_camera_on:
  "\<exists>s. recorder_run [Click_Record True, Click_Record True, Camera_Answers 0 Camera_On, Camera_Answers 0 Camera_On,
        Click_Stop, Recorder_Stopped t [] None 1, Click_Remove, Unmount, Timer_Fires 0] (open_recorder None) = Some s
      \<and> vr_phase s = Rec_Idle \<and> vr_live s = [0] \<and> vr_active s = [0] \<and> vr_timers s = []"
  by (simp add: recorder_ops open_recorder_def)

text \<open>Recording again keeps the former clip with the parent until the new one is done, also when the camera is
  then refused; and a page left while it records hands its fragment over afterwards.\<close>

lemma former_clip_stays:
  assumes "recorder_offered (Click_Record True) s" "vr_phase s = Rec_Review"
  shows "vr_clip (camera_answered now a (start_recording True s)) = vr_clip s"
  by (simp add: recorder_ops split: camera_answer.split camera_error.split)

lemma left_page_hands_over:
  "\<exists>s. recorder_run [Click_Record True, Camera_Answers 0 Camera_On, Data bs, Unmount, Tracks_Ended 0,
        Recorder_Stopped t ''video/mp4'' None 0] (open_recorder None) = Some s
      \<and> \<not> vr_mounted s \<and> vr_clip s = Some \<lparr>rc_bytes = Inr bs, rc_mime = ''video/mp4'', rc_duration_ms = of_int t\<rparr>"
  by (simp add: recorder_ops open_recorder_def clip_type_def or_str_def)

section \<open>The owner's card (VideoMessageCard.tsx)\<close>

record video_status =
  vs_has_video :: bool
  vs_mime :: "jstr option"
  vs_duration_ms :: "int option"
  vs_created_at :: "jstr option"

definition video_status_line :: "(jstr \<Rightarrow> int option) \<Rightarrow> (int \<Rightarrow> jstr) \<Rightarrow> video_status \<Rightarrow> jstr" where
  "video_status_line date_time render st =
     (if \<not> vs_has_video st then ''No video message yet.''
      else if \<not> truthy (vs_created_at st) then ''A video message is saved.''
      else (case date_time (the (vs_created_at st)) of
              None \<Rightarrow> ''A video message is saved.''
            | Some t \<Rightarrow> ''Video message saved '' @ render t @ ''.''))"

datatype status_state = Status_Loading | Status_Error | Status_Ready video_status

record video_card =
  vc_status :: status_state
  vc_open :: bool
  vc_unavailable :: bool
  vc_clip :: "recorded_clip option"
  vc_password :: jstr
  vc_error :: "jstr option"
  vc_saved_flash :: bool
  vc_confirming :: bool

definition open_video_card :: video_card where
  "open_video_card = \<lparr>vc_status = Status_Loading, vc_open = False, vc_unavailable = False, vc_clip = None,
     vc_password = [], vc_error = None, vc_saved_flash = False, vc_confirming = False\<rparr>"

definition video_refresh :: "(thrown, video_status) throws \<Rightarrow> video_card \<Rightarrow> video_card" where
  "video_refresh reply s =
     s\<lparr>vc_status := (case reply of Inr v \<Rightarrow> Status_Ready v | Inl _ \<Rightarrow> Status_Error)\<rparr>"

definition video_open :: "(thrown, jstr) throws \<Rightarrow> video_card \<Rightarrow> video_card" where
  "video_open token_reply s0 =
     (let s = s0\<lparr>vc_error := None, vc_saved_flash := False\<rparr>
      in case token_reply of
           Inr t \<Rightarrow> s\<lparr>vc_open := True\<rparr>
         | Inl e \<Rightarrow> if thrown_status e = Some 404 then s\<lparr>vc_unavailable := True\<rparr>
                    else s\<lparr>vc_error := Some (''Couldn'' @ [CHR 0x27] @ ''t reach the server. Try again in a moment.'')\<rparr>)"

definition video_close :: "video_card \<Rightarrow> video_card" where
  "video_close s = s\<lparr>vc_open := False, vc_clip := None, vc_password := [], vc_error := None\<rparr>"

text \<open>The answers of the server that a save meets, in order.\<close>

record save_net =
  sn_blobs :: "(thrown, sealed_blobs_view) throws"
  sn_token :: "(thrown, jstr) throws"
  sn_upload :: "call \<Rightarrow> thrown option"

definition saving_failed_text :: jstr where
  "saving_failed_text = ''Saving failed. Your vault is fine. Try again in a moment.''"

text \<open>The upload a save prepares: the clip sealed under the claim token.\<close>

definition video_upload :: "('a crypto_scheme) \<Rightarrow> 'n hdkey \<Rightarrow> bytes \<Rightarrow> jstr \<Rightarrow> (thrown, jstr) throws \<Rightarrow> recorded_clip
    \<Rightarrow> (thrown, upload_video_body) throws" where
  "video_upload C H nonce owner_xprv token_reply clip =
     and_then token_reply (\<lambda>t. and_then (rc_bytes clip) (\<lambda>bytes.
     and_then (map_sum Js_Error (\<lambda>x. x) (b64decode t)) (\<lambda>claim_token.
     and_then (map_sum Js_Error (\<lambda>x. x) (prepare_video C H nonce owner_xprv claim_token bytes)) (\<lambda>p.
     Inr \<lparr>uv_ct = pv_ct_b64 p, uv_nonce = pv_nonce_b64 p, uv_mime = rc_mime clip,
          uv_duration_ms = Some (round_half_up (rc_duration_ms clip)), uv_owner_sig = pv_sig_b64 p,
          uv_signed_sha256 = pv_sha256_hex p\<rparr>))))"

definition video_save_failed :: "thrown \<Rightarrow> video_card \<Rightarrow> video_card" where
  "video_save_failed e s =
     (if thrown_status e = Some 404 then s\<lparr>vc_unavailable := True, vc_open := False\<rparr>
      else s\<lparr>vc_error := Some (case e of Api_Error st body message \<Rightarrow> message | _ \<Rightarrow> saving_failed_text)\<rparr>)"

definition video_save :: "('a crypto_scheme) \<Rightarrow> 'n hdkey \<Rightarrow> bytes \<Rightarrow> jstr \<Rightarrow> jstr \<Rightarrow> save_net \<Rightarrow> video_card
    \<Rightarrow> video_card \<times> call list" where
  "video_save C H nonce vault token N s0 =
     (case vc_clip s0 of
        None \<Rightarrow> (s0, [])
      | Some clip \<Rightarrow>
          (let s = s0\<lparr>vc_error := None\<rparr>
           in case and_then (sn_blobs N) (\<lambda>b. map_sum Js_Error fst (unseal_blobs C (vc_password s0) b)) of
                Inl e \<Rightarrow> (s\<lparr>vc_error := Some (unlock_error_message e)\<rparr>, [GetSealedBlobs vault token])
              | Inr xprv \<Rightarrow>
                  (let asked = [GetSealedBlobs vault token, GetVaultClaimToken vault (Some token)]
                   in case video_upload C H nonce xprv (sn_token N) clip of
                        Inl e \<Rightarrow> (video_save_failed e s, asked)
                      | Inr u \<Rightarrow>
                          (case sn_upload N (UploadVideo vault token u) of
                             Some e \<Rightarrow> (video_save_failed e s, asked @ [UploadVideo vault token u])
                           | None \<Rightarrow> ((video_close s)\<lparr>vc_saved_flash := True\<rparr>, asked @ [UploadVideo vault token u])))))"

definition video_remove :: "jstr \<Rightarrow> jstr \<Rightarrow> (call \<Rightarrow> thrown option) \<Rightarrow> video_card \<Rightarrow> video_card \<times> call list" where
  "video_remove vault token send s =
     (let c = DeleteVideo vault (Some token)
      in (s\<lparr>vc_error := (if send c = None then None else Some ''Removing failed. Try again in a moment.''),
            vc_confirming := False\<rparr>, [c]))"

record video_buttons =
  vb_record :: "bool option"
  vb_remove :: bool
  vb_confirm :: bool
  vb_save :: "bool option"
  vb_note :: "jstr option"

text \<open>What the card offers; \<open>Some b\<close> says whether the button replaces a clip, or is enabled.\<close>

definition video_buttons_of :: "jstr option \<Rightarrow> video_card \<Rightarrow> video_buttons" where
  "video_buttons_of heir_name s =
     (let who = (case heir_name of Some n \<Rightarrow> or_str (js_trim n) ''your heir'' | None \<Rightarrow> ''your heir'');
          ready = (case vc_status s of Status_Ready v \<Rightarrow> True | _ \<Rightarrow> False);
          has = (case vc_status s of Status_Ready v \<Rightarrow> vs_has_video v | _ \<Rightarrow> False);
          row = (\<not> vc_open s \<and> \<not> vc_unavailable s \<and> ready)
      in \<lparr>vb_record = (if row then Some has else None), vb_remove = (row \<and> has \<and> \<not> vc_confirming s),
          vb_confirm = vc_confirming s,
          vb_save = (if vc_open s then Some (vc_clip s \<noteq> None \<and> vc_password s \<noteq> []) else None),
          vb_note = (if has then Some (who @ '' sees it when they claim, with proof it really is you.'')
                     else if ready \<and> \<not> vc_unavailable s
                     then Some (''A short clip '' @ who @ '' sees at claim time, with proof it really is you.'') else None)\<rparr>)"

section \<open>Playback (HeirVideoMessage.tsx, videoPoster.ts)\<close>

record claim_video_view =
  wv_vault_id :: jstr
  wv_ct :: jstr
  wv_nonce :: jstr
  wv_mime :: jstr
  wv_duration_ms :: "int option"
  wv_owner_sig :: jstr
  wv_sha256 :: jstr
  wv_owner_xpub :: jstr

text \<open>\<open>canPlayType\<close>; without that method, or without a document, the player is shown.\<close>

definition video_is_playable :: "(jstr \<Rightarrow> jstr) option \<Rightarrow> jstr \<Rightarrow> bool" where
  "video_is_playable can_play_type mime = (case can_play_type of None \<Rightarrow> True | Some f \<Rightarrow> f mime \<noteq> [])"

definition video_download_name :: "jstr \<Rightarrow> jstr" where
  "video_download_name mime =
     (let parts = split_at CHR ''/'' (hd (split_at CHR '';'' mime));
          subtype = (case parts of a # b # rest \<Rightarrow> js_trim b | _ \<Rightarrow> [])
      in ''video-message.'' @ or_str subtype ''webm'')"

datatype heir_clip =
    Clip_Loading
  | Clip_None
  | Clip_Error
  | Clip_Ready bytes jstr bool bool "jstr option" jstr

definition heir_video :: "('a crypto_scheme) \<Rightarrow> 'n hdkey \<Rightarrow> (jstr \<Rightarrow> jstr) option \<Rightarrow> jstr \<Rightarrow> (thrown, claim_video_view) throws
    \<Rightarrow> heir_clip" where
  "heir_video C H can_play token reply =
     (case and_then reply (\<lambda>v. map_sum Js_Error (\<lambda>x. (v, x)) (and_then (b64decode token) (\<lambda>raw.
              decrypt_and_verify_video C H raw (wv_owner_xpub v)
                \<lparr>pv_ct_b64 = wv_ct v, pv_nonce_b64 = wv_nonce v, pv_sig_b64 = wv_owner_sig v, pv_sha256_hex = wv_sha256 v\<rparr>))) of
        Inl e \<Rightarrow> if thrown_status e = Some 404 then Clip_None else Clip_Error
      | Inr (v, clip, verified) \<Rightarrow>
          (let mime = or_str (wv_mime v) ''video/webm''
           in Clip_Ready clip mime verified (video_is_playable can_play mime) None (video_download_name mime)))"

definition heir_poster :: "jstr option \<Rightarrow> heir_clip \<Rightarrow> heir_clip" where
  "heir_poster p s =
     (if \<not> truthy p then s
      else (case s of Clip_Ready b m v pl po f \<Rightarrow> if pl then Clip_Ready b m v pl p f else s | _ \<Rightarrow> s))"

text \<open>\<open>captureVideoPoster\<close>: the events of the offscreen element, and what the promise resolves to.\<close>

datatype poster_event = Poster_Timeout | Poster_Failed | Poster_Loaded bool | Poster_Seeked nat nat bool "jstr option"

record poster =
  po_settled :: bool
  po_resolved :: "jstr option list"

definition open_poster :: poster where
  "open_poster = \<lparr>po_settled = False, po_resolved = []\<rparr>"

definition poster_done :: "jstr option \<Rightarrow> poster \<Rightarrow> poster" where
  "poster_done p s = (if po_settled s then s else \<lparr>po_settled = True, po_resolved = po_resolved s @ [p]\<rparr>)"

text \<open>A loaded clip is sought (or that throws); a sought one has a size, a context and a drawing, or not.\<close>

fun poster_apply :: "poster_event \<Rightarrow> poster \<Rightarrow> poster" where
  "poster_apply Poster_Timeout s = poster_done None s"
| "poster_apply Poster_Failed s = poster_done None s"
| "poster_apply (Poster_Loaded seek_ok) s = (if seek_ok then s else poster_done None s)"
| "poster_apply (Poster_Seeked w h context drawn) s =
     (if w = 0 \<or> h = 0 \<or> \<not> context then poster_done None s else poster_done drawn s)"

lemma poster_settled_stays: "po_settled s \<Longrightarrow> fold poster_apply es s = s"
proof (induction es arbitrary: s)
  case (Cons e es)
  then show ?case by (cases e) (simp_all add: poster_done_def)
qed simp

text \<open>An answer in time is no poster at all, or the picture a seek drew before the timer fired.\<close>

definition poster_in_time :: "poster_event list \<Rightarrow> jstr option \<Rightarrow> bool" where
  "poster_in_time es p =
     (p = None \<or> (\<exists>w h. 0 < w \<and> 0 < h \<and> Poster_Seeked w h True p \<in> set (takeWhile (\<lambda>e. e \<noteq> Poster_Timeout) es)))"

lemma poster_step_cases:
  assumes "\<not> po_settled s" "po_resolved s = []"
  shows "poster_apply e s = s \<and> e \<noteq> Poster_Timeout
    \<or> (\<exists>p. poster_apply e s = \<lparr>po_settled = True, po_resolved = [p]\<rparr> \<and> poster_in_time [e] p)"
  using assms by (cases e) (auto simp: poster_done_def poster_in_time_def)

lemma poster_in_time_first: "poster_in_time [e] p \<Longrightarrow> poster_in_time (e # es) p"
  by (auto simp: poster_in_time_def split: if_splits)

lemma poster_in_time_later: "e \<noteq> Poster_Timeout \<Longrightarrow> poster_in_time es p \<Longrightarrow> poster_in_time (e # es) p"
  by (auto simp: poster_in_time_def)

lemma poster_run_settles:
  "Poster_Timeout \<in> set es \<Longrightarrow> \<not> po_settled s \<Longrightarrow> po_resolved s = [] \<Longrightarrow>
   \<exists>p. po_resolved (fold poster_apply es s) = [p] \<and> poster_in_time es p"
proof (induction es arbitrary: s)
  case (Cons e es)
  from poster_step_cases [OF Cons.prems(2,3), of e] show ?case
  proof (elim disjE exE conjE)
    assume "poster_apply e s = s" "e \<noteq> Poster_Timeout"
    then show ?thesis using Cons.IH [of s] Cons.prems poster_in_time_later by auto
  next
    fix p assume "poster_apply e s = \<lparr>po_settled = True, po_resolved = [p]\<rparr>" "poster_in_time [e] p"
    then show ?thesis by (auto simp: poster_settled_stays intro: poster_in_time_first)
  qed
qed simp

text \<open>C28: Whatever the element does and in whatever order, the promise resolves exactly once, the timer at
  the latest: with no poster, or with a picture that was drawn from a video that has a size before
  the timer fired.\<close>

theorem poster_settles_once:
  assumes "Poster_Timeout \<in> set es"
  shows "\<exists>p. po_resolved (fold poster_apply es open_poster) = [p] \<and> poster_in_time es p"
  using poster_run_settles [OF assms, of open_poster] by (simp add: open_poster_def)

theorem poster_settles_once_witness:
  "\<exists>p. po_resolved (fold poster_apply [Poster_Loaded True, Poster_Seeked 3 2 True (Some ''data:''), Poster_Timeout] open_poster) = [p]
     \<and> poster_in_time [Poster_Loaded True, Poster_Seeked 3 2 True (Some ''data:''), Poster_Timeout] p"
  by (rule poster_settles_once) simp

section \<open>From the owner's card to the heir's page\<close>

definition served_video :: "jstr \<Rightarrow> jstr \<Rightarrow> upload_video_body \<Rightarrow> claim_video_view" where
  "served_video vault owner_xpub u =
     \<lparr>wv_vault_id = vault, wv_ct = uv_ct u, wv_nonce = uv_nonce u, wv_mime = uv_mime u,
      wv_duration_ms = uv_duration_ms u, wv_owner_sig = uv_owner_sig u, wv_sha256 = uv_signed_sha256 u,
      wv_owner_xpub = owner_xpub\<rparr>"

lemma video_save_succeeds:
  assumes "video_save C H nonce vault token N s = (s', calls)" "vc_saved_flash s'" "\<not> vc_saved_flash s"
  obtains clip b xprv u where "vc_clip s = Some clip" "sn_blobs N = Inr b"
    "map_sum Js_Error fst (unseal_blobs C (vc_password s) b) = Inr xprv"
    "video_upload C H nonce xprv (sn_token N) clip = Inr u"
    "sn_upload N (UploadVideo vault token u) = None" "UploadVideo vault token u \<in> set calls" "vc_clip s' = None" "vc_password s' = []"
  using assms
  by (auto simp: video_save_def Let_def video_save_failed_def video_close_def and_then_Inr_iff
      split: option.splits sum.splits if_splits)

text \<open>C13: A save that reports success has sent one upload, which the server took, and keeps neither the clip nor
  the password; when the server serves that upload to the heir under the owner's public key, the heir's page,
  opened with the claim token the clip was locked to, shows exactly the bytes that were recorded, as verified,
  and offers them under the type they were recorded in.\<close>

theorem saved_video_plays:
  assumes "aead_correct C" "hkdf_sized C" "length nonce = 24"
    and save: "video_save C H nonce vault token N s = (s', calls)" "vc_saved_flash s'" "\<not> vc_saved_flash s"
    and clip: "vc_clip s = Some clip" "rc_bytes clip = Inr bs" "rc_mime clip \<noteq> []"
    and claim: "sn_token N = Inr link" "b64decode heir_link = b64decode link"
    and keys: "\<And>xprv sk. hd_from_extended H xprv = Inr sk \<Longrightarrow> \<exists>pk. hd_from_extended H (pub xprv) = Inr pk
        \<and> (\<forall>m. hd_verify H pk m (hd_sign H sk m) = Inr True)"
  shows "vc_clip s' = None \<and> vc_password s' = []
    \<and> (\<exists>u xprv b. UploadVideo vault token u \<in> set calls \<and> sn_upload N (UploadVideo vault token u) = None
         \<and> sn_blobs N = Inr b \<and> map_sum Js_Error fst (unseal_blobs C (vc_password s) b) = Inr xprv
         \<and> heir_video C H can_play heir_link (Inr (served_video vault (pub xprv) u)) =
             Clip_Ready bs (rc_mime clip) True (video_is_playable can_play (rc_mime clip)) None
               (video_download_name (rc_mime clip)))"
proof -
  obtain b xprv u where b: "sn_blobs N = Inr b" "map_sum Js_Error fst (unseal_blobs C (vc_password s) b) = Inr xprv"
    and u: "video_upload C H nonce xprv (sn_token N) clip = Inr u"
    and sent: "sn_upload N (UploadVideo vault token u) = None" "UploadVideo vault token u \<in> set calls"
    and rest: "vc_clip s' = None" "vc_password s' = []"
    using video_save_succeeds [OF save] clip(1) by (metis option.inject)
  obtain raw p where raw: "b64decode link = Inr raw" and p: "prepare_video C H nonce xprv raw bs = Inr p"
    and body: "uv_ct u = pv_ct_b64 p" "uv_nonce u = pv_nonce_b64 p" "uv_owner_sig u = pv_sig_b64 p"
      "uv_signed_sha256 u = pv_sha256_hex p" "uv_mime u = rc_mime clip"
    using u claim(1) clip(2) by (auto simp: video_upload_def and_then_Inr_iff map_sum_Inr_iff)
  obtain sk where sk: "hd_from_extended H xprv = Inr sk"
    using p by (auto simp: prepare_video_def Let_def and_then_Inr_iff)
  obtain pk where pk: "hd_from_extended H (pub xprv) = Inr pk" "\<forall>m. hd_verify H pk m (hd_sign H sk m) = Inr True"
    using keys [OF sk] by blast
  have "decrypt_and_verify_video C H raw (pub xprv) p = Inr (bs, True)"
    using video_round_trip [OF assms(1-3) p sk pk] by blast
  then have "decrypt_and_verify_video C H raw (pub xprv) \<lparr>pv_ct_b64 = uv_ct u, pv_nonce_b64 = uv_nonce u,
      pv_sig_b64 = uv_owner_sig u, pv_sha256_hex = uv_signed_sha256 u\<rparr> = Inr (bs, True)"
    by (cases p) (simp add: body)
  then have "heir_video C H can_play heir_link (Inr (served_video vault (pub xprv) u)) =
      Clip_Ready bs (rc_mime clip) True (video_is_playable can_play (rc_mime clip)) None (video_download_name (rc_mime clip))"
    using raw body(5) clip(3) claim(2) by (simp add: heir_video_def served_video_def or_str_def Let_def)
  then show ?thesis using b sent rest by blast
qed

definition plain_crypto :: crypto where
  "plain_crypto = open_crypto\<lparr>aead_encrypt := \<lambda>k n p. p\<rparr>"

definition sample_clip :: recorded_clip where
  "sample_clip = \<lparr>rc_bytes = Inr [1, 2, 3], rc_mime = ''video/mp4'', rc_duration_ms = 5000\<rparr>"

definition sample_card :: video_card where
  "sample_card = open_video_card\<lparr>vc_open := True, vc_clip := Some sample_clip, vc_password := ''pw''\<rparr>"

definition sample_save :: save_net where
  "sample_save = \<lparr>sn_blobs = Inr sample_blobs_view, sn_token = Inr ''AAAA'', sn_upload = (\<lambda>c. None)\<rparr>"

lemma plain_crypto_laws: "aead_correct plain_crypto" "hkdf_sized plain_crypto"
  using sample_crypto_laws by (simp_all add: plain_crypto_def open_crypto_def aead_correct_def hkdf_sized_def)

lemma plain_blobs_open: "unseal_blobs plain_crypto ''pw'' sample_blobs_view = Inr ([], [])"
proof -
  have "aead_decrypt plain_crypto = aead_decrypt open_crypto" "argon2id plain_crypto = argon2id open_crypto"
    "hkdf_sha256 plain_crypto = hkdf_sha256 open_crypto" "nfkc plain_crypto = nfkc open_crypto"
    "text_decode plain_crypto = text_decode open_crypto"
    by (simp_all add: plain_crypto_def)
  then have "unseal_blobs plain_crypto = unseal_blobs open_crypto"
    unfolding unseal_blobs_def unseal_owner_def derive_owner_kek_def open_with_key_def fun_eq_iff by presburger
  then show ?thesis using sample_blobs_open by simp
qed

lemma sample_save_done:
  "vc_saved_flash (fst (video_save plain_crypto wizard_hdkey (replicate 24 1) ''a'' ''ta'' sample_save sample_card))"
proof -
  have k: "length (derive_claim_kek plain_crypto t) = 32" for t
    by (rule derive_claim_kek_len) (rule plain_crypto_laws)
  have "\<not> isl (b64decode ''AAAA'')" by code_simp
  then obtain raw where raw: "b64decode ''AAAA'' = Inr raw" by (cases "b64decode ''AAAA''") simp_all
  then have "\<exists>u. video_upload plain_crypto wizard_hdkey (replicate 24 1) [] (sn_token sample_save) sample_clip = Inr u"
    using k by (simp add: video_upload_def sample_save_def sample_clip_def prepare_video_def wizard_hdkey_def
        seal_with_key_def kek_len_def Let_def)
  then obtain u where "video_upload plain_crypto wizard_hdkey (replicate 24 1) [] (sn_token sample_save) sample_clip = Inr u"
    by blast
  then show ?thesis
    by (simp add: video_save_def sample_card_def sample_save_def plain_blobs_open video_close_def Let_def)
qed

theorem saved_video_plays_witness:
  "\<exists>u. heir_video plain_crypto wizard_hdkey None ''AAAA'' (Inr (served_video ''a'' [] u)) =
     Clip_Ready [1, 2, 3] ''video/mp4'' True True None (video_download_name ''video/mp4'')"
proof -
  let ?N = "replicate 24 1 :: bytes"
  obtain s' calls where s: "video_save plain_crypto wizard_hdkey ?N ''a'' ''ta'' sample_save sample_card = (s', calls)"
    by fastforce
  then have f: "vc_saved_flash s'" using sample_save_done by simp
  have c: "\<not> vc_saved_flash sample_card" "vc_clip sample_card = Some sample_clip" "rc_bytes sample_clip = Inr [1, 2, 3]"
    "rc_mime sample_clip \<noteq> []" "sn_token sample_save = Inr ''AAAA''" "rc_mime sample_clip = ''video/mp4''"
    by (simp_all add: sample_card_def open_video_card_def sample_clip_def sample_save_def)
  have k: "\<exists>pk. hd_from_extended wizard_hdkey ((\<lambda>x. []) xprv) = Inr pk
      \<and> (\<forall>m. hd_verify wizard_hdkey pk m (hd_sign wizard_hdkey sk m) = Inr True)" for xprv :: jstr and sk
    by (simp add: wizard_hdkey_def)
  from saved_video_plays [OF plain_crypto_laws _ s f c(1-5) refl k, of None] show ?thesis
    by (auto simp: c(6) video_is_playable_def)
qed

end
