(* ===== verification/Small_Pages.thy ===== *)
theory Small_Pages
  imports Kit Owner_Page
begin

text \<open>
  The smaller pages and hooks of ghostkey-web/src: polling (ui.tsx), the assistant's chat (AssistChat.tsx), the
  page of the recovery file (RecoveryKitPage.tsx), the status page (StatusPage.tsx), the navigation bar
  (NavBar.tsx), the choice of language (vocab/index.tsx) and theme (theme.ts), the newsletter form of the landing
  page (Landing.tsx), the beacon of a section in view (useTrackInView.ts) and the debug switch of the error page
  (ErrorBoundary.tsx).
\<close>

section \<open>Polling (ui.tsx)\<close>

record poll =
  pl_interval :: bool
  pl_alive :: bool
  pl_ticks :: nat

definition poll_start :: "poll \<Rightarrow> poll" where
  "poll_start p = p\<lparr>pl_interval := True\<rparr>"

definition poll_stop :: "poll \<Rightarrow> poll" where
  "poll_stop p = p\<lparr>pl_interval := False\<rparr>"

definition poll_tick :: "poll \<Rightarrow> poll" where
  "poll_tick p = (if pl_alive p then p\<lparr>pl_ticks := pl_ticks p + 1\<rparr> else p)"

definition poll_mount :: poll where
  "poll_mount = poll_start \<lparr>pl_interval = False, pl_alive = True, pl_ticks = 0\<rparr>"

definition poll_visibility :: "bool \<Rightarrow> poll \<Rightarrow> poll" where
  "poll_visibility hidden p = (if hidden then poll_stop p else poll_start (poll_tick p))"

definition poll_unmount :: "poll \<Rightarrow> poll" where
  "poll_unmount p = poll_stop (p\<lparr>pl_alive := False\<rparr>)"

datatype poll_event = Poll_Visibility bool | Poll_Interval | Poll_Unmount

fun poll_apply :: "poll_event \<Rightarrow> poll \<Rightarrow> poll" where
  "poll_apply (Poll_Visibility h) p = (if pl_alive p then poll_visibility h p else p)"
| "poll_apply Poll_Interval p = (if pl_interval p then poll_tick p else p)"
| "poll_apply Poll_Unmount p = poll_unmount p"

lemmas poll_defs = poll_start_def poll_stop_def poll_tick_def poll_visibility_def poll_unmount_def

text \<open>While a tab stays hidden, and after the page is left, nothing is polled.\<close>

lemma poll_hidden_rests:
  "list_all (\<lambda>e. e = Poll_Interval \<or> e = Poll_Visibility True \<or> e = Poll_Unmount) es \<Longrightarrow> \<not> pl_interval p \<Longrightarrow>
   pl_ticks (fold poll_apply es p) = pl_ticks p \<and> \<not> pl_interval (fold poll_apply es p)"
proof (induction es arbitrary: p)
  case (Cons e es)
  then have "pl_ticks (poll_apply e p) = pl_ticks p" "\<not> pl_interval (poll_apply e p)"
    by (cases e; simp add: poll_defs)+
  then show ?case using Cons by simp
qed simp

lemma poll_hides: "\<not> pl_interval (poll_apply (Poll_Visibility True) p) \<or> \<not> pl_alive p"
  by (simp add: poll_defs)

text \<open>A page mounted in a hidden tab polls until its visibility changes.\<close>

lemma poll_mounted_hidden: "pl_ticks (fold poll_apply (replicate n Poll_Interval) poll_mount) = n"
proof -
  have "pl_interval p \<Longrightarrow> pl_alive p \<Longrightarrow> pl_ticks (fold poll_apply (replicate n Poll_Interval) p) = pl_ticks p + n" for p
    by (induction n arbitrary: p) (simp_all add: poll_tick_def)
  then show ?thesis by (simp add: poll_mount_def poll_start_def)
qed

section \<open>The assistant's chat (AssistChat.tsx)\<close>

text \<open>\<open>ac_pending\<close> is the request in flight: the messages before it and the text it added.\<close>

record assist_chat =
  ac_open :: bool
  ac_enabled :: "bool option"
  ac_probing :: bool
  ac_messages :: "assist_message list"
  ac_draft :: jstr
  ac_busy :: bool
  ac_error :: "jstr option"
  ac_pending :: "(assist_message list \<times> jstr) option"
  ac_calls :: "call list"

definition closed_chat :: assist_chat where
  "closed_chat = \<lparr>ac_open = False, ac_enabled = None, ac_probing = False, ac_messages = [], ac_draft = [],
     ac_busy = False, ac_error = None, ac_pending = None, ac_calls = []\<rparr>"

definition open_chat :: "assist_chat \<Rightarrow> assist_chat" where
  "open_chat s = (let s1 = s\<lparr>ac_open := True\<rparr>
     in if ac_enabled s = None then s1\<lparr>ac_probing := True, ac_calls := ac_calls s @ [Health]\<rparr> else s1)"

definition close_chat :: "assist_chat \<Rightarrow> assist_chat" where
  "close_chat s = s\<lparr>ac_open := False, ac_probing := False\<rparr>"

definition chat_health :: "(thrown, bool) throws \<Rightarrow> assist_chat \<Rightarrow> assist_chat" where
  "chat_health reply s = s\<lparr>ac_probing := False, ac_enabled := Some (case reply of Inr b \<Rightarrow> b | Inl _ \<Rightarrow> False)\<rparr>"

definition says :: "bool \<Rightarrow> jstr \<Rightarrow> assist_message" where
  "says user text = \<lparr>am_user = user, am_content = text\<rparr>"

definition chat_send :: "assist_chat \<Rightarrow> assist_chat" where
  "chat_send s =
     (let text = js_trim (ac_draft s); next = ac_messages s @ [says True text]
      in if text = [] \<or> ac_busy s then s
         else s\<lparr>ac_error := None, ac_messages := next, ac_draft := [], ac_busy := True,
                ac_pending := Some (ac_messages s, text), ac_calls := ac_calls s @ [AssistChat next]\<rparr>)"

definition chat_answer :: "(thrown, jstr) throws \<Rightarrow> assist_chat \<Rightarrow> assist_chat" where
  "chat_answer reply s =
     (case ac_pending s of
        None \<Rightarrow> s
      | Some (before, text) \<Rightarrow>
          (let s1 = s\<lparr>ac_busy := False, ac_pending := None\<rparr>
           in case reply of
                Inr r \<Rightarrow> s1\<lparr>ac_messages := before @ [says True text, says False r]\<rparr>
              | Inl e \<Rightarrow> s1\<lparr>ac_messages := before, ac_draft := text, ac_error := Some (raw_error_message e)\<rparr>))"

datatype chat_event =
    Chat_Open | Chat_Close | Chat_Health "(thrown, bool) throws" | Chat_Type jstr | Chat_Send | Chat_Answer "(thrown, jstr) throws"

text \<open>The input is disabled while an answer is awaited, and missing on a server without the assistant.\<close>

fun chat_offered :: "chat_event \<Rightarrow> assist_chat \<Rightarrow> bool" where
  "chat_offered Chat_Open s = (\<not> ac_open s)"
| "chat_offered Chat_Close s = ac_open s"
| "chat_offered (Chat_Health r) s = ac_probing s"
| "chat_offered (Chat_Type t) s = (ac_open s \<and> \<not> ac_busy s \<and> ac_enabled s \<noteq> Some False)"
| "chat_offered Chat_Send s = (ac_open s \<and> \<not> ac_busy s \<and> ac_enabled s \<noteq> Some False)"
| "chat_offered (Chat_Answer r) s = (ac_pending s \<noteq> None)"

fun chat_apply :: "chat_event \<Rightarrow> assist_chat \<Rightarrow> assist_chat" where
  "chat_apply Chat_Open s = open_chat s"
| "chat_apply Chat_Close s = close_chat s"
| "chat_apply (Chat_Health r) s = chat_health r s"
| "chat_apply (Chat_Type t) s = s\<lparr>ac_draft := t\<rparr>"
| "chat_apply Chat_Send s = chat_send s"
| "chat_apply (Chat_Answer r) s = chat_answer r s"

inductive chat_reach :: "assist_chat \<Rightarrow> bool" where
  chat_closed: "chat_reach closed_chat"
| chat_step: "chat_reach s \<Longrightarrow> chat_offered e s \<Longrightarrow> chat_reach (chat_apply e s)"

text \<open>User and assistant take turns, and what the user said is never empty.\<close>

fun turns :: "assist_message list \<Rightarrow> bool" where
  "turns [] = True"
| "turns [m] = (am_user m \<and> am_content m \<noteq> [])"
| "turns (m # n # ms) = (am_user m \<and> am_content m \<noteq> [] \<and> \<not> am_user n \<and> turns ms)"

definition finished_turns :: "assist_message list \<Rightarrow> bool" where
  "finished_turns ms = (turns ms \<and> even (length ms))"

lemma turns_add: "finished_turns ms \<Longrightarrow> t \<noteq> [] \<Longrightarrow> turns (ms @ [says True t])"
  unfolding finished_turns_def by (induction ms rule: turns.induct) (auto simp: says_def)

lemma turns_answer: "finished_turns ms \<Longrightarrow> t \<noteq> [] \<Longrightarrow> finished_turns (ms @ [says True t, says False r])"
  unfolding finished_turns_def by (induction ms rule: turns.induct) (auto simp: says_def)

definition question :: "assist_message list \<Rightarrow> bool" where
  "question ms = (\<exists>before t. ms = before @ [says True t] \<and> finished_turns before \<and> t \<noteq> [])"

fun chat_call_ok :: "call \<Rightarrow> bool" where
  "chat_call_ok Health = True"
| "chat_call_ok (AssistChat ms) = question ms"
| "chat_call_ok _ = False"

definition chat_inv :: "assist_chat \<Rightarrow> bool" where
  "chat_inv s = (list_all chat_call_ok (ac_calls s)
     \<and> (case ac_pending s of
          None \<Rightarrow> \<not> ac_busy s \<and> finished_turns (ac_messages s)
        | Some (before, t) \<Rightarrow> ac_busy s \<and> t \<noteq> [] \<and> finished_turns before \<and> ac_messages s = before @ [says True t]))"

lemmas chat_ops = open_chat_def close_chat_def chat_health_def chat_send_def chat_answer_def Let_def

lemma chat_inv_step: "chat_inv s \<Longrightarrow> chat_offered e s \<Longrightarrow> chat_inv (chat_apply e s)"
  by (cases e) (auto simp: chat_inv_def chat_ops question_def turns_answer split: option.splits sum.splits)

lemma chat_inv_reach: "chat_reach s \<Longrightarrow> chat_inv s"
proof (induction rule: chat_reach.induct)
  case chat_closed
  then show ?case by (simp add: chat_inv_def closed_chat_def finished_turns_def)
next
  case chat_step
  then show ?case by (blast intro: chat_inv_step)
qed

text \<open>Whatever fails, the conversation shown takes turns, each request is one finished conversation and a new
  question, and no request names a vault or carries a token.\<close>

lemma chat_takes_turns:
  assumes "chat_reach s"
  shows "turns (ac_messages s) \<and> (\<forall>ms. AssistChat ms \<in> set (ac_calls s) \<longrightarrow> question ms)
    \<and> (\<forall>c \<in> set (ac_calls s). call_token c = None)"
proof -
  have c: "chat_call_ok c \<Longrightarrow> call_token c = None" for c
    by (cases c rule: chat_call_ok.cases) simp_all
  show ?thesis
    using chat_inv_reach [OF assms] c
    by (auto simp: chat_inv_def list_all_iff finished_turns_def turns_add split: option.splits)
qed

section \<open>The recovery file's page (RecoveryKitPage.tsx)\<close>

datatype kit_state = Kit_Idle | Kit_Busy | Kit_Done | Kit_Failed jstr

record kit_page =
  kp_vault :: "vault_view option"
  kp_load_error :: "jstr option"
  kp_state :: kit_state

definition kit_page_load :: "(jstr \<Rightarrow> jstr option \<Rightarrow> (thrown, vault_view) throws) \<Rightarrow> device \<Rightarrow> kit_page" where
  "kit_page_load get_vault d =
     (case get_active_vault_id d of
        Some i \<Rightarrow>
          if i = [] then \<lparr>kp_vault = None, kp_load_error = Some ''none'', kp_state = Kit_Idle\<rparr>
          else (case get_vault i (get_vault_owner_token i d) of
                  Inr v \<Rightarrow> \<lparr>kp_vault = Some v, kp_load_error = None, kp_state = Kit_Idle\<rparr>
                | Inl e \<Rightarrow> \<lparr>kp_vault = None, kp_load_error = Some (string_of_error e), kp_state = Kit_Idle\<rparr>)
      | None \<Rightarrow> \<lparr>kp_vault = None, kp_load_error = Some ''none'', kp_state = Kit_Idle\<rparr>)"

definition kit_failed_text :: "thrown \<Rightarrow> jstr" where
  "kit_failed_text e =
     (if thrown_status e = Some 400
      then ''This vault was made before recovery files existed, so one can'' @ [CHR 0x27] @ ''t be created for it.''
      else raw_error_message e)"

text \<open>The vault's wallet, as the file needs it.\<close>

definition kit_vault_of :: "vault_view \<Rightarrow> kit_vault" where
  "kit_vault_of v = \<lparr>kv_id = vv_id v, kv_label = vv_label v, kv_network = vv_network v,
     kv_timelock_blocks = vv_timelock_blocks v, kv_descriptor_external = vv_descriptor_external v,
     kv_descriptor_internal = vv_descriptor_internal v\<rparr>"

text \<open>\<open>build vault token\<close> is the download: it fails, or it saves a file under a name.\<close>

definition on_download :: "(vault_view \<Rightarrow> jstr \<Rightarrow> (thrown, jstr \<times> jstr) throws) \<Rightarrow> device \<Rightarrow> kit_page
    \<Rightarrow> kit_page \<times> (jstr \<times> jstr) list" where
  "on_download build d p =
     (case kp_vault p of
        None \<Rightarrow> (p, [])
      | Some v \<Rightarrow>
          (case get_vault_owner_token (vv_id v) d of
             Some t \<Rightarrow>
               if t = [] then (p\<lparr>kp_state := Kit_Failed ''Sign in again before downloading your recovery file.''\<rparr>, [])
               else (case build v t of
                       Inr f \<Rightarrow> (p\<lparr>kp_state := Kit_Done\<rparr>, [f])
                     | Inl e \<Rightarrow> (p\<lparr>kp_state := Kit_Failed (kit_failed_text e)\<rparr>, []))
           | None \<Rightarrow> (p\<lparr>kp_state := Kit_Failed ''Sign in again before downloading your recovery file.''\<rparr>, [])))"

text \<open>The page says that the file is saved exactly when one file was.\<close>

lemma download_told_truly:
  assumes "kp_state p \<noteq> Kit_Done" "on_download build d p = (p', files)"
  shows "(kp_state p' = Kit_Done) = (files \<noteq> []) \<and> length files \<le> 1"
  using assms by (auto simp: on_download_def split: option.splits sum.splits if_splits)

section \<open>The status page (StatusPage.tsx)\<close>

datatype light = Checking | Up | Down | Degraded | Off | Unknown

record probe =
  pb_api :: light
  pb_lightning :: light
  pb_lightning_error :: "jstr option"
  pb_assist :: bool
  pb_version :: "jstr option"
  pb_checked_at :: "int option"

definition initial_probe :: probe where
  "initial_probe = \<lparr>pb_api = Checking, pb_lightning = Checking, pb_lightning_error = None, pb_assist = False,
     pb_version = None, pb_checked_at = None\<rparr>"

record status_health =
  sh_assist :: bool
  sh_version :: "jstr option"
  sh_lightning :: bool

definition run_probe :: "(thrown, status_health) throws \<Rightarrow> (thrown, lightning_health) throws \<Rightarrow> int \<Rightarrow> probe" where
  "run_probe health lightning now =
     (case health of
        Inl _ \<Rightarrow> \<lparr>pb_api = Down, pb_lightning = Unknown, pb_lightning_error = None, pb_assist = False,
                 pb_version = None, pb_checked_at = Some now\<rparr>
      | Inr h \<Rightarrow>
          (let p = \<lparr>pb_api = Up, pb_lightning = Off, pb_lightning_error = None, pb_assist = sh_assist h,
                    pb_version = sh_version h, pb_checked_at = Some now\<rparr>
           in if \<not> sh_lightning h then p
              else (case lightning of
                      Inl _ \<Rightarrow> p\<lparr>pb_lightning := Unknown\<rparr>
                    | Inr l \<Rightarrow> if lh_ready l then p\<lparr>pb_lightning := Up\<rparr>
                               else p\<lparr>pb_lightning := Degraded, pb_lightning_error := lh_error l\<rparr>)))"

definition status_heading :: "probe \<Rightarrow> jstr" where
  "status_heading p =
     (if pb_api p = Checking then ''Checking...''
      else if pb_api p = Up \<and> (pb_lightning p = Up \<or> pb_lightning p = Off) then ''Everything is running''
      else if pb_api p = Down then ''GhostKey is having trouble'' else ''Partly degraded'')"

fun light_label :: "light \<Rightarrow> jstr" where
  "light_label Up = ''Up''"
| "light_label Down = ''Down''"
| "light_label Degraded = ''Having trouble''"
| "light_label Off = ''Not enabled''"
| "light_label Unknown = ''Unknown''"
| "light_label Checking = ''Checking...''"

definition status_rows :: "probe \<Rightarrow> (jstr \<times> light) list" where
  "status_rows p = [(''Website'', Up), (''Vault server'', pb_api p), (''Lightning check-ins'', pb_lightning p),
     (''Setup guide (AI chat)'', if pb_api p = Up then (if pb_assist p then Up else Off) else Unknown)]"

text \<open>The heading and the rows agree: everything runs exactly when no row has trouble or is unknown.\<close>

lemma status_heading_truthful:
  "status_heading (run_probe h l now) = ''Everything is running'' \<longleftrightarrow>
     list_all (\<lambda>(name, s). s \<in> {Up, Off}) (status_rows (run_probe h l now))"
  by (auto simp: status_heading_def status_rows_def run_probe_def Let_def split: sum.splits)

section \<open>Navigation, language and theme\<close>

definition nav_items :: "bool \<Rightarrow> (route \<times> jstr) list" where
  "nav_items signed_in =
     (if signed_in then [(R_Dashboard, ''Dashboard''), (R_Tools, ''Tools''), (R_Recovery, ''Recovery kit''), (R_Inherit, ''Inherit'')]
      else [(R_Setup, ''Set up''), (R_Checkin, ''Sign in''), (R_Inherit, ''Inherit'')])"

definition nav_action :: "bool \<Rightarrow> route \<Rightarrow> route option" where
  "nav_action signed_in r =
     (if \<not> signed_in \<and> r \<noteq> R_Setup then Some R_Setup else if signed_in \<and> r \<noteq> R_Dashboard then Some R_Dashboard else None)"

datatype lang = En | Pcm

definition ends_ng :: "jstr \<Rightarrow> bool" where
  "ends_ng l = ends_with (js_lower l) ''-ng''"

definition pick_lang :: "jstr option \<Rightarrow> jstr list \<Rightarrow> lang" where
  "pick_lang stored locales =
     (if stored = Some ''en'' then En else if stored = Some ''pcm'' then Pcm
      else if list_ex ends_ng locales then Pcm else En)"

text \<open>\<open>stored\<close> is the saved choice, \<open>Inl\<close> when the store throws; an empty list of languages falls back to one.\<close>

definition detect_lang :: "(jstr, jstr option) throws \<Rightarrow> jstr list \<Rightarrow> jstr \<Rightarrow> lang" where
  "detect_lang stored languages language =
     pick_lang (case stored of Inr s \<Rightarrow> s | Inl _ \<Rightarrow> None) (if languages = [] then [language] else languages)"

fun lang_code :: "lang \<Rightarrow> jstr" where
  "lang_code En = ''en''"
| "lang_code Pcm = ''pcm''"

text \<open>The language shown is stored at once, so that the next visit shows it, whatever its locales.\<close>

lemma lang_persists: "detect_lang (Inr (Some (lang_code l))) ls x = l"
  by (cases l) (simp_all add: detect_lang_def pick_lang_def)

datatype theme = Dark | Light

definition read_theme :: "jstr option \<Rightarrow> (jstr, jstr option) throws \<Rightarrow> theme" where
  "read_theme attr stored =
     (if attr = Some ''light'' then Light else if attr = Some ''dark'' then Dark
      else (case stored of Inr (Some s) \<Rightarrow> if s = ''light'' then Light else Dark | _ \<Rightarrow> Dark))"

fun toggle_theme :: "theme \<Rightarrow> theme" where
  "toggle_theme Dark = Light"
| "toggle_theme Light = Dark"

section \<open>The newsletter form (Landing.tsx)\<close>

datatype letter_state = Letter_Idle | Letter_Busy | Letter_Done | Letter_Error

record letter =
  lt_email :: jstr
  lt_state :: letter_state
  lt_message :: "jstr option"

definition letter_submit :: "letter \<Rightarrow> letter \<times> call list" where
  "letter_submit s =
     (if lt_state s = Letter_Busy then (s, [])
      else (s\<lparr>lt_state := Letter_Busy, lt_message := None\<rparr>, [SubscribeNewsletter (js_trim (lt_email s)) (Some ''footer'')]))"

definition letter_answer :: "thrown option \<Rightarrow> letter \<Rightarrow> letter" where
  "letter_answer reply s =
     (case reply of
        None \<Rightarrow> s\<lparr>lt_state := Letter_Done, lt_email := []\<rparr>
      | Some e \<Rightarrow> s\<lparr>lt_state := Letter_Error, lt_message := Some
          (if thrown_status e = Some 400 then ''That doesn'' @ [CHR 0x27] @ ''t look like an email. Try again.''
           else ''Something went wrong. Please try again.'')\<rparr>)"

section \<open>Beacons and the debug switch\<close>

text \<open>\<open>useTrackInView\<close>: what the observer reports; \<open>True\<close> is in view. The result is the number of beacons.\<close>

fun beacons :: "bool list list \<Rightarrow> bool \<times> nat \<Rightarrow> bool \<times> nat" where
  "beacons [] s = s"
| "beacons (entries # rest) (fired, n) =
     beacons rest (if fired \<or> \<not> list_ex id entries then (fired, n) else (True, n + 1))"

lemma one_beacon: "snd (beacons rs (False, 0)) \<le> 1"
proof -
  have "snd (beacons rs (True, n)) = n" for rs n by (induction rs) simp_all
  then show ?thesis by (induction rs) (simp_all add: le_Suc_eq)
qed

text \<open>\<open>debugEnabled\<close>: the query's \<open>debug\<close>, and the stored switch or the failure to read it.\<close>

definition debug_enabled :: "jstr option \<Rightarrow> (jstr, jstr option) throws \<Rightarrow> bool" where
  "debug_enabled query stored = (query = Some ''1'' \<or> stored = Inr (Some ''1''))"

text \<open>\<open>ErrorBoundary\<close>: what stands in for a page that threw; the raw error only with the switch.\<close>

record crash_card =
  cc_heading :: jstr
  cc_reload :: bool
  cc_raw :: "jstr option"

definition crash_card_of :: "jstr option \<Rightarrow> (jstr, jstr option) throws \<Rightarrow> jstr option \<Rightarrow> crash_card option" where
  "crash_card_of query stored error =
     map_option (\<lambda>e. \<lparr>cc_heading = ''Something went wrong on this page'', cc_reload = True,
        cc_raw = (if debug_enabled query stored then Some e else None)\<rparr>) error"

end
