(* ===== verification/Funding.thy ===== *)
theory Funding
  imports Owner_Spend Setup_Wizard Money
begin

text \<open>
  Putting money into a vault: the last step of the setup (PasswordSetupPortal.tsx) with its address cards,
  balance lines and the one-time code of the heir's file, and the dashboard's receive card (Dashboard.tsx);
  then the dialog that closes a vault and the banners of App.tsx. Drawing the QR code is the library's:
  \<open>qr_text\<close> is what it is given.
\<close>

section \<open>Addresses\<close>

definition js_upper_char :: "char \<Rightarrow> char" where
  "js_upper_char c = (if CHR ''a'' \<le> c \<and> c \<le> CHR ''z'' then char_of ((of_char c :: nat) - 32) else c)"

text \<open>\<open>toUpperCase\<close> of the ASCII letters, which is all an address has.\<close>

definition qr_text :: "jstr \<Rightarrow> jstr" where
  "qr_text address = map js_upper_char address"

definition short_id :: "jstr \<Rightarrow> jstr" where
  "short_id i = (if length i \<le> 12 then i else take 6 i @ ''...'' @ drop (length i - 4) i)"

definition funding_hint :: "jstr \<Rightarrow> jstr" where
  "funding_hint network =
     (if network = ''bitcoin'' then ''Send from any Bitcoin wallet, any amount.''
      else ''This vault is on the '' @ network @ '' test network. Don'' @ [CHR 0x27] @ ''t send real Bitcoin here.'')"

record fund_card =
  fc_heading :: "(jstr \<times> jstr) option"
  fc_address :: "jstr option"
  fc_qr :: "jstr option"
  fc_hint :: "jstr option"

text \<open>In a group the card has a heading and no hint; without an address it only says so.\<close>

definition fund_address_card :: "jstr \<Rightarrow> jstr option \<Rightarrow> jstr \<Rightarrow> bool \<Rightarrow> jstr \<Rightarrow> fund_card" where
  "fund_address_card heir address vault show_heading network =
     (let known = truthy address
      in \<lparr>fc_heading = (if show_heading then Some (''For '' @ or_str heir ''this heir'', ''vault '' @ short_id vault) else None),
          fc_address = (if known then address else None), fc_qr = (if known then map_option qr_text address else None),
          fc_hint = (if known \<and> \<not> show_heading then Some (funding_hint network) else None)\<rparr>)"

section \<open>The balance under an address\<close>

record balance_line =
  bl_balance :: "balance_view option"
  bl_loading :: bool
  bl_error :: "jstr option"

definition balance_line_begin :: "balance_line \<Rightarrow> balance_line" where
  "balance_line_begin s = s\<lparr>bl_loading := True, bl_error := None\<rparr>"

definition balance_line_done :: "(thrown, balance_view) throws \<Rightarrow> balance_line \<Rightarrow> balance_line" where
  "balance_line_done reply s =
     (case reply of
        Inr b \<Rightarrow> s\<lparr>bl_balance := Some b, bl_loading := False\<rparr>
      | Inl e \<Rightarrow> s\<lparr>bl_error := Some (raw_error_message e), bl_loading := False\<rparr>)"

definition balance_line_texts :: "(int \<Rightarrow> jstr) \<Rightarrow> (rat \<Rightarrow> nat \<Rightarrow> jstr) \<Rightarrow> rat option \<Rightarrow> balance_line \<Rightarrow> jstr list" where
  "balance_line_texts fmt_int to_currency usd s =
     (case bl_balance s of
        None \<Rightarrow> [if bl_loading s then ''...'' else ''-'']
      | Some b \<Rightarrow> [fmt_int (bv_total_sat b) @ '' sat'']
          @ (if bv_total_sat b > 0 then [btc_and_usd to_currency (bv_total_sat b) usd] else [])
          @ (if bv_unconfirmed_sat b > 0 then [''('' @ fmt_int (bv_unconfirmed_sat b) @ '' pending)''] else []))"

section \<open>The funding step\<close>

record envelope_card =
  ek_heading :: "jstr option"
  ek_code :: jstr

record fund_step =
  fs_cards :: "fund_card list"
  fs_group :: bool
  fs_id_note :: "jstr option"
  fs_envelopes :: "envelope_card list"

definition step_fund :: "(heir_envelope \<Rightarrow> jstr) \<Rightarrow> created_entry list \<Rightarrow> jstr \<Rightarrow> fund_step" where
  "step_fund code_of created network =
     (let group = length created > 1
      in \<lparr>fs_cards = map (\<lambda>v. fund_address_card (ce_heir_name v) (ce_address v) (ce_vault_id v) group network) created,
          fs_group = group,
          fs_id_note = (if group then None else Some (short_id (case created of v # _ \<Rightarrow> ce_vault_id v | [] \<Rightarrow> []))),
          fs_envelopes = map (\<lambda>v. \<lparr>ek_heading = (if group then Some (''For '' @ or_str (ce_heir_name v) ''your heir'') else None),
                                  ek_code = code_of (the (ce_envelope v))\<rparr>)
                           (filter (\<lambda>v. ce_envelope v \<noteq> None) created)\<rparr>)"

text \<open>The code's buttons: a copy the browser refuses changes nothing.\<close>

record envelope_buttons =
  eb_copied :: bool
  eb_downloaded :: bool

definition copy_code :: "bool \<Rightarrow> envelope_buttons \<Rightarrow> envelope_buttons" where
  "copy_code clipboard_ok b = (if clipboard_ok then b\<lparr>eb_copied := True\<rparr> else b)"

definition download_envelope :: "envelope_buttons \<Rightarrow> envelope_buttons" where
  "download_envelope b = b\<lparr>eb_downloaded := True\<rparr>"

lemma upper_lower: "\<not> (CHR ''A'' \<le> c \<and> c \<le> CHR ''Z'') \<Longrightarrow> (of_char c :: nat) < 128 \<Longrightarrow> js_lower_char (js_upper_char c) = c"
proof -
  assume n: "\<not> (CHR ''A'' \<le> c \<and> c \<le> CHR ''Z'')" "(of_char c :: nat) < 128"
  let ?n = "of_char c :: nat"
  show ?thesis
  proof (cases "CHR ''a'' \<le> c \<and> c \<le> CHR ''z''")
    case True
    then have r: "97 \<le> ?n" "?n \<le> 122" by (auto simp: less_eq_char_def)
    then have "of_char (char_of (?n - 32) :: char) = ?n - 32" by simp
    moreover have "char_of (?n - 32 + 32) = c" using r by simp
    moreover have "65 \<le> ?n - 32" "?n - 32 \<le> 90" using r by simp_all
    ultimately show ?thesis using True r
      by (simp add: js_upper_char_def js_lower_char_def less_eq_char_def)
  next
    case False
    then show ?thesis using n by (auto simp: js_upper_char_def js_lower_char_def less_eq_char_def)
  qed
qed

text \<open>A lower-case address survives the upper-case QR code: read in lower case it is the address again.\<close>

lemma qr_reads_back:
  assumes "list_all (\<lambda>c. \<not> (CHR ''A'' \<le> c \<and> c \<le> CHR ''Z'') \<and> (of_char c :: nat) < 128) address"
  shows "js_lower (qr_text address) = address"
  using assms by (induction address) (simp_all add: qr_text_def js_lower_def upper_lower)

text \<open>The page has one card per vault and one code per vault with a file, in order; a single vault on a test
  network says so, the vaults of a group do not.\<close>

lemma step_fund_complete:
  "length (fs_cards (step_fund code_of created network)) = length created
   \<and> map ek_code (fs_envelopes (step_fund code_of created network)) =
       map (\<lambda>v. code_of (the (ce_envelope v))) (filter (\<lambda>v. ce_envelope v \<noteq> None) created)"
  by (simp add: step_fund_def Let_def)

lemma group_shows_no_hint:
  "1 < length created \<Longrightarrow> list_all (\<lambda>c. fc_hint c = None) (fs_cards (step_fund code_of created network))"
  by (simp add: step_fund_def fund_address_card_def Let_def list_all_iff)

section \<open>The receive card (Dashboard.tsx)\<close>

record address_view =
  aw_vault_id :: jstr
  aw_network :: jstr
  aw_address :: jstr

record receive_card =
  rv_expanded :: bool
  rv_view :: "address_view option"
  rv_loading :: bool
  rv_error :: "jstr option"

definition open_receive :: receive_card where
  "open_receive = \<lparr>rv_expanded = False, rv_view = None, rv_loading = False, rv_error = None\<rparr>"

definition receive_expand :: "jstr \<Rightarrow> receive_card \<Rightarrow> receive_card \<times> call list" where
  "receive_expand vault s =
     (let s1 = s\<lparr>rv_expanded := True\<rparr>
      in if rv_view s \<noteq> None then (s1, []) else (s1\<lparr>rv_loading := True, rv_error := None\<rparr>, [GetVaultAddress vault]))"

definition receive_answer :: "(thrown, address_view) throws \<Rightarrow> receive_card \<Rightarrow> receive_card" where
  "receive_answer reply s =
     (case reply of
        Inr v \<Rightarrow> s\<lparr>rv_view := Some v, rv_loading := False\<rparr>
      | Inl e \<Rightarrow> s\<lparr>rv_error := Some (raw_error_message e), rv_loading := False\<rparr>)"

text \<open>The button is shown until the first tap; a failed load leaves no button to try again.\<close>

definition receive_button :: "receive_card \<Rightarrow> bool" where
  "receive_button s = (\<not> rv_expanded s)"

definition receive_note :: "receive_card \<Rightarrow> jstr option" where
  "receive_note s =
     (case rv_view s of
        Some v \<Rightarrow> if rv_expanded s \<and> \<not> rv_loading s \<and> aw_network v \<noteq> ''bitcoin''
                  then Some (''This vault is on '' @ aw_network v @ ''. Only send '' @ aw_network v @ '' coins here.'') else None
      | None \<Rightarrow> None)"

lemma failed_address_stays:
  "\<not> receive_button (receive_answer (Inl e) (fst (receive_expand vault open_receive)))
   \<and> rv_view (receive_answer (Inl e) (fst (receive_expand vault open_receive))) = None"
  by (simp add: receive_button_def receive_answer_def receive_expand_def open_receive_def)

section \<open>Closing a vault\<close>

definition close_confirm_enabled :: "bool \<Rightarrow> bool \<Rightarrow> bool" where
  "close_confirm_enabled understood busy = (understood \<and> \<not> busy)"

definition close_dialog_texts :: "nat \<Rightarrow> bool \<Rightarrow> jstr" where
  "close_dialog_texts shares all_claimed =
     ''All '' @ show_nat shares @ '' '' @ (if shares = 1 then ''share'' else ''shares'') @ '' in this vault are deleted.''
     @ (if all_claimed then '' Those claims are already done, so nobody loses anything they were waiting for.''
        else '' Your heirs can no longer claim through GhostKey.'')"

section \<open>Banners (App.tsx)\<close>

definition alpha_banner :: "jstr \<Rightarrow> jstr" where
  "alpha_banner network =
     (if network = ''bitcoin''
      then ''You'' @ [CHR 0x27] @ ''re on the live Bitcoin network. Your funds are real.''
      else ''Alpha: GhostKey is running on Bitcoin '' @ network @ ''. Don'' @ [CHR 0x27] @ ''t use real-money keys yet.'')"

end
