(* ===== verification/Spec2Isabelle.thy ===== *)
theory Spec2Isabelle
  imports Vault_Store Store_Cells Lock_Steps Address Timing Calendar Clock Kdf_Worker Heir_Key Kit Gates Money Api App_Shell Sign_In
    Claim_Flow Claim_Page Claim_Screens Wizard_Correct Server_Auth Owner_Page Owner_Spend Push Lightning Add_Heir Checkin_Portal
    Legacy_Setup Vault_Tools Video_Message Small_Pages Funding
begin

text \<open>
  GhostKey's web client, ghostkey-web/src: a development of its models and of what makes it correct.
  File names below are relative to that directory.

  \<^bold>\<open>The program\<close>

  GhostKey passes bitcoin on to heirs. An owner sets a vault up in the browser; while the owner checks
  in nothing happens; when the check-ins stop, the heir receives a link and claims the coins. All keys
  are made and unsealed in the browser. The server stores ciphertexts and hashed tokens, and sends
  messages. The client has these parts:

  \<^item> the device: localStorage and sessionStorage behind vaultStore.ts. A vault's bearer token is usable
    while it lies in the session's live-token object; locking replaces it by a ciphertext under the owner's
    password;
  \<^item> the cryptographic layer: crypto/sealing.ts, keygen.ts, heirKey.ts, video.ts and the Argon2 worker;
  \<^item> the setup wizard (PasswordSetupPortal.tsx), which mints the keys, seals them, sends one creation
    request for each heir, and files the vaults on the device under one group; SetupPortal.tsx is the wizard
    of the first version, for owners who bring their own wallet, and AddHeirPortal.tsx adds an heir later;
  \<^item> the shell (App.tsx), which routes by the URL hash and locks the device after ten minutes without
    activity, and the sign-in portal (SignInPortal.tsx), which unlocks or restores the vaults;
  \<^item> the owner's pages: Dashboard.tsx, ActivityPage.tsx, CheckinPortal.tsx, VaultToolPages.tsx, the Lightning
    check-in, push reminders, the video message, the recovery file;
  \<^item> the heir's pages: InheritPortal.tsx and ClaimPage.tsx, which turn a claim token into a claim;
  \<^item> the recovery kit (independenceProof.ts writes it, kit/main.ts opens it offline, kit/spend.ts spends from
    it), which works without the server.

  Every part talks to the server through api.ts only.

  \<^bold>\<open>Theories and the code they model\<close>

  Foundations. \<open>GK_Prelude\<close>: JavaScript strings and their methods, truthiness, results that are a
  thrown error or a value, and the collections of simplification rules. \<open>Js_Object\<close>: plain objects as
  insertion-ordered association lists, with the interface \<open>dictionary\<close> and its interpretation, and the
  two storage areas. \<open>Js_Regex\<close>: regular expressions by derivatives. \<open>Json\<close>: JSON.stringify and
  JSON.parse. \<open>Base64\<close>: btoa, atob and the codec of crypto/sealing.ts. \<open>Sealed_Types\<close>: the shapes they share.

  Device. \<open>Vault_Store\<close>: every function of vaultStore.ts on the record \<open>device\<close>, with the
  interface \<open>credential_store\<close> and its interpretation. \<open>Store_Cells\<close>: the abstract store, one cell for
  each vault, and the simulation: \<open>cells (apply_event e d) = cell_step e (cells d)\<close>.

  Cryptography. \<open>Sealing\<close>: sealing.ts and video.ts over the record \<open>crypto\<close>. \<open>Kdf_Worker\<close>: the
  worker protocol as a step relation with messages in flight and crashes. \<open>Heir_Key\<close>: keygen.ts,
  heirKey.ts, and the part of the server (crates/ghostkey-core/src/keys.rs) they must agree with.

  Values and checks. \<open>Address\<close>: address.ts. \<open>Timing\<close>: timing.ts, the wizard's terms and the server's floors, with
  the interface \<open>preset_list\<close>. \<open>Calendar\<close>: unlockHeight.ts. \<open>Clock\<close>: time.ts and checkin.ts. \<open>Money\<close>: fiat.ts.
  \<open>Gates\<close>: passwordStrength.ts, setupGates.ts, heirChannels.ts. \<open>Claim_Errors\<close>: claimErrors.ts,
  unlockErrors.ts. \<open>Api\<close>: api.ts, one constructor of \<open>call\<close> for each endpoint, the request on the wire, the reading of
  a reply.

  Pages. \<open>App_Shell\<close>: App.tsx. \<open>Lock_Steps\<close>: its inactivity lock as a step relation, with an equivalence between the
  undisturbed steps and the single pass of \<open>App_Shell\<close>. \<open>Sign_In\<close>: SignInPortal.tsx. \<open>Setup_Wizard\<close> and \<open>Wizard_Correct\<close>:
  PasswordSetupPortal.tsx and its guarantees. \<open>Legacy_Setup\<close>: SetupPortal.tsx and useChannelCapability.ts.
  \<open>Add_Heir\<close>: AddHeirPortal.tsx. \<open>Owner_Views\<close>, \<open>Owner_Home\<close>, \<open>Owner_Page\<close>, \<open>Owner_Spend\<close>: Dashboard.tsx (what
  is derived from the server's views; the handlers; what each state shows; the money) with
  ActivityPage.tsx. \<open>Funding\<close>: the funding step of the wizard, the receive card, the closing dialog, the
  banners. \<open>Lightning\<close>: LightningCheckin.tsx, OneTapCheckinPage.tsx, VerifyEmailPage.tsx.
  \<open>Server_Auth\<close>: the server's check of an owner's token (crates/ghostkey-server/src/auth.rs) and what the dashboard makes of
  its refusals. \<open>Push\<close>: push.ts, useActiveVault.ts, toolStatus.ts. \<open>Checkin_Portal\<close>: CheckinPortal.tsx. \<open>Vault_Tools\<close>: VaultToolPages.tsx,
  PracticeClaimCard.tsx. \<open>Video_Message\<close>: VideoMessageRecorder.tsx, VideoMessageCard.tsx,
  HeirVideoMessage.tsx, videoPoster.ts. \<open>Claim_Flow\<close>: ClaimPage.tsx and InheritPortal.tsx.
  \<open>Claim_Page\<close>: its requests in time, the resolution of the link and the lookups of the maturity gate.
  \<open>Claim_Screens\<close>: the forms of ClaimPage.tsx with ConfirmSend.tsx, over the interface \<open>claim_form\<close>,
  interpreted on the three forms that send one claim. \<open>Small_Pages\<close>: usePolling of ui.tsx, AssistChat.tsx,
  RecoveryKitPage.tsx, StatusPage.tsx, NavBar.tsx, vocab/index.tsx, theme.ts, the newsletter form of
  Landing.tsx, useTrackInView.ts, ErrorBoundary.tsx.

  Recovery kit. \<open>Explorer\<close> and \<open>Spend_Panel\<close>: kit/spend.ts. \<open>Kit\<close>: independenceProof.ts, kit/main.ts, kit/dom.ts.

  \<^bold>\<open>How code is translated\<close>

  \<^item> A component's state is a record with the fields of its hooks; a handler is a function on it. A
    request the handler sends is a value of \<open>call\<close>, appended to a log or returned, so that a statement can be about
    what leaves the page.
  \<^item> What throws returns \<open>Inl\<close> of a \<open>thrown\<close>: an Error with a message, or the client's ApiError with
    status, body and message.
  \<^item> Server answers, the clock, random draws and rendered dates are arguments. A statement without a
    hypothesis on them holds for whatever they are.
  \<^item> An \<open>await\<close> is part of its handler's one pass, unless a request and its answer are separate steps:
    that is so in \<open>Kdf_Worker\<close>, \<open>Lock_Steps\<close>, \<open>Claim_Page\<close>, \<open>Checkin_Portal\<close>, \<open>Vault_Tools\<close>, the recorder of \<open>Video_Message\<close>, the chat
    of \<open>Small_Pages\<close>, \<open>Claim_Screens\<close>, and the receive card of \<open>Funding\<close>. There an event has a guard
    (\<open>portal_offered\<close>, \<open>contact_offered\<close>, \<open>screen_offered\<close>) that says when the page offers it or when an
    answer can arrive, and the reachable states are an inductive closure.
  \<^item> Strings are lists of Latin-1 code units. Typographic characters of texts shown to a reader are
    transcribed to ASCII (quotes, dashes, dots, the separator of amounts); no text that is compared or sent to the
    server contains one.
  \<^item> JSON numbers are the integers, which are the only numbers the program writes, except the fee rate and the
    duration of a clip, which are rounded or kept as rationals before they are written.
  \<^item> Packages that are not in the repository (the ciphers, hashes and key derivations of @noble and
    @scure, BIP32, zxcvbn, the wasm signer, Unicode normalisation, the browser's formats and the collation of
    localeCompare) are arguments. What the code relies on of them is a named hypothesis: \<open>aead_correct\<close>
    and its companions in \<open>Sealing\<close>; each property that has one is applied to a concrete instance
    (\<open>sample_crypto\<close>) in its witness.

  \<^bold>\<open>Bounds and fuel\<close>

  The JSON parser takes fuel; twice the length of the text and two more is always enough, which is proved with
  the round trip. The scan of a keychain stops at the gap limit of the source, twenty, over the list of
  addresses it is given. The unlock year is proved exact from 2026 to 11000. The polling of an invoice ends after
  thirty requests. A poster settles at its timer. Every other loop is a recursion over a list.

  \<^bold>\<open>What the groups of lemmas show\<close>

  \<^item> Keys come back: what setup seals is recovered with the password and with the claim token, by the heir's
    page, by both recovery files, by the sign-in link, by the video message (\<open>Sealing\<close>, \<open>Kit\<close>,
    \<open>Claim_Flow\<close>, \<open>Sign_In\<close>, \<open>Video_Message\<close>).
  \<^item> Tokens stay where they belong: none in clear at rest once the lock is validated, only in the
    authorization header on the wire, only in requests about their own vault, only those the session had or the
    password decrypted (\<open>Vault_Store\<close>, \<open>Api\<close>, \<open>Owner_Home\<close>, \<open>Sign_In\<close>, \<open>Checkin_Portal\<close>).
  \<^item> Setups can be claimed: every creation request of either wizard passes the checks, names the people of the
    draft and leaves the device with a lock the password opens (\<open>Wizard_Correct\<close>, \<open>Legacy_Setup\<close>, \<open>Add_Heir\<close>).
  \<^item> Coins go where the reader looked: claims and payments carry the address and the fee that were reviewed, of
    the vault's network (\<open>Claim_Flow\<close>, \<open>Claim_Screens\<close>, \<open>Owner_Spend\<close>).
  \<^item> Protocols under any interleaving: the Argon2 worker, the inactivity lock (no credential is lost), the check-in portal, the contact editor, the recorder
    and its camera, the polling timers.
  \<^item> Pure functions against references: regular expressions against their languages, the calendar, the
    browser's key derivation against the server's, the presets against the server's floors.
  \<^item> What the code does not do: a parent that renders every second keeps the Lightning modal from ever
    polling, the retry after a partial closing is blocked, a share
    the server no longer has is never cleared away, links with a slash in the token are refused by
    the two-link form, the inactivity lock waits for a server that does not answer, and a late answer locks a new session,
    a late refresh replaces a lookup in the check-in portal, a late answer for one claim link the page of another, a second click on Record leaves
    a camera running.

  \<^bold>\<open>Not modelled\<close>

  Markup, style classes, scroll positions, focus and the progress bars, of every page; the texts of vocab/en.ts and
  vocab/pcm.ts, which reach the models as arguments or as names of entries; Legal.tsx, RecoveryGuide.tsx and
  the rest of Landing.tsx, which are prose; the buttons, fields and marks of ui.tsx and Brand.tsx; main.tsx, which
  mounts the application; kit/signer.ts and kit/wasm, which are the generated glue of a Rust library whose
  code is an argument here; the service worker of public, the build configuration, the scripts and the browser
  tests; the server, the command line and the core library in crates, of which only the checks that the client
  mirrors are modelled. Overwriting key bytes with zeros after use has no effect on a value and is left out, and
  so are the figures of the progress reports.
\<close>

end
